(* ===== verification/Canon_Prelude.thy ===== *)
theory Canon_Prelude
  imports Complex_Main "HOL-Library.AList"
begin

text \<open>
  Shared vocabulary of the development: Python values, exceptions and classes, ordered
  dictionaries (association lists with distinct keys, updated in place as a Python dict is),
  first-occurrence deduplication (\<open>dict.fromkeys\<close>), the result type of code that may
  raise, and the string operations the program uses.

  A Python \<open>str\<close> is its UTF-8 encoding: a literal \<open>''abc''\<close> is the ASCII text, a
  code point above 127 is several \<open>char\<close>s, and \<open>length\<close> is
  \<open>len(s.encode())\<close>. Character classes and case mappings are the ASCII ones.
\<close>

named_theorems result_simps \<open>unfolding rules of the result type\<close>
named_theorems dict_simps \<open>rules of ordered dictionaries and deduplication\<close>
named_theorems str_simps \<open>rules of the string operations\<close>

section \<open>Results of code that may raise\<close>

type_synonym ('e, 'a) result = "'e + 'a"

definition rbind :: "('e, 'a) result \<Rightarrow> ('a \<Rightarrow> ('e, 'b) result) \<Rightarrow> ('e, 'b) result" where
  "rbind m f = (case m of Inl e \<Rightarrow> Inl e | Inr x \<Rightarrow> f x)"

lemma rbind_Inl [simp, result_simps]: "rbind (Inl e) f = Inl e"
  by (simp add: rbind_def)

lemma rbind_Inr [simp, result_simps]: "rbind (Inr x) f = f x"
  by (simp add: rbind_def)

lemma rbind_eq_Inr [simp]: "rbind m f = Inr y \<longleftrightarrow> (\<exists>x. m = Inr x \<and> f x = Inr y)"
  by (cases m) auto

lemma rbind_pair_eq_Inr:
  "rbind m (\<lambda>(x, y). f x y) = Inr z \<longleftrightarrow> (\<exists>x y. m = Inr (x, y) \<and> f x y = Inr z)"
  by (cases m) auto

lemma rbind_eq_Inl: "rbind m f = Inl e \<longleftrightarrow> m = Inl e \<or> (\<exists>x. m = Inr x \<and> f x = Inl e)"
  by (cases m) auto

definition ensure :: "bool \<Rightarrow> 'e \<Rightarrow> ('e, unit) result" where
  "ensure b e = (if b then Inr () else Inl e)"

lemma ensure_eq_Inr [simp]: "ensure b e = Inr u \<longleftrightarrow> b"
  by (simp add: ensure_def)

lemma ensure_eq_Inl [simp]: "ensure b e = Inl e' \<longleftrightarrow> \<not> b \<and> e' = e"
  by (auto simp: ensure_def)

definition succeeds :: "('e, 'a) result \<Rightarrow> bool" where
  "succeeds m = (case m of Inl _ \<Rightarrow> False | Inr _ \<Rightarrow> True)"

lemma succeeds_simps [simp, result_simps]:
  "\<not> succeeds (Inl e)" "succeeds (Inr x)"
  by (simp_all add: succeeds_def)

lemma succeeds_iff: "succeeds m \<longleftrightarrow> (\<exists>x. m = Inr x)"
  by (cases m) auto

text \<open>A loop that stops at the first exception, collecting the values.\<close>

fun rmap :: "('a \<Rightarrow> ('e, 'b) result) \<Rightarrow> 'a list \<Rightarrow> ('e, 'b list) result" where
  "rmap f [] = Inr []"
| "rmap f (x # xs) = rbind (f x) (\<lambda>y. rbind (rmap f xs) (\<lambda>ys. Inr (y # ys)))"

lemma rmap_Inr_iff:
  "rmap f xs = Inr ys \<longleftrightarrow> list_all2 (\<lambda>x y. f x = Inr y) xs ys"
  by (induction xs arbitrary: ys) (auto simp: list_all2_Cons1)

lemma rmap_Inr_mem: "rmap f xs = Inr ys \<Longrightarrow> y \<in> set ys \<Longrightarrow> \<exists>x\<in>set xs. f x = Inr y"
  by (induction xs arbitrary: ys) auto

lemma rmap_cong [fundef_cong]:
  "xs = ys \<Longrightarrow> (\<And>x. x \<in> set ys \<Longrightarrow> f x = g x) \<Longrightarrow> rmap f xs = rmap g ys"
  by (induction ys arbitrary: xs) auto

text \<open>A loop over a state that stops at the first exception.\<close>

fun rfold :: "('a \<Rightarrow> 's \<Rightarrow> ('e, 's) result) \<Rightarrow> 'a list \<Rightarrow> 's \<Rightarrow> ('e, 's) result" where
  "rfold f [] s = Inr s"
| "rfold f (x # xs) s = rbind (f x s) (rfold f xs)"

lemma rfold_invariant:
  assumes "rfold f xs s = Inr s'" and "P s"
    and "\<And>x s s'. x \<in> set xs \<Longrightarrow> P s \<Longrightarrow> f x s = Inr s' \<Longrightarrow> P s'"
  shows "P s'"
  using assms by (induction xs arbitrary: s) auto

lemma rfold_append: "rfold f (xs @ ys) s = rbind (rfold f xs s) (rfold f ys)"
proof (induction xs arbitrary: s)
  case (Cons x xs)
  then show ?case by (cases "f x s") auto
qed simp

section \<open>Ordered dictionaries\<close>

text \<open>
  A Python dict is an association list with distinct keys; \<open>AList.update\<close> replaces the
  value of a present key in place and appends an absent one, as \<open>d[k] = v\<close> does.
\<close>

abbreviation dict_set :: "'k \<Rightarrow> 'v \<Rightarrow> ('k \<times> 'v) list \<Rightarrow> ('k \<times> 'v) list" where
  "dict_set \<equiv> AList.update"

abbreviation dict_get :: "('k \<times> 'v) list \<Rightarrow> 'k \<Rightarrow> 'v option" where
  "dict_get \<equiv> map_of"

definition dict_keys :: "('k \<times> 'v) list \<Rightarrow> 'k list" where
  "dict_keys d = map fst d"

definition dict_values :: "('k \<times> 'v) list \<Rightarrow> 'v list" where
  "dict_values d = map snd d"

definition dict_pop :: "'k \<Rightarrow> ('k \<times> 'v) list \<Rightarrow> ('k \<times> 'v) list" where
  "dict_pop k d = filter (\<lambda>p. fst p \<noteq> k) d"

definition wf_dict :: "('k \<times> 'v) list \<Rightarrow> bool" where
  "wf_dict d = distinct (map fst d)"

lemma wf_dict_Nil [simp, intro]: "wf_dict []"
  by (simp add: wf_dict_def)

lemma wf_dict_set [simp, intro]: "wf_dict d \<Longrightarrow> wf_dict (dict_set k v d)"
  by (simp add: wf_dict_def distinct_update)

lemma wf_dict_pop [simp, intro]: "wf_dict d \<Longrightarrow> wf_dict (dict_pop k d)"
  by (simp add: wf_dict_def dict_pop_def distinct_map_filter)

lemma dict_get_set [dict_simps]: "dict_get (dict_set k v d) = (dict_get d)(k \<mapsto> v)"
  by (rule update_conv')

lemma dict_get_pop [dict_simps]: "dict_get (dict_pop k d) j = (if j = k then None else dict_get d j)"
  unfolding dict_pop_def by (induction d) auto

lemma keys_dict_set [dict_simps]: "fst ` set (dict_set k v d) = insert k (fst ` set d)"
  by (induction d) auto

lemma keys_dict_pop [dict_simps]: "fst ` set (dict_pop k d) = fst ` set d - {k}"
  by (auto simp: dict_pop_def image_iff)

lemma dict_set_fresh: "k \<notin> fst ` set d \<Longrightarrow> dict_set k v d = d @ [(k, v)]"
  by (induction d) auto

lemma set_dict_set: "wf_dict d \<Longrightarrow> set (dict_set k v d) = insert (k, v) {p \<in> set d. fst p \<noteq> k}"
  by (induction d) (auto simp: wf_dict_def image_iff)

lemma map_fst_dict_set:
  "map fst (dict_set k v d) = (if k \<in> fst ` set d then map fst d else map fst d @ [k])"
  by (induction d) auto

lemma dict_get_in: "wf_dict d \<Longrightarrow> dict_get d k = Some v \<longleftrightarrow> (k, v) \<in> set d"
  by (simp add: wf_dict_def)

lemma length_dict_pop:
  "wf_dict d \<Longrightarrow> dict_get d k = Some v \<Longrightarrow> Suc (length (dict_pop k d)) = length d"
proof (induction d)
  case (Cons p d)
  show ?case
  proof (cases "fst p = k")
    case True
    with Cons.prems have "k \<notin> fst ` set d" by (auto simp: wf_dict_def)
    then have "dict_pop k d = d" by (auto simp: dict_pop_def filter_id_conv)
    with True show ?thesis by (simp add: dict_pop_def)
  next
    case False
    with Cons show ?thesis by (auto simp: wf_dict_def dict_pop_def split: if_splits)
  qed
qed simp

lemma dict_pop_absent [simp]: "k \<notin> fst ` set d \<Longrightarrow> dict_pop k d = d"
  by (auto simp: dict_pop_def filter_id_conv)

section \<open>First-occurrence deduplication\<close>

text \<open>\<open>dict.fromkeys\<close> and the loops with a \<open>seen\<close> set keep the first occurrence.\<close>

fun uniq_from :: "'a list \<Rightarrow> 'a list \<Rightarrow> 'a list" where
  "uniq_from seen [] = []"
| "uniq_from seen (x # xs) =
     (if x \<in> set seen then uniq_from seen xs else x # uniq_from (x # seen) xs)"

abbreviation fromkeys :: "'a list \<Rightarrow> 'a list" where
  "fromkeys \<equiv> uniq_from []"

lemma set_uniq_from [simp, dict_simps]: "set (uniq_from seen xs) = set xs - set seen"
  by (induction seen xs rule: uniq_from.induct) auto

lemma distinct_uniq_from [simp, intro]: "distinct (uniq_from seen xs)"
  by (induction seen xs rule: uniq_from.induct) auto

lemma uniq_from_id: "distinct xs \<Longrightarrow> set xs \<inter> set seen = {} \<Longrightarrow> uniq_from seen xs = xs"
  by (induction seen xs rule: uniq_from.induct) auto

lemma fromkeys_id [simp]: "distinct xs \<Longrightarrow> fromkeys xs = xs"
  by (simp add: uniq_from_id)

lemma uniq_from_cong: "set s = set t \<Longrightarrow> uniq_from s xs = uniq_from t xs"
proof (induction s xs arbitrary: t rule: uniq_from.induct)
  case (2 seen x xs)
  show ?case
  proof (cases "x \<in> set seen")
    case True
    with 2 show ?thesis by simp
  next
    case False
    then have "x \<notin> set t" using "2.prems" by simp
    moreover have "uniq_from (x # seen) xs = uniq_from (x # t) xs"
      using "2.IH"(2) [OF False, of "x # t"] "2.prems" by simp
    ultimately show ?thesis using False by simp
  qed
qed simp

lemma uniq_from_append:
  "uniq_from seen (xs @ ys) = uniq_from seen xs @ uniq_from (xs @ seen) ys"
proof (induction seen xs rule: uniq_from.induct)
  case (2 seen x xs)
  show ?case
  proof (cases "x \<in> set seen")
    case True
    have "uniq_from (x # xs @ seen) ys = uniq_from (xs @ seen) ys"
      by (rule uniq_from_cong) (use True in auto)
    with True 2 show ?thesis by simp
  next
    case False
    have "uniq_from (xs @ x # seen) ys = uniq_from (x # xs @ seen) ys"
      by (rule uniq_from_cong) auto
    with False 2 show ?thesis by simp
  qed
qed simp

lemma uniq_from_subset: "set xs \<subseteq> set seen \<Longrightarrow> uniq_from seen xs = []"
  by (induction seen xs rule: uniq_from.induct) auto

lemma length_uniq_from: "length (uniq_from seen xs) \<le> length xs"
  by (induction seen xs rule: uniq_from.induct) auto

section \<open>Strings\<close>

definition ord_of :: "char \<Rightarrow> nat" where
  "ord_of c = of_char c"

definition is_space :: "char \<Rightarrow> bool" where
  "is_space c = (let n = ord_of c in (9 \<le> n \<and> n \<le> 13) \<or> (28 \<le> n \<and> n \<le> 32))"

definition is_lower :: "char \<Rightarrow> bool" where
  "is_lower c = (let n = ord_of c in 97 \<le> n \<and> n \<le> 122)"

definition is_upper :: "char \<Rightarrow> bool" where
  "is_upper c = (let n = ord_of c in 65 \<le> n \<and> n \<le> 90)"

definition is_digit :: "char \<Rightarrow> bool" where
  "is_digit c = (let n = ord_of c in 48 \<le> n \<and> n \<le> 57)"

definition is_alpha :: "char \<Rightarrow> bool" where
  "is_alpha c = (is_lower c \<or> is_upper c)"

definition lower_char :: "char \<Rightarrow> char" where
  "lower_char c = (if is_upper c then char_of (ord_of c + 32) else c)"

definition upper_char :: "char \<Rightarrow> char" where
  "upper_char c = (if is_lower c then char_of (ord_of c - 32) else c)"

definition str_lower :: "string \<Rightarrow> string" where
  "str_lower s = map lower_char s"

definition blank :: "string \<Rightarrow> bool" where
  \<comment> \<open>\<open>not s.strip()\<close>\<close>
  "blank s = list_all is_space s"

definition single_line :: "string \<Rightarrow> bool" where
  \<comment> \<open>no carriage return and no line feed\<close>
  "single_line s = (CHR 0x0D \<notin> set s \<and> CHR 0x0A \<notin> set s)"

fun capitalize :: "string \<Rightarrow> string" where
  "capitalize [] = []"
| "capitalize (c # s) = upper_char c # str_lower s"

fun split_on :: "char \<Rightarrow> string \<Rightarrow> string list" where
  \<comment> \<open>\<open>s.split(c)\<close>: one more part than separators\<close>
  "split_on c [] = [[]]"
| "split_on c (x # xs) =
     (if x = c then [] # split_on c xs
      else (case split_on c xs of p # ps \<Rightarrow> (x # p) # ps | [] \<Rightarrow> [[x]]))"

fun join_with :: "string \<Rightarrow> string list \<Rightarrow> string" where
  "join_with sep [] = []"
| "join_with sep [p] = p"
| "join_with sep (p # q # ps) = p @ sep @ join_with sep (q # ps)"

definition starts_with :: "string \<Rightarrow> string \<Rightarrow> bool" where
  "starts_with p s = (take (length p) s = p)"

definition ends_with :: "string \<Rightarrow> string \<Rightarrow> bool" where
  "ends_with p s = (length p \<le> length s \<and> drop (length s - length p) s = p)"

definition drop_suffix :: "nat \<Rightarrow> string \<Rightarrow> string" where
  \<comment> \<open>\<open>s[:-n]\<close> for positive n\<close>
  "drop_suffix n s = take (length s - n) s"

definition rstrip_char :: "char \<Rightarrow> string \<Rightarrow> string" where
  "rstrip_char c s = rev (dropWhile (\<lambda>x. x = c) (rev s))"

lemma split_on_nonempty [simp]: "split_on c s \<noteq> []"
  by (cases s) (auto split: list.splits)

lemma join_split [str_simps]: "join_with [c] (split_on c s) = s"
proof (induction s)
  case (Cons x s)
  obtain p ps where ps: "split_on c s = p # ps"
    by (cases "split_on c s") auto
  with Cons show ?case by (cases ps) auto
qed simp

lemma ends_with_append [simp]: "ends_with q (p @ q)"
  by (simp add: ends_with_def)

lemma drop_suffix_append [simp]: "drop_suffix (length q) (p @ q) = p"
  by (simp add: drop_suffix_def)

lemma ends_with_split: "ends_with q s \<Longrightarrow> s = drop_suffix (length q) s @ q"
  unfolding ends_with_def drop_suffix_def by (metis append_take_drop_id)

lemma rstrip_char_last: "rstrip_char c s \<noteq> [] \<Longrightarrow> last (rstrip_char c s) \<noteq> c"
  unfolding rstrip_char_def
  by (metis (mono_tags) hd_dropWhile last_rev rev_is_Nil_conv)

text \<open>Decimal digits of a natural number, as \<open>str(n)\<close> writes them.\<close>

definition digit_char :: "nat \<Rightarrow> char" where
  "digit_char d = char_of (48 + d)"

fun str_of_nat :: "nat \<Rightarrow> string" where
  "str_of_nat n = (if n < 10 then [digit_char n] else str_of_nat (n div 10) @ [digit_char (n mod 10)])"

declare str_of_nat.simps [simp del]

definition digit_value :: "char \<Rightarrow> nat" where
  "digit_value c = ord_of c - 48"

definition nat_of_str :: "string \<Rightarrow> nat" where
  "nat_of_str s = foldl (\<lambda>n c. 10 * n + digit_value c) 0 s"

lemma digit_value_char: "d < 10 \<Longrightarrow> digit_value (digit_char d) = d"
  by (simp add: digit_value_def digit_char_def ord_of_def)

lemma nat_of_str_snoc: "nat_of_str (s @ [c]) = 10 * nat_of_str s + digit_value c"
  by (simp add: nat_of_str_def)

lemma nat_of_str_str_of_nat [simp, str_simps]: "nat_of_str (str_of_nat n) = n"
proof (induction n rule: str_of_nat.induct)
  case (1 n)
  show ?case
  proof (cases "n < 10")
    case True
    then show ?thesis
      by (simp add: str_of_nat.simps [of n] nat_of_str_def digit_value_char)
  next
    case False
    with 1 show ?thesis
      by (simp add: str_of_nat.simps [of n] nat_of_str_snoc digit_value_char)
  qed
qed

lemma str_of_nat_inject [simp]: "str_of_nat m = str_of_nat n \<longleftrightarrow> m = n"
  by (metis nat_of_str_str_of_nat)

lemma str_of_nat_digits: "list_all is_digit (str_of_nat n)"
proof (induction n rule: str_of_nat.induct)
  case (1 n)
  have digit: "d < 10 \<Longrightarrow> is_digit (digit_char d)" for d
    by (simp add: is_digit_def digit_char_def ord_of_def Let_def)
  show ?case using 1 digit [of n] digit [of "n mod 10"] by (auto simp: str_of_nat.simps [of n])
qed

lemma str_of_nat_nonempty [simp]: "str_of_nat n \<noteq> []"
  by (simp add: str_of_nat.simps [of n])

section \<open>Classes, exceptions and Python values\<close>

type_synonym cls = string

text \<open>
  An exception is its class's method resolution order (most specific class first) with the
  text \<open>str(error)\<close>; \<open>isinstance(e, c)\<close> is membership in it.
\<close>

record exc =
  exc_mro :: "cls list"
  exc_text :: string

definition instance_of :: "exc \<Rightarrow> cls \<Rightarrow> bool" where
  "instance_of e c = (c \<in> set (exc_mro e))"

datatype pyfloat = Fin rat | Inf | NegInf | NaN

datatype pyval =
    PNone
  | PBool bool
  | PInt int
  | PFloat pyfloat
  | PStr string
  | PList "pyval list"
  | PTuple "pyval list"
  | PDict "(pyval \<times> pyval) list"
  | PType "cls list"
  | PCallable string
  | PObj cls

definition is_finite :: "pyfloat \<Rightarrow> bool" where
  "is_finite f = (case f of Fin _ \<Rightarrow> True | _ \<Rightarrow> False)"

definition find_first :: "('a \<Rightarrow> 'b option) \<Rightarrow> 'a list \<Rightarrow> 'b option" where
  \<comment> \<open>\<open>next((f(x) for x in xs if f(x) is not None), None)\<close>\<close>
  "find_first f xs = (case List.find (\<lambda>x. f x \<noteq> None) xs of None \<Rightarrow> None | Some x \<Rightarrow> f x)"

lemma find_first_Nil [simp]: "find_first f [] = None"
  by (simp add: find_first_def)

lemma find_first_Cons [simp]:
  "find_first f (x # xs) = (case f x of Some y \<Rightarrow> Some y | None \<Rightarrow> find_first f xs)"
  by (auto simp: find_first_def split: option.split)

lemma find_first_skip:
  "\<forall>u\<in>set us. f u = None \<Longrightarrow> find_first f (us @ xs) = find_first f xs"
  by (induction us) auto

lemma find_first_Some_split:
  "find_first f xs = Some y \<Longrightarrow>
    \<exists>us x vs. xs = us @ x # vs \<and> f x = Some y \<and> (\<forall>u\<in>set us. f u = None)"
proof (induction xs)
  case (Cons z zs)
  show ?case
  proof (cases "f z")
    case None
    with Cons obtain us x vs where "zs = us @ x # vs" "f x = Some y" "\<forall>u\<in>set us. f u = None"
      by auto
    with None have "z # zs = (z # us) @ x # vs \<and> f x = Some y \<and> (\<forall>u\<in>set (z # us). f u = None)"
      by simp
    then show ?thesis by blast
  next
    case (Some w)
    with Cons.prems have "z # zs = [] @ z # zs \<and> f z = Some y \<and> (\<forall>u\<in>set []. f u = None)"
      by simp
    then show ?thesis by blast
  qed
qed simp

lemma find_first_Some_mem: "find_first f xs = Some y \<Longrightarrow> \<exists>x\<in>set xs. f x = Some y"
  by (auto dest!: find_first_Some_split)

lemma find_first_None: "find_first f xs = None \<longleftrightarrow> (\<forall>x\<in>set xs. f x = None)"
  by (induction xs) (auto split: option.splits)

end
