(* ===== verification/Interfaces.thy ===== *)
theory Interfaces
  imports Canon_Prelude
begin

text \<open>
  The contracts several components share, as locales. A \<open>latch\<close> is a decision that
  concurrent tasks race to make (the close value of a connection, the end of a WebRTC
  session): whatever is requested first decides, and a decision is never withdrawn. In a
  \<open>first_wins\<close> latch it is final; in an \<open>upgrading\<close> latch a weak decision (a normal
  close) gives way to the first strong one (a failure) until the latch is frozen. A
  \<open>slot_pool\<close> hands out a bounded number of reservations, released at most once. A
  \<open>resolver\<close> picks the handler of an exception by its classes, most specific first.
  The theories of the components interpret each of them on the model of the code.
\<close>

section \<open>Latches\<close>

locale latch =
  fixes request :: "'c \<Rightarrow> 's \<Rightarrow> 's"
    and decided :: "'s \<Rightarrow> 'd option"
    and decision :: "'c \<Rightarrow> 'd"
  assumes open_request: "decided s = None \<Longrightarrow> decided (request c s) = Some (decision c)"
    and never_reset: "decided s \<noteq> None \<Longrightarrow> decided (request c s) \<noteq> None"
begin

lemma request_decides: "decided (request c s) \<noteq> None"
  using open_request never_reset by (cases "decided s") auto

lemma requests_keep_decided: "decided s \<noteq> None \<Longrightarrow> decided (fold request cs s) \<noteq> None"
  by (induction cs arbitrary: s) (simp_all add: request_decides del: not_None_eq)

lemma requests_decide: "cs \<noteq> [] \<Longrightarrow> decided (fold request cs s) \<noteq> None"
  by (cases cs) (simp_all add: requests_keep_decided request_decides del: not_None_eq)

end

locale first_wins = latch +
  assumes sticky: "decided s = Some d \<Longrightarrow> decided (request c s) = Some d"
begin

lemma requests_sticky: "decided s = Some d \<Longrightarrow> decided (fold request cs s) = Some d"
  by (induction cs arbitrary: s) (simp_all add: sticky)

lemma first_request_wins:
  "decided s = None \<Longrightarrow>
   decided (fold request cs s) = (case cs of [] \<Rightarrow> None | c # _ \<Rightarrow> Some (decision c))"
  by (cases cs) (simp_all add: open_request requests_sticky)

end

locale upgrading = latch +
  fixes weak :: "'d \<Rightarrow> bool"
    and frozen :: "'s \<Rightarrow> bool"
  assumes upgrade: "decided s = Some d \<Longrightarrow>
      decided (request c s) =
        Some (if weak d \<and> \<not> weak (decision c) \<and> \<not> frozen s then decision c else d)"
    and request_frozen: "frozen (request c s) = frozen s"
begin

lemma strong_final: "decided s = Some d \<Longrightarrow> \<not> weak d \<Longrightarrow> decided (fold request cs s) = Some d"
  by (induction cs arbitrary: s) (simp_all add: upgrade)

lemma frozen_final: "decided s = Some d \<Longrightarrow> frozen s \<Longrightarrow> decided (fold request cs s) = Some d"
  by (induction cs arbitrary: s) (simp_all add: upgrade request_frozen)

lemma requests_upgrade:
  "decided s = Some d \<Longrightarrow> weak d \<Longrightarrow> \<not> frozen s \<Longrightarrow>
   decided (fold request cs s) =
     Some (case List.find (\<lambda>x. \<not> weak x) (map decision cs) of Some x \<Rightarrow> x | None \<Rightarrow> d)"
proof (induction cs arbitrary: s d)
  case (Cons c cs)
  show ?case
  proof (cases "weak (decision c)")
    case True
    with Cons show ?thesis by (simp add: upgrade request_frozen)
  next
    case False
    with Cons have "decided (request c s) = Some (decision c)" by (simp add: upgrade)
    with False show ?thesis by (simp add: strong_final)
  qed
qed simp

lemma first_strong_request_wins:
  assumes "decided s = None" and "\<not> frozen s"
  shows "decided (fold request cs s) =
    (case List.find (\<lambda>x. \<not> weak x) (map decision cs) of
       Some x \<Rightarrow> Some x
     | None \<Rightarrow> (case cs of [] \<Rightarrow> None | c # _ \<Rightarrow> Some (decision c)))"
proof (cases cs)
  case (Cons c cs')
  have c: "decided (request c s) = Some (decision c)" using assms by (simp add: open_request)
  show ?thesis
  proof (cases "weak (decision c)")
    case True
    with requests_upgrade [OF c True, of cs'] assms Cons show ?thesis
      by (simp add: request_frozen split: option.split)
  next
    case False
    with strong_final [OF c False, of cs'] Cons show ?thesis by simp
  qed
qed (use assms in simp)

end

section \<open>Slot pools\<close>

text \<open>
  \<open>held\<close> lists the reservations in use, \<open>limit\<close> is the capacity (None: unbounded),
  \<open>ok\<close> the pool's own invariant. A client history is a list of \<open>Reserve\<close> and
  \<open>Release\<close> steps.
\<close>

datatype 'r slot_op = Reserve | Release 'r

locale slot_pool =
  fixes reserve :: "'s \<Rightarrow> 'r option \<times> 's"
    and release :: "'r \<Rightarrow> 's \<Rightarrow> 's"
    and held :: "'s \<Rightarrow> 'r set"
    and limit :: "'s \<Rightarrow> nat option"
    and ok :: "'s \<Rightarrow> bool"
  assumes held_finite: "ok s \<Longrightarrow> finite (held s)"
    and ok_reserve: "ok s \<Longrightarrow> ok (snd (reserve s))"
    and ok_release: "ok s \<Longrightarrow> ok (release r s)"
    and reserve_Some: "ok s \<Longrightarrow> reserve s = (Some r, s') \<Longrightarrow>
      r \<notin> held s \<and> held s' = insert r (held s) \<and> limit s' = limit s
        \<and> (case limit s of None \<Rightarrow> True | Some n \<Rightarrow> card (held s) < n)"
    and reserve_None: "ok s \<Longrightarrow> reserve s = (None, s') \<Longrightarrow>
      s' = s \<and> (case limit s of None \<Rightarrow> False | Some n \<Rightarrow> n \<le> card (held s))"
    and release_held: "ok s \<Longrightarrow> held (release r s) = held s - {r} \<and> limit (release r s) = limit s"
begin

definition capped :: "'s \<Rightarrow> bool" where
  "capped s = (case limit s of None \<Rightarrow> True | Some n \<Rightarrow> card (held s) \<le> n)"

fun slot_run :: "'r slot_op list \<Rightarrow> 's \<Rightarrow> 's" where
  "slot_run [] s = s"
| "slot_run (Reserve # ops) s = slot_run ops (snd (reserve s))"
| "slot_run (Release r # ops) s = slot_run ops (release r s)"

lemma capped_reserve: "ok s \<Longrightarrow> capped s \<Longrightarrow> capped (snd (reserve s))"
proof -
  assume s: "ok s" "capped s"
  obtain r s' where rs: "reserve s = (r, s')" by (cases "reserve s")
  show ?thesis
  proof (cases r)
    case None
    with s rs show ?thesis using reserve_None by (auto simp: capped_def)
  next
    case (Some x)
    with rs have "reserve s = (Some x, s')" by simp
    from reserve_Some [OF s(1) this] s held_finite [OF s(1)] rs show ?thesis
      by (auto simp: capped_def split: option.splits)
  qed
qed

lemma capped_release: "ok s \<Longrightarrow> capped s \<Longrightarrow> capped (release r s)"
proof -
  assume s: "ok s" "capped s"
  have "card (held s - {r}) \<le> card (held s)" using held_finite [OF s(1)] by (simp add: card_mono)
  with release_held [OF s(1), of r] s(2) show ?thesis
    by (auto simp: capped_def split: option.splits)
qed

lemma run_capped: "ok s \<Longrightarrow> capped s \<Longrightarrow> ok (slot_run ops s) \<and> capped (slot_run ops s)"
  by (induction ops s rule: slot_run.induct)
    (simp_all add: ok_reserve ok_release capped_reserve capped_release)

lemma release_idempotent: "ok s \<Longrightarrow> held (release r (release r s)) = held (release r s)"
  using release_held [of s r] release_held [of "release r s" r] ok_release [of s r] by auto

lemma release_frees:
  assumes "ok s" and "capped s" and "r \<in> held s"
  shows "fst (reserve (release r s)) \<noteq> None"
proof
  assume none: "fst (reserve (release r s)) = None"
  obtain s' where rs: "reserve (release r s) = (None, s')"
    using none by (cases "reserve (release r s)") auto
  have "card (held s - {r}) < card (held s)"
    using assms held_finite [OF assms(1)] by (meson card_Diff1_less)
  with reserve_None [OF ok_release [OF assms(1)] rs] release_held [OF assms(1), of r] assms(2)
  show False by (auto simp: capped_def split: option.splits)
qed

end

section \<open>Resolution by exception class\<close>

text \<open>
  \<open>lookup table c\<close> is what a table holds for exactly the class \<open>c\<close>; \<open>resolve\<close> walks
  the method resolution order of an exception.
\<close>

locale resolver =
  fixes resolve :: "'t \<Rightarrow> cls list \<Rightarrow> 'b option"
    and lookup :: "'t \<Rightarrow> cls \<Rightarrow> 'b option"
  assumes resolve_mro: "resolve t mro = find_first (lookup t) mro"
begin

lemma own_class_wins: "lookup t c = Some b \<Longrightarrow> resolve t (c # cs) = Some b"
  by (simp add: resolve_mro)

lemma subclass_wins:
  assumes "lookup t c = Some b" and "\<forall>d\<in>set ds. lookup t d = None"
  shows "resolve t (ds @ c # bs) = Some b"
  using assms by (simp add: resolve_mro find_first_skip)

lemma resolved_by_ancestor: "resolve t mro = Some b \<Longrightarrow> \<exists>c\<in>set mro. lookup t c = Some b"
  using find_first_Some_split [of "lookup t" mro b] by (auto simp: resolve_mro)

lemma unresolved: "resolve t mro = None \<longleftrightarrow> (\<forall>c\<in>set mro. lookup t c = None)"
  by (simp add: resolve_mro find_first_None)

end

end
