(* ===== verification/Error_Model.thy ===== *)
theory Error_Model
  imports Canon_Prelude
begin

text \<open>
  Error definitions: \<open>fastapi_canon/error/types.py\<close>, \<open>validation.py\<close> and
  \<open>error.py\<close>. The constructor of \<open>Error\<close> takes arbitrary Python values; the model
  keeps them as \<open>pyval\<close> and \<open>post_init\<close> performs the checks in the source's order,
  returning the frozen definition or the configuration error. Pydantic is a parameter
  (\<open>model_api\<close>): the serialized field names of a model class, its return-annotation
  lookup and its validate-then-dump.
\<close>

section \<open>Configuration errors\<close>

datatype cfg_error =
    Cfg string
  | Cfg_at string string
  | Cfg_names string "string list"

section \<open>Patterns and URIs (types.py)\<close>

definition is_code :: "string \<Rightarrow> bool" where
  "is_code s = (case s of [] \<Rightarrow> False
     | c # cs \<Rightarrow> is_lower c \<and> 2 \<le> length cs \<and>
         list_all (\<lambda>x. is_lower x \<or> is_digit x \<or> x = CHR ''_'') cs)"

text \<open>
  \<open>urllib.parse.urlsplit\<close>, as far as the two URI predicates use it. The address check of
  a bracketed host (\<open>ipaddress\<close>) is the parameter \<open>host_ok\<close>.
\<close>

record split_url =
  u_scheme :: string
  u_netloc :: string
  u_path :: string
  u_query :: string
  u_fragment :: string

definition scheme_char :: "char \<Rightarrow> bool" where
  "scheme_char c = (is_alpha c \<or> is_digit c \<or> c \<in> set ''+-.'')"

definition split_scheme :: "string \<Rightarrow> string \<times> string" where
  "split_scheme url =
     (let pre = takeWhile (\<lambda>c. c \<noteq> CHR '':'') url; post = dropWhile (\<lambda>c. c \<noteq> CHR '':'') url
      in if post \<noteq> [] \<and> pre \<noteq> [] \<and> is_alpha (hd pre) \<and> list_all scheme_char pre
         then (str_lower pre, tl post) else ([], url))"

definition split_at :: "char \<Rightarrow> string \<Rightarrow> string \<times> string" where
  \<comment> \<open>\<open>s.split(c, 1)\<close> when c occurs, otherwise the whole string and no rest\<close>
  "split_at c s = (takeWhile (\<lambda>x. x \<noteq> c) s, drop 1 (dropWhile (\<lambda>x. x \<noteq> c) s))"

definition urlsplit :: "(string \<Rightarrow> bool) \<Rightarrow> string \<Rightarrow> split_url option" where
  "urlsplit host_ok value =
     (let url = filter (\<lambda>c. c \<notin> {CHR 0x09, CHR 0x0D, CHR 0x0A})
                  (dropWhile (\<lambda>c. ord_of c \<le> 32) value);
          (scheme, rest) = split_scheme url;
          (netloc, rest) =
            (if starts_with ''//'' rest
             then (takeWhile (\<lambda>c. c \<notin> set ''/?#'') (drop 2 rest),
                   dropWhile (\<lambda>c. c \<notin> set ''/?#'') (drop 2 rest))
             else ([], rest));
          opens = CHR ''['' \<in> set netloc; closes = CHR '']'' \<in> set netloc
      in if opens \<noteq> closes then None
         else if opens \<and> \<not> host_ok netloc then None
         else (let (rest, fragment) = split_at (CHR ''#'') rest;
                   (path, query) = split_at (CHR ''?'') rest
               in Some \<lparr>u_scheme = scheme, u_netloc = netloc, u_path = path,
                        u_query = query, u_fragment = fragment\<rparr>))"

definition is_absolute_uri :: "(string \<Rightarrow> bool) \<Rightarrow> string \<Rightarrow> bool" where
  "is_absolute_uri host_ok value =
     (if value = [] \<or> list_ex is_space value then False
      else (case urlsplit host_ok value of
              None \<Rightarrow> False
            | Some parsed \<Rightarrow>
                if u_scheme parsed = [] \<or> u_fragment parsed \<noteq> [] then False
                else \<not> (u_scheme parsed \<in> {''http'', ''https''} \<and> u_netloc parsed = [])))"

definition is_uri_reference :: "(string \<Rightarrow> bool) \<Rightarrow> string \<Rightarrow> bool" where
  "is_uri_reference host_ok value =
     (if value = [] \<or> list_ex is_space value then False
      else urlsplit host_ok value \<noteq> None)"

lemma is_absolute_uri_reference:
  "is_absolute_uri host_ok value \<Longrightarrow> is_uri_reference host_ok value"
  by (auto simp: is_absolute_uri_def is_uri_reference_def split: if_splits option.splits)

section \<open>Distinct instances (validation.py)\<close>

datatype 'a item = Instance 'a | Foreign

fun unique_instances_from ::
    "string \<Rightarrow> nat \<Rightarrow> 'a list \<Rightarrow> 'a item list \<Rightarrow> (cfg_error, 'a list) result" where
  "unique_instances_from param index seen [] = Inr []"
| "unique_instances_from param index seen (Foreign # vals) =
     Inl (Cfg_at (param @ ''['' @ str_of_nat index @ '']'') ''wrong instance'')"
| "unique_instances_from param index seen (Instance x # vals) =
     (if x \<in> set seen then unique_instances_from param (Suc index) seen vals
      else rbind (unique_instances_from param (Suc index) (x # seen) vals)
             (\<lambda>rest. Inr (x # rest)))"

definition unique_instances :: "'a item list \<Rightarrow> string \<Rightarrow> (cfg_error, 'a list) result" where
  \<comment> \<open>items are object identities; the generator is consumed in full by every caller\<close>
  "unique_instances vals param = unique_instances_from param 0 [] vals"

definition instances :: "'a item list \<Rightarrow> 'a list" where
  "instances vals = List.map_filter (\<lambda>v. case v of Instance x \<Rightarrow> Some x | Foreign \<Rightarrow> None) vals"

lemma instances_simps [simp]:
  "instances [] = []" "instances (Foreign # vs) = instances vs"
  "instances (Instance x # vs) = x # instances vs"
  by (simp_all add: instances_def List.map_filter_simps)

lemma instances_map [simp]: "instances (map Instance xs) = xs"
  by (induction xs) auto

lemma unique_instances_from_ok:
  "Foreign \<notin> set vals \<Longrightarrow>
    unique_instances_from param index seen vals = Inr (uniq_from seen (instances vals))"
  by (induction param index seen vals rule: unique_instances_from.induct) auto

lemma unique_instances_from_foreign:
  "Foreign \<in> set vals \<Longrightarrow> \<not> succeeds (unique_instances_from param index seen vals)"
proof (induction param index seen vals rule: unique_instances_from.induct)
  case (3 param index seen x vals)
  then show ?case
    by (cases "unique_instances_from param (Suc index) (x # seen) vals") auto
qed auto

lemma unique_instances_ok:
  "Foreign \<notin> set vals \<Longrightarrow> unique_instances vals param = Inr (fromkeys (instances vals))"
  by (simp add: unique_instances_def unique_instances_from_ok)

lemma unique_instances_Inr:
  "unique_instances vals param = Inr ys \<longleftrightarrow>
    Foreign \<notin> set vals \<and> ys = fromkeys (instances vals)"
proof (cases "Foreign \<in> set vals")
  case True
  then have "\<not> succeeds (unique_instances vals param)"
    by (simp add: unique_instances_def unique_instances_from_foreign)
  then show ?thesis using True by (auto simp: succeeds_def)
next
  case False
  then show ?thesis by (auto simp: unique_instances_ok)
qed

section \<open>Frozen JSON values (error.py)\<close>

fun freeze_json :: "string \<Rightarrow> pyval \<Rightarrow> (cfg_error, pyval) result"
and freeze_items :: "string \<Rightarrow> nat \<Rightarrow> pyval list \<Rightarrow> (cfg_error, pyval list) result"
and freeze_pairs ::
    "string \<Rightarrow> (pyval \<times> pyval) list \<Rightarrow> (cfg_error, (pyval \<times> pyval) list) result" where
  "freeze_json path PNone = Inr PNone"
| "freeze_json path (PBool b) = Inr (PBool b)"
| "freeze_json path (PInt i) = Inr (PInt i)"
| "freeze_json path (PStr s) = Inr (PStr s)"
| "freeze_json path (PFloat f) =
     (if \<not> is_finite f then Inl (Cfg_at path ''must contain only finite JSON numbers'')
      else Inr (PFloat f))"
| "freeze_json path (PList xs) = rbind (freeze_items path 0 xs) (\<lambda>ys. Inr (PTuple ys))"
| "freeze_json path (PDict kvs) = rbind (freeze_pairs path kvs) (\<lambda>ws. Inr (PDict ws))"
| "freeze_json path v = Inl (Cfg_at path ''contains a non-JSON value'')"
| "freeze_items path index [] = Inr []"
| "freeze_items path index (x # xs) =
     rbind (freeze_json (path @ ''['' @ str_of_nat index @ '']'') x)
       (\<lambda>y. rbind (freeze_items path (Suc index) xs) (\<lambda>ys. Inr (y # ys)))"
| "freeze_pairs path [] = Inr []"
| "freeze_pairs path ((k, v) # kvs) =
     (case k of
        PStr s \<Rightarrow> rbind (freeze_json (path @ ''.'' @ s) v)
                   (\<lambda>w. rbind (freeze_pairs path kvs) (\<lambda>ws. Inr ((PStr s, w) # ws)))
      | _ \<Rightarrow> Inl (Cfg_at path ''keys must be strings''))"

text \<open>The shape of a frozen value: no mutable list is left, keys are strings, numbers finite.\<close>

fun frozen :: "pyval \<Rightarrow> bool" where
  "frozen PNone = True"
| "frozen (PBool b) = True"
| "frozen (PInt i) = True"
| "frozen (PStr s) = True"
| "frozen (PFloat f) = is_finite f"
| "frozen (PTuple xs) = list_all frozen xs"
| "frozen (PDict kvs) = list_all (\<lambda>(k, v). (\<exists>s. k = PStr s) \<and> frozen v) kvs"
| "frozen _ = False"

lemma freeze_frozen:
  "freeze_json path v = Inr w \<Longrightarrow> frozen w"
  "freeze_items path i xs = Inr ys \<Longrightarrow> list_all frozen ys"
  "freeze_pairs path kvs = Inr ws \<Longrightarrow> list_all (\<lambda>(k, v). (\<exists>s. k = PStr s) \<and> frozen v) ws"
proof (induction path v and path i xs and path kvs arbitrary: w and ys and ws
    rule: freeze_json_freeze_items_freeze_pairs.induct)
qed (auto split: if_splits pyval.splits)

lemma freeze_pairs_keys:
  "freeze_pairs path kvs = Inr ws \<Longrightarrow> map fst ws = map fst kvs"
proof (induction kvs arbitrary: ws)
  case (Cons p kvs)
  obtain k v where p: "p = (k, v)" by (cases p)
  with Cons show ?case by (cases k) auto
qed simp

section \<open>The constructor's checks (error.py)\<close>

definition reserved_members :: "string list" where
  "reserved_members = [''type'', ''title'', ''status'', ''detail'', ''instance'', ''code'']"

definition forbidden_headers :: "string list" where
  "forbidden_headers = [''connection'', ''content-length'', ''content-type'', ''transfer-encoding'']"

definition is_callable :: "pyval \<Rightarrow> bool" where
  "is_callable v = (case v of PCallable _ \<Rightarrow> True | PType _ \<Rightarrow> True | _ \<Rightarrow> False)"

definition subclass_of :: "pyval \<Rightarrow> cls \<Rightarrow> bool" where
  "subclass_of v c = (case v of PType mro \<Rightarrow> c \<in> set mro | _ \<Rightarrow> False)"

definition str_keys :: "(pyval \<times> pyval) list \<Rightarrow> string list" where
  "str_keys kvs = List.map_filter (\<lambda>p. case fst p of PStr s \<Rightarrow> Some s | _ \<Rightarrow> None) kvs"

definition reserved_overlap :: "string list \<Rightarrow> string list" where
  "reserved_overlap names = filter (\<lambda>m. m \<in> set names) reserved_members"

record model_api =
  serialized_names :: "cls list \<Rightarrow> string list"
  returned_model :: "string \<Rightarrow> cls list option"
  validate_dump :: "cls list \<Rightarrow> (pyval \<times> pyval) list \<Rightarrow> (pyval \<times> pyval) list option"

record raw_error =
  r_exception :: pyval
  r_status :: pyval
  r_code :: pyval
  r_title :: pyval
  r_type :: pyval
  r_detail :: pyval
  r_extensions_model :: pyval
  r_extensions :: pyval
  r_headers :: pyval
  r_openapi_headers :: pyval
  r_description :: pyval
  r_example :: pyval
  r_schema_name :: pyval

definition valid_status :: "pyval \<Rightarrow> bool" where
  "valid_status v = (case v of PInt n \<Rightarrow> 400 \<le> n \<and> n \<le> 599 | _ \<Rightarrow> False)"

definition valid_title :: "pyval \<Rightarrow> bool" where
  "valid_title v = (case v of PStr s \<Rightarrow> \<not> blank s \<and> single_line s | _ \<Rightarrow> False)"

definition validate_identity :: "(string \<Rightarrow> bool) \<Rightarrow> raw_error \<Rightarrow> (cfg_error, unit) result" where
  "validate_identity host_ok r =
     rbind (ensure (subclass_of (r_exception r) ''Exception'')
              (Cfg ''exception must be an Exception subclass'')) (\<lambda>_.
     rbind (ensure (valid_status (r_status r)) (Cfg ''status must be between 400 and 599'')) (\<lambda>_.
     rbind (ensure (case r_code r of PStr s \<Rightarrow> is_code s | _ \<Rightarrow> False)
              (Cfg ''code must match ^[a-z][a-z0-9_]{2,}$'')) (\<lambda>_.
     rbind (ensure (valid_title (r_title r))
              (Cfg ''title must be a non-empty, single-line string'')) (\<lambda>_.
       ensure (case r_type r of PNone \<Rightarrow> True | PStr s \<Rightarrow> is_absolute_uri host_ok s | _ \<Rightarrow> False)
         (Cfg ''type must be an absolute URI without a fragment'')))))"

definition validate_detail :: "raw_error \<Rightarrow> (cfg_error, unit) result" where
  "validate_detail r =
     ensure (case r_detail r of PNone \<Rightarrow> True | PStr _ \<Rightarrow> True | v \<Rightarrow> is_callable v)
       (Cfg ''detail must be a string, callable, or None'')"

definition validate_extension_model :: "model_api \<Rightarrow> cls list \<Rightarrow> (cfg_error, unit) result" where
  "validate_extension_model api model =
     (let overlap = reserved_overlap (serialized_names api model)
      in ensure (overlap = [])
           (Cfg_names ''extensions_model must not define reserved members'' overlap))"

definition validate_static_extensions ::
    "model_api \<Rightarrow> cls list option \<Rightarrow> (pyval \<times> pyval) list \<Rightarrow> (cfg_error, pyval) result" where
  \<comment> \<open>the part of \<open>_validate_extensions\<close> for a mapping\<close>
  "validate_static_extensions api model kvs =
     (let overlap = reserved_overlap (str_keys kvs)
      in if overlap \<noteq> [] then
           Inl (Cfg_names ''extensions must not redefine reserved members'' overlap)
         else rbind (freeze_pairs ''extensions'' kvs) (\<lambda>ws.
           case model of
             None \<Rightarrow> Inr (PDict ws)
           | Some m \<Rightarrow>
               (case validate_dump api m ws of
                  None \<Rightarrow> Inl (Cfg ''static extensions do not validate against extensions_model'')
                | Some dumped \<Rightarrow>
                    rbind (freeze_pairs ''extensions'' dumped) (\<lambda>ws'. Inr (PDict ws')))))"

definition validate_extensions :: "model_api \<Rightarrow> raw_error \<Rightarrow> (cfg_error, raw_error) result" where
  "validate_extensions api r =
     rbind (ensure (r_extensions_model r = PNone \<or> subclass_of (r_extensions_model r) ''BaseModel'')
              (Cfg ''extensions_model must be a Pydantic BaseModel subclass'')) (\<lambda>_.
     (let model = (case r_extensions_model r of PType m \<Rightarrow> Some m | _ \<Rightarrow> None)
      in rbind (case model of None \<Rightarrow> Inr () | Some m \<Rightarrow> validate_extension_model api m) (\<lambda>_.
         case r_extensions r of
           PNone \<Rightarrow>
             (if model \<noteq> None
              then Inl (Cfg ''extensions is required when extensions_model is provided'')
              else Inr r)
         | PDict kvs \<Rightarrow>
             rbind (validate_static_extensions api model kvs) (\<lambda>e. Inr (r\<lparr>r_extensions := e\<rparr>))
         | v \<Rightarrow>
             if \<not> is_callable v then Inl (Cfg ''extensions must be a mapping, callable, or None'')
             else if model \<noteq> None then Inr r
             else (case (case v of PCallable f \<Rightarrow> returned_model api f | _ \<Rightarrow> None) of
                     None \<Rightarrow> Inl (Cfg ''callable extensions require extensions_model or a BaseModel return annotation'')
                   | Some inferred \<Rightarrow>
                       rbind (validate_extension_model api inferred)
                         (\<lambda>_. Inr (r\<lparr>r_extensions_model := PType inferred\<rparr>))))))"

definition header_char :: "char \<Rightarrow> bool" where
  "header_char c = (is_alpha c \<or> is_digit c \<or> ord_of c \<in> {33, 35, 36, 37, 38, 39, 42, 43, 45, 46, 94, 95, 96, 124, 126})"

definition validate_header_name :: "pyval \<Rightarrow> string \<Rightarrow> (cfg_error, string) result" where
  "validate_header_name name path =
     (case name of
        PStr s \<Rightarrow>
          if s = [] \<or> \<not> list_all header_char s
          then Inl (Cfg_at path ''contains an invalid HTTP header name'')
          else if str_lower s \<in> set forbidden_headers
          then Inl (Cfg_at path ''must not define the managed response header'')
          else Inr s
      | _ \<Rightarrow> Inl (Cfg_at path ''contains an invalid HTTP header name''))"

fun freeze_headers :: "(pyval \<times> pyval) list \<Rightarrow> string \<Rightarrow> (cfg_error, (string \<times> string) list) result" where
  "freeze_headers [] path = Inr []"
| "freeze_headers ((name, v) # kvs) path =
     rbind (validate_header_name name path) (\<lambda>n.
       case v of
         PStr text \<Rightarrow> rbind (freeze_headers kvs path) (\<lambda>rest. Inr ((n, text) # rest))
       | _ \<Rightarrow> Inl (Cfg_at (path @ ''.'' @ n) ''must be a string''))"

definition const_header :: "string \<Rightarrow> pyval" where
  "const_header text = PDict [(PStr ''schema'',
     PDict [(PStr ''type'', PStr ''string''), (PStr ''const'', PStr text)])]"

definition drop_header :: "string \<Rightarrow> (string \<times> pyval) list \<Rightarrow> (string \<times> pyval) list" where
  "drop_header n defs = filter (\<lambda>p. str_lower (fst p) \<noteq> str_lower n) defs"

fun merge_openapi_headers ::
    "(pyval \<times> pyval) list \<Rightarrow> (string \<times> pyval) list \<Rightarrow> (cfg_error, (string \<times> pyval) list) result" where
  "merge_openapi_headers [] defs = Inr defs"
| "merge_openapi_headers ((name, d) # kvs) defs =
     rbind (validate_header_name name ''openapi_headers'') (\<lambda>n.
       case d of
         PDict body \<Rightarrow>
           rbind (freeze_pairs (''openapi_headers.'' @ n) body) (\<lambda>ws.
             merge_openapi_headers kvs (drop_header n defs @ [(n, PDict ws)]))
       | _ \<Rightarrow> Inl (Cfg_at (''openapi_headers.'' @ n) ''must be a mapping''))"

definition pack :: "(string \<times> pyval) list \<Rightarrow> pyval" where
  "pack d = PDict (map (\<lambda>(n, v). (PStr n, v)) d)"

definition validate_headers :: "raw_error \<Rightarrow> (cfg_error, raw_error) result" where
  "validate_headers r =
     rbind (ensure (case r_headers r of PNone \<Rightarrow> True | PDict _ \<Rightarrow> True | v \<Rightarrow> is_callable v)
              (Cfg ''headers must be a mapping, callable, or None'')) (\<lambda>_.
     rbind (case r_headers r of
              PDict kvs \<Rightarrow> rbind (freeze_headers kvs ''headers'')
                (\<lambda>hs. Inr (r\<lparr>r_headers := pack (map (\<lambda>(n, t). (n, PStr t)) hs)\<rparr>,
                          map (\<lambda>(n, t). (n, const_header t)) hs))
            | _ \<Rightarrow> Inr (r, [])) (\<lambda>(r1, defs).
     rbind (case r_openapi_headers r of
              PNone \<Rightarrow> Inr defs
            | PDict kvs \<Rightarrow> merge_openapi_headers kvs defs
            | _ \<Rightarrow> Inl (Cfg ''openapi_headers must be a mapping or None'')) (\<lambda>defs'.
       Inr (if defs' = [] then r1 else r1\<lparr>r_openapi_headers := pack defs'\<rparr>))))"

definition validate_documentation :: "raw_error \<Rightarrow> (cfg_error, raw_error) result" where
  "validate_documentation r =
     rbind (ensure (case r_description r of PNone \<Rightarrow> True | PStr _ \<Rightarrow> True | _ \<Rightarrow> False)
              (Cfg ''description must be a string or None'')) (\<lambda>_.
     rbind (ensure (case r_schema_name r of PNone \<Rightarrow> True | PStr s \<Rightarrow> \<not> blank s | _ \<Rightarrow> False)
              (Cfg ''schema_name must be a non-empty string or None'')) (\<lambda>_.
       case r_example r of
         PNone \<Rightarrow> Inr r
       | PDict kvs \<Rightarrow> rbind (freeze_pairs ''example'' kvs) (\<lambda>ws. Inr (r\<lparr>r_example := PDict ws\<rparr>))
       | _ \<Rightarrow> Inl (Cfg ''example must be a mapping or None'')))"

definition post_init :: "(string \<Rightarrow> bool) \<Rightarrow> model_api \<Rightarrow> raw_error \<Rightarrow> (cfg_error, raw_error) result" where
  "post_init host_ok api r =
     rbind (validate_identity host_ok r) (\<lambda>_.
     rbind (validate_detail r) (\<lambda>_.
     rbind (validate_extensions api r) (\<lambda>r1.
     rbind (validate_headers r1) validate_documentation)))"

definition effective_schema_name :: "string option \<Rightarrow> string \<Rightarrow> string" where
  "effective_schema_name schema_name code =
     (case schema_name of
        Some n \<Rightarrow> n
      | None \<Rightarrow> concat (map capitalize (split_on (CHR ''_'') code)) @ ''Problem'')"

end
