(* ===== verification/Error_Registry.thy ===== *)
theory Error_Registry
  imports Error_Model
begin

text \<open>
  The error registry: \<open>fastapi_canon/error/registry.py\<close>. Error definitions and registries
  are Python objects compared by identity; \<open>err\<close> and \<open>rid\<close> are their identities, and
  the (immutable) contents are read through a store. A registry is its entries in declaration
  order with the index by exception class.
\<close>

type_synonym err = nat
type_synonym rid = nat

datatype ('s) renderer = Absent | Static 's | Call "exc \<Rightarrow> (exc, pyval) result"

text \<open>The validated fields of an \<open>Error\<close>.\<close>

record error_def =
  ed_exception :: cls
  ed_status :: int
  ed_code :: string
  ed_title :: string
  ed_type :: "string option"
  ed_schema_name :: "string option"
  ed_detail :: "string renderer"
  ed_model :: "cls list option"
  ed_extensions :: "(pyval \<times> pyval) list renderer"
  ed_headers :: "(string \<times> string) list renderer"

type_synonym store = "err \<Rightarrow> error_def"

record entry =
  re_error :: err
  re_uri :: "string option"
  re_source :: string

record registry =
  rg_name :: "string option"
  rg_base :: "string option"
  rg_entries :: "entry list"
  rg_by_exception :: "(cls \<times> entry) list"

datatype dimension = Dim_exception | Dim_code | Dim_uri | Dim_schema

datatype registry_error =
    Reg_cfg cfg_error
  | Reg_collision dimension string entry entry
  | Reg_incompatible entry entry
  | Reg_not_member string
  | Reg_unresolved "string list"

definition lift_cfg :: "(cfg_error, 'a) result \<Rightarrow> (registry_error, 'a) result" where
  "lift_cfg m = (case m of Inl e \<Rightarrow> Inl (Reg_cfg e) | Inr x \<Rightarrow> Inr x)"

lemma lift_cfg_Inr [simp]: "lift_cfg m = Inr x \<longleftrightarrow> m = Inr x"
  by (cases m) (auto simp: lift_cfg_def)

section \<open>Names, bases and type URIs\<close>

definition validate_name :: "pyval \<Rightarrow> (cfg_error, string option) result" where
  "validate_name v =
     (case v of
        PNone \<Rightarrow> Inr None
      | PStr s \<Rightarrow> if blank s \<or> \<not> single_line s
                  then Inl (Cfg ''registry name must be a non-empty, single-line string or None'')
                  else Inr (Some s)
      | _ \<Rightarrow> Inl (Cfg ''registry name must be a non-empty, single-line string or None''))"

definition validate_type_base :: "(string \<Rightarrow> bool) \<Rightarrow> pyval \<Rightarrow> (cfg_error, string option) result" where
  "validate_type_base host_ok v =
     (case v of
        PNone \<Rightarrow> Inr None
      | PStr s \<Rightarrow>
          if \<not> is_absolute_uri host_ok s
          then Inl (Cfg ''type_base must be an absolute URI without a fragment'')
          else (case urlsplit host_ok s of
                  Some parsed \<Rightarrow>
                    if u_query parsed \<noteq> [] then Inl (Cfg ''type_base must not contain a query string'')
                    else Inr (Some (rstrip_char (CHR ''/'') s))
                | None \<Rightarrow> Inl (Cfg ''urlsplit''))
      | _ \<Rightarrow> Inl (Cfg ''type_base must be an absolute URI without a fragment''))"

definition resolve_type_uri :: "error_def \<Rightarrow> string option \<Rightarrow> string option" where
  "resolve_type_uri e base =
     (case ed_type e of
        Some t \<Rightarrow> Some t
      | None \<Rightarrow> (case base of None \<Rightarrow> None | Some b \<Rightarrow> Some (b @ ''/'' @ ed_code e)))"

section \<open>Collisions\<close>

definition all_dimensions :: "dimension list" where
  "all_dimensions = [Dim_exception, Dim_code, Dim_uri, Dim_schema]"

fun dim_key :: "store \<Rightarrow> entry \<Rightarrow> dimension \<Rightarrow> string option" where
  "dim_key st e Dim_exception = Some (ed_exception (st (re_error e)))"
| "dim_key st e Dim_code = Some (ed_code (st (re_error e)))"
| "dim_key st e Dim_uri = re_uri e"
| "dim_key st e Dim_schema =
     Some (effective_schema_name (ed_schema_name (st (re_error e))) (ed_code (st (re_error e))))"

type_synonym seen = "dimension \<Rightarrow> (string \<times> entry) list"

fun check_dims :: "store \<Rightarrow> entry \<Rightarrow> dimension list \<Rightarrow> seen \<Rightarrow> (registry_error, seen) result" where
  "check_dims st e [] seen = Inr seen"
| "check_dims st e (d # ds) seen =
     (case dim_key st e d of
        None \<Rightarrow> check_dims st e ds seen
      | Some k \<Rightarrow>
          (case dict_get (seen d) k of
             Some previous \<Rightarrow>
               if re_error previous \<noteq> re_error e then Inl (Reg_collision d k previous e)
               else check_dims st e ds (seen(d := dict_set k e (seen d)))
           | None \<Rightarrow> check_dims st e ds (seen(d := dict_set k e (seen d)))))"

definition collision_step ::
    "store \<Rightarrow> entry \<Rightarrow> seen \<times> (cls \<times> entry) list \<Rightarrow> (registry_error, seen \<times> (cls \<times> entry) list) result"
where
  "collision_step st e s =
     rbind (check_dims st e all_dimensions (fst s))
       (\<lambda>seen'. Inr (seen', dict_set (ed_exception (st (re_error e))) e (snd s)))"

definition validate_collisions :: "store \<Rightarrow> entry list \<Rightarrow> (registry_error, (cls \<times> entry) list) result" where
  "validate_collisions st entries =
     rbind (rfold (collision_step st) entries (\<lambda>_. [], [])) (\<lambda>s. Inr (snd s))"

definition initialize ::
    "store \<Rightarrow> entry list \<Rightarrow> string option \<Rightarrow> string option \<Rightarrow> (registry_error, registry) result" where
  "initialize st entries name base =
     rbind (validate_collisions st entries) (\<lambda>by.
       Inr \<lparr>rg_name = name, rg_base = base, rg_entries = entries, rg_by_exception = by\<rparr>)"

section \<open>Construction and composition\<close>

definition make_registry ::
    "(string \<Rightarrow> bool) \<Rightarrow> store \<Rightarrow> err item list \<Rightarrow> pyval \<Rightarrow> pyval \<Rightarrow> (registry_error, registry) result" where
  \<comment> \<open>\<open>ErrorRegistry.__init__\<close>\<close>
  "make_registry host_ok st errors name base =
     rbind (lift_cfg (validate_name name)) (\<lambda>n.
     rbind (lift_cfg (validate_type_base host_ok base)) (\<lambda>b.
     rbind (lift_cfg (unique_instances errors ''errors'')) (\<lambda>es.
       initialize st
         (map (\<lambda>e. \<lparr>re_error = e, re_uri = resolve_type_uri (st e) b,
                     re_source = (case n of None \<Rightarrow> ''<anonymous>'' | Some s \<Rightarrow> s)\<rparr>) es)
         n b)))"

definition merge_entry :: "entry \<Rightarrow> (err \<times> entry) list \<Rightarrow> (registry_error, (err \<times> entry) list) result" where
  "merge_entry e merged =
     (case dict_get merged (re_error e) of
        None \<Rightarrow> Inr (dict_set (re_error e) e merged)
      | Some previous \<Rightarrow>
          if re_uri previous \<noteq> None \<and> re_uri e \<noteq> None \<and> re_uri previous \<noteq> re_uri e
          then Inl (Reg_incompatible previous e)
          else if re_uri previous = None \<and> re_uri e \<noteq> None
          then Inr (dict_set (re_error e) (previous\<lparr>re_uri := re_uri e\<rparr>) merged)
          else Inr merged)"

definition resolve_entry :: "store \<Rightarrow> string option \<Rightarrow> entry \<Rightarrow> entry" where
  "resolve_entry st base e =
     (if re_uri e \<noteq> None \<or> base = None then e
      else e\<lparr>re_uri := resolve_type_uri (st (re_error e)) base\<rparr>)"

definition merge_registries ::
    "(string \<Rightarrow> bool) \<Rightarrow> store \<Rightarrow> (rid \<Rightarrow> registry) \<Rightarrow> rid item list \<Rightarrow> pyval \<Rightarrow> pyval
      \<Rightarrow> (registry_error, registry) result" where
  "merge_registries host_ok st regs rs name base =
     rbind (lift_cfg (validate_name name)) (\<lambda>n.
     rbind (lift_cfg (validate_type_base host_ok base)) (\<lambda>b.
     rbind (lift_cfg (unique_instances rs ''registries'')) (\<lambda>ids.
     rbind (rfold merge_entry (concat (map (\<lambda>i. rg_entries (regs i)) ids)) []) (\<lambda>merged.
       initialize st (map (resolve_entry st b) (dict_values merged)) n b))))"

section \<open>Queries\<close>

definition registry_errors :: "registry \<Rightarrow> err list" where
  "registry_errors r = map re_error (rg_entries r)"

definition resolve :: "registry \<Rightarrow> exc \<Rightarrow> err option" where
  "resolve r ex =
     map_option re_error (find_first (\<lambda>c. dict_get (rg_by_exception r) c) (exc_mro ex))"

definition type_uri_for :: "store \<Rightarrow> registry \<Rightarrow> err \<Rightarrow> (registry_error, string option) result" where
  "type_uri_for st r e =
     (case dict_get (rg_by_exception r) (ed_exception (st e)) of
        None \<Rightarrow> Inl (Reg_not_member (ed_code (st e)))
      | Some en \<Rightarrow> if re_error en \<noteq> e then Inl (Reg_not_member (ed_code (st e))) else Inr (re_uri en))"

definition contains :: "store \<Rightarrow> registry \<Rightarrow> err \<Rightarrow> bool" where
  "contains st r e =
     (case dict_get (rg_by_exception r) (ed_exception (st e)) of
        None \<Rightarrow> False | Some en \<Rightarrow> re_error en = e)"

definition require_resolved :: "store \<Rightarrow> registry \<Rightarrow> (registry_error, unit) result" where
  "require_resolved st r =
     (let unresolved = map (\<lambda>e. ed_code (st (re_error e))) (filter (\<lambda>e. re_uri e = None) (rg_entries r))
      in ensure (unresolved = []) (Reg_unresolved unresolved))"

section \<open>The collision check decides key injectivity\<close>

definition keys_injective :: "store \<Rightarrow> entry set \<Rightarrow> bool" where
  "keys_injective st E = (\<forall>d. \<forall>e\<in>E. \<forall>e'\<in>E. \<forall>k.
     dim_key st e d = Some k \<longrightarrow> dim_key st e' d = Some k \<longrightarrow> re_error e = re_error e')"

definition clash_free :: "store \<Rightarrow> entry \<Rightarrow> seen \<Rightarrow> dimension set \<Rightarrow> bool" where
  "clash_free st e seen D = (\<forall>d\<in>D. \<forall>k p.
     dim_key st e d = Some k \<longrightarrow> dict_get (seen d) k = Some p \<longrightarrow> re_error p = re_error e)"

definition record_keys :: "store \<Rightarrow> entry \<Rightarrow> dimension set \<Rightarrow> seen \<Rightarrow> seen" where
  "record_keys st e D seen = (\<lambda>d. if d \<in> D then
     (case dim_key st e d of None \<Rightarrow> seen d | Some k \<Rightarrow> dict_set k e (seen d)) else seen d)"

lemma set_all_dimensions [simp]: "set all_dimensions = UNIV"
proof -
  have "d \<in> set all_dimensions" for d by (cases d) (simp_all add: all_dimensions_def)
  then show ?thesis by auto
qed

lemma distinct_all_dimensions [simp]: "distinct all_dimensions"
  by (simp add: all_dimensions_def)

lemma check_dims_Some:
  assumes "dim_key st e d = Some k"
  shows "check_dims st e (d # ds) seen =
    (if \<exists>p. dict_get (seen d) k = Some p \<and> re_error p \<noteq> re_error e
     then Inl (Reg_collision d k (the (dict_get (seen d) k)) e)
     else check_dims st e ds (seen(d := dict_set k e (seen d))))"
  using assms by (cases "dict_get (seen d) k") simp_all

lemma record_keys_Some:
  assumes "dim_key st e d = Some k" and "d \<notin> D"
  shows "record_keys st e (insert d D) seen = record_keys st e D (seen(d := dict_set k e (seen d)))"
proof
  fix x
  show "record_keys st e (insert d D) seen x = record_keys st e D (seen(d := dict_set k e (seen d))) x"
    using assms by (cases "x = d") (simp_all add: record_keys_def split: option.split)
qed

lemma record_keys_None:
  assumes "dim_key st e d = None"
  shows "record_keys st e (insert d D) seen = record_keys st e D seen"
proof
  fix x
  show "record_keys st e (insert d D) seen x = record_keys st e D seen x"
    using assms by (cases "x = d") (simp_all add: record_keys_def)
qed

lemma clash_free_insert:
  "clash_free st e seen (insert d D) \<longleftrightarrow> clash_free st e seen D \<and>
    (\<forall>k p. dim_key st e d = Some k \<longrightarrow> dict_get (seen d) k = Some p \<longrightarrow> re_error p = re_error e)"
  by (auto simp: clash_free_def)

lemma clash_free_upd:
  "d \<notin> D \<Longrightarrow> clash_free st e (seen(d := x)) D \<longleftrightarrow> clash_free st e seen D"
  unfolding clash_free_def by (metis fun_upd_apply)

lemma check_dims_ok:
  "distinct ds \<Longrightarrow> clash_free st e seen (set ds) \<Longrightarrow>
    check_dims st e ds seen = Inr (record_keys st e (set ds) seen)"
proof (induction ds arbitrary: seen)
  case Nil
  then show ?case by (simp add: record_keys_def)
next
  case (Cons d ds)
  from Cons.prems have d: "d \<notin> set ds" "distinct ds" and cf: "clash_free st e seen (set ds)"
    and nc: "\<And>k p. dim_key st e d = Some k \<Longrightarrow> dict_get (seen d) k = Some p \<Longrightarrow> re_error p = re_error e"
    by (auto simp: clash_free_insert)
  show ?case
  proof (cases "dim_key st e d")
    case None
    with Cons.IH [OF d(2) cf] show ?thesis by (simp add: record_keys_None)
  next
    case (Some k)
    have "clash_free st e (seen(d := dict_set k e (seen d))) (set ds)"
      using cf clash_free_upd [OF d(1)] by blast
    from Cons.IH [OF d(2) this]
    have "check_dims st e ds (seen(d := dict_set k e (seen d))) =
        Inr (record_keys st e (set (d # ds)) seen)"
      by (simp only: list.set record_keys_Some [OF Some d(1)])
    moreover have "\<not> (\<exists>p. dict_get (seen d) k = Some p \<and> re_error p \<noteq> re_error e)"
      using nc [OF Some] by blast
    ultimately show ?thesis by (simp only: check_dims_Some [OF Some] if_False)
  qed
qed

lemma check_dims_clash:
  "distinct ds \<Longrightarrow> \<not> clash_free st e seen (set ds) \<Longrightarrow> \<not> succeeds (check_dims st e ds seen)"
proof (induction ds arbitrary: seen)
  case Nil
  then show ?case by (simp add: clash_free_def)
next
  case (Cons d ds)
  show ?case
  proof (cases "dim_key st e d")
    case None
    with Cons show ?thesis by (simp add: clash_free_insert)
  next
    case (Some k)
    show ?thesis
    proof (cases "\<exists>p. dict_get (seen d) k = Some p \<and> re_error p \<noteq> re_error e")
      case True
      then show ?thesis using Some by (simp only: check_dims_Some) simp
    next
      case False
      with Cons.prems Some have "\<not> clash_free st e seen (set ds)"
        by (auto simp: clash_free_insert)
      with Cons.prems(1) have "\<not> clash_free st e (seen(d := dict_set k e (seen d))) (set ds)"
        by (simp add: clash_free_upd)
      with Cons.IH Cons.prems(1) show ?thesis
        using Some False by (simp only: check_dims_Some) simp
    qed
  qed
qed

text \<open>What the two dictionaries hold after a prefix of the entries.\<close>

definition holds_keys :: "store \<Rightarrow> entry set \<Rightarrow> seen \<Rightarrow> bool" where
  "holds_keys st E seen \<longleftrightarrow>
     (\<forall>d k p. dict_get (seen d) k = Some p \<longrightarrow> p \<in> E \<and> dim_key st p d = Some k) \<and>
     (\<forall>d k e. e \<in> E \<longrightarrow> dim_key st e d = Some k \<longrightarrow> dict_get (seen d) k \<noteq> None)"

lemma holds_keysD: "holds_keys st E seen \<Longrightarrow> dict_get (seen d) k = Some p \<Longrightarrow> p \<in> E \<and> dim_key st p d = Some k"
  unfolding holds_keys_def by blast

lemma holds_keysE:
  assumes "holds_keys st E seen" "e \<in> E" "dim_key st e d = Some k"
  obtains p where "dict_get (seen d) k = Some p" "p \<in> E" "dim_key st p d = Some k"
  using assms unfolding holds_keys_def by blast

definition collision_inv ::
    "store \<Rightarrow> entry list \<Rightarrow> seen \<times> (cls \<times> entry) list \<Rightarrow> bool" where
  "collision_inv st es s \<longleftrightarrow> holds_keys st (set es) (fst s) \<and>
     (\<forall>c. dict_get (snd s) c = dict_get (fst s Dim_exception) c) \<and>
     wf_dict (snd s) \<and> keys_injective st (set es)"

lemma collision_inv_Nil: "collision_inv st [] (\<lambda>_. [], [])"
  by (simp add: collision_inv_def keys_injective_def holds_keys_def)

lemma keys_injectiveD:
  "keys_injective st E \<Longrightarrow> e \<in> E \<Longrightarrow> e' \<in> E \<Longrightarrow> dim_key st e d = Some k \<Longrightarrow>
    dim_key st e' d = Some k \<Longrightarrow> re_error e = re_error e'"
  unfolding keys_injective_def by blast

lemma keys_injective_mono: "keys_injective st B \<Longrightarrow> A \<subseteq> B \<Longrightarrow> keys_injective st A"
  unfolding keys_injective_def by blast

lemma keys_injective_insert:
  "keys_injective st (insert e E) \<longleftrightarrow> keys_injective st E \<and>
    (\<forall>x\<in>E. \<forall>d k. dim_key st x d = Some k \<longrightarrow> dim_key st e d = Some k \<longrightarrow> re_error x = re_error e)"
proof
  assume inj: "keys_injective st (insert e E)"
  have "keys_injective st E" using keys_injective_mono [OF inj] by blast
  moreover have "re_error x = re_error e"
    if "x \<in> E" "dim_key st x d = Some k" "dim_key st e d = Some k" for x d k
    using keys_injectiveD [OF inj insertI2 insertI1] that by blast
  ultimately show "keys_injective st E \<and>
    (\<forall>x\<in>E. \<forall>d k. dim_key st x d = Some k \<longrightarrow> dim_key st e d = Some k \<longrightarrow> re_error x = re_error e)"
    by blast
next
  assume a: "keys_injective st E \<and>
    (\<forall>x\<in>E. \<forall>d k. dim_key st x d = Some k \<longrightarrow> dim_key st e d = Some k \<longrightarrow> re_error x = re_error e)"
  show "keys_injective st (insert e E)"
    unfolding keys_injective_def
  proof (intro ballI allI impI)
    fix d x y k
    from a have old: "keys_injective st E"
      and new: "\<And>x d k. x \<in> E \<Longrightarrow> dim_key st x d = Some k \<Longrightarrow> dim_key st e d = Some k \<Longrightarrow> re_error x = re_error e"
      by blast+
    assume "x \<in> insert e E" "y \<in> insert e E" "dim_key st x d = Some k" "dim_key st y d = Some k"
    then consider "x = e" "y = e" | "x = e" "y \<in> E" | "x \<in> E" "y = e" | "x \<in> E" "y \<in> E"
      by blast
    then show "re_error x = re_error y"
    proof cases
      case 1 then show ?thesis by simp
    next
      case 2 with \<open>dim_key st x d = Some k\<close> \<open>dim_key st y d = Some k\<close>
      show ?thesis using new [of y d k] by simp
    next
      case 3 with \<open>dim_key st x d = Some k\<close> \<open>dim_key st y d = Some k\<close>
      show ?thesis using new [of x d k] by simp
    next
      case 4 with \<open>dim_key st x d = Some k\<close> \<open>dim_key st y d = Some k\<close>
      show ?thesis using keys_injectiveD [OF old] by blast
    qed
  qed
qed

lemma collision_clash_free_iff:
  assumes inv: "collision_inv st es s"
  shows "clash_free st e (fst s) UNIV \<longleftrightarrow> keys_injective st (insert e (set es))"
proof -
  from inv have hold: "holds_keys st (set es) (fst s)" and inj: "keys_injective st (set es)"
    by (simp_all add: collision_inv_def)
  show ?thesis
  proof
    assume cf: "clash_free st e (fst s) UNIV"
    have "re_error x = re_error e"
      if x: "x \<in> set es" and kx: "dim_key st x d = Some k" and ke: "dim_key st e d = Some k" for x d k
    proof -
      from holds_keysE [OF hold x kx] obtain p where p: "dict_get (fst s d) k = Some p"
        "p \<in> set es" "dim_key st p d = Some k" .
      have "re_error x = re_error p" using keys_injectiveD [OF inj x p(2) kx p(3)] .
      moreover have "re_error p = re_error e"
        using cf ke p(1) unfolding clash_free_def by blast
      ultimately show ?thesis by simp
    qed
    with inj show "keys_injective st (insert e (set es))"
      unfolding keys_injective_insert by blast
  next
    assume "keys_injective st (insert e (set es))"
    then show "clash_free st e (fst s) UNIV"
      using holds_keysD [OF hold] unfolding clash_free_def keys_injective_insert by blast
  qed
qed

lemma dict_get_record_keys:
  "dict_get (record_keys st e UNIV seen d) k =
    (if dim_key st e d = Some k then Some e else dict_get (seen d) k)"
  by (cases "dim_key st e d") (simp_all add: record_keys_def dict_get_set)

lemma holds_keys_record:
  assumes "holds_keys st E seen"
  shows "holds_keys st (insert e E) (record_keys st e UNIV seen)"
  using assms unfolding holds_keys_def dict_get_record_keys
  by (metis insert_iff option.distinct(1) option.inject)

lemma collision_step_inv:
  assumes inv: "collision_inv st es s" and cf: "clash_free st e (fst s) UNIV"
  shows "\<exists>s'. collision_step st e s = Inr s' \<and> collision_inv st (es @ [e]) s'"
proof -
  let ?s' = "(record_keys st e UNIV (fst s), dict_set (ed_exception (st (re_error e))) e (snd s))"
  have step: "collision_step st e s = Inr ?s'"
    using check_dims_ok [of all_dimensions st e "fst s"] cf by (simp add: collision_step_def)
  have "keys_injective st (set (es @ [e]))"
    using cf collision_clash_free_iff [OF inv] by simp
  moreover have "holds_keys st (set (es @ [e])) (fst ?s')"
    using inv holds_keys_record by (simp add: collision_inv_def)
  moreover have "dict_get (snd ?s') c = dict_get (fst ?s' Dim_exception) c" for c
    using inv by (simp add: dict_get_record_keys dict_get_set collision_inv_def)
  moreover have "wf_dict (snd ?s')"
    using inv by (simp add: collision_inv_def)
  ultimately show ?thesis using step unfolding collision_inv_def by blast
qed

lemma collision_fold:
  "collision_inv st es s \<Longrightarrow>
    (case rfold (collision_step st) xs s of
       Inr s' \<Rightarrow> collision_inv st (es @ xs) s'
     | Inl _ \<Rightarrow> \<not> keys_injective st (set (es @ xs)))"
proof (induction xs arbitrary: es s)
  case (Cons x xs)
  show ?case
  proof (cases "clash_free st x (fst s) UNIV")
    case True
    with Cons.prems obtain s1 where "collision_step st x s = Inr s1"
      and "collision_inv st (es @ [x]) s1"
      using collision_step_inv by blast
    with Cons.IH [of "es @ [x]" s1] show ?thesis
      by (cases "rfold (collision_step st) xs s1") simp_all
  next
    case False
    then have "\<not> succeeds (check_dims st x all_dimensions (fst s))"
      using check_dims_clash [of all_dimensions st x "fst s"] by simp
    then have "\<exists>err. collision_step st x s = Inl err"
      by (cases "check_dims st x all_dimensions (fst s)") (auto simp: collision_step_def)
    moreover have "\<not> keys_injective st (insert x (set es))"
      using False collision_clash_free_iff [OF Cons.prems] by simp
    then have "\<not> keys_injective st (set (es @ x # xs))"
      using keys_injective_mono [of st "set (es @ x # xs)" "insert x (set es)"] by auto
    ultimately show ?thesis by auto
  qed
qed simp

lemma validate_collisions_succeeds:
  "succeeds (validate_collisions st es) \<longleftrightarrow> keys_injective st (set es)"
proof (cases "rfold (collision_step st) es (\<lambda>_. [], [])")
  case (Inl err)
  with collision_fold [OF collision_inv_Nil, of st es] show ?thesis
    by (simp add: validate_collisions_def)
next
  case (Inr s)
  with collision_fold [OF collision_inv_Nil, of st es] show ?thesis
    by (simp add: validate_collisions_def collision_inv_def)
qed

section \<open>The registry invariant\<close>

definition registry_wf :: "store \<Rightarrow> registry \<Rightarrow> bool" where
  "registry_wf st r \<longleftrightarrow>
     distinct (registry_errors r) \<and> keys_injective st (set (rg_entries r)) \<and>
     (\<forall>c en. dict_get (rg_by_exception r) c = Some en \<longleftrightarrow>
        en \<in> set (rg_entries r) \<and> ed_exception (st (re_error en)) = c)"

lemma inj_entries:
  "distinct (map re_error es) \<Longrightarrow> x \<in> set es \<Longrightarrow> y \<in> set es \<Longrightarrow> re_error x = re_error y \<Longrightarrow> x = y"
  by (induction es) (auto dest: image_eqI [of _ re_error] simp: image_iff)

lemma initialize_wf:
  assumes "initialize st es name base = Inr r" and "distinct (map re_error es)"
  shows "registry_wf st r \<and> rg_entries r = es \<and> rg_base r = base \<and> rg_name r = name"
proof -
  from assms(1) obtain s where fold: "rfold (collision_step st) es (\<lambda>_. [], []) = Inr s"
    and r: "r = \<lparr>rg_name = name, rg_base = base, rg_entries = es, rg_by_exception = snd s\<rparr>"
    by (auto simp: initialize_def validate_collisions_def)
  from collision_fold [OF collision_inv_Nil, of st es] fold
  have inv: "collision_inv st es s" by simp
  then have hold: "holds_keys st (set es) (fst s)" and inj: "keys_injective st (set es)"
    and get: "\<And>c. dict_get (snd s) c = dict_get (fst s Dim_exception) c"
    by (simp_all add: collision_inv_def)
  have "dict_get (snd s) c = Some en \<longleftrightarrow> en \<in> set es \<and> ed_exception (st (re_error en)) = c" for c en
  proof
    assume "dict_get (snd s) c = Some en"
    then have "dict_get (fst s Dim_exception) c = Some en" using get by simp
    from holds_keysD [OF hold this]
    show "en \<in> set es \<and> ed_exception (st (re_error en)) = c" by simp
  next
    assume en: "en \<in> set es \<and> ed_exception (st (re_error en)) = c"
    then have key: "dim_key st en Dim_exception = Some c" by simp
    from en holds_keysE [OF hold _ key]
    obtain p where p: "dict_get (fst s Dim_exception) c = Some p"
      "p \<in> set es" "dim_key st p Dim_exception = Some c" by blast
    with en have "re_error p = re_error en"
      using keys_injectiveD [OF inj p(2) _ p(3) key] by blast
    with p en assms(2) have "p = en" using inj_entries by blast
    with p get show "dict_get (snd s) c = Some en" by simp
  qed
  with inv r assms(2) show ?thesis
    by (simp add: registry_wf_def registry_errors_def collision_inv_def)
qed

section \<open>Composition: order, URIs and identity\<close>

definition keyed :: "(err \<times> entry) list \<Rightarrow> bool" where
  "keyed m = (wf_dict m \<and> (\<forall>(i, e)\<in>set m. re_error e = i))"

lemma keyed_Nil [simp]: "keyed []"
  by (simp add: keyed_def)

lemma keyed_get: "keyed m \<Longrightarrow> dict_get m i = Some e \<Longrightarrow> re_error e = i"
  by (auto simp: keyed_def dest: map_of_SomeD)

lemma keyed_set: "keyed m \<Longrightarrow> re_error e = i \<Longrightarrow> keyed (dict_set i e m)"
  by (auto simp: keyed_def set_dict_set)

lemma keyed_values: "keyed m \<Longrightarrow> map re_error (dict_values m) = map fst m"
  by (auto simp: keyed_def dict_values_def)

lemma merge_entry_keyed:
  "merge_entry e m = Inr m' \<Longrightarrow> keyed m \<Longrightarrow> keyed m'"
  by (auto simp: merge_entry_def intro!: keyed_set split: option.splits if_splits dest: keyed_get)

lemma merge_entry_keys:
  assumes "merge_entry e m = Inr m'"
  shows "map fst m' = map fst m @ uniq_from (map fst m) [re_error e]"
proof -
  have mem: "dict_get m (re_error e) = None \<longleftrightarrow> re_error e \<notin> fst ` set m"
    by (simp add: map_of_eq_None_iff)
  show ?thesis
    using assms mem unfolding merge_entry_def
    by (auto simp: map_fst_dict_set image_iff split: option.splits if_splits) force+
qed

lemma merge_fold_keys:
  "rfold merge_entry es m = Inr m' \<Longrightarrow>
    map fst m' = map fst m @ uniq_from (map fst m) (map re_error es)"
proof (induction es arbitrary: m)
  case (Cons e es)
  then obtain m1 where m1: "merge_entry e m = Inr m1" and rest: "rfold merge_entry es m1 = Inr m'"
    by auto
  have eq: "map fst m1 = map fst m @ uniq_from (map fst m) [re_error e]"
    by (rule merge_entry_keys [OF m1])
  have "map fst m' = map fst m1 @ uniq_from (map fst m1) (map re_error es)"
    by (rule Cons.IH [OF rest])
  moreover have "uniq_from (map fst m1) (map re_error es) =
      uniq_from (re_error e # map fst m) (map re_error es)"
    by (rule uniq_from_cong) (auto simp: eq)
  ultimately show ?case
    using eq uniq_from_cong [of "re_error e # map fst m" "map fst m"] by auto
qed simp

lemma merge_fold_keyed:
  "rfold merge_entry es m = Inr m' \<Longrightarrow> keyed m \<Longrightarrow> keyed m'"
  by (rule rfold_invariant [where P = keyed]) (auto intro: merge_entry_keyed)

text \<open>A resolved URI is never lost nor changed by the entries merged after it.\<close>

definition has_uri :: "(err \<times> entry) list \<Rightarrow> err \<Rightarrow> string \<Rightarrow> bool" where
  "has_uri m i u = (\<exists>e. dict_get m i = Some e \<and> re_uri e = Some u)"

lemma merge_entry_uri:
  assumes "merge_entry e m = Inr m'" and "has_uri m i u"
  shows "has_uri m' i u"
  using assms by (auto simp: merge_entry_def has_uri_def dict_get_set split: option.splits if_splits)

lemma merge_entry_own_uri:
  assumes "merge_entry e m = Inr m'" and "re_uri e = Some u"
  shows "has_uri m' (re_error e) u"
  using assms by (auto simp: merge_entry_def has_uri_def dict_get_set split: option.splits if_splits)

lemma merge_fold_uri:
  "rfold merge_entry es m = Inr m' \<Longrightarrow> has_uri m i u \<Longrightarrow> has_uri m' i u"
  by (rule rfold_invariant [where P = "\<lambda>m. has_uri m i u"]) (auto intro: merge_entry_uri)

lemma merge_fold_own_uri:
  assumes "rfold merge_entry es m = Inr m'" and "e \<in> set es" and "re_uri e = Some u"
  shows "has_uri m' (re_error e) u"
proof -
  from assms(2) obtain us vs where es: "es = us @ e # vs" by (meson split_list)
  with assms(1) obtain m1 m2 where "merge_entry e m1 = Inr m2" "rfold merge_entry vs m2 = Inr m'"
    by (auto simp: rfold_append)
  then show ?thesis using merge_entry_own_uri [OF _ assms(3)] merge_fold_uri by blast
qed

lemma resolve_entry_error [simp]: "re_error (resolve_entry st b e) = re_error e"
  by (simp add: resolve_entry_def)

lemma resolve_entry_uri: "re_uri e = Some u \<Longrightarrow> re_uri (resolve_entry st b e) = Some u"
  by (simp add: resolve_entry_def)

lemma resolve_entry_based: "b \<noteq> None \<Longrightarrow> re_uri (resolve_entry st b e) \<noteq> None"
  by (auto simp: resolve_entry_def resolve_type_uri_def split: option.splits)

lemma merge_registriesE:
  assumes "merge_registries host_ok st regs rs name base = Inr r"
  obtains n b m where "validate_name name = Inr n" "validate_type_base host_ok base = Inr b"
    "Foreign \<notin> set rs"
    "rfold merge_entry (concat (map (\<lambda>i. rg_entries (regs i)) (fromkeys (instances rs)))) [] = Inr m"
    "initialize st (map (resolve_entry st b) (dict_values m)) n b = Inr r"
    "map fst m = fromkeys (concat (map (\<lambda>i. registry_errors (regs i)) (fromkeys (instances rs))))"
    "keyed m"
proof -
  from assms obtain n b ids m where *: "validate_name name = Inr n"
    "validate_type_base host_ok base = Inr b" "unique_instances rs ''registries'' = Inr ids"
    "rfold merge_entry (concat (map (\<lambda>i. rg_entries (regs i)) ids)) [] = Inr m"
    "initialize st (map (resolve_entry st b) (dict_values m)) n b = Inr r"
    by (auto simp: merge_registries_def)
  then have ids: "Foreign \<notin> set rs" "ids = fromkeys (instances rs)"
    by (simp_all add: unique_instances_Inr)
  from merge_fold_keys [OF *(4)]
  have "map fst m = fromkeys (concat (map (\<lambda>i. registry_errors (regs i)) ids))"
    by (simp add: registry_errors_def map_concat comp_def)
  moreover have "keyed m" using merge_fold_keyed [OF *(4)] by simp
  ultimately show thesis using that * ids by blast
qed

lemma merge_registries_core:
  assumes "merge_registries host_ok st regs rs name base = Inr r"
  shows "registry_errors r = fromkeys (concat (map (\<lambda>i. registry_errors (regs i)) (fromkeys (instances rs))))"
    and "registry_wf st r" and "rg_base r \<noteq> None \<Longrightarrow> require_resolved st r = Inr ()"
    and "validate_type_base host_ok base = Inr (rg_base r)"
proof -
  from assms obtain n b m where m: "validate_type_base host_ok base = Inr b"
    "initialize st (map (resolve_entry st b) (dict_values m)) n b = Inr r"
    "map fst m = fromkeys (concat (map (\<lambda>i. registry_errors (regs i)) (fromkeys (instances rs))))"
    "keyed m"
    by (rule merge_registriesE)
  have errs: "map re_error (map (resolve_entry st b) (dict_values m)) = map fst m"
    using keyed_values [OF m(4)] by (simp add: comp_def)
  with m(3) have "distinct (map re_error (map (resolve_entry st b) (dict_values m)))" by simp
  note init = initialize_wf [OF m(2) this]
  show "registry_errors r = fromkeys (concat (map (\<lambda>i. registry_errors (regs i)) (fromkeys (instances rs))))"
    "registry_wf st r" "validate_type_base host_ok base = Inr (rg_base r)"
    using init errs m(1,3) by (auto simp: registry_errors_def)
  show "require_resolved st r = Inr ()" if "rg_base r \<noteq> None"
    using init that resolve_entry_based [of b st]
    by (auto simp: require_resolved_def Let_def filter_empty_conv)
qed

section \<open>Properties of the registry\<close>

text \<open>
  A registry that was constructed (its name, base and definitions accepted) holds
  each given definition once, in declaration order, no two of its definitions share an exception
  class, a code, a resolved type URI or a schema name, and its index by exception class holds
  exactly its entries.
\<close>

theorem registry_construction_sound:
  assumes "make_registry host_ok st errors name base = Inr r"
  shows "registry_errors r = fromkeys (instances errors) \<and> registry_wf st r"
proof -
  from assms obtain n b es where es: "unique_instances errors ''errors'' = Inr es"
    and init: "initialize st
         (map (\<lambda>e. \<lparr>re_error = e, re_uri = resolve_type_uri (st e) b,
                     re_source = (case n of None \<Rightarrow> ''<anonymous>'' | Some s \<Rightarrow> s)\<rparr>) es) n b = Inr r"
    by (auto simp: make_registry_def)
  from es have eq: "es = fromkeys (instances errors)"
    by (simp add: unique_instances_Inr)
  have "distinct (map re_error (map (\<lambda>e. \<lparr>re_error = e, re_uri = resolve_type_uri (st e) b,
      re_source = (case n of None \<Rightarrow> ''<anonymous>'' | Some s \<Rightarrow> s)\<rparr>) es))"
    by (simp add: comp_def eq)
  from initialize_wf [OF init this] eq show ?thesis
    by (auto simp: registry_errors_def comp_def)
qed

text \<open>
  Claim C33. Composing registries keeps every definition once, in the order of first
  contribution; the result satisfies the registry invariant; a type URI that a contributing
  registry had resolved is the composed one; and with a type base every URI is resolved.
\<close>

theorem merge_registries_sound:
  assumes "merge_registries host_ok st regs rs name base = Inr r"
  shows "registry_errors r =
      fromkeys (concat (map (\<lambda>i. registry_errors (regs i)) (fromkeys (instances rs)))) \<and>
    registry_wf st r \<and>
    (\<forall>i\<in>set (instances rs). \<forall>e\<in>set (rg_entries (regs i)). \<forall>u. re_uri e = Some u \<longrightarrow>
       type_uri_for st r (re_error e) = Inr (Some u)) \<and>
    (rg_base r \<noteq> None \<longrightarrow> require_resolved st r = Inr ())"
proof -
  from assms obtain n b m where m:
    "rfold merge_entry (concat (map (\<lambda>i. rg_entries (regs i)) (fromkeys (instances rs)))) [] = Inr m"
    "initialize st (map (resolve_entry st b) (dict_values m)) n b = Inr r"
    "map fst m = fromkeys (concat (map (\<lambda>i. registry_errors (regs i)) (fromkeys (instances rs))))"
    "keyed m"
    by (rule merge_registriesE)
  have "map re_error (map (resolve_entry st b) (dict_values m)) = map fst m"
    using keyed_values [OF m(4)] by (simp add: comp_def)
  with m(3) have "distinct (map re_error (map (resolve_entry st b) (dict_values m)))" by simp
  note init = initialize_wf [OF m(2) this]
  have "type_uri_for st r (re_error e) = Inr (Some u)"
    if "i \<in> set (instances rs)" "e \<in> set (rg_entries (regs i))" "re_uri e = Some u" for i e u
  proof -
    have "e \<in> set (concat (map (\<lambda>i. rg_entries (regs i)) (fromkeys (instances rs))))"
      using that by auto
    from merge_fold_own_uri [OF m(1) this that(3)] obtain e' where
      e': "dict_get m (re_error e) = Some e'" "re_uri e' = Some u"
      by (auto simp: has_uri_def)
    then have "(re_error e, e') \<in> set m" by (simp add: map_of_SomeD)
    then have "resolve_entry st b e' \<in> set (rg_entries r)"
      using init by (force simp: dict_values_def)
    moreover have "re_error e' = re_error e" using keyed_get [OF m(4) e'(1)] .
    ultimately have "dict_get (rg_by_exception r) (ed_exception (st (re_error e))) =
        Some (resolve_entry st b e')"
      using init by (auto simp: registry_wf_def)
    then show ?thesis
      using \<open>re_error e' = re_error e\<close> e'(2) by (simp add: type_uri_for_def resolve_entry_uri)
  qed
  with merge_registries_core [OF assms] show ?thesis by blast
qed

text \<open>
  Claim C34. Resolution follows the exception's method resolution order: the resolved
  definition is registered for the first class of the order that any definition is registered
  for, and nothing resolves exactly when no class of the order is registered.
\<close>

theorem resolve_most_specific:
  assumes "registry_wf st r"
  shows "(resolve r ex = Some e \<longrightarrow>
      (\<exists>us vs. exc_mro ex = us @ ed_exception (st e) # vs \<and> e \<in> set (registry_errors r) \<and>
        (\<forall>u\<in>set us. \<forall>e'\<in>set (registry_errors r). ed_exception (st e') \<noteq> u))) \<and>
    (resolve r ex = None \<longleftrightarrow>
      (\<forall>e'\<in>set (registry_errors r). \<not> instance_of ex (ed_exception (st e'))))"
proof -
  have get: "dict_get (rg_by_exception r) c = Some en \<longleftrightarrow>
      en \<in> set (rg_entries r) \<and> ed_exception (st (re_error en)) = c" for c en
    using assms by (simp add: registry_wf_def)
  have none: "dict_get (rg_by_exception r) c = None \<longleftrightarrow>
      (\<forall>e'\<in>set (registry_errors r). ed_exception (st e') \<noteq> c)" for c
    using get [of c] by (cases "dict_get (rg_by_exception r) c") (auto simp: registry_errors_def)
  have "\<exists>us vs. exc_mro ex = us @ ed_exception (st e) # vs \<and> e \<in> set (registry_errors r) \<and>
        (\<forall>u\<in>set us. \<forall>e'\<in>set (registry_errors r). ed_exception (st e') \<noteq> u)"
    if "resolve r ex = Some e"
  proof -
    from that obtain en where en: "re_error en = e"
      "find_first (\<lambda>c. dict_get (rg_by_exception r) c) (exc_mro ex) = Some en"
      by (auto simp: resolve_def)
    from find_first_Some_split [OF en(2)] obtain us c vs where
      mro: "exc_mro ex = us @ c # vs" and c: "dict_get (rg_by_exception r) c = Some en"
      and us: "\<forall>u\<in>set us. dict_get (rg_by_exception r) u = None"
      by blast
    from c get en(1) have "ed_exception (st e) = c" "e \<in> set (registry_errors r)"
      by (auto simp: registry_errors_def)
    with mro us none show ?thesis by blast
  qed
  moreover have "resolve r ex = None \<longleftrightarrow>
      (\<forall>c\<in>set (exc_mro ex). dict_get (rg_by_exception r) c = None)"
    by (simp add: resolve_def find_first_None)
  ultimately show ?thesis
    using none by (auto simp: instance_of_def)
qed

text \<open>
  Membership is by identity: in a registry satisfying the invariant \<open>contains\<close>
  holds exactly for the registered definitions, and the type URI lookup raises exactly for the
  others.
\<close>

theorem membership_by_identity:
  assumes "registry_wf st r"
  shows "(contains st r e \<longleftrightarrow> e \<in> set (registry_errors r)) \<and>
    (succeeds (type_uri_for st r e) \<longleftrightarrow> contains st r e)"
proof -
  have get: "dict_get (rg_by_exception r) c = Some en \<longleftrightarrow>
      en \<in> set (rg_entries r) \<and> ed_exception (st (re_error en)) = c" for c en
    using assms by (simp add: registry_wf_def)
  have "contains st r e" if mem: "e \<in> set (registry_errors r)"
  proof -
    from mem obtain en where "en \<in> set (rg_entries r)" "re_error en = e"
      by (auto simp: registry_errors_def)
    with get [of "ed_exception (st e)" en] show ?thesis by (simp add: contains_def)
  qed
  moreover have "e \<in> set (registry_errors r)" if "contains st r e"
    using that get by (auto simp: contains_def registry_errors_def split: option.splits)
  ultimately show ?thesis
    by (auto simp: contains_def type_uri_for_def split: option.splits)
qed

section \<open>Witnesses\<close>

definition sample_def :: "cls \<Rightarrow> string \<Rightarrow> error_def" where
  "sample_def c code = \<lparr>ed_exception = c, ed_status = 404, ed_code = code, ed_title = ''T'',
     ed_type = None, ed_schema_name = None, ed_detail = Absent, ed_model = None,
     ed_extensions = Absent, ed_headers = Absent\<rparr>"

definition sample_store :: store where
  "sample_store i = (if i = 0 then sample_def ''LookupError'' ''lookup_failed''
     else sample_def ''KeyError'' ''key_missing'')"

definition sample_registry :: registry where
  "sample_registry =
     (case make_registry (\<lambda>_. True) sample_store [Instance 0, Instance 1, Instance 0] PNone PNone of
        Inr r \<Rightarrow> r | Inl _ \<Rightarrow> \<lparr>rg_name = None, rg_base = None, rg_entries = [], rg_by_exception = []\<rparr>)"

lemma sample_registry_made:
  "make_registry (\<lambda>_. True) sample_store [Instance 0, Instance 1, Instance 0] PNone PNone
     = Inr sample_registry"
  by code_simp

definition sample_merged :: registry where
  "sample_merged =
     (case merge_registries (\<lambda>_. True) sample_store (\<lambda>_. sample_registry) [Instance 0, Instance 7]
        (PStr ''application'') (PStr ''urn:p'') of
        Inr r \<Rightarrow> r | Inl _ \<Rightarrow> \<lparr>rg_name = None, rg_base = None, rg_entries = [], rg_by_exception = []\<rparr>)"

lemma sample_merged_made:
  "merge_registries (\<lambda>_. True) sample_store (\<lambda>_. sample_registry) [Instance 0, Instance 7]
     (PStr ''application'') (PStr ''urn:p'') = Inr sample_merged"
  by code_simp

lemma sample_errors: "registry_errors sample_registry = [0, 1]"
  by code_simp

lemma sample_registry_wf: "registry_wf sample_store sample_registry"
proof -
  have "initialize sample_store (rg_entries sample_registry) None None = Inr sample_registry"
    by code_simp
  moreover have "distinct (map re_error (rg_entries sample_registry))"
    using sample_errors by (simp add: registry_errors_def)
  ultimately show ?thesis using initialize_wf by blast
qed

theorem registry_construction_sound_witness:
  "registry_errors sample_registry = [0, 1] \<and> registry_wf sample_store sample_registry"
  using registry_construction_sound [OF sample_registry_made] by simp

theorem merge_registries_sound_witness:
  "registry_errors sample_merged = [0, 1] \<and> require_resolved sample_store sample_merged = Inr ()"
proof -
  have "rg_base sample_merged = Some ''urn:p''" by code_simp
  then show ?thesis
    using merge_registries_sound [OF sample_merged_made] sample_errors by simp
qed

theorem resolve_most_specific_witness:
  "\<exists>us vs. [''KeyError'', ''LookupError'', ''Exception''] = us @ ed_exception (sample_store 1) # vs"
proof -
  have "resolve sample_registry \<lparr>exc_mro = [''KeyError'', ''LookupError'', ''Exception''], exc_text = ''k''\<rparr> = Some 1"
    by code_simp
  then show ?thesis
    using resolve_most_specific [OF sample_registry_wf, of
        "\<lparr>exc_mro = [''KeyError'', ''LookupError'', ''Exception''], exc_text = ''k''\<rparr>" 1]
    by auto
qed

theorem membership_by_identity_witness:
  "contains sample_store sample_registry 1 \<and> \<not> succeeds (type_uri_for sample_store sample_registry 2)"
  using membership_by_identity [OF sample_registry_wf, of 1]
    membership_by_identity [OF sample_registry_wf, of 2] sample_errors by simp

end
