(* ===== verification/Error_Rendering.thy ===== *)
theory Error_Rendering
  imports Error_Registry
begin

text \<open>
  Problem Details: the validated payload of \<open>fastapi_canon/error/problem.py\<close>, rendering an
  error occurrence (\<open>rendering.py\<close>), the catalog's entry points (\<open>catalog.py\<close>) and the
  response metadata reader of \<open>contracts.py\<close>. A renderer callback is a function that returns
  any Python value or raises.
\<close>

section \<open>JSON values (problem.py, rendering.py)\<close>

definition str_key :: "pyval \<Rightarrow> bool" where
  "str_key k = (case k of PStr _ \<Rightarrow> True | _ \<Rightarrow> False)"

fun is_json_value :: "pyval \<Rightarrow> bool" where
  "is_json_value PNone = True"
| "is_json_value (PBool b) = True"
| "is_json_value (PInt i) = True"
| "is_json_value (PStr s) = True"
| "is_json_value (PFloat f) = is_finite f"
| "is_json_value (PList xs) = list_all is_json_value xs"
| "is_json_value (PTuple xs) = list_all is_json_value xs"
| "is_json_value (PDict kvs) =
     list_all (\<lambda>(k, v). str_key k \<and> is_json_value v) kvs"
| "is_json_value _ = False"

fun json_extension :: "pyval \<Rightarrow> (cfg_error, pyval) result"
and json_items :: "pyval list \<Rightarrow> (cfg_error, pyval list) result"
and json_pairs :: "(pyval \<times> pyval) list \<Rightarrow> (cfg_error, (pyval \<times> pyval) list) result" where
  "json_extension (PDict kvs) =
     (if \<not> list_all (\<lambda>p. str_key (fst p)) kvs then Inl (Cfg ''extension object keys must be strings'')
      else rbind (json_pairs kvs) (\<lambda>ws. Inr (PDict ws)))"
| "json_extension (PList xs) = rbind (json_items xs) (\<lambda>ys. Inr (PList ys))"
| "json_extension (PTuple xs) = rbind (json_items xs) (\<lambda>ys. Inr (PList ys))"
| "json_extension (PFloat f) =
     (if \<not> is_finite f then Inl (Cfg ''extensions must contain finite JSON numbers'')
      else Inr (PFloat f))"
| "json_extension PNone = Inr PNone"
| "json_extension (PStr s) = Inr (PStr s)"
| "json_extension (PBool b) = Inr (PBool b)"
| "json_extension (PInt i) = Inr (PInt i)"
| "json_extension v = Inl (Cfg ''extensions must contain JSON-native values'')"
| "json_items [] = Inr []"
| "json_items (x # xs) = rbind (json_extension x) (\<lambda>y. rbind (json_items xs) (\<lambda>ys. Inr (y # ys)))"
| "json_pairs [] = Inr []"
| "json_pairs ((k, v) # kvs) =
     rbind (json_extension v) (\<lambda>w. rbind (json_pairs kvs) (\<lambda>ws. Inr ((k, w) # ws)))"

lemma freeze_pairs_str: "freeze_pairs path kvs = Inr ws \<Longrightarrow> list_all (\<lambda>p. str_key (fst p)) ws"
proof (induction kvs arbitrary: ws)
  case (Cons p kvs)
  obtain k v where "p = (k, v)" by (cases p)
  with Cons show ?case by (cases k) (auto simp: str_key_def)
qed simp

lemma json_of_frozen:
  "freeze_json path v = Inr w \<Longrightarrow> json_extension w = Inr v"
  "freeze_items path i xs = Inr ys \<Longrightarrow> json_items ys = Inr xs"
  "freeze_pairs path kvs = Inr ws \<Longrightarrow> json_pairs ws = Inr kvs"
proof (induction path v and path i xs and path kvs arbitrary: w and ys and ws
    rule: freeze_json_freeze_items_freeze_pairs.induct)
  case (7 path kvs)
  then show ?case by (auto dest: freeze_pairs_str)
qed (auto split: if_splits pyval.splits)

lemma json_extension_json:
  "json_extension v = Inr w \<Longrightarrow> is_json_value w"
  "json_items xs = Inr ys \<Longrightarrow> list_all is_json_value ys"
  "json_pairs kvs = Inr ws \<Longrightarrow> list_all (\<lambda>p. str_key (fst p)) kvs \<Longrightarrow>
     list_all (\<lambda>(k, v). str_key k \<and> is_json_value v) ws"
proof (induction v and xs and kvs arbitrary: w and ys and ws rule: json_extension_json_items_json_pairs.induct)
qed (auto split: if_splits)

lemma json_extension_id:
  "json_extension v = Inr w \<Longrightarrow> json_extension w = Inr w"
  "json_items xs = Inr ys \<Longrightarrow> json_items ys = Inr ys"
  "json_pairs kvs = Inr ws \<Longrightarrow> list_all (\<lambda>p. str_key (fst p)) kvs \<Longrightarrow>
     json_pairs ws = Inr ws \<and> list_all (\<lambda>p. str_key (fst p)) ws"
proof (induction v and xs and kvs arbitrary: w and ys and ws rule: json_extension_json_items_json_pairs.induct)
qed (auto split: if_splits)

lemma json_extension_accepts:
  "is_json_value v \<Longrightarrow> succeeds (json_extension v)"
  "list_all is_json_value xs \<Longrightarrow> succeeds (json_items xs)"
  "list_all (\<lambda>(k, v). str_key k \<and> is_json_value v) kvs \<Longrightarrow>
     succeeds (json_pairs kvs) \<and> list_all (\<lambda>p. str_key (fst p)) kvs"
proof (induction v and xs and kvs rule: json_extension_json_items_json_pairs.induct)
qed (auto simp: succeeds_iff case_prod_beta elim: list.pred_mono_strong)

section \<open>Problem payloads (problem.py)\<close>

record problem =
  p_type :: string
  p_title :: string
  p_status :: "int option"
  p_code :: string
  p_detail :: "string option"
  p_instance :: "string option"
  p_extra :: "(string \<times> pyval) list"

definition problem_type_ok :: "(string \<Rightarrow> bool) \<Rightarrow> string \<Rightarrow> bool" where
  "problem_type_ok host_ok v = is_absolute_uri host_ok v"

definition problem_title_ok :: "string \<Rightarrow> bool" where
  "problem_title_ok v = (\<not> (blank v \<or> \<not> single_line v))"

definition problem_status_ok :: "int option \<Rightarrow> bool" where
  "problem_status_ok v = (case v of None \<Rightarrow> True | Some n \<Rightarrow> 100 \<le> n \<and> n \<le> 599)"

definition problem_instance_ok :: "(string \<Rightarrow> bool) \<Rightarrow> string option \<Rightarrow> bool" where
  "problem_instance_ok host_ok v = (case v of None \<Rightarrow> True | Some s \<Rightarrow> is_uri_reference host_ok s)"

definition problem_valid :: "(string \<Rightarrow> bool) \<Rightarrow> problem \<Rightarrow> bool" where
  "problem_valid host_ok p =
     (problem_type_ok host_ok (p_type p) \<and> problem_title_ok (p_title p) \<and>
      problem_status_ok (p_status p) \<and> is_code (p_code p) \<and>
      problem_instance_ok host_ok (p_instance p) \<and>
      list_all (\<lambda>(n, v). is_json_value v) (p_extra p))"

definition opt_str :: "string option \<Rightarrow> pyval" where
  "opt_str v = (case v of None \<Rightarrow> PNone | Some s \<Rightarrow> PStr s)"

definition opt_int :: "int option \<Rightarrow> pyval" where
  "opt_int v = (case v of None \<Rightarrow> PNone | Some n \<Rightarrow> PInt n)"

definition model_dump_problem :: "problem \<Rightarrow> (string \<times> pyval) list" where
  "model_dump_problem p =
     [(''type'', PStr (p_type p)), (''title'', PStr (p_title p)), (''status'', opt_int (p_status p)),
      (''code'', PStr (p_code p)), (''detail'', opt_str (p_detail p)),
      (''instance'', opt_str (p_instance p))] @ p_extra p"

definition pop_none :: "string \<Rightarrow> (string \<times> pyval) list \<Rightarrow> (string \<times> pyval) list" where
  "pop_none name result =
     (case dict_get result name of
        None \<Rightarrow> dict_pop name result
      | Some v \<Rightarrow> if v = PNone then dict_pop name result else result)"

definition as_dict :: "problem \<Rightarrow> (string \<times> pyval) list" where
  "as_dict p =
     foldl (\<lambda>result name. pop_none name result) (model_dump_problem p)
       [''status'', ''detail'', ''instance'']"

section \<open>Rendering (rendering.py)\<close>

datatype render_error = R_cfg cfg_error | R_raised exc

definition lift_render :: "(cfg_error, 'a) result \<Rightarrow> (render_error, 'a) result" where
  "lift_render m = (case m of Inl e \<Rightarrow> Inl (R_cfg e) | Inr x \<Rightarrow> Inr x)"

lemma lift_render_Inr [simp]: "lift_render m = Inr x \<longleftrightarrow> m = Inr x"
  by (cases m) (auto simp: lift_render_def)

definition call_renderer :: "(exc \<Rightarrow> (exc, pyval) result) \<Rightarrow> exc \<Rightarrow> (render_error, pyval) result" where
  "call_renderer f ex = (case f ex of Inl raised \<Rightarrow> Inl (R_raised raised) | Inr v \<Rightarrow> Inr v)"

record render_api = model_api +
  dump_model :: "cls \<Rightarrow> (pyval \<times> pyval) list option"

definition render_detail :: "error_def \<Rightarrow> exc \<Rightarrow> (render_error, string option) result" where
  "render_detail e ex =
     rbind (case ed_detail e of
              Absent \<Rightarrow> Inr PNone | Static s \<Rightarrow> Inr (PStr s) | Call f \<Rightarrow> call_renderer f ex)
       (\<lambda>rendered. case rendered of
          PNone \<Rightarrow> Inr None
        | PStr s \<Rightarrow> Inr (Some s)
        | _ \<Rightarrow> Inl (R_cfg (Cfg ''detail callback must return a string or None'')))"

definition render_extensions ::
    "render_api \<Rightarrow> error_def \<Rightarrow> exc \<Rightarrow> (render_error, (pyval \<times> pyval) list) result" where
  "render_extensions api e ex =
     rbind (case ed_extensions e of
              Absent \<Rightarrow> Inr PNone | Static d \<Rightarrow> Inr (PDict d) | Call f \<Rightarrow> call_renderer f ex)
       (\<lambda>rendered. if rendered = PNone then Inr [] else
          rbind (case rendered of
                   PDict d \<Rightarrow> Inr d
                 | PObj c \<Rightarrow>
                     (case dump_model api c of
                        Some d \<Rightarrow> Inr d
                      | None \<Rightarrow> Inl (R_cfg (Cfg ''extensions callback must return a mapping or BaseModel'')))
                 | _ \<Rightarrow> Inl (R_cfg (Cfg ''extensions callback must return a mapping or BaseModel'')))
            (\<lambda>d. case ed_model e of
                   None \<Rightarrow> Inr d
                 | Some m \<Rightarrow>
                     (case validate_dump api m d of
                        None \<Rightarrow> Inl (R_cfg (Cfg ''rendered extensions do not validate against extensions_model''))
                      | Some d' \<Rightarrow> Inr d')))"

definition str_pairs :: "(pyval \<times> pyval) list \<Rightarrow> (string \<times> pyval) list option" where
  \<comment> \<open>keyword expansion \<open>**extensions\<close> into the payload: all keys are strings\<close>
  "str_pairs d = those (map (\<lambda>(k, v). case k of PStr s \<Rightarrow> Some (s, v) | _ \<Rightarrow> None) d)"

definition build_problem ::
    "(string \<Rightarrow> bool) \<Rightarrow> error_def \<Rightarrow> string \<Rightarrow> bool \<Rightarrow> string option \<Rightarrow> string option
      \<Rightarrow> (pyval \<times> pyval) list \<Rightarrow> (render_error, problem) result" where
  \<comment> \<open>the reserved-member check, the payload and its validation\<close>
  "build_problem host_ok e type_uri include_status inst detail ext =
     (let overlap = reserved_overlap (str_keys ext)
      in if overlap \<noteq> [] then
           Inl (R_cfg (Cfg_names ''rendered extensions must not redefine reserved members'' overlap))
         else (case str_pairs ext of
             None \<Rightarrow> Inl (R_cfg (Cfg ''rendered an invalid Problem Details payload''))
           | Some extra \<Rightarrow>
               (let p = \<lparr>p_type = type_uri, p_title = ed_title e,
                         p_status = (if include_status then Some (ed_status e) else None),
                         p_code = ed_code e, p_detail = detail, p_instance = inst,
                         p_extra = extra\<rparr>
                in if problem_valid host_ok p then Inr p
                   else Inl (R_cfg (Cfg ''rendered an invalid Problem Details payload'')))))"

definition render_problem_payload ::
    "(string \<Rightarrow> bool) \<Rightarrow> render_api \<Rightarrow> error_def \<Rightarrow> exc \<Rightarrow> string \<Rightarrow> bool \<Rightarrow> string option
      \<Rightarrow> (render_error, problem) result" where
  "render_problem_payload host_ok api e ex type_uri include_status inst =
     (if \<not> instance_of ex (ed_exception e) then Inl (R_cfg (Cfg ''cannot render''))
      else rbind (render_detail e ex) (\<lambda>detail.
      rbind (render_extensions api e ex) (\<lambda>extensions.
      rbind (lift_render (json_pairs extensions)) (\<lambda>ext.
        build_problem host_ok e type_uri include_status inst detail ext))))"

definition render_headers :: "error_def \<Rightarrow> exc \<Rightarrow> (render_error, (string \<times> string) list) result" where
  "render_headers e ex =
     rbind (case ed_headers e of
              Absent \<Rightarrow> Inr PNone
            | Static d \<Rightarrow> Inr (PDict (map (\<lambda>(n, t). (PStr n, PStr t)) d))
            | Call f \<Rightarrow> call_renderer f ex)
       (\<lambda>rendered. case rendered of
          PNone \<Rightarrow> Inr []
        | PDict d \<Rightarrow> lift_render (freeze_headers d ''rendered headers'')
        | _ \<Rightarrow> Inl (R_cfg (Cfg ''headers callback must return a mapping'')))"

definition render_problem ::
    "(string \<Rightarrow> bool) \<Rightarrow> render_api \<Rightarrow> error_def \<Rightarrow> exc \<Rightarrow> string
      \<Rightarrow> (render_error, problem \<times> (string \<times> string) list) result" where
  "render_problem host_ok api e ex type_uri =
     rbind (render_problem_payload host_ok api e ex type_uri True None) (\<lambda>p.
     rbind (render_headers e ex) (\<lambda>hs. Inr (p, hs)))"

section \<open>The catalog (catalog.py)\<close>

datatype catalog_error = C_registry registry_error | C_render render_error | C_unresolved string

definition problem_for ::
    "(string \<Rightarrow> bool) \<Rightarrow> render_api \<Rightarrow> store \<Rightarrow> registry \<Rightarrow> exc \<Rightarrow> bool \<Rightarrow> string option
      \<Rightarrow> (catalog_error, problem option) result" where
  "problem_for host_ok api st r ex include_status inst =
     (case resolve r ex of
        None \<Rightarrow> Inr None
      | Some e \<Rightarrow>
          (case type_uri_for st r e of
             Inl err \<Rightarrow> Inl (C_registry err)
           | Inr None \<Rightarrow> Inl (C_unresolved (ed_code (st e)))
           | Inr (Some uri) \<Rightarrow>
               (case render_problem_payload host_ok api (st e) ex uri include_status inst of
                  Inl err \<Rightarrow> Inl (C_render err)
                | Inr p \<Rightarrow> Inr (Some p))))"

definition resolved_registry :: "registry option \<Rightarrow> registry \<Rightarrow> registry" where
  \<comment> \<open>the first argument is the value of the context variable\<close>
  "resolved_registry active fallback = (case active of Some r \<Rightarrow> r | None \<Rightarrow> fallback)"

definition internal_problem :: "registry option \<Rightarrow> problem" where
  "internal_problem r =
     (let base = (case r of None \<Rightarrow> None | Some reg \<Rightarrow> rg_base reg)
      in \<lparr>p_type = (case base of
             Some b \<Rightarrow> if b = [] then ''urn:fastapi-canon:internal_server_error''
                       else b @ ''/internal_server_error''
           | None \<Rightarrow> ''urn:fastapi-canon:internal_server_error''),
          p_title = ''Internal Server Error'', p_status = None, p_code = ''internal_server_error'',
          p_detail = None, p_instance = None, p_extra = []\<rparr>)"

section \<open>Lemmas\<close>

lemma pop_none_get:
  "dict_get (pop_none name d) n =
    (if n = name \<and> dict_get d n = Some PNone then None else dict_get d n)"
  by (cases "dict_get d name") (simp_all add: pop_none_def dict_get_pop)

lemma as_dict_get:
  "dict_get (as_dict p) n =
    (if n \<in> {''status'', ''detail'', ''instance''} \<and> dict_get (model_dump_problem p) n = Some PNone
     then None else dict_get (model_dump_problem p) n)"
  unfolding as_dict_def foldl.simps pop_none_get
  by (cases "n = ''detail''"; cases "n = ''instance''") simp_all

lemma dump_get_extra:
  "n \<notin> set reserved_members \<Longrightarrow> dict_get (model_dump_problem p) n = dict_get (p_extra p) n"
  by (auto simp: model_dump_problem_def reserved_members_def)

lemma str_pairs_keys: "str_pairs d = Some extra \<Longrightarrow> map fst extra = str_keys d"
proof (induction d arbitrary: extra)
  case Nil
  then show ?case by (simp add: str_pairs_def str_keys_def List.map_filter_simps)
next
  case (Cons p d)
  obtain k v where p: "p = (k, v)" by (cases p)
  with Cons.prems obtain s rest where "k = PStr s" "str_pairs d = Some rest" "extra = (s, v) # rest"
    by (auto simp: str_pairs_def split: pyval.splits option.splits)
  with Cons.IH p show ?case by (simp add: str_keys_def List.map_filter_simps)
qed

lemma reserved_overlap_Nil: "reserved_overlap ns = [] \<longleftrightarrow> set ns \<inter> set reserved_members = {}"
  by (auto simp: reserved_overlap_def filter_empty_conv)

lemma if_valid_Inr: "(if V r then Inr r else Inl e) = Inr p \<longleftrightarrow> V p \<and> p = r"
  by auto

lemma build_problem_Inr:
  "build_problem host_ok e uri inc inst detail ext = Inr p \<longleftrightarrow>
    reserved_overlap (str_keys ext) = [] \<and> problem_valid host_ok p \<and>
    (\<exists>extra. str_pairs ext = Some extra \<and>
      p = \<lparr>p_type = uri, p_title = ed_title e, p_status = (if inc then Some (ed_status e) else None),
          p_code = ed_code e, p_detail = detail, p_instance = inst, p_extra = extra\<rparr>)"
proof (cases "reserved_overlap (str_keys ext) = []")
  case True
  then show ?thesis
    by (cases "str_pairs ext")
      (simp_all only: build_problem_def Let_def not_True_eq_False if_False option.case if_valid_Inr
        simp_thms option.simps Inl_Inr_False ex_simps)
next
  case False
  then show ?thesis by (simp add: build_problem_def)
qed

lemma render_problem_payload_Inr:
  "render_problem_payload host_ok api e ex uri inc inst = Inr p \<longleftrightarrow>
    instance_of ex (ed_exception e) \<and>
    (\<exists>detail extensions ext. render_detail e ex = Inr detail \<and>
      render_extensions api e ex = Inr extensions \<and> json_pairs extensions = Inr ext \<and>
      build_problem host_ok e uri inc inst detail ext = Inr p)"
  by (simp add: render_problem_payload_def)

section \<open>Properties\<close>

text \<open>
  Freezing a static extension value detaches it (no mutable list remains, every key
  is a string, every number finite) and loses nothing: rendering the frozen value gives back the
  value that was declared.
\<close>

theorem freeze_render_roundtrip:
  assumes "freeze_json path v = Inr w"
  shows "frozen w \<and> json_extension w = Inr v \<and> is_json_value v"
  using freeze_frozen(1) [OF assms] json_of_frozen(1) [OF assms]
    json_extension_json(1) [OF json_of_frozen(1) [OF assms]]
  by simp

text \<open>
  Claim C40. A rendered problem is the registered definition's: the exception is an instance of
  its class, type URI, title and code are the definition's, the HTTP status appears exactly when
  requested, the payload passes the profile's validation, and no extension member shadows a
  standard member.
\<close>

theorem render_payload_sound:
  assumes "render_problem_payload host_ok api e ex uri include_status inst = Inr p"
  shows "instance_of ex (ed_exception e) \<and> problem_valid host_ok p \<and>
    p_type p = uri \<and> p_title p = ed_title e \<and> p_code p = ed_code e \<and> p_instance p = inst \<and>
    p_status p = (if include_status then Some (ed_status e) else None) \<and>
    set (map fst (p_extra p)) \<inter> set reserved_members = {}"
proof -
  from assms obtain detail ext where inst: "instance_of ex (ed_exception e)"
    and "build_problem host_ok e uri include_status inst detail ext = Inr p"
    unfolding render_problem_payload_Inr by blast
  then obtain extra where *: "reserved_overlap (str_keys ext) = []" "problem_valid host_ok p"
    "str_pairs ext = Some extra"
    and p: "p = \<lparr>p_type = uri, p_title = ed_title e,
      p_status = (if include_status then Some (ed_status e) else None),
      p_code = ed_code e, p_detail = detail, p_instance = inst, p_extra = extra\<rparr>"
    unfolding build_problem_Inr by blast
  from *(1) have "set (map fst extra) \<inter> set reserved_members = {}"
    unfolding str_pairs_keys [OF *(3)] reserved_overlap_Nil .
  then have "set (map fst (p_extra p)) \<inter> set reserved_members = {}" by (simp add: p)
  with inst *(2) show ?thesis by (simp add: p)
qed

text \<open>
  The serialized problem omits an absent status, detail and instance and nothing
  else: the other standard members are always present, and an extension member keeps its value
  even when that value is JSON null.
\<close>

theorem as_dict_members:
  assumes "set (map fst (p_extra p)) \<inter> set reserved_members = {}"
  shows "dict_get (as_dict p) ''type'' = Some (PStr (p_type p)) \<and>
    dict_get (as_dict p) ''code'' = Some (PStr (p_code p)) \<and>
    dict_get (as_dict p) ''status'' = map_option PInt (p_status p) \<and>
    dict_get (as_dict p) ''detail'' = map_option PStr (p_detail p) \<and>
    (n \<notin> set reserved_members \<longrightarrow> dict_get (as_dict p) n = dict_get (p_extra p) n)"
proof -
  have "dict_get (as_dict p) n = dict_get (p_extra p) n" if n: "n \<notin> set reserved_members"
    using dump_get_extra [OF n, of p] n by (auto simp: as_dict_get reserved_members_def)
  then show ?thesis
    by (auto simp: as_dict_get model_dump_problem_def opt_int_def opt_str_def split: option.splits)
qed

text \<open>
  In a registry that satisfies its invariant and has every type URI resolved, looking
  an exception up never fails for a reason of the registry: either no class of the exception is
  registered and there is no problem, or the most specific definition is rendered under the URI
  the registry holds for it.
\<close>

theorem problem_for_resolved:
  assumes "registry_wf st r" and "require_resolved st r = Inr ()"
  shows "(problem_for host_ok api st r ex inc inst = Inr None \<and> resolve r ex = None) \<or>
    (\<exists>e uri. resolve r ex = Some e \<and> type_uri_for st r e = Inr (Some uri) \<and>
      problem_for host_ok api st r ex inc inst =
        (case render_problem_payload host_ok api (st e) ex uri inc inst of
           Inl err \<Rightarrow> Inl (C_render err) | Inr p \<Rightarrow> Inr (Some p)))"
proof (cases "resolve r ex")
  case None
  then show ?thesis by (simp add: problem_for_def)
next
  case (Some e)
  then obtain en c where "dict_get (rg_by_exception r) c = Some en" and e: "re_error en = e"
    by (auto simp: resolve_def dest!: find_first_Some_split)
  with assms(1) have en: "en \<in> set (rg_entries r)" and "c = ed_exception (st e)"
    and get: "dict_get (rg_by_exception r) (ed_exception (st e)) = Some en"
    by (auto simp: registry_wf_def)
  from en assms(2) obtain uri where "re_uri en = Some uri"
    by (auto simp: require_resolved_def Let_def filter_empty_conv)
  with get e have "type_uri_for st r e = Inr (Some uri)"
    by (simp add: type_uri_for_def)
  with Some show ?thesis by (auto simp: problem_for_def)
qed

section \<open>Witnesses\<close>

definition no_models :: render_api where
  "no_models = \<lparr>serialized_names = (\<lambda>_. []), returned_model = (\<lambda>_. None),
     validate_dump = (\<lambda>_ d. Some d), dump_model = (\<lambda>_. None)\<rparr>"

definition sample_exc :: exc where
  "sample_exc = \<lparr>exc_mro = [''KeyError'', ''LookupError'', ''Exception''], exc_text = ''k''\<rparr>"

definition sample_problem :: problem where
  "sample_problem = \<lparr>p_type = ''urn:p/key_missing'', p_title = ''T'', p_status = Some 404,
     p_code = ''key_missing'', p_detail = None, p_instance = None, p_extra = [(''hint'', PNone)]\<rparr>"

lemma sample_rendered:
  "render_problem_payload (\<lambda>_. True) no_models
     (sample_def ''KeyError'' ''key_missing''\<lparr>ed_extensions := Static [(PStr ''hint'', PNone)]\<rparr>)
     sample_exc ''urn:p/key_missing'' True None = Inr sample_problem"
  by code_simp

theorem freeze_render_roundtrip_witness:
  "frozen (PDict [(PStr ''ids'', PTuple [PInt 1, PInt 2])]) \<and>
   json_extension (PDict [(PStr ''ids'', PTuple [PInt 1, PInt 2])]) =
     Inr (PDict [(PStr ''ids'', PList [PInt 1, PInt 2])])"
proof -
  have "freeze_json ''extensions'' (PDict [(PStr ''ids'', PList [PInt 1, PInt 2])]) =
      Inr (PDict [(PStr ''ids'', PTuple [PInt 1, PInt 2])])"
    by simp
  from freeze_render_roundtrip [OF this] show ?thesis by blast
qed

theorem render_payload_sound_witness:
  "problem_valid (\<lambda>_. True) sample_problem \<and>
   set (map fst (p_extra sample_problem)) \<inter> set reserved_members = {}"
  using render_payload_sound [OF sample_rendered] by blast

theorem as_dict_members_witness:
  "dict_get (as_dict sample_problem) ''hint'' = Some PNone \<and>
   dict_get (as_dict sample_problem) ''detail'' = None"
proof -
  have "set (map fst (p_extra sample_problem)) \<inter> set reserved_members = {}"
    by (simp add: sample_problem_def reserved_members_def)
  from as_dict_members [OF this, of "''hint''"] show ?thesis
    by (simp add: sample_problem_def reserved_members_def)
qed

theorem problem_for_resolved_witness:
  "\<exists>e uri. resolve sample_merged sample_exc = Some e \<and>
     type_uri_for sample_store sample_merged e = Inr (Some uri)"
proof -
  have "registry_wf sample_store sample_merged"
  proof -
    have "initialize sample_store (rg_entries sample_merged) (Some ''application'') (Some ''urn:p'') =
        Inr sample_merged"
      by code_simp
    moreover have "distinct (map re_error (rg_entries sample_merged))" by code_simp
    ultimately show ?thesis using initialize_wf by blast
  qed
  moreover have "require_resolved sample_store sample_merged = Inr ()" by code_simp
  moreover have "resolve sample_merged sample_exc \<noteq> None" by code_simp
  ultimately show ?thesis
    using problem_for_resolved [of sample_store sample_merged "\<lambda>_. True" no_models sample_exc True None]
    by auto
qed

end
