(* ===== verification/Ws_Connection.thy ===== *)
theory Ws_Connection
  imports Interfaces Error_Rendering
begin

text \<open>
  An accepted WebSocket connection of \<open>fastapi_canon/integrations/websockets\<close>:
  \<open>connection.py\<close> (rejections, close codes, limits, handshake headers, the connection and
  its expiry timer) and the parts of \<open>runtime.py\<close> that admit a connection
  (\<open>_prepare\<close>), decide its close (\<open>request_close\<close>, \<open>client_disconnected\<close>) and send the
  close frame (\<open>_accepted\<close> and the ends of \<open>_run_rpc_endpoint\<close>, \<open>_run_stream_endpoint\<close>
  and \<open>_run_socket\<close>). Times are rationals; the wall clock is an argument. Each
  \<open>socket.close\<close> has an outcome chosen by the environment.
\<close>

section \<open>Rejections, close codes, disconnects\<close>

datatype rejection =
    Rej_unauthorized | Rej_forbidden | Rej_not_found | Rej_protocol_error
  | Rej_unavailable | Rej_internal_error

datatype conn_close =
    Cl_normal | Cl_shutdown | Cl_service_restart | Cl_protocol_error | Cl_policy_violation
  | Cl_message_too_big | Cl_internal_error | Cl_try_again_later | Cl_other

definition close_of_code :: "int \<Rightarrow> conn_close" where
  "close_of_code n =
     (case map_of
        [(1000, Cl_normal), (1001, Cl_shutdown), (1002, Cl_protocol_error),
         (1008, Cl_policy_violation), (1009, Cl_message_too_big), (1011, Cl_internal_error),
         (1012, Cl_service_restart), (1013, Cl_try_again_later)] n of
        Some c \<Rightarrow> c | None \<Rightarrow> Cl_other)"

record disconnect =
  dc_code :: conn_close
  dc_raw :: "int option"
  dc_reason :: string

definition disconnect_enum :: "conn_close \<Rightarrow> string \<Rightarrow> disconnect" where
  "disconnect_enum c reason = \<lparr>dc_code = c, dc_raw = None, dc_reason = reason\<rparr>"

definition disconnect_int :: "int \<Rightarrow> string \<Rightarrow> disconnect" where
  "disconnect_int n reason = \<lparr>dc_code = close_of_code n, dc_raw = Some n, dc_reason = reason\<rparr>"

record reject =
  rj_rejection :: rejection
  rj_reason :: string
  rj_headers :: "(string \<times> string) list option"

definition rejection_close :: "rejection \<Rightarrow> conn_close" where
  "rejection_close r =
     (case r of
        Rej_unauthorized \<Rightarrow> Cl_policy_violation
      | Rej_forbidden \<Rightarrow> Cl_policy_violation
      | Rej_not_found \<Rightarrow> Cl_policy_violation
      | Rej_protocol_error \<Rightarrow> Cl_protocol_error
      | Rej_unavailable \<Rightarrow> Cl_try_again_later
      | Rej_internal_error \<Rightarrow> Cl_internal_error)"

text \<open>
  A raised exception: its classes and text, and what the runtime asks of it with
  \<open>isinstance\<close>. \<open>KGroup\<close> is an \<open>ExceptionGroup\<close>, \<open>KRpc\<close> an \<open>RpcError\<close> instance with
  the attributes it reads from its class, \<open>KStreamClose\<close> an \<open>RpcStreamClose\<close>.
\<close>

record rpc_error =
  rx_mro :: "cls list"
  rx_code :: string
  rx_message :: string
  rx_rpc_code :: int
  rx_builtin :: bool
  rx_details :: "pyval option"
  rx_details_type :: "cls option"
  rx_problem :: "problem option"

datatype failure = Failure (fl_exc: exc) (fl_kind: fkind)
  and fkind =
    KPlain
  | KReject reject
  | KDisconnect disconnect
  | KStreamClose conn_close string
  | KRpc rpc_error
  | KGroup "failure list"

datatype rejections =
    RejMap "(cls \<times> rejection) list"
  | RejFn "failure \<Rightarrow> (failure, reject option) result"

definition rejection_for :: "failure \<Rightarrow> rejections option \<Rightarrow> (failure, reject option) result" where
  "rejection_for f rs =
     (case fl_kind f of
        KReject r \<Rightarrow> Inr (Some r)
      | _ \<Rightarrow>
        (case rs of
           None \<Rightarrow> Inr None
         | Some (RejMap m) \<Rightarrow>
             Inr (map_option
               (\<lambda>p. \<lparr>rj_rejection = snd p, rj_reason = exc_text (fl_exc f), rj_headers = None\<rparr>)
               (List.find (\<lambda>p. instance_of (fl_exc f) (fst p)) m))
         | Some (RejFn g) \<Rightarrow> g f))"

fun reject_levels :: "rejections list \<Rightarrow> failure \<Rightarrow> (failure, reject option) result" where
  "reject_levels [] f = Inr None"
| "reject_levels (l # ls) f =
     rbind (rejection_for f (Some l))
       (\<lambda>r. case r of Some x \<Rightarrow> Inr (Some x) | None \<Rightarrow> reject_levels ls f)"

definition chain_rejections :: "rejections option list \<Rightarrow> rejections option" where
  "chain_rejections levels =
     (let present = List.map_filter (\<lambda>l. l) levels
      in if length present \<le> 1 then (case present of [] \<Rightarrow> None | l # _ \<Rightarrow> Some l)
         else Some (RejFn (reject_levels present)))"

definition safe_rejection :: "failure \<Rightarrow> rejections option \<Rightarrow> reject option" where
  \<comment> \<open>\<open>_rejection\<close>: a mapper that raises maps nothing\<close>
  "safe_rejection f rs = (case rejection_for f rs of Inl _ \<Rightarrow> None | Inr r \<Rightarrow> r)"

section \<open>Limits and numbers\<close>

datatype value_error = Value_error string | Overflow_error | Runtime_error string

text \<open>\<open>isfinite\<close> converts an int to a float: beyond the largest float it overflows.\<close>

definition float_range :: int where
  "float_range = 2 ^ 1024 - 2 ^ 970"

definition validate_expiry :: "pyval \<Rightarrow> (value_error, rat) result" where
  "validate_expiry v =
     (let bad = Inl (Value_error ''Connection expiry must be a finite Unix timestamp'')
      in case v of
        PInt i \<Rightarrow> if \<bar>i\<bar> < float_range then Inr (of_int i) else Inl Overflow_error
      | PFloat (Fin q) \<Rightarrow> Inr q
      | _ \<Rightarrow> bad)"

definition float_le_0 :: "pyfloat \<Rightarrow> bool" where
  \<comment> \<open>comparisons with NaN are false\<close>
  "float_le_0 f = (case f of Fin q \<Rightarrow> q \<le> 0 | NegInf \<Rightarrow> True | Inf \<Rightarrow> False | NaN \<Rightarrow> False)"

record limits =
  max_concurrency :: int
  max_queue_size :: int
  max_message_bytes :: "int option"
  send_timeout :: "pyfloat option"
  max_batch_size :: int
  max_streams :: int
  max_pending_requests :: int
  request_timeout :: "pyval option"

definition default_limits :: limits where
  "default_limits =
     \<lparr>max_concurrency = 32, max_queue_size = 128, max_message_bytes = Some 1048576,
      send_timeout = Some (Fin 10), max_batch_size = 32, max_streams = 100,
      max_pending_requests = 1024, request_timeout = None\<rparr>"

definition request_timeout_ok :: "pyval option \<Rightarrow> (value_error, unit) result" where
  "request_timeout_ok t =
     (let bad = Inl (Value_error ''request_timeout must be finite and positive or None'')
      in case t of
        None \<Rightarrow> Inr ()
      | Some (PInt i) \<Rightarrow>
          if float_range \<le> \<bar>i\<bar> then Inl Overflow_error else if i \<le> 0 then bad else Inr ()
      | Some (PFloat f) \<Rightarrow> if \<not> is_finite f \<or> float_le_0 f then bad else Inr ()
      | Some _ \<Rightarrow> bad)"

definition limits_post_init :: "limits \<Rightarrow> (value_error, limits) result" where
  "limits_post_init l =
     rbind (request_timeout_ok (request_timeout l)) (\<lambda>_.
     rbind (ensure (1 \<le> max_concurrency l \<and> 1 \<le> max_queue_size l)
       (Value_error ''RPC limits must be at least 1'')) (\<lambda>_.
     rbind (ensure (case max_message_bytes l of None \<Rightarrow> True | Some n \<Rightarrow> 1 \<le> n)
       (Value_error ''max_message_bytes must be at least 1 or None'')) (\<lambda>_.
     rbind (ensure (case send_timeout l of None \<Rightarrow> True | Some t \<Rightarrow> \<not> float_le_0 t)
       (Value_error ''send_timeout must be positive or None'')) (\<lambda>_.
     rbind (ensure (0 \<le> max_batch_size l) (Value_error ''max_batch_size must be at least 0'')) (\<lambda>_.
     rbind (ensure (1 \<le> max_streams l) (Value_error ''max_streams must be at least 1'')) (\<lambda>_.
     rbind (ensure (1 \<le> max_pending_requests l)
       (Value_error ''max_pending_requests must be at least 1'')) (\<lambda>_. Inr l)))))))"

section \<open>Handshake headers\<close>

definition headers_init :: "(string \<times> string) list \<Rightarrow> (string \<times> string) list" where
  "headers_init vs = fold (\<lambda>p d. dict_set (str_lower (fst p)) (snd p) d) vs []"

definition headers_getitem :: "(string \<times> string) list \<Rightarrow> string \<Rightarrow> string option" where
  \<comment> \<open>\<open>None\<close> is the \<open>KeyError\<close>\<close>
  "headers_getitem hs k = dict_get hs (str_lower k)"

definition headers_len :: "(string \<times> string) list \<Rightarrow> nat" where
  "headers_len hs = length hs"

record handshake =
  hs_path :: string
  hs_headers :: "(string \<times> string) list"
  hs_query :: "(string \<times> string) list"
  hs_path_params :: "(string \<times> string) list"
  hs_subprotocols :: "string list"
  hs_client :: "(string \<times> int) option"

section \<open>The connection and the variables of its endpoint run\<close>

datatype endpoint_kind = Rpc_endpoint | Stream_endpoint | Socket_endpoint

datatype close_outcome = Close_sent | Close_disconnected | Close_failed

datatype phase = Starting | Running | Finished

text \<open>
  The first fields are \<open>RpcConnection\<close>'s slots; \<open>rc_on_close\<close> says whether the close
  handler (the run's \<open>request_close\<close>) is installed, \<open>rc_timer\<close> is the delay of the armed
  expiry timer, \<open>rc_startup\<close> whether \<open>_startup_task\<close> is set. The others are the closure
  variables of the run: the close event, \<open>close_value\<close>, \<open>client_closed\<close>, and the history
  of \<open>socket.close\<close> calls and of expiry cancellations.
\<close>

record connection =
  rc_endpoint :: string
  rc_handshake :: handshake
  rc_path_params :: "(string \<times> string) list"
  rc_accepted :: bool
  rc_closed :: bool
  rc_close_code :: "conn_close option"
  rc_close_reason :: string
  rc_raw :: "int option"
  rc_on_close :: bool
  rc_expires_at :: "rat option"
  rc_timer :: "rat option"
  rc_startup :: bool
  rc_event :: bool
  rc_close_value :: "conn_close \<times> string"
  rc_client_closed :: bool
  rc_attempts :: "(conn_close \<times> string \<times> close_outcome) list"
  rc_cancelled_startup :: bool
  rc_phase :: phase

definition create_connection :: "string \<Rightarrow> handshake \<Rightarrow> (string \<times> string) list \<Rightarrow> connection" where
  "create_connection ep hs ps =
     \<lparr>rc_endpoint = ep, rc_handshake = hs,
      rc_path_params = (if ps \<noteq> [] then ps else hs_path_params hs),
      rc_accepted = False, rc_closed = False, rc_close_code = None, rc_close_reason = '''',
      rc_raw = None, rc_on_close = False, rc_expires_at = None, rc_timer = None,
      rc_startup = False, rc_event = False, rc_close_value = (Cl_normal, ''''),
      rc_client_closed = False, rc_attempts = [], rc_cancelled_startup = False,
      rc_phase = Starting\<rparr>"

definition connection_headers :: "connection \<Rightarrow> (string \<times> string) list" where
  "connection_headers s = headers_init (hs_headers (rc_handshake s))"

definition schedule_expiry :: "rat \<Rightarrow> rat \<Rightarrow> rat" where
  "schedule_expiry now expires_at = max 0 (expires_at - now)"

definition arm_expiry :: "rat \<Rightarrow> connection \<Rightarrow> connection" where
  "arm_expiry now s =
     s\<lparr>rc_timer :=
        (if rc_accepted s \<and> \<not> rc_closed s then map_option (schedule_expiry now) (rc_expires_at s)
         else None)\<rparr>"

definition expire_at :: "rat \<Rightarrow> pyval option \<Rightarrow> connection \<Rightarrow> (value_error, connection) result" where
  "expire_at now v s =
     (case v of
        None \<Rightarrow> Inr (arm_expiry now (s\<lparr>rc_expires_at := None\<rparr>))
      | Some x \<Rightarrow> rbind (validate_expiry x) (\<lambda>q. Inr (arm_expiry now (s\<lparr>rc_expires_at := Some q\<rparr>))))"

section \<open>Deciding the close\<close>

text \<open>\<open>request_close\<close> writes the close value and the connection's view of it together.\<close>

definition decide_close :: "conn_close \<Rightarrow> string \<Rightarrow> int option \<Rightarrow> connection \<Rightarrow> connection" where
  "decide_close code reason raw s =
     s\<lparr>rc_close_value := (code, reason), rc_close_code := Some code,
       rc_close_reason := reason, rc_raw := raw, rc_event := True\<rparr>"

definition request_close_rpc :: "conn_close \<Rightarrow> string \<Rightarrow> int option \<Rightarrow> connection \<Rightarrow> connection" where
  "request_close_rpc code reason raw s =
     (if \<not> rc_event s then decide_close code reason raw s else s)"

definition request_close_stream ::
    "conn_close \<Rightarrow> string \<Rightarrow> int option \<Rightarrow> connection \<Rightarrow> connection" where
  "request_close_stream code reason raw s =
     (if \<not> rc_event s \<or>
         (\<not> rc_client_closed s \<and> fst (rc_close_value s) = Cl_normal \<and> code \<noteq> Cl_normal)
      then decide_close code reason raw s else s)"

definition request_close_socket ::
    "conn_close \<Rightarrow> string \<Rightarrow> int option \<Rightarrow> connection \<Rightarrow> connection" where
  "request_close_socket code reason raw s =
     (if \<not> rc_event s \<or>
         (\<not> rc_client_closed s \<and> fst (rc_close_value s) = Cl_normal \<and> code \<noteq> Cl_normal)
      then decide_close code reason raw s else s)"

definition request_close ::
    "endpoint_kind \<Rightarrow> conn_close \<Rightarrow> string \<Rightarrow> int option \<Rightarrow> connection \<Rightarrow> connection" where
  "request_close k =
     (case k of Rpc_endpoint \<Rightarrow> request_close_rpc
      | Stream_endpoint \<Rightarrow> request_close_stream
      | Socket_endpoint \<Rightarrow> request_close_socket)"

definition disconnected_rpc :: "disconnect \<Rightarrow> connection \<Rightarrow> connection" where
  \<comment> \<open>the reader's and the writer's \<open>except RpcDisconnect\<close>\<close>
  "disconnected_rpc d s =
     request_close_rpc (dc_code d) (dc_reason d) (dc_raw d) (s\<lparr>rc_client_closed := True\<rparr>)"

definition disconnected_stream :: "disconnect \<Rightarrow> connection \<Rightarrow> connection" where
  "disconnected_stream d s =
     request_close_stream (dc_code d) (dc_reason d) (dc_raw d) (s\<lparr>rc_client_closed := True\<rparr>)"

definition disconnected_socket :: "disconnect \<Rightarrow> connection \<Rightarrow> connection" where
  "disconnected_socket d s =
     (if rc_client_closed s then s
      else request_close_socket (dc_code d) (dc_reason d) (dc_raw d) (s\<lparr>rc_client_closed := True\<rparr>))"

definition client_disconnected :: "endpoint_kind \<Rightarrow> disconnect \<Rightarrow> connection \<Rightarrow> connection" where
  "client_disconnected k =
     (case k of Rpc_endpoint \<Rightarrow> disconnected_rpc
      | Stream_endpoint \<Rightarrow> disconnected_stream
      | Socket_endpoint \<Rightarrow> disconnected_socket)"

definition expire :: "endpoint_kind \<Rightarrow> connection \<Rightarrow> connection" where
  "expire k s =
     (let s1 = s\<lparr>rc_timer := None\<rparr>
      in if rc_closed s1 \<or> rc_close_code s1 \<noteq> None then s1
         else
           let s2 = (if rc_on_close s1
                     then request_close k Cl_policy_violation ''credentials_expired'' None s1
                     else s1\<lparr>rc_close_code := Some Cl_policy_violation,
                             rc_close_reason := ''credentials_expired''\<rparr>)
           in if rc_startup s2 then s2\<lparr>rc_cancelled_startup := True, rc_startup := False\<rparr> else s2)"

definition set_close_handler :: "endpoint_kind \<Rightarrow> connection \<Rightarrow> connection" where
  "set_close_handler k s =
     (let s1 = s\<lparr>rc_on_close := True, rc_phase := Running\<rparr>
      in if rc_close_reason s1 = ''credentials_expired''
         then request_close k Cl_policy_violation ''credentials_expired'' None s1 else s1)"

definition mark_closed :: "connection \<Rightarrow> connection" where
  "mark_closed s = s\<lparr>rc_closed := True, rc_startup := False, rc_timer := None\<rparr>"

definition app_close ::
    "endpoint_kind \<Rightarrow> conn_close \<Rightarrow> string \<Rightarrow> connection \<Rightarrow> (value_error, connection) result" where
  "app_close k c reason s =
     (if \<not> rc_accepted s
      then Inl (Runtime_error ''RpcConnection.close() is only valid after the connection was accepted'')
      else if rc_on_close s then Inr (request_close k c reason None s)
      else Inr s)"

definition drain_stop :: "connection \<Rightarrow> connection" where
  \<comment> \<open>\<open>_DrainSession.stop\<close>: the reason of a run the drain cancels\<close>
  "drain_stop s =
     (if rc_close_code s = None
      then s\<lparr>rc_close_code := Some Cl_service_restart, rc_close_reason := ''Server restarting''\<rparr>
      else s)"

section \<open>Sending the close frame\<close>

type_synonym socket_behaviour = "nat \<Rightarrow> close_outcome"

definition attempt_close ::
    "socket_behaviour \<Rightarrow> conn_close \<times> string \<Rightarrow> connection \<Rightarrow> close_outcome \<times> connection" where
  "attempt_close sock v s =
     (let out = sock (length (rc_attempts s))
      in (out, s\<lparr>rc_attempts := rc_attempts s @ [(fst v, snd v, out)]\<rparr>))"

definition close_and_mark ::
    "socket_behaviour \<Rightarrow> conn_close \<times> string \<Rightarrow> connection \<Rightarrow> bool \<times> connection" where
  \<comment> \<open>\<open>with suppress(RpcDisconnect): await socket.close(..)\<close>, then \<open>_mark_closed\<close>;
     the flag says that another exception left the block\<close>
  "close_and_mark sock v s =
     (case attempt_close sock v s of
        (Close_failed, s') \<Rightarrow> (True, s')
      | (_, s') \<Rightarrow> (False, mark_closed s'))"

datatype run_end = Run_completed | Run_cancelled bool | Run_raised

definition shutdown_value :: "connection \<Rightarrow> connection" where
  \<comment> \<open>\<open>except asyncio.CancelledError\<close> of the three runs\<close>
  "shutdown_value s =
     (let c = (case rc_close_code s of Some c \<Rightarrow> c | None \<Rightarrow> Cl_shutdown)
      in s\<lparr>rc_close_value := (c, rc_close_reason s), rc_close_code := Some c\<rparr>)"

definition rpc_final :: "socket_behaviour \<Rightarrow> connection \<Rightarrow> bool \<times> connection" where
  \<comment> \<open>the outer \<open>finally\<close> of \<open>_run_rpc_endpoint\<close>\<close>
  "rpc_final sock s =
     (if \<not> rc_client_closed s \<and> \<not> rc_closed s then close_and_mark sock (rc_close_value s) s
      else (False, mark_closed s))"

definition finish_rpc ::
    "socket_behaviour \<Rightarrow> run_end \<Rightarrow> connection \<Rightarrow> run_end \<times> connection" where
  "finish_rpc sock r s =
     (case r of
        Run_cancelled _ \<Rightarrow>
          (let s1 = shutdown_value s;
               (failed, s2) = (if \<not> rc_client_closed s1 then close_and_mark sock (rc_close_value s1) s1
                               else (False, mark_closed s1));
               (failed', s3) = rpc_final sock s2
           in (if failed \<or> failed' then Run_raised else r, s3))
      | _ \<Rightarrow>
          (case rpc_final sock s of (failed, s1) \<Rightarrow> (if failed then Run_raised else r, s1)))"

definition finish_stream ::
    "socket_behaviour \<Rightarrow> run_end \<Rightarrow> connection \<Rightarrow> run_end \<times> connection" where
  "finish_stream sock r s =
     (let s1 = (case r of Run_cancelled _ \<Rightarrow> shutdown_value s | _ \<Rightarrow> s);
          (failed, s2) = (if \<not> rc_client_closed s1 then close_and_mark sock (rc_close_value s1) s1
                          else (False, mark_closed s1))
      in (if failed then Run_raised else r, s2))"

definition finish_socket ::
    "socket_behaviour \<Rightarrow> run_end \<Rightarrow> connection \<Rightarrow> run_end \<times> connection" where
  "finish_socket sock r s =
     (let s1 = (case r of Run_cancelled _ \<Rightarrow> shutdown_value s | _ \<Rightarrow> s);
          (failed, s2) = (if \<not> rc_client_closed s1 then close_and_mark sock (rc_close_value s1) s1
                          else (False, mark_closed s1))
      in (if failed then Run_raised else r, s2))"

definition finish_run ::
    "endpoint_kind \<Rightarrow> socket_behaviour \<Rightarrow> run_end \<Rightarrow> connection \<Rightarrow> run_end \<times> connection" where
  "finish_run k =
     (case k of Rpc_endpoint \<Rightarrow> finish_rpc
      | Stream_endpoint \<Rightarrow> finish_stream
      | Socket_endpoint \<Rightarrow> finish_socket)"

text \<open>
  The context manager \<open>_accepted\<close>: \<open>Run_cancelled True\<close> is the one cancellation by the
  expiry of a connection that is still starting; it ends here.
\<close>

definition accepted_enter :: "connection \<Rightarrow> connection" where
  "accepted_enter s = s\<lparr>rc_startup := True\<rparr>"

definition default_code :: "conn_close \<Rightarrow> connection \<Rightarrow> connection" where
  "default_code c s =
     (if \<not> rc_closed s \<and> rc_close_code s = None then s\<lparr>rc_close_code := Some c\<rparr> else s)"

definition accepted_exit ::
    "socket_behaviour \<Rightarrow> run_end \<Rightarrow> connection \<Rightarrow> run_end \<times> connection" where
  "accepted_exit sock r s =
     (let s1 = (case r of
                  Run_completed \<Rightarrow> s
                | Run_cancelled expired \<Rightarrow> if expired then s else default_code Cl_shutdown s
                | Run_raised \<Rightarrow> default_code Cl_internal_error s);
          r1 = (if r = Run_cancelled True then Run_completed else r);
          s2 = s1\<lparr>rc_startup := False, rc_phase := Finished\<rparr>
      in if rc_closed s2 then (r1, s2)
         else
           (case close_and_mark sock
               (case rc_close_code s2 of Some c \<Rightarrow> c | None \<Rightarrow> Cl_normal, rc_close_reason s2) s2 of
              (failed, s3) \<Rightarrow> (if failed then Run_raised else r1, s3)))"

definition leave ::
    "endpoint_kind \<Rightarrow> socket_behaviour \<Rightarrow> run_end \<Rightarrow> connection \<Rightarrow> run_end \<times> connection" where
  \<comment> \<open>an exception or the end of the run unwinds the run, when it started, and \<open>_accepted\<close>\<close>
  "leave k sock r s =
     (if rc_phase s = Running then (case finish_run k sock r s of (r', s') \<Rightarrow> accepted_exit sock r' s')
      else accepted_exit sock r s)"

section \<open>Admitting a connection\<close>

text \<open>
  \<open>_prepare\<close>: what the endpoint, the mount and the hooks bring. The path model (a pydantic
  class) is its validation; \<open>before_accept\<close> is a callback; context values that are not an
  \<open>RpcConnectionExpiry\<close> are opaque.
\<close>

datatype context_value = Expiry pyval | The_connection | Parsed_path | Opaque string

record 'v mount =
  mt_name :: string
  mt_subprotocol :: "string option"
  mt_match :: "string \<Rightarrow> (string \<times> string) list option"
  mt_path_model :: "(cls \<times> ((string \<times> string) list \<Rightarrow> 'v option)) option"
  mt_before_accept :: "(handshake \<Rightarrow> (failure, (cls \<times> context_value) list option) result) option"
  mt_rejections :: "rejections option"
  mt_context :: "(cls \<times> context_value) list"
  mt_draining :: bool
  mt_accept :: "(failure, unit) result"

datatype 'v prepared =
    Refused rejection string "(string \<times> string) list option"
  | Ready connection "(cls \<times> context_value) list" "'v option"
  | Bad_expiry value_error
  | Accept_failed failure

definition path_params_for :: "'v mount \<Rightarrow> handshake \<Rightarrow> (string \<times> string) list" where
  "path_params_for m hs =
     (if hs_path_params hs \<noteq> [] then hs_path_params hs
      else case mt_match m (hs_path hs) of Some ps \<Rightarrow> ps | None \<Rightarrow> [])"

definition subprotocol_offered :: "'v mount \<Rightarrow> handshake \<Rightarrow> bool" where
  "subprotocol_offered m hs =
     (case mt_subprotocol m of None \<Rightarrow> True | Some p \<Rightarrow> p \<in> set (hs_subprotocols hs))"

definition parse_path :: "'v mount \<Rightarrow> (string \<times> string) list \<Rightarrow> 'v option option" where
  \<comment> \<open>\<open>None\<close>: the path model refused; \<open>Some None\<close>: no path model\<close>
  "parse_path m ps =
     (case mt_path_model m of None \<Rightarrow> Some None | Some f \<Rightarrow> map_option Some (snd f ps))"

definition base_values :: "'v mount \<Rightarrow> (cls \<times> context_value) list" where
  "base_values m =
     (let vs = dict_set ''RpcConnection'' The_connection (mt_context m)
      in case mt_path_model m of None \<Rightarrow> vs | Some f \<Rightarrow> dict_set (fst f) Parsed_path vs)"

definition hook_rejection :: "'v mount \<Rightarrow> failure \<Rightarrow> reject" where
  "hook_rejection m f =
     (case safe_rejection f (mt_rejections m) of
        Some r \<Rightarrow> r
      | None \<Rightarrow> \<lparr>rj_rejection = Rej_internal_error, rj_reason = ''Internal error'', rj_headers = None\<rparr>)"

definition run_hook ::
    "'v mount \<Rightarrow> handshake \<Rightarrow> (reject, (cls \<times> context_value) list) result" where
  "run_hook m hs =
     (case mt_before_accept m of
        None \<Rightarrow> Inr (base_values m)
      | Some h \<Rightarrow>
          (case h hs of
             Inl f \<Rightarrow> Inl (hook_rejection m f)
           | Inr None \<Rightarrow> Inr (base_values m)
           | Inr (Some vs) \<Rightarrow> Inr (fold (\<lambda>p d. dict_set (fst p) (snd p) d) vs (base_values m))))"

definition apply_expiry ::
    "rat \<Rightarrow> (cls \<times> context_value) list \<Rightarrow> connection \<Rightarrow> (value_error, connection) result" where
  "apply_expiry now vals s =
     (case dict_get vals ''RpcConnectionExpiry'' of
        Some (Expiry v) \<Rightarrow> expire_at now (Some v) s
      | _ \<Rightarrow> Inr s)"

definition accept :: "rat \<Rightarrow> connection \<Rightarrow> connection" where
  "accept now s = arm_expiry now (s\<lparr>rc_accepted := True\<rparr>)"

definition prepare :: "'v mount \<Rightarrow> handshake \<Rightarrow> rat \<Rightarrow> 'v prepared" where
  "prepare m hs now =
     (let ps = path_params_for m hs; s = create_connection (mt_name m) hs ps
      in if \<not> subprotocol_offered m hs
         then Refused Rej_protocol_error ''Unsupported subprotocol'' None
         else
           (case parse_path m ps of
              None \<Rightarrow> Refused Rej_not_found ''Invalid path variable'' None
            | Some pv \<Rightarrow>
                (case run_hook m hs of
                   Inl r \<Rightarrow> Refused (rj_rejection r) (rj_reason r) (rj_headers r)
                 | Inr vals \<Rightarrow>
                     (case apply_expiry now vals s of
                        Inl e \<Rightarrow> Bad_expiry e
                      | Inr s1 \<Rightarrow>
                          if mt_draining m then Refused Rej_unavailable ''Server restarting'' None
                          else (case mt_accept m of
                                  Inl f \<Rightarrow> Accept_failed f
                                | Inr _ \<Rightarrow> Ready (accept now s1) vals pv)))))"

section \<open>The life of an accepted connection\<close>

text \<open>
  What may happen, in any order the event loop chooses: the application sets an expiry
  (\<open>Set_expiry\<close>) or closes; the armed timer fires; the run starts and installs its close
  handler, ends its initialisation, and then decides a close (\<open>Decide\<close>: reader, writer,
  events, handler failures) or sees the client disconnect; the drain stops the session; the
  task ends. A run completes only once its close event is set.
\<close>

datatype ws_event =
    Set_expiry rat "pyval option"
  | Timer_fires
  | Enter
  | Install_handler
  | Startup_done
  | App_close conn_close string
  | Decide conn_close string "int option"
  | Client_gone disconnect
  | Stop_session
  | Leave run_end

definition can_end :: "run_end \<Rightarrow> connection \<Rightarrow> bool" where
  "can_end r s =
     (case r of
        Run_completed \<Rightarrow> rc_phase s = Running \<longrightarrow> rc_event s
      | Run_cancelled expired \<Rightarrow> expired \<longrightarrow> rc_cancelled_startup s
      | Run_raised \<Rightarrow> True)"

inductive ws_step ::
    "endpoint_kind \<Rightarrow> socket_behaviour \<Rightarrow> connection \<Rightarrow> ws_event \<Rightarrow> connection \<Rightarrow> bool"
  for k sock where
  expiry: "expire_at now v s = Inr s' \<Longrightarrow> ws_step k sock s (Set_expiry now v) s'"
| timer: "rc_timer s \<noteq> None \<Longrightarrow> ws_step k sock s Timer_fires (expire k s)"
| enter: "rc_phase s = Starting \<Longrightarrow> ws_step k sock s Enter (accepted_enter s)"
| install: "rc_phase s = Starting \<Longrightarrow> ws_step k sock s Install_handler (set_close_handler k s)"
| started: "rc_phase s = Running \<Longrightarrow> ws_step k sock s Startup_done (s\<lparr>rc_startup := False\<rparr>)"
| closes: "app_close k c reason s = Inr s' \<Longrightarrow> ws_step k sock s (App_close c reason) s'"
| decides: "rc_phase s = Running \<Longrightarrow>
    ws_step k sock s (Decide c reason raw) (request_close k c reason raw s)"
| gone: "rc_phase s = Running \<Longrightarrow> ws_step k sock s (Client_gone d) (client_disconnected k d s)"
| stop: "rc_phase s \<noteq> Finished \<Longrightarrow> ws_step k sock s Stop_session (drain_stop s)"
| leaves: "rc_phase s \<noteq> Finished \<Longrightarrow> can_end r s \<Longrightarrow>
    ws_step k sock s (Leave r) (snd (leave k sock r s))"

inductive_cases ws_stepE: "ws_step k sock s e s'"

inductive ws_reach ::
    "endpoint_kind \<Rightarrow> socket_behaviour \<Rightarrow> connection \<Rightarrow> connection \<Rightarrow> bool"
  for k sock s0 where
  start: "ws_reach k sock s0 s0"
| step: "ws_reach k sock s0 s \<Longrightarrow> ws_step k sock s e s' \<Longrightarrow> ws_reach k sock s0 s'"

text \<open>The invariant, in the parts it is made of.\<close>

definition timer_inv :: "connection \<Rightarrow> bool" where
  "timer_inv s = (rc_timer s \<noteq> None \<longrightarrow> rc_accepted s \<and> \<not> rc_closed s \<and> rc_expires_at s \<noteq> None)"

definition delivered :: "connection \<Rightarrow> (conn_close \<times> string \<times> close_outcome) list" where
  "delivered s = filter (\<lambda>a. snd (snd a) = Close_sent) (rc_attempts s)"

lemmas close_defs = request_close_rpc_def request_close_stream_def request_close_socket_def
  decide_close_def


definition decision_inv :: "connection \<Rightarrow> bool" where
  \<comment> \<open>a decided close is what the application reads from the connection\<close>
  "decision_inv s =
     ((rc_event s \<longrightarrow> rc_close_code s = Some (fst (rc_close_value s))
          \<and> rc_close_reason s = snd (rc_close_value s))
      \<and> (rc_client_closed s \<longrightarrow> rc_event s)
      \<and> (rc_close_code s = None \<longrightarrow> rc_close_reason s = '''')
      \<and> (rc_phase s \<noteq> Finished \<longrightarrow> \<not> rc_event s \<longrightarrow> rc_close_value s = (Cl_normal, '''')))"

definition frames_inv :: "connection \<Rightarrow> bool" where
  "frames_inv s =
     ((rc_phase s \<noteq> Finished \<longrightarrow> rc_attempts s = [] \<and> \<not> rc_closed s)
      \<and> (\<forall>a\<in>set (butlast (rc_attempts s)). snd (snd a) = Close_failed)
      \<and> (rc_client_closed s \<longrightarrow> rc_attempts s = [])
      \<and> (rc_phase s = Starting \<longrightarrow> \<not> rc_event s \<and> \<not> rc_on_close s)
      \<and> (rc_phase s = Running \<longrightarrow> rc_on_close s)
      \<and> rc_accepted s)"

definition ws_inv :: "connection \<Rightarrow> bool" where
  "ws_inv s = (timer_inv s \<and> decision_inv s \<and> frames_inv s)"

lemmas ws_inv_defs = ws_inv_def timer_inv_def decision_inv_def frames_inv_def

subsection \<open>Each step keeps the invariant\<close>

lemma request_close_inv: "ws_inv s \<Longrightarrow> rc_phase s \<noteq> Starting \<Longrightarrow> ws_inv (request_close k c r raw s)"
  by (cases k) (auto simp: request_close_def close_defs ws_inv_defs)

lemma arm_expiry_inv: "ws_inv s \<Longrightarrow> ws_inv (arm_expiry now s)"
  by (auto simp: arm_expiry_def ws_inv_defs)

lemma expire_at_inv:
  assumes "ws_inv s" and "expire_at now v s = Inr s'"
  shows "ws_inv s'"
proof -
  from assms(2) obtain q where "s' = arm_expiry now (s\<lparr>rc_expires_at := q\<rparr>)"
    by (auto simp: expire_at_def split: option.splits)
  then show ?thesis using assms(1) by (auto simp: arm_expiry_def ws_inv_defs)
qed

lemma expire_inv:
  assumes "ws_inv s"
  shows "ws_inv (expire k s)"
proof -
  have t: "ws_inv (s\<lparr>rc_timer := None\<rparr>)" using assms by (auto simp: ws_inv_defs)
  have r: "rc_on_close s \<Longrightarrow> rc_phase s \<noteq> Starting" using assms by (auto simp: ws_inv_defs)
  have st: "\<And>x b. ws_inv x \<Longrightarrow> ws_inv (x\<lparr>rc_cancelled_startup := True, rc_startup := b\<rparr>)"
    by (auto simp: ws_inv_defs)
  have c: "rc_close_code s = None \<Longrightarrow> \<not> rc_on_close s \<Longrightarrow>
      ws_inv (s\<lparr>rc_timer := None, rc_close_code := Some Cl_policy_violation,
                rc_close_reason := ''credentials_expired''\<rparr>)"
    using assms by (auto simp: ws_inv_defs)
  have q: "rc_on_close s \<Longrightarrow> ws_inv (request_close k x y z (s\<lparr>rc_timer := None\<rparr>))" for x y z
    using request_close_inv [OF t] r by simp
  show ?thesis
    unfolding expire_def Let_def
    using t c q st by simp
qed

lemma install_inv:
  assumes "ws_inv s" and "rc_phase s = Starting"
  shows "ws_inv (set_close_handler k s)"
proof -
  have "ws_inv (s\<lparr>rc_on_close := True, rc_phase := Running\<rparr>)"
    using assms by (auto simp: ws_inv_defs)
  then show ?thesis
    unfolding set_close_handler_def Let_def by (simp add: request_close_inv)
qed

lemma app_close_inv:
  assumes "ws_inv s" and "app_close k c r s = Inr s'"
  shows "ws_inv s'"
proof -
  have "rc_on_close s \<Longrightarrow> rc_phase s \<noteq> Starting" using assms by (auto simp: ws_inv_defs)
  then show ?thesis using assms request_close_inv [OF assms(1)]
    by (auto simp: app_close_def split: if_splits)
qed

lemma client_disconnected_inv:
  assumes "ws_inv s" and "rc_phase s = Running"
  shows "ws_inv (client_disconnected k d s)"
  using assms
  by (cases k) (auto simp: client_disconnected_def disconnected_rpc_def disconnected_stream_def
      disconnected_socket_def close_defs ws_inv_defs)

lemma drain_stop_inv: "ws_inv s \<Longrightarrow> rc_phase s \<noteq> Finished \<Longrightarrow> ws_inv (drain_stop s)"
  by (auto simp: drain_stop_def ws_inv_defs)

subsection \<open>Ending a run\<close>

definition closing_inv :: "connection \<Rightarrow> bool" where
  "closing_inv s =
     (timer_inv s \<and> rc_accepted s
      \<and> (rc_event s \<longrightarrow> rc_close_code s = Some (fst (rc_close_value s))
          \<and> rc_close_reason s = snd (rc_close_value s))
      \<and> (rc_client_closed s \<longrightarrow> rc_event s \<and> rc_attempts s = [])
      \<and> (rc_close_code s = None \<longrightarrow> rc_close_reason s = '''')
      \<and> (\<forall>a\<in>set (butlast (rc_attempts s)). snd (snd a) = Close_failed)
      \<and> (\<not> rc_closed s \<longrightarrow> (\<forall>a\<in>set (rc_attempts s). snd (snd a) = Close_failed)))"

lemmas closing_defs = closing_inv_def timer_inv_def

lemma closing_start: "ws_inv s \<Longrightarrow> rc_phase s \<noteq> Finished \<Longrightarrow> closing_inv s"
  by (auto simp: closing_inv_def ws_inv_defs)

lemma closing_finished: "closing_inv s \<Longrightarrow> rc_phase s = Finished \<Longrightarrow> ws_inv s"
  by (auto simp: closing_inv_def ws_inv_defs)

lemma close_and_mark_effect:
  assumes "close_and_mark sock v s = (failed, s')"
  defines "out \<equiv> sock (length (rc_attempts s))"
  shows "rc_attempts s' = rc_attempts s @ [(fst v, snd v, out)]"
    and "failed \<longleftrightarrow> out = Close_failed"
    and "s' = (if out = Close_failed then s\<lparr>rc_attempts := rc_attempts s @ [(fst v, snd v, out)]\<rparr>
               else mark_closed (s\<lparr>rc_attempts := rc_attempts s @ [(fst v, snd v, out)]\<rparr>))"
  using assms unfolding close_and_mark_def attempt_close_def Let_def
  by (auto simp: mark_closed_def split: close_outcome.splits)

lemma closing_mark_closed: "closing_inv s \<Longrightarrow> closing_inv (mark_closed s)"
  by (auto simp: closing_defs mark_closed_def)

lemma closing_attempt:
  assumes "closing_inv s" and "\<not> rc_closed s" and "\<not> rc_client_closed s"
  shows "closing_inv (snd (close_and_mark sock v s))"
proof -
  obtain failed s' where cm: "close_and_mark sock v s = (failed, s')"
    by (cases "close_and_mark sock v s")
  show ?thesis
    using assms close_and_mark_effect(3) [OF cm] cm
    by (auto simp: closing_defs mark_closed_def butlast_append split: if_splits)
qed

lemma closing_shutdown_value: "closing_inv s \<Longrightarrow> closing_inv (shutdown_value s)"
  by (auto simp: closing_defs shutdown_value_def Let_def split: option.splits)

lemma closing_default_code: "closing_inv s \<Longrightarrow> closing_inv (default_code c s)"
  by (auto simp: closing_defs default_code_def)

lemma shutdown_value_frame [simp]:
  "rc_closed (shutdown_value s) = rc_closed s" "rc_client_closed (shutdown_value s) = rc_client_closed s"
  "rc_attempts (shutdown_value s) = rc_attempts s" "rc_phase (shutdown_value s) = rc_phase s"
  "rc_event (shutdown_value s) = rc_event s" "rc_close_reason (shutdown_value s) = rc_close_reason s"
  by (simp_all add: shutdown_value_def Let_def)

lemma mark_closed_frame [simp]:
  "rc_closed (mark_closed s)" "rc_client_closed (mark_closed s) = rc_client_closed s"
  "rc_attempts (mark_closed s) = rc_attempts s" "rc_phase (mark_closed s) = rc_phase s"
  "rc_close_code (mark_closed s) = rc_close_code s"
  "rc_close_reason (mark_closed s) = rc_close_reason s"
  "rc_close_value (mark_closed s) = rc_close_value s"
  "rc_event (mark_closed s) = rc_event s"
  by (simp_all add: mark_closed_def)

lemma default_code_frame [simp]:
  "rc_closed (default_code c s) = rc_closed s" "rc_attempts (default_code c s) = rc_attempts s"
  "rc_client_closed (default_code c s) = rc_client_closed s"
  "rc_close_reason (default_code c s) = rc_close_reason s"
  "rc_phase (default_code c s) = rc_phase s" "rc_event (default_code c s) = rc_event s"
  by (simp_all add: default_code_def)

lemma close_and_mark_frame:
  "rc_client_closed (snd (close_and_mark sock v s)) = rc_client_closed s"
  "rc_phase (snd (close_and_mark sock v s)) = rc_phase s"
  "rc_close_code (snd (close_and_mark sock v s)) = rc_close_code s"
  "rc_close_reason (snd (close_and_mark sock v s)) = rc_close_reason s"
  "rc_close_value (snd (close_and_mark sock v s)) = rc_close_value s"
  "rc_closed (snd (close_and_mark sock v s)) = (rc_closed s \<or> \<not> fst (close_and_mark sock v s))"
proof -
  obtain failed s' where cm: "close_and_mark sock v s = (failed, s')"
    by (cases "close_and_mark sock v s")
  note e = close_and_mark_effect(2,3) [OF cm]
  show "rc_client_closed (snd (close_and_mark sock v s)) = rc_client_closed s"
    "rc_phase (snd (close_and_mark sock v s)) = rc_phase s"
    "rc_close_code (snd (close_and_mark sock v s)) = rc_close_code s"
    "rc_close_reason (snd (close_and_mark sock v s)) = rc_close_reason s"
    "rc_close_value (snd (close_and_mark sock v s)) = rc_close_value s"
    "rc_closed (snd (close_and_mark sock v s)) = (rc_closed s \<or> \<not> fst (close_and_mark sock v s))"
    using e cm by simp_all
qed

text \<open>The frame an end of a run sends is the code and reason the connection reports.\<close>

definition reported :: "connection \<Rightarrow> conn_close \<times> string" where
  "reported s = (case rc_close_code s of Some c \<Rightarrow> c | None \<Rightarrow> Cl_normal, rc_close_reason s)"

definition attempts_reported :: "connection \<Rightarrow> bool" where
  "attempts_reported s =
     (rc_close_code s = None \<or> list_all (\<lambda>a. (fst a, fst (snd a)) = reported s) (rc_attempts s))"

lemma rpc_final_closing:
  assumes "closing_inv s"
  shows "closing_inv (snd (rpc_final sock s))"
    and "fst (rpc_final sock s) = False \<Longrightarrow> rc_closed (snd (rpc_final sock s))"
    and "rc_client_closed s \<Longrightarrow> rc_closed (snd (rpc_final sock s)) \<and> \<not> fst (rpc_final sock s)"
    and "rc_client_closed (snd (rpc_final sock s)) = rc_client_closed s"
    and "rc_phase (snd (rpc_final sock s)) = rc_phase s"
  using closing_attempt [OF assms] closing_mark_closed [OF assms]
    close_and_mark_frame [of sock "rc_close_value s" s]
  by (auto simp: rpc_final_def)

lemma finish_stream_final:
  assumes "\<not> rc_closed s"
  shows "finish_stream sock r s =
    (let s1 = (case r of Run_cancelled _ \<Rightarrow> shutdown_value s | _ \<Rightarrow> s)
     in (if fst (rpc_final sock s1) then Run_raised else r, snd (rpc_final sock s1)))"
  using assms unfolding finish_stream_def rpc_final_def Let_def
  by (cases r) (auto split: prod.splits)

lemma finish_socket_final: "finish_socket = finish_stream"
  by (intro ext) (simp add: finish_socket_def finish_stream_def)

lemma finish_rpc_final:
  assumes "\<not> rc_closed s"
  shows "finish_rpc sock r s =
    (case r of
       Run_cancelled _ \<Rightarrow>
         (let f1 = rpc_final sock (shutdown_value s); f2 = rpc_final sock (snd f1)
          in (if fst f1 \<or> fst f2 then Run_raised else r, snd f2))
     | _ \<Rightarrow> (if fst (rpc_final sock s) then Run_raised else r, snd (rpc_final sock s)))"
proof (cases r)
  case (Run_cancelled b)
  have "(if \<not> rc_client_closed (shutdown_value s)
         then close_and_mark sock (rc_close_value (shutdown_value s)) (shutdown_value s)
         else (False, mark_closed (shutdown_value s))) = rpc_final sock (shutdown_value s)"
    using assms by (simp add: rpc_final_def)
  with Run_cancelled show ?thesis
    unfolding finish_rpc_def Let_def by (simp split: prod.splits)
qed (simp_all add: finish_rpc_def split: prod.splits)

lemma finish_run_closing:
  assumes "closing_inv s" and "\<not> rc_closed s" and "rc_phase s = Running"
  shows "closing_inv (snd (finish_run k sock r s))"
    and "rc_client_closed s \<Longrightarrow> rc_closed (snd (finish_run k sock r s))"
    and "rc_client_closed (snd (finish_run k sock r s)) = rc_client_closed s"
    and "rc_phase (snd (finish_run k sock r s)) = Running"
proof -
  note f = rpc_final_closing [where sock = sock]
  have sv: "closing_inv (shutdown_value s)" by (rule closing_shutdown_value [OF assms(1)])
  have "closing_inv (snd (finish_run k sock r s))
    \<and> (rc_client_closed s \<longrightarrow> rc_closed (snd (finish_run k sock r s)))
    \<and> rc_client_closed (snd (finish_run k sock r s)) = rc_client_closed s
    \<and> rc_phase (snd (finish_run k sock r s)) = Running"
    using assms f [OF assms(1)] f [OF sv] f [OF f(1) [OF sv]]
    by (cases k; cases r)
      (simp_all add: finish_run_def finish_rpc_final finish_stream_final finish_socket_final Let_def)
  then show "closing_inv (snd (finish_run k sock r s))"
    "rc_client_closed s \<Longrightarrow> rc_closed (snd (finish_run k sock r s))"
    "rc_client_closed (snd (finish_run k sock r s)) = rc_client_closed s"
    "rc_phase (snd (finish_run k sock r s)) = Running"
    by simp_all
qed

lemma accepted_exit_closing:
  assumes "closing_inv s" and "rc_client_closed s \<Longrightarrow> rc_closed s"
  shows "closing_inv (snd (accepted_exit sock r s))"
    and "rc_phase (snd (accepted_exit sock r s)) = Finished"
    and "rc_closed (snd (accepted_exit sock r s))
         \<or> (rc_attempts (snd (accepted_exit sock r s)) \<noteq> []
            \<and> (\<forall>a\<in>set (rc_attempts (snd (accepted_exit sock r s))). snd (snd a) = Close_failed))"
proof -
  define s1 where "s1 = (case r of Run_completed \<Rightarrow> s
      | Run_cancelled expired \<Rightarrow> if expired then s else default_code Cl_shutdown s
      | Run_raised \<Rightarrow> default_code Cl_internal_error s)"
  define s2 where "s2 = s1\<lparr>rc_startup := False, rc_phase := Finished\<rparr>"
  define v where "v = (case rc_close_code s2 of Some c \<Rightarrow> c | None \<Rightarrow> Cl_normal, rc_close_reason s2)"
  have s1: "closing_inv s1" "rc_client_closed s1 = rc_client_closed s" "rc_closed s1 = rc_closed s"
    using assms(1) closing_default_code [OF assms(1)] unfolding s1_def
    by (auto split: run_end.splits)
  have s2: "closing_inv s2" "rc_client_closed s2 = rc_client_closed s" "rc_closed s2 = rc_closed s"
    "rc_phase s2 = Finished"
    using s1 by (auto simp: s2_def closing_defs)
  have x: "snd (accepted_exit sock r s) =
      (if rc_closed s2 then s2 else snd (close_and_mark sock v s2))"
    unfolding accepted_exit_def Let_def s1_def [symmetric] s2_def [symmetric] v_def [symmetric]
    by (simp split: prod.splits)
  obtain failed s3 where cm: "close_and_mark sock v s2 = (failed, s3)"
    by (cases "close_and_mark sock v s2")
  have a: "\<not> rc_closed s2 \<Longrightarrow> closing_inv s3"
    using closing_attempt [OF s2(1), of sock v] assms(2) s2(2,3) cm by auto
  show "closing_inv (snd (accepted_exit sock r s))" using x a s2(1) cm by simp
  show "rc_phase (snd (accepted_exit sock r s)) = Finished"
    using x s2(4) close_and_mark_frame(2) [of sock v s2] cm by simp
  show "rc_closed (snd (accepted_exit sock r s))
    \<or> (rc_attempts (snd (accepted_exit sock r s)) \<noteq> []
       \<and> (\<forall>a\<in>set (rc_attempts (snd (accepted_exit sock r s))). snd (snd a) = Close_failed))"
    using x a cm close_and_mark_effect(1) [OF cm] by (auto simp: closing_inv_def)
qed

lemma leave_closing:
  assumes "ws_inv s" and "rc_phase s \<noteq> Finished" and s'_def: "s' = snd (leave k sock r s)"
  shows "closing_inv s'" and "rc_phase s' = Finished"
    and "rc_closed s' \<or> (rc_attempts s' \<noteq> [] \<and> (\<forall>a\<in>set (rc_attempts s'). snd (snd a) = Close_failed))"
proof -
  have s: "closing_inv s" "\<not> rc_closed s"
    using assms closing_start by (auto simp: ws_inv_defs)
  have "closing_inv s' \<and> rc_phase s' = Finished
    \<and> (rc_closed s' \<or> (rc_attempts s' \<noteq> [] \<and> (\<forall>a\<in>set (rc_attempts s'). snd (snd a) = Close_failed)))"
  proof (cases "rc_phase s = Running")
    case True
    obtain r' t where t: "finish_run k sock r s = (r', t)" by (cases "finish_run k sock r s")
    note f = finish_run_closing [OF s True, of k sock r]
    have "s' = snd (accepted_exit sock r' t)" using True t by (simp add: s'_def leave_def)
    moreover have "closing_inv t" "rc_client_closed t \<Longrightarrow> rc_closed t" using f t by simp_all
    ultimately show ?thesis using accepted_exit_closing [of t sock r'] by simp
  next
    case False
    with assms(1,2) have "\<not> rc_client_closed s" by (cases "rc_phase s") (auto simp: ws_inv_defs)
    with False s show ?thesis
      using accepted_exit_closing [of s sock r] by (simp add: s'_def leave_def)
  qed
  then show "closing_inv s'" "rc_phase s' = Finished"
    "rc_closed s' \<or> (rc_attempts s' \<noteq> [] \<and> (\<forall>a\<in>set (rc_attempts s'). snd (snd a) = Close_failed))"
    by simp_all
qed

lemma leave_inv: "ws_inv s \<Longrightarrow> rc_phase s \<noteq> Finished \<Longrightarrow> ws_inv (snd (leave k sock r s))"
  by (rule closing_finished) (rule leave_closing, assumption, assumption, rule refl)+

lemma ws_step_inv: "ws_step k sock s e s' \<Longrightarrow> ws_inv s \<Longrightarrow> ws_inv s'"
proof -
  assume step: "ws_step k sock s e s'" and inv: "ws_inv s"
  from step show ?thesis
  proof (cases rule: ws_step.cases)
    case (expiry now v)
    with inv show ?thesis by (blast intro: expire_at_inv)
  next
    case timer
    with inv show ?thesis by (simp only: expire_inv)
  next
    case enter
    with inv show ?thesis by (auto simp: accepted_enter_def ws_inv_defs)
  next
    case install
    with inv show ?thesis by (simp only: install_inv)
  next
    case started
    with inv show ?thesis by (auto simp: ws_inv_defs)
  next
    case (closes c reason)
    with inv show ?thesis by (blast intro: app_close_inv)
  next
    case (decides c reason raw)
    with inv request_close_inv [OF inv] show ?thesis by simp
  next
    case (gone d)
    with inv show ?thesis by (simp only: client_disconnected_inv)
  next
    case stop
    with inv drain_stop_inv show ?thesis by blast
  next
    case (leaves r)
    with inv leave_inv show ?thesis by blast
  qed
qed

lemma ws_reach_inv: "ws_reach k sock s0 s \<Longrightarrow> ws_inv s0 \<Longrightarrow> ws_inv s"
  by (induction rule: ws_reach.induct) (simp_all add: ws_step_inv)

subsection \<open>What a close frame says\<close>

definition truthful :: "connection \<Rightarrow> bool" where
  "truthful s = (\<forall>a\<in>set (rc_attempts s). snd (snd a) = Close_sent \<longrightarrow> (fst a, fst (snd a)) = reported s)"

lemma truthful_open: "closing_inv s \<Longrightarrow> \<not> rc_closed s \<Longrightarrow> truthful s"
  by (auto simp: truthful_def closing_inv_def)

lemma truthful_attempt:
  assumes "truthful s" and "v = reported s"
  shows "truthful (snd (close_and_mark sock v s))"
proof -
  obtain failed s' where cm: "close_and_mark sock v s = (failed, s')"
    by (cases "close_and_mark sock v s")
  have "reported s' = reported s"
    using close_and_mark_frame(3,4) [of sock v s] cm by (simp add: reported_def)
  with assms cm close_and_mark_effect(1) [OF cm] show ?thesis
    by (auto simp: truthful_def)
qed

lemma rpc_final_truthful:
  assumes "truthful s" and "rc_close_value s = reported s"
  shows "truthful (snd (rpc_final sock s))"
    and "rc_close_value (snd (rpc_final sock s)) = reported (snd (rpc_final sock s))"
proof -
  have "truthful (mark_closed s)" "reported (mark_closed s) = reported s"
    using assms(1) by (simp_all add: truthful_def reported_def)
  moreover have "reported (snd (close_and_mark sock v s)) = reported s" for v
    by (simp add: reported_def close_and_mark_frame)
  ultimately show "truthful (snd (rpc_final sock s))"
    "rc_close_value (snd (rpc_final sock s)) = reported (snd (rpc_final sock s))"
    using assms truthful_attempt [OF assms, of sock]
    by (simp_all add: rpc_final_def close_and_mark_frame)
qed

lemma shutdown_value_reported: "rc_close_value (shutdown_value s) = reported (shutdown_value s)"
  by (simp add: shutdown_value_def reported_def Let_def)

lemma finish_run_truthful:
  assumes "closing_inv s" and "\<not> rc_closed s"
    and "(\<exists>b. r = Run_cancelled b) \<or> rc_close_value s = reported s"
  shows "truthful (snd (finish_run k sock r s))"
proof -
  have sv: "truthful (shutdown_value s)"
    using closing_shutdown_value [OF assms(1)] assms(2) by (simp add: truthful_open)
  note a = rpc_final_truthful [OF sv shutdown_value_reported, of sock]
  have b: "rc_close_value s = reported s \<Longrightarrow> truthful (snd (rpc_final sock s))"
    using rpc_final_truthful truthful_open assms(1,2) by blast
  show ?thesis
    using assms(2,3) a rpc_final_truthful [OF a, of sock] b
    by (cases k; cases r)
      (simp_all add: finish_run_def finish_rpc_final finish_stream_final finish_socket_final Let_def)
qed

lemma accepted_exit_truthful:
  assumes "closing_inv s" and "truthful s"
  shows "truthful (snd (accepted_exit sock r s))"
proof -
  define s1 where "s1 = (case r of Run_completed \<Rightarrow> s
      | Run_cancelled expired \<Rightarrow> if expired then s else default_code Cl_shutdown s
      | Run_raised \<Rightarrow> default_code Cl_internal_error s)"
  define s2 where "s2 = s1\<lparr>rc_startup := False, rc_phase := Finished\<rparr>"
  define v where "v = (case rc_close_code s2 of Some c \<Rightarrow> c | None \<Rightarrow> Cl_normal, rc_close_reason s2)"
  have d: "truthful (default_code c s)" for c
    using assms closing_default_code [OF assms(1), of c] truthful_open [of "default_code c s"]
    by (cases "rc_closed s") (simp_all add: default_code_def)
  have s1: "truthful s1"
    using d assms(2) by (auto simp: s1_def split: run_end.splits)
  have s2: "truthful s2" "v = reported s2"
    using s1 by (auto simp: s2_def v_def truthful_def reported_def)
  have x: "snd (accepted_exit sock r s) =
      (if rc_closed s2 then s2 else snd (close_and_mark sock v s2))"
    unfolding accepted_exit_def Let_def s1_def [symmetric] s2_def [symmetric] v_def [symmetric]
    by (simp split: prod.splits)
  show ?thesis using x s2 truthful_attempt [OF s2] by simp
qed

lemma leave_truthful:
  assumes "ws_inv s" and "rc_phase s \<noteq> Finished"
    and "(\<exists>b. r = Run_cancelled b) \<or> rc_event s \<or> rc_close_code s = None"
  shows "truthful (snd (leave k sock r s))"
proof -
  have s: "closing_inv s" "\<not> rc_closed s"
    using assms closing_start by (auto simp: ws_inv_defs)
  have v: "(\<exists>b. r = Run_cancelled b) \<or> rc_close_value s = reported s"
    using assms by (auto simp: ws_inv_defs reported_def)
  show ?thesis
  proof (cases "rc_phase s = Running")
    case True
    obtain r' t where t: "finish_run k sock r s = (r', t)" by (cases "finish_run k sock r s")
    show ?thesis
      using True t accepted_exit_truthful [of t sock r'] finish_run_closing(1) [OF s True, of k sock r]
        finish_run_truthful [OF s v, of k sock]
      by (simp add: leave_def)
  next
    case False
    then show ?thesis
      using accepted_exit_truthful [OF s(1) truthful_open [OF s]] by (simp add: leave_def)
  qed
qed

section \<open>The close decision as a latch\<close>

definition close_decided :: "connection \<Rightarrow> (conn_close \<times> string) option" where
  "close_decided s = (if rc_event s then Some (rc_close_value s) else None)"

type_synonym close_request = "conn_close \<times> string \<times> int option"

definition handle_request :: "endpoint_kind \<Rightarrow> close_request \<Rightarrow> connection \<Rightarrow> connection" where
  "handle_request k q s = request_close k (fst q) (fst (snd q)) (snd (snd q)) s"

definition requested :: "close_request \<Rightarrow> conn_close \<times> string" where
  "requested q = (fst q, fst (snd q))"

definition normal_close :: "conn_close \<times> string \<Rightarrow> bool" where
  "normal_close v = (fst v = Cl_normal)"

lemmas latch_defs = handle_request_def requested_def close_decided_def normal_close_def
  request_close_def close_defs

interpretation rpc_latch: first_wins "handle_request Rpc_endpoint" close_decided requested
  by unfold_locales (simp_all add: latch_defs split: if_splits)

interpretation stream_latch:
  upgrading "handle_request Stream_endpoint" close_decided requested normal_close rc_client_closed
  by unfold_locales (auto simp: latch_defs split: if_splits)

interpretation socket_latch:
  upgrading "handle_request Socket_endpoint" close_decided requested normal_close rc_client_closed
  by unfold_locales (auto simp: latch_defs split: if_splits)

section \<open>Admission\<close>

lemma expire_at_frame:
  "expire_at now v s = Inr s' \<Longrightarrow>
     rc_accepted s' = rc_accepted s \<and> rc_closed s' = rc_closed s \<and> rc_event s' = rc_event s
     \<and> rc_on_close s' = rc_on_close s \<and> rc_phase s' = rc_phase s \<and> rc_attempts s' = rc_attempts s
     \<and> rc_client_closed s' = rc_client_closed s \<and> rc_close_code s' = rc_close_code s
     \<and> rc_close_reason s' = rc_close_reason s \<and> rc_close_value s' = rc_close_value s
     \<and> rc_cancelled_startup s' = rc_cancelled_startup s"
  by (auto simp: expire_at_def arm_expiry_def split: option.splits)

lemma prepare_ReadyE:
  assumes "prepare m hs now = Ready s vals pv"
  obtains s1 where "subprotocol_offered m hs" "parse_path m (path_params_for m hs) = Some pv"
    "run_hook m hs = Inr vals" "\<not> mt_draining m" "mt_accept m = Inr ()"
    "apply_expiry now vals (create_connection (mt_name m) hs (path_params_for m hs)) = Inr s1"
    "s = accept now s1"
  using assms unfolding prepare_def Let_def
  by (auto split: if_splits option.splits sum.splits)

lemma apply_expiry_frame:
  assumes "apply_expiry now vals s = Inr s'"
  shows "s' = s \<or> (\<exists>v. expire_at now (Some v) s = Inr s')"
  using assms by (auto simp: apply_expiry_def split: option.splits context_value.splits)

lemma accept_inv:
  assumes "rc_phase s = Starting" and "\<not> rc_closed s" and "\<not> rc_event s" and "\<not> rc_on_close s"
    and "rc_attempts s = []" and "\<not> rc_client_closed s" and "rc_close_code s = None"
    and "rc_close_reason s = ''''" and "rc_close_value s = (Cl_normal, '''')"
  shows "ws_inv (accept now s)"
  using assms by (auto simp: accept_def arm_expiry_def ws_inv_defs)

lemma prepare_inv: "prepare m hs now = Ready s vals pv \<Longrightarrow> ws_inv s"
proof (elim prepare_ReadyE)
  fix s1
  assume e: "apply_expiry now vals (create_connection (mt_name m) hs (path_params_for m hs)) = Inr s1"
    and s: "s = accept now s1"
  show "ws_inv s"
    using apply_expiry_frame [OF e] expire_at_frame
    by (auto simp: s create_connection_def intro!: accept_inv)
qed

section \<open>Properties\<close>

definition sample_handshake :: handshake where
  "sample_handshake =
     \<lparr>hs_path = ''/rpc'', hs_headers = [(''Authorization'', ''t'')], hs_query = [], hs_path_params = [],
      hs_subprotocols = [''rpc.v1''], hs_client = None\<rparr>"

definition sample_mount :: "unit mount" where
  "sample_mount =
     \<lparr>mt_name = ''rpc'', mt_subprotocol = Some ''rpc.v1'', mt_match = (\<lambda>_. None),
      mt_path_model = None,
      mt_before_accept =
        Some (\<lambda>h. if dict_get (headers_init (hs_headers h)) ''authorization'' = None
                  then Inl (Failure \<lparr>exc_mro = [''Denied'', ''Exception''], exc_text = ''who''\<rparr> KPlain)
                  else Inr (Some [(''RpcConnectionExpiry'', Expiry (PInt 1000))])),
      mt_rejections = Some (RejMap [(''Denied'', Rej_unauthorized)]),
      mt_context = [], mt_draining = False, mt_accept = Inr ()\<rparr>"

definition sample_connection :: connection where
  "sample_connection =
     (case prepare sample_mount sample_handshake 400 of
        Ready s _ _ \<Rightarrow> s | _ \<Rightarrow> create_connection '''' sample_handshake [])"

lemma sample_ready:
  "prepare sample_mount sample_handshake 400 =
     Ready sample_connection
       [(''RpcConnection'', The_connection), (''RpcConnectionExpiry'', Expiry (PInt 1000))] None"
  by code_simp

lemma sample_running:
  "ws_reach k sock sample_connection
     (request_close k Cl_policy_violation ''slow'' None (set_close_handler k sample_connection))"
proof -
  have a: "rc_phase sample_connection = Starting" by code_simp
  have "ws_reach k sock sample_connection (set_close_handler k sample_connection)"
    by (rule ws_reach.step [OF ws_reach.start ws_step.install [OF a]])
  moreover have "rc_phase (set_close_handler k sample_connection) = Running"
    by (cases k) code_simp+
  ultimately show ?thesis by (blast intro: ws_reach.step ws_step.decides)
qed

text \<open>
  Claim C1. Whatever the event loop interleaves after a connection was admitted, its expiry
  timer is armed only while the connection is accepted and open, at most one close frame is
  delivered, none is sent to a client that disconnected, and a decided close is exactly what
  the application reads as \<open>close_code\<close> and \<open>close_reason\<close>.
\<close>

theorem ws_connection_safe:
  assumes "prepare m hs now = Ready s0 vals pv" and "ws_reach k sock s0 s"
  shows "(rc_timer s \<noteq> None \<longrightarrow> rc_accepted s \<and> \<not> rc_closed s \<and> rc_expires_at s \<noteq> None)
    \<and> length (delivered s) \<le> 1
    \<and> (rc_client_closed s \<longrightarrow> rc_attempts s = [])
    \<and> (rc_event s \<longrightarrow> rc_close_code s = Some (fst (rc_close_value s))
          \<and> rc_close_reason s = snd (rc_close_value s))"
proof -
  have inv: "ws_inv s" by (rule ws_reach_inv [OF assms(2) prepare_inv [OF assms(1)]])
  then have b: "\<forall>a\<in>set (butlast (rc_attempts s)). snd (snd a) = Close_failed"
    by (auto simp: ws_inv_defs)
  have "length (delivered s) \<le> 1"
  proof (cases "rc_attempts s" rule: rev_cases)
    case (snoc as a)
    with b have "filter (\<lambda>a. snd (snd a) = Close_sent) as = []"
      by (auto simp: filter_empty_conv)
    with snoc show ?thesis by (simp add: delivered_def)
  qed (simp add: delivered_def)
  with inv show ?thesis by (auto simp: ws_inv_defs)
qed

theorem ws_connection_safe_witness:
  "length (delivered (request_close Rpc_endpoint Cl_policy_violation ''slow'' None
      (set_close_handler Rpc_endpoint sample_connection))) \<le> 1"
  using ws_connection_safe [OF sample_ready sample_running]
  by blast



text \<open>
  On an RPC endpoint the first requested close is final: of any sequence of close
  requests by the reader, the writer, the events, the expiry and the application, the first
  one decides the code and the reason, and a decided close is never replaced.
\<close>

theorem rpc_first_close_wins:
  "close_decided (fold (handle_request Rpc_endpoint) qs s) =
     (case close_decided s of
        Some v \<Rightarrow> Some v
      | None \<Rightarrow> (case qs of [] \<Rightarrow> None | q # _ \<Rightarrow> Some (requested q)))"
  using rpc_latch.first_request_wins [of s qs] rpc_latch.requests_sticky [of s _ qs]
  by (cases "close_decided s") auto

lemma handle_request_client: "rc_client_closed (handle_request k q s) = rc_client_closed s"
  by (cases k) (simp_all add: handle_request_def request_close_def close_defs)

lemma handle_requests_client: "rc_client_closed (fold (handle_request k) qs s) = rc_client_closed s"
  by (induction qs arbitrary: s) (simp_all add: handle_request_client)

lemma request_close_event:
  "rc_event (request_close k c r raw s)"
  "rc_client_closed (request_close k c r raw s) = rc_client_closed s"
  by (cases k; simp add: request_close_def close_defs)+

lemma client_disconnected_request:
  "client_disconnected k d s =
     (if k = Socket_endpoint \<and> rc_client_closed s then s
      else request_close k (dc_code d) (dc_reason d) (dc_raw d) (s\<lparr>rc_client_closed := True\<rparr>))"
  by (cases k) (simp_all add: client_disconnected_def disconnected_rpc_def disconnected_stream_def
      disconnected_socket_def request_close_def)

lemma client_disconnected_decides:
  assumes "rc_client_closed s \<Longrightarrow> close_decided s \<noteq> None"
  shows "close_decided (client_disconnected k d s) \<noteq> None"
    and "rc_client_closed (client_disconnected k d s)"
proof -
  have "rc_client_closed s \<Longrightarrow> rc_event s"
    using assms by (cases "rc_event s") (simp_all add: close_decided_def)
  then show "close_decided (client_disconnected k d s) \<noteq> None"
    "rc_client_closed (client_disconnected k d s)"
    by (simp_all add: client_disconnected_request request_close_event close_decided_def)
qed

text \<open>
  On a stream or socket endpoint a normal close gives way to a failure: while the
  client is connected, a sequence of close requests is decided by its first request that is
  not normal, or by its first request where all are normal; after a client disconnect the
  decision no longer changes.
\<close>

theorem stream_failure_overrides_normal:
  assumes "k = Stream_endpoint \<or> k = Socket_endpoint" and "close_decided s = None"
    and "\<not> rc_client_closed s"
  shows "close_decided (fold (handle_request k) qs s) =
      (case List.find (\<lambda>v. \<not> normal_close v) (map requested qs) of
         Some v \<Rightarrow> Some v
       | None \<Rightarrow> (case qs of [] \<Rightarrow> None | q # _ \<Rightarrow> Some (requested q)))
    \<and> (let t = client_disconnected k d (fold (handle_request k) qs s) in
        close_decided t \<noteq> None \<and> close_decided (fold (handle_request k) qs' t) = close_decided t)"
proof -
  have "\<not> rc_client_closed (fold (handle_request k) qs s)"
    using assms(3) by (simp add: handle_requests_client)
  note d = client_disconnected_decides [of "fold (handle_request k) qs s" k d]
  moreover have "close_decided (fold (handle_request k) qs' t) = close_decided t"
    if "close_decided t \<noteq> None" "rc_client_closed t" for t
    using assms(1) that stream_latch.frozen_final [of t _ qs'] socket_latch.frozen_final [of t _ qs']
    by (cases "close_decided t") auto
  moreover have "close_decided (fold (handle_request k) qs s) =
      (case List.find (\<lambda>v. \<not> normal_close v) (map requested qs) of
         Some v \<Rightarrow> Some v
       | None \<Rightarrow> (case qs of [] \<Rightarrow> None | q # _ \<Rightarrow> Some (requested q)))"
    using assms(1) stream_latch.first_strong_request_wins [OF assms(2,3), of qs]
      socket_latch.first_strong_request_wins [OF assms(2,3), of qs]
    by auto
  ultimately show ?thesis
    using \<open>\<not> rc_client_closed (fold (handle_request k) qs s)\<close> unfolding Let_def by blast
qed

theorem stream_failure_overrides_normal_witness:
  "close_decided (fold (handle_request Socket_endpoint)
      [(Cl_normal, '''', None), (Cl_internal_error, ''Internal error'', None)] sample_connection)
   = Some (Cl_internal_error, ''Internal error'')"
proof -
  have "Socket_endpoint = Stream_endpoint \<or> Socket_endpoint = Socket_endpoint"
    "close_decided sample_connection = None" "\<not> rc_client_closed sample_connection"
    by code_simp+
  from stream_failure_overrides_normal [OF this, of "[(Cl_normal, '''', None), (Cl_internal_error, ''Internal error'', None)]"]
  show ?thesis by (simp add: requested_def normal_close_def)
qed

lemma prepare_admits_iff:
  "(\<exists>s vals pv. prepare m hs now = Ready s vals pv) \<longleftrightarrow>
     subprotocol_offered m hs \<and> parse_path m (path_params_for m hs) \<noteq> None
     \<and> (\<exists>vals. run_hook m hs = Inr vals
          \<and> (case dict_get vals ''RpcConnectionExpiry'' of
               Some (Expiry v) \<Rightarrow> succeeds (validate_expiry v) | _ \<Rightarrow> True))
     \<and> \<not> mt_draining m \<and> succeeds (mt_accept m)"
proof -
  have ex: "succeeds (apply_expiry now vals s) \<longleftrightarrow>
      (case dict_get vals ''RpcConnectionExpiry'' of
         Some (Expiry v) \<Rightarrow> succeeds (validate_expiry v) | _ \<Rightarrow> True)" for vals s
    by (auto simp: apply_expiry_def expire_at_def succeeds_iff
        split: option.splits context_value.splits)
  show ?thesis
    unfolding ex [of _ "create_connection (mt_name m) hs (path_params_for m hs)", symmetric]
      prepare_def Let_def
    by (cases "parse_path m (path_params_for m hs)"; cases "run_hook m hs"; cases "mt_accept m")
      (auto simp: succeeds_iff split: sum.splits if_splits)
qed

lemma prepare_admitted:
  assumes "prepare m hs now = Ready s vals pv"
  shows "rc_accepted s \<and> \<not> rc_closed s
     \<and> rc_expires_at s =
         (case dict_get vals ''RpcConnectionExpiry'' of
            Some (Expiry v) \<Rightarrow> (case validate_expiry v of Inr q \<Rightarrow> Some q | Inl _ \<Rightarrow> None)
          | _ \<Rightarrow> None)
     \<and> rc_timer s = map_option (schedule_expiry now) (rc_expires_at s)"
proof -
  from assms obtain s1 where
      e: "apply_expiry now vals (create_connection (mt_name m) hs (path_params_for m hs)) = Inr s1"
    and s: "s = accept now s1"
    by (rule prepare_ReadyE)
  have "rc_expires_at s1 =
      (case dict_get vals ''RpcConnectionExpiry'' of
         Some (Expiry v) \<Rightarrow> (case validate_expiry v of Inr q \<Rightarrow> Some q | Inl _ \<Rightarrow> None) | _ \<Rightarrow> None)"
    "\<not> rc_closed s1"
    using e by (auto simp: apply_expiry_def expire_at_def arm_expiry_def create_connection_def
        split: option.splits context_value.splits)
  then show ?thesis by (simp add: s accept_def arm_expiry_def)
qed

text \<open>
  A connection is admitted exactly when the client offers the endpoint's
  subprotocol, its path variables validate, the \<open>before_accept\<close> hook returns, the expiry it
  hands over is a finite timestamp, the service is not draining and the socket accepts; an
  admitted connection is accepted, open, and has a timer exactly for that expiry.
\<close>

theorem prepare_admits:
  "((\<exists>s vals pv. prepare m hs now = Ready s vals pv) \<longleftrightarrow>
     subprotocol_offered m hs \<and> parse_path m (path_params_for m hs) \<noteq> None
     \<and> (\<exists>vals. run_hook m hs = Inr vals
          \<and> (case dict_get vals ''RpcConnectionExpiry'' of
               Some (Expiry v) \<Rightarrow> succeeds (validate_expiry v) | _ \<Rightarrow> True))
     \<and> \<not> mt_draining m \<and> succeeds (mt_accept m))
   \<and> (\<forall>s vals pv. prepare m hs now = Ready s vals pv \<longrightarrow>
     rc_accepted s \<and> \<not> rc_closed s
     \<and> rc_expires_at s =
         (case dict_get vals ''RpcConnectionExpiry'' of
            Some (Expiry v) \<Rightarrow> (case validate_expiry v of Inr q \<Rightarrow> Some q | Inl _ \<Rightarrow> None)
          | _ \<Rightarrow> None)
     \<and> rc_timer s = map_option (schedule_expiry now) (rc_expires_at s))"
  by (intro conjI allI impI prepare_admits_iff) (simp_all add: prepare_admitted)

theorem prepare_admits_witness: "rc_timer sample_connection = Some 600"
proof -
  have "rc_expires_at sample_connection = Some 1000"
    "schedule_expiry 400 1000 = (600 :: rat)"
    by code_simp+
  with prepare_admits [of sample_mount sample_handshake 400] sample_ready show ?thesis by auto
qed

text \<open>
  When the timer of an undecided connection fires, the connection ends with a
  policy violation for the reason \<open>credentials_expired\<close>, whether its run already installed
  the close handler or installs it later, and a connection that is still starting has its
  task cancelled.
\<close>

theorem expiry_closes:
  assumes "prepare m hs now = Ready s0 vals pv" and "ws_reach k sock s0 s"
    and "rc_timer s \<noteq> None" and "rc_close_code s = None"
  defines "s' \<equiv> expire k s"
  shows "rc_close_code s' = Some Cl_policy_violation \<and> rc_close_reason s' = ''credentials_expired''
    \<and> rc_timer s' = None
    \<and> (rc_startup s \<longrightarrow> rc_cancelled_startup s')
    \<and> close_decided (if rc_on_close s then s' else set_close_handler k s') =
        Some (Cl_policy_violation, ''credentials_expired'')"
proof -
  have inv: "ws_inv s" by (rule ws_reach_inv [OF assms(2) prepare_inv [OF assms(1)]])
  have o: "\<not> rc_closed s" "\<not> rc_event s" using inv assms(3,4) by (auto simp: ws_inv_defs)
  show ?thesis
  proof (cases "rc_on_close s")
    case True
    with o assms(4) show ?thesis
      by (cases k; cases "rc_startup s")
        (simp_all add: s'_def expire_def Let_def request_close_def close_defs close_decided_def)
  next
    case False
    with o assms(4) show ?thesis
      by (cases k; cases "rc_startup s")
        (simp_all add: s'_def expire_def set_close_handler_def Let_def request_close_def close_defs
          close_decided_def)
  qed
qed

theorem expiry_closes_witness:
  "rc_close_reason (expire Stream_endpoint sample_connection) = ''credentials_expired''"
proof -
  have "rc_timer sample_connection \<noteq> None" "rc_close_code sample_connection = None" by code_simp+
  from expiry_closes [OF sample_ready ws_reach.start this] show ?thesis by blast
qed

lemma rejection_for_reject: "fl_kind f = KReject r \<Longrightarrow> rejection_for f rs = Inr (Some r)"
  by (simp add: rejection_for_def)

lemma rejection_for_fn:
  "(\<And>r. fl_kind f \<noteq> KReject r) \<Longrightarrow> rejection_for f (Some (RejFn g)) = g f"
  by (simp add: rejection_for_def split: fkind.split)

lemma rejection_for_None:
  "(\<And>r. fl_kind f \<noteq> KReject r) \<Longrightarrow> rejection_for f None = Inr None"
  by (simp add: rejection_for_def split: fkind.split)

lemma reject_levels_single: "reject_levels [l] f = rejection_for f (Some l)"
proof (cases "rejection_for f (Some l)")
  case (Inr r)
  then show ?thesis by (cases r) simp_all
qed simp

text \<open>
  Chaining rejection mappers consults them from the outermost level to the last:
  the chain maps a failure to what the first level that maps it says, raises what a level
  before it raises, maps nothing where no level does, and never remaps an \<open>RpcReject\<close>.
\<close>

theorem chain_rejections_first:
  "rejection_for f (chain_rejections levels) =
     (case fl_kind f of
        KReject r \<Rightarrow> Inr (Some r)
      | _ \<Rightarrow> reject_levels (List.map_filter (\<lambda>l. l) levels) f)"
proof (cases "\<exists>r. fl_kind f = KReject r")
  case True
  then show ?thesis by (auto simp: rejection_for_reject)
next
  case False
  have k: "(case fl_kind f of KReject r \<Rightarrow> Inr (Some r) | _ \<Rightarrow> x) = x" for x
    using False by (auto split: fkind.split)
  show ?thesis
  proof (cases "List.map_filter (\<lambda>l. l) levels")
    case Nil
    with False show ?thesis by (simp add: k chain_rejections_def rejection_for_None)
  next
    case (Cons l ls)
    with False show ?thesis
      by (cases ls)
        (simp_all add: k chain_rejections_def rejection_for_fn reject_levels_single
          del: reject_levels.simps)
  qed
qed

definition limits_ok :: "limits \<Rightarrow> bool" where
  "limits_ok l =
     ((case request_timeout l of
         None \<Rightarrow> True
       | Some (PInt i) \<Rightarrow> 0 < i \<and> i < float_range
       | Some (PFloat (Fin q)) \<Rightarrow> 0 < q
       | Some _ \<Rightarrow> False)
      \<and> 1 \<le> max_concurrency l \<and> 1 \<le> max_queue_size l
      \<and> (\<forall>n. max_message_bytes l = Some n \<longrightarrow> 1 \<le> n)
      \<and> (\<forall>q. send_timeout l = Some (Fin q) \<longrightarrow> 0 < q) \<and> send_timeout l \<noteq> Some NegInf
      \<and> 0 \<le> max_batch_size l \<and> 1 \<le> max_streams l \<and> 1 \<le> max_pending_requests l)"

lemma request_timeout_ok_iff:
  "request_timeout_ok t = Inr u \<longleftrightarrow>
     (case t of
         None \<Rightarrow> True
       | Some (PInt i) \<Rightarrow> 0 < i \<and> i < float_range
       | Some (PFloat (Fin q)) \<Rightarrow> 0 < q
       | Some _ \<Rightarrow> False)"
proof -
  have "0 < i \<and> i < float_range \<longleftrightarrow> \<not> float_range \<le> \<bar>i\<bar> \<and> \<not> i \<le> 0" for i :: int
    by auto
  then show ?thesis
    by (auto simp: request_timeout_ok_def Let_def is_finite_def float_le_0_def
        split: option.splits pyval.splits pyfloat.splits if_splits)
qed

lemma limits_post_init_ok: "limits_post_init l = Inr l' \<longleftrightarrow> limits_ok l \<and> l' = l"
proof -
  have t: "(case send_timeout l of None \<Rightarrow> True | Some t \<Rightarrow> \<not> float_le_0 t) \<longleftrightarrow>
      (\<forall>q. send_timeout l = Some (Fin q) \<longrightarrow> 0 < q) \<and> send_timeout l \<noteq> Some NegInf"
    by (auto simp: float_le_0_def split: option.splits pyfloat.splits)
  have m: "(case max_message_bytes l of None \<Rightarrow> True | Some n \<Rightarrow> 1 \<le> n) \<longleftrightarrow>
      (\<forall>n. max_message_bytes l = Some n \<longrightarrow> 1 \<le> n)"
    by (auto split: option.splits)
  show ?thesis
    unfolding limits_post_init_def limits_ok_def rbind_eq_Inr ensure_eq_Inr t m
      request_timeout_ok_iff
    by auto
qed

text \<open>
  \<open>RpcLimits\<close> accepts exactly the limits within bounds: a finite positive request
  timeout, positive counts, a batch size that is not negative, a send timeout that is not
  zero or negative; the accepted value is the one given.
\<close>

theorem limits_post_init_exact:
  "limits_post_init l = Inr l' \<longleftrightarrow> limits_ok l \<and> l' = l"
  by (rule limits_post_init_ok)

end
