(* ===== verification/Ws_Errors.thy ===== *)
theory Ws_Errors
  imports Ws_Connection
begin

text \<open>
  RPC errors: \<open>fastapi_canon/integrations/websockets/errors.py\<close> (error classes and their
  codes, bindings of domain exceptions, declarations and their inheritance, rejections) and
  the mapping of a failed call to its response in \<open>server.py\<close> (\<open>_rpc_error\<close>,
  \<open>_internal_error\<close>, \<open>_failure_response\<close> and the request readers). A class is its name in
  a class table, a binding an identity in a binding table: two declarations of one binding
  are the same identity.
\<close>

section \<open>Error codes and classes (errors.py)\<close>

definition alnum_low :: "char \<Rightarrow> bool" where
  "alnum_low c = (is_lower c \<or> is_digit c)"

text \<open>The zero-width matches of the regular expression: before a capital after a lower-case
  letter or digit, and before the last capital of a run that a lower-case letter follows.\<close>

fun snake_split :: "char \<Rightarrow> string \<Rightarrow> string" where
  "snake_split prev [] = []"
| "snake_split prev [c] = (if alnum_low prev \<and> is_upper c then ''_'' @ [c] else [c])"
| "snake_split prev (c # d # s) =
     (if (alnum_low prev \<and> is_upper c) \<or> (is_upper prev \<and> is_upper c \<and> is_lower d)
      then ''_'' @ c # snake_split c (d # s) else c # snake_split c (d # s))"

definition remove_suffix :: "string \<Rightarrow> string \<Rightarrow> string" where
  "remove_suffix p s = (if p \<noteq> [] \<and> ends_with p s then drop_suffix (length p) s else s)"

definition error_code :: "string \<Rightarrow> string" where
  "error_code name =
     (let n = dropWhile (\<lambda>c. c = CHR ''_'') name;
          n1 = remove_suffix ''Error'' (remove_suffix ''RpcError'' n)
      in str_lower (case n1 of [] \<Rightarrow> [] | c # s \<Rightarrow> c # snake_split c s))"

datatype definition_error = Protocol_definition string | Type_error string | Value_err

definition valid_code :: "string \<Rightarrow> bool" where
  \<comment> \<open>\<open>re.fullmatch(r"[a-z][a-z0-9_]*", code)\<close>\<close>
  "valid_code s =
     (case s of [] \<Rightarrow> False
      | c # cs \<Rightarrow> is_lower c \<and> list_all (\<lambda>x. is_lower x \<or> is_digit x \<or> x = CHR ''_'') cs)"

definition spaced :: "string \<Rightarrow> string" where
  \<comment> \<open>\<open>code.replace("_", " ").capitalize()\<close>\<close>
  "spaced s = capitalize (map (\<lambda>c. if c = CHR ''_'' then CHR '' '' else c) s)"

definition standard_codes :: "int list" where
  "standard_codes = [-32700, -32600, -32601, -32602, -32603]"

definition server_error_code :: int where
  "server_error_code = -32000"

text \<open>
  The class statement a subclass of \<open>RpcError\<close> is created from: its own \<open>__dict__\<close>
  entries, the resolved annotation of \<open>details\<close> and the \<open>details_type\<close> it inherits.
\<close>

datatype details_annotation = Ann_absent | Ann_model cls | Ann_other

record class_body =
  cb_name :: string
  cb_bases :: "cls list"
  cb_code :: "pyval option"
  cb_rpc_code :: "pyval option"
  cb_builtin :: bool
  cb_message :: "string option"
  cb_details_own :: "cls option option"
  cb_annotation :: details_annotation
  cb_inherited_details :: "cls option"
  cb_inherited_builtin :: bool
  cb_contract :: "nat option"

record rpc_class =
  rk_mro :: "cls list"
  rk_code :: string
  rk_message :: string
  rk_rpc_code :: int
  rk_details :: "cls option"
  rk_builtin :: bool
  rk_contract :: "nat option"

definition body_code :: "class_body \<Rightarrow> (definition_error, string) result" where
  "body_code b =
     (case cb_code b of
        None \<Rightarrow> (if valid_code (error_code (cb_name b)) then Inr (error_code (cb_name b))
                 else Inl (Protocol_definition ''Invalid RPC error code''))
      | Some (PStr s) \<Rightarrow> (if valid_code s then Inr s
                          else Inl (Protocol_definition ''Invalid RPC error code''))
      | Some _ \<Rightarrow> Inl (Protocol_definition ''Invalid RPC error code''))"

definition body_rpc_code :: "class_body \<Rightarrow> (definition_error, int) result" where
  "body_rpc_code b =
     rbind (case cb_rpc_code b of
              None \<Rightarrow> Inr server_error_code
            | Some (PInt i) \<Rightarrow> Inr i
            | Some (PBool t) \<Rightarrow> Inr (if t then 1 else 0)
            | Some _ \<Rightarrow> Inl (Protocol_definition ''RPC error rpc_code must be an integer''))
       (\<lambda>n. if n \<in> set standard_codes \<and> \<not> cb_builtin b
            then Inl (Protocol_definition ''Reserved JSON-RPC codes are only for built-in errors'')
            else if -32768 \<le> n \<and> n < -32099 \<and> \<not> cb_builtin b
            then Inl (Protocol_definition ''RPC error code is reserved'')
            else Inr n)"

definition body_details :: "class_body \<Rightarrow> (definition_error, cls option) result" where
  "body_details b =
     (case cb_annotation b of
        Ann_model c \<Rightarrow> Inr (Some c)
      | Ann_other \<Rightarrow> Inl (Protocol_definition ''RPC error details must be a Pydantic model'')
      | Ann_absent \<Rightarrow>
          (case cb_details_own b of Some d \<Rightarrow> Inr d | None \<Rightarrow> Inr (cb_inherited_details b)))"

definition init_subclass :: "class_body \<Rightarrow> (definition_error, rpc_class) result" where
  "init_subclass b =
     rbind (body_code b) (\<lambda>code.
     rbind (body_rpc_code b) (\<lambda>n.
     rbind (body_details b) (\<lambda>d.
       Inr \<lparr>rk_mro = cb_name b # cb_bases b, rk_code = code,
            rk_message = (case cb_message b of Some m \<Rightarrow> m | None \<Rightarrow> spaced code),
            rk_rpc_code = n, rk_details = d,
            rk_builtin = (cb_builtin b \<or> cb_inherited_builtin b),
            rk_contract = cb_contract b\<rparr>)))"

definition instance_error :: "rpc_class \<Rightarrow> pyval option \<Rightarrow> string \<Rightarrow> rpc_error" where
  "instance_error k details message =
     \<lparr>rx_mro = rk_mro k, rx_code = rk_code k, rx_message = message, rx_rpc_code = rk_rpc_code k,
      rx_builtin = rk_builtin k, rx_details = details, rx_details_type = rk_details k,
      rx_problem = None\<rparr>"

text \<open>\<open>RpcError.__init__\<close>: \<open>is_a v c\<close> is \<open>isinstance(v, c)\<close>, \<open>mk_model c kwargs\<close> the
  pydantic construction \<open>c(**fields)\<close>.\<close>

definition rpc_error_init ::
    "(pyval \<Rightarrow> cls \<Rightarrow> bool) \<Rightarrow> (cls \<Rightarrow> (string \<times> pyval) list \<Rightarrow> pyval option) \<Rightarrow> rpc_class
      \<Rightarrow> pyval option \<Rightarrow> string option \<Rightarrow> (string \<times> pyval) list \<Rightarrow> (definition_error, rpc_error) result" where
  "rpc_error_init is_a mk_model k details message kwargs =
     (if hd (rk_mro k) = ''RpcError''
      then Inl (Type_error ''RpcError cannot be instantiated directly'')
      else
        rbind (case rk_details k of
                 None \<Rightarrow>
                   if details \<noteq> None \<or> kwargs \<noteq> [] then Inl (Type_error ''does not accept details'')
                   else Inr None
               | Some t \<Rightarrow>
                   (case details of
                      Some v \<Rightarrow>
                        if kwargs \<noteq> [] then Inl (Type_error ''Pass either a details instance or fields, not both'')
                        else if \<not> is_a v t then Inl (Type_error ''details must be the details type'')
                        else Inr (Some v)
                    | None \<Rightarrow>
                        if kwargs = [] then Inl (Type_error ''requires details'')
                        else (case mk_model t kwargs of None \<Rightarrow> Inl Value_err | Some v \<Rightarrow> Inr (Some v))))
          (\<lambda>d. Inr (instance_error k d
                 (case message of Some m \<Rightarrow> if m = [] then rk_message k else m | None \<Rightarrow> rk_message k))))"

definition builtin_class :: "string \<Rightarrow> string \<Rightarrow> int \<Rightarrow> rpc_class" where
  "builtin_class name code n =
     \<lparr>rk_mro = [name, ''RpcError'', ''Exception''], rk_code = code, rk_message = spaced code,
      rk_rpc_code = n, rk_details = None, rk_builtin = True, rk_contract = None\<rparr>"

definition parse_error :: rpc_error where
  "parse_error = instance_error (builtin_class ''RpcParseError'' ''parse_error'' (-32700)) None ''Parse error''"

definition invalid_request_error :: rpc_error where
  "invalid_request_error =
     instance_error (builtin_class ''RpcInvalidRequestError'' ''invalid_request'' (-32600)) None ''Invalid request''"

definition internal_rpc_error :: rpc_error where
  "internal_rpc_error =
     instance_error (builtin_class ''RpcInternalError'' ''internal_error'' (-32603)) None ''Internal error''"

definition timeout_error :: rpc_error where
  "timeout_error =
     instance_error (builtin_class ''RpcRequestTimeoutError'' ''request_timeout'' (-32000)) None ''Request timeout''"

definition cancelled_error :: rpc_error where
  "cancelled_error =
     instance_error (builtin_class ''RpcRequestCancelledError'' ''request_cancelled'' (-32800)) None ''Request cancelled''"

definition shutting_down_error :: rpc_error where
  "shutting_down_error =
     instance_error (builtin_class ''RpcServerShuttingDownError'' ''server_shutting_down'' (-32000)) None
       ''Server shutting down''"

definition pending_limit_error :: rpc_error where
  "pending_limit_error =
     instance_error
       ((builtin_class ''RpcPendingLimitError'' ''pending_limit'' (-32000))\<lparr>rk_message := ''Too many pending requests''\<rparr>)
       None ''Too many pending requests''"

definition code_names :: "(int \<times> string) list" where
  "code_names =
     [(-32700, ''PARSE_ERROR''), (-32600, ''INVALID_REQUEST''), (-32601, ''METHOD_NOT_FOUND''),
      (-32602, ''INVALID_PARAMS''), (-32603, ''INTERNAL_ERROR''), (-32000, ''SERVER_ERROR''),
      (-32800, ''REQUEST_CANCELLED'')]"

definition str_of_int :: "int \<Rightarrow> string" where
  "str_of_int i = (if i < 0 then ''-'' @ str_of_nat (nat (- i)) else str_of_nat (nat i))"

definition error_message :: "string + int \<Rightarrow> string" where
  "error_message c =
     (case c of
        Inl s \<Rightarrow> spaced s
      | Inr n \<Rightarrow> (case map_of code_names n of
                    Some name \<Rightarrow> spaced name | None \<Rightarrow> ''Error '' @ str_of_int n))"

section \<open>Bindings (errors.py)\<close>

type_synonym bid = nat

datatype message_source = Msg_none | Msg_text string | Msg_fn "exc \<Rightarrow> (exc, pyval) result"

datatype details_source =
    Det_none
  | Det_model cls "exc \<Rightarrow> (exc, pyval) result"
  | Det_fn cls "exc \<Rightarrow> (exc, pyval option) result"

record binding =
  eb_exception :: cls
  eb_rejection :: "rejection option"
  eb_error_type :: cls
  eb_message :: message_source
  eb_details :: details_source
  eb_canon :: "(err \<times> registry) option"

text \<open>
  The world the declarations live in: the class and binding tables, the definitions and
  memoised bindings of canonical errors, and the rendering parameters of the catalog.
\<close>

record world =
  w_class :: "cls \<Rightarrow> rpc_class"
  w_binding :: "bid \<Rightarrow> binding"
  w_store :: store
  w_canon :: "err \<Rightarrow> bid"
  w_host_ok :: "string \<Rightarrow> bool"
  w_models :: render_api
  w_active :: "registry option"
  w_isinstance :: "pyval \<Rightarrow> cls \<Rightarrow> bool"
  w_make :: "cls \<Rightarrow> (string \<times> pyval) list \<Rightarrow> pyval option"

definition class_name_of_code :: "string \<Rightarrow> string" where
  "class_name_of_code code = concat (map capitalize (split_on CHR ''_'' code)) @ ''RpcError''"

definition binding_body ::
    "cls \<Rightarrow> bool \<Rightarrow> bool \<Rightarrow> string option \<Rightarrow> pyval \<Rightarrow> details_source \<Rightarrow> int \<Rightarrow> bool \<Rightarrow> bid
      \<Rightarrow> (definition_error, class_body) result" where
  \<comment> \<open>\<open>RpcErrorBinding.__init__\<close> up to the class it creates: the two flags say that the
     exception is an \<open>Exception\<close> subclass and that it is an \<open>RpcError\<close>, the last one that the
     rejection is None or an \<open>RpcRejection\<close>\<close>
  "binding_body exception is_exception is_rpc_error code message details rpc_code rejection_ok b =
     (if \<not> is_exception \<or> is_rpc_error
      then Inl (Protocol_definition ''RpcErrorBinding binds an Exception subclass that is not an RpcError'')
      else if message \<noteq> PNone \<and> \<not> str_key message \<and> \<not> is_callable message
      then Inl (Protocol_definition ''RPC error binding message must be a string or callable'')
      else if \<not> rejection_ok
      then Inl (Protocol_definition ''RPC error binding rejection must be an RpcRejection'')
      else
        (let c = (case code of None \<Rightarrow> error_code exception | Some x \<Rightarrow> x)
         in Inr \<lparr>cb_name = class_name_of_code c, cb_bases = [''RpcError'', ''Exception''],
                 cb_code = Some (PStr c), cb_rpc_code = Some (PInt rpc_code), cb_builtin = False,
                 cb_message = (case message of PStr s \<Rightarrow> Some s | _ \<Rightarrow> None),
                 cb_details_own = Some (case details of Det_none \<Rightarrow> None | Det_model t _ \<Rightarrow> Some t
                                        | Det_fn t _ \<Rightarrow> Some t),
                 cb_annotation = Ann_absent, cb_inherited_details = None,
                 cb_inherited_builtin = False, cb_contract = Some b\<rparr>))"

definition message_for :: "world \<Rightarrow> binding \<Rightarrow> exc \<Rightarrow> (exc, string) result" where
  "message_for w b ex =
     (case eb_message b of
        Msg_fn f \<Rightarrow>
          rbind (f ex) (\<lambda>v. case v of PStr s \<Rightarrow> Inr s
            | _ \<Rightarrow> Inl \<lparr>exc_mro = [''TypeError'', ''Exception''],
                        exc_text = ''RPC error binding message must return a string''\<rparr>)
      | _ \<Rightarrow> Inr (rk_message (w_class w (eb_error_type b))))"

definition python_error :: "cls \<Rightarrow> string \<Rightarrow> exc" where
  "python_error c t = \<lparr>exc_mro = [c, ''Exception''], exc_text = t\<rparr>"

definition construct_error ::
    "world \<Rightarrow> rpc_class \<Rightarrow> pyval option \<Rightarrow> string \<Rightarrow> (exc, rpc_error) result" where
  "construct_error w k d m =
     (case rpc_error_init (w_isinstance w) (w_make w) k d (Some m) [] of
        Inl _ \<Rightarrow> Inl (python_error ''TypeError'' (hd (rk_mro k)))
      | Inr e \<Rightarrow> Inr e)"

definition plain_to_error :: "world \<Rightarrow> binding \<Rightarrow> exc \<Rightarrow> (exc, rpc_error) result" where
  "plain_to_error w b ex =
     (if \<not> instance_of ex (eb_exception b) then Inl (python_error ''TypeError'' ''Expected the bound exception'')
      else
        rbind (case eb_details b of
                 Det_none \<Rightarrow> Inr None
               | Det_model t f \<Rightarrow> rbind (f ex) (\<lambda>v. Inr (Some v))
               | Det_fn t f \<Rightarrow> f ex)
          (\<lambda>d. rbind (message_for w b ex) (construct_error w (w_class w (eb_error_type b)) d)))"

definition canon_to_error :: "world \<Rightarrow> binding \<Rightarrow> err \<Rightarrow> registry \<Rightarrow> exc \<Rightarrow> (exc, rpc_error) result" where
  "canon_to_error w b d fallback ex =
     (let r = resolved_registry (w_active w) fallback
      in if resolve r ex \<noteq> Some d
         then Inl (python_error ''ErrorConfigurationError'' ''RPC operation did not declare the resolved problem type'')
         else
           rbind (construct_error w (w_class w (eb_error_type b)) None '''') (\<lambda>e.
             (case problem_for (w_host_ok w) (w_models w) (w_store w) r ex False None of
                Inl _ \<Rightarrow> Inl (python_error ''ErrorConfigurationError'' ''problem'')
              | Inr None \<Rightarrow> Inl (python_error ''ProtocolDefinitionError''
                                   ''Canonical RPC error is absent from the catalog'')
              | Inr (Some p) \<Rightarrow> Inr (e\<lparr>rx_problem := Some p\<rparr>))))"

definition to_error :: "world \<Rightarrow> bid \<Rightarrow> exc \<Rightarrow> (exc, rpc_error) result" where
  "to_error w b ex =
     (case eb_canon (w_binding w b) of
        None \<Rightarrow> plain_to_error w (w_binding w b) ex
      | Some (d, r) \<Rightarrow> canon_to_error w (w_binding w b) d r ex)"

definition binding_reject :: "world \<Rightarrow> bid \<Rightarrow> exc \<Rightarrow> (exc, reject option) result" where
  "binding_reject w b ex =
     (case eb_rejection (w_binding w b) of
        None \<Rightarrow> Inr None
      | Some r \<Rightarrow>
          rbind (message_for w (w_binding w b) ex)
            (\<lambda>m. Inr (Some \<lparr>rj_rejection = r, rj_reason = m, rj_headers = None\<rparr>)))"

section \<open>Declarations (errors.py)\<close>

datatype decl = Decl_canon err | Decl_binding bid | Decl_class cls | Decl_other

definition contract_of :: "world \<Rightarrow> cls \<Rightarrow> bid option" where
  "contract_of w c = rk_contract (w_class w c)"

definition declared_error ::
    "world \<Rightarrow> registry option \<Rightarrow> decl \<Rightarrow> (definition_error, cls) result" where
  "declared_error w reg d =
     (case d of
        Decl_canon e \<Rightarrow>
          (case reg of
             None \<Rightarrow> Inl (Protocol_definition ''Canonical raises must belong to the channel's declared errors'')
           | Some r \<Rightarrow>
               if \<not> contains (w_store w) r e
               then Inl (Protocol_definition ''Canonical raises must belong to the channel's declared errors'')
               else Inr (eb_error_type (w_binding w (w_canon w e))))
      | Decl_binding b \<Rightarrow> Inr (eb_error_type (w_binding w b))
      | Decl_other \<Rightarrow> Inl (Protocol_definition ''Declared RPC error must be an RpcError subclass'')
      | Decl_class c \<Rightarrow>
          if ''RpcError'' \<notin> set (rk_mro (w_class w c))
          then Inl (Protocol_definition ''Declared RPC error must be an RpcError subclass'')
          else if c = ''RpcError'' \<or> rk_builtin (w_class w c)
          then Inl (Protocol_definition ''Built-in RPC errors are implicit and cannot be declared'')
          else Inr c)"

definition bind_step ::
    "world \<Rightarrow> bid \<Rightarrow> (cls \<times> bid) list \<Rightarrow> (definition_error, (cls \<times> bid) list) result" where
  \<comment> \<open>\<open>setdefault\<close>, then the identity test\<close>
  "bind_step w b bound =
     (let c = eb_exception (w_binding w b)
      in case dict_get bound c of
           None \<Rightarrow> Inr (dict_set c b bound)
         | Some previous \<Rightarrow>
             if previous \<noteq> b then Inl (Protocol_definition ''is bound to RPC error bindings'') else Inr bound)"

definition bind_contracts :: "world \<Rightarrow> bid list \<Rightarrow> (definition_error, (cls \<times> bid) list) result" where
  "bind_contracts w bs = rfold (bind_step w) bs []"

definition contracts_in :: "world \<Rightarrow> cls list \<Rightarrow> bid list" where
  "contracts_in w errors = List.map_filter (contract_of w) errors"

definition error_declarations ::
    "world \<Rightarrow> registry option \<Rightarrow> decl list \<Rightarrow> (definition_error, cls list) result" where
  "error_declarations w reg raises =
     rbind (rmap (declared_error w reg) raises) (\<lambda>cs.
       let errors = fromkeys cs
       in rbind (bind_contracts w (contracts_in w errors)) (\<lambda>_. Inr errors))"

definition merge_declarations :: "world \<Rightarrow> cls list \<Rightarrow> cls list \<Rightarrow> cls list" where
  "merge_declarations w inherited local =
     (let overridden = map (\<lambda>b. eb_exception (w_binding w b)) (contracts_in w local)
      in fromkeys
           (filter (\<lambda>c. case contract_of w c of None \<Rightarrow> True
                         | Some b \<Rightarrow> eb_exception (w_binding w b) \<notin> set overridden) inherited @ local))"

definition merge_error_declarations ::
    "world \<Rightarrow> registry option \<Rightarrow> cls list \<Rightarrow> decl list \<Rightarrow> (definition_error, cls list) result" where
  "merge_error_declarations w reg inherited raises =
     rbind (error_declarations w reg raises) (\<lambda>local. Inr (merge_declarations w inherited local))"

definition contract_for :: "exc \<Rightarrow> (cls \<times> bid) list \<Rightarrow> bid option" where
  "contract_for ex contracts = find_first (\<lambda>c. dict_get contracts c) (exc_mro ex)"

definition rejecting_contracts ::
    "world \<Rightarrow> bid item list \<Rightarrow> (definition_error, bid list) result" where
  "rejecting_contracts w rejects =
     rbind (rmap (\<lambda>i. case i of
                Foreign \<Rightarrow> Inl (Protocol_definition ''rejects= takes RpcErrorBinding values with a rejection'')
              | Instance b \<Rightarrow>
                  if eb_rejection (w_binding w b) = None
                  then Inl (Protocol_definition ''rejects= takes RpcErrorBinding values with a rejection'')
                  else Inr b) (fromkeys rejects))
       (\<lambda>bs. rbind (bind_contracts w bs) (\<lambda>_. Inr bs))"

definition reject_by_contract :: "world \<Rightarrow> (cls \<times> bid) list \<Rightarrow> failure \<Rightarrow> (failure, reject option) result" where
  "reject_by_contract w bound f =
     (case contract_for (fl_exc f) bound of
        None \<Rightarrow> Inr None
      | Some b \<Rightarrow> (case binding_reject w b (fl_exc f) of
                     Inl ex \<Rightarrow> Inl (Failure ex KPlain) | Inr r \<Rightarrow> Inr r))"

definition contract_rejections :: "world \<Rightarrow> bid list \<Rightarrow> (definition_error, rejections option) result" where
  "contract_rejections w bs =
     rbind (bind_contracts w bs)
       (\<lambda>bound. Inr (if bound = [] then None else Some (RejFn (reject_by_contract w bound))))"

section \<open>From a failure to a response (server.py)\<close>

datatype mapper_value = Map_none | Map_error rpc_error | Map_other

record server =
  sv_mapper :: "(failure \<Rightarrow> (exc, mapper_value) result) option"
  sv_strict :: bool

definition internal_error :: "world \<Rightarrow> cls list \<Rightarrow> rpc_error" where
  "internal_error w declared =
     (case find_first (\<lambda>c. case contract_of w c of None \<Rightarrow> None
                             | Some b \<Rightarrow> map_option snd (eb_canon (w_binding w b))) declared of
        None \<Rightarrow> internal_rpc_error
      | Some r \<Rightarrow>
          internal_rpc_error\<lparr>rx_problem := Some (internal_problem (Some (resolved_registry (w_active w) r)))\<rparr>)"

definition declared_instance :: "rpc_error \<Rightarrow> cls list \<Rightarrow> bool" where
  \<comment> \<open>\<open>isinstance(mapped, declared)\<close>\<close>
  "declared_instance e declared = list_ex (\<lambda>c. c \<in> set (rx_mro e)) declared"

definition admit_error :: "world \<Rightarrow> server \<Rightarrow> string option \<Rightarrow> cls list \<Rightarrow> rpc_error option \<Rightarrow> rpc_error" where
  \<comment> \<open>the end of \<open>_rpc_error\<close>: an undeclared error is internal where the channel is strict\<close>
  "admit_error w sv mname declared mapped =
     (case mapped of
        Some e \<Rightarrow>
          if sv_strict sv \<and> mname \<noteq> None \<and> \<not> rx_builtin e \<and> \<not> declared_instance e declared
          then internal_error w declared else e
      | None \<Rightarrow> internal_error w declared)"

definition map_failure ::
    "world \<Rightarrow> server \<Rightarrow> failure \<Rightarrow> (cls \<times> bid) list \<Rightarrow> rpc_error option option" where
  \<comment> \<open>\<open>None\<close>: a binding or the mapper raised\<close>
  "map_failure w sv f bound =
     (case contract_for (fl_exc f) bound of
        Some b \<Rightarrow> (case to_error w b (fl_exc f) of Inl _ \<Rightarrow> None | Inr e \<Rightarrow> Some (Some e))
      | None \<Rightarrow>
          (case sv_mapper sv of
             None \<Rightarrow> Some None
           | Some m \<Rightarrow>
               (case m f of
                  Inr Map_none \<Rightarrow> Some None
                | Inr (Map_error e) \<Rightarrow> Some (Some e)
                | _ \<Rightarrow> None)))"

definition rpc_error_for ::
    "world \<Rightarrow> server \<Rightarrow> failure \<Rightarrow> string option \<Rightarrow> cls list \<Rightarrow> (definition_error, rpc_error) result" where
  \<comment> \<open>\<open>_rpc_error\<close>; binding the declared contracts may itself raise\<close>
  "rpc_error_for w sv f mname declared =
     (case fl_kind f of
        KRpc e \<Rightarrow> Inr (admit_error w sv mname declared (Some e))
      | _ \<Rightarrow>
          rbind (bind_contracts w (contracts_in w declared)) (\<lambda>bound.
            Inr (case map_failure w sv f bound of
                   None \<Rightarrow> internal_error w declared
                 | Some m \<Rightarrow> admit_error w sv mname declared m)))"

section \<open>Properties\<close>

interpretation contracts: resolver "\<lambda>bound mro. contract_for \<lparr>exc_mro = mro, exc_text = t\<rparr> bound"
    "dict_get :: (cls \<times> bid) list \<Rightarrow> _"
  by unfold_locales (simp add: contract_for_def)

interpretation catalog: resolver "\<lambda>r mro. resolve r \<lparr>exc_mro = mro, exc_text = t\<rparr>"
    "\<lambda>r c. map_option re_error (dict_get (rg_by_exception r) c)"
proof unfold_locales
  fix r mro
  have "map_option g (find_first f xs) = find_first (\<lambda>c. map_option g (f c)) xs" for g f and xs :: "cls list"
    by (induction xs) (auto split: option.splits)
  then show "resolve r \<lparr>exc_mro = mro, exc_text = t\<rparr> =
      find_first (\<lambda>c. map_option re_error (dict_get (rg_by_exception r) c)) mro"
    by (simp add: resolve_def)
qed

text \<open>A list of bindings is consistent when no exception is bound twice.\<close>

definition binds_once :: "world \<Rightarrow> bid set \<Rightarrow> bool" where
  "binds_once w bs = inj_on (\<lambda>b. eb_exception (w_binding w b)) bs"

definition indexes :: "world \<Rightarrow> bid set \<Rightarrow> (cls \<times> bid) list \<Rightarrow> bool" where
  "indexes w bs bound =
     (wf_dict bound \<and> (\<forall>c b. dict_get bound c = Some b \<longleftrightarrow> b \<in> bs \<and> eb_exception (w_binding w b) = c))"

lemma indexes_once: "indexes w bs bound \<Longrightarrow> binds_once w bs"
  unfolding indexes_def binds_once_def inj_on_def by (metis option.inject)

lemma bind_step_indexes:
  assumes "indexes w bs bound"
  shows "(case bind_step w b bound of
            Inr bound' \<Rightarrow> indexes w (insert b bs) bound'
          | Inl _ \<Rightarrow> \<not> binds_once w (insert b bs))"
proof (cases "dict_get bound (eb_exception (w_binding w b))")
  case None
  with assms have fresh: "\<And>x. x \<in> bs \<Longrightarrow> eb_exception (w_binding w x) \<noteq> eb_exception (w_binding w b)"
    unfolding indexes_def by (metis option.discI)
  have "indexes w (insert b bs) (dict_set (eb_exception (w_binding w b)) b bound)"
    using assms by (auto simp: indexes_def dict_simps dest: fresh)
  with None show ?thesis by (simp add: bind_step_def Let_def)
next
  case (Some p)
  with assms have p: "p \<in> bs" "eb_exception (w_binding w p) = eb_exception (w_binding w b)"
    by (auto simp: indexes_def)
  show ?thesis
  proof (cases "p = b")
    case True
    with Some assms p show ?thesis by (simp add: bind_step_def Let_def insert_absorb)
  next
    case False
    with p have "\<not> binds_once w (insert b bs)" by (auto simp: binds_once_def inj_on_def)
    with False Some show ?thesis by (simp add: bind_step_def Let_def)
  qed
qed

lemma rfold_bind:
  assumes "indexes w bs bound"
  shows "(case rfold (bind_step w) xs bound of
            Inr bound' \<Rightarrow> indexes w (bs \<union> set xs) bound'
          | Inl _ \<Rightarrow> \<not> binds_once w (bs \<union> set xs))"
  using assms
proof (induction xs arbitrary: bs bound)
  case (Cons x xs)
  note st = bind_step_indexes [OF Cons.prems, of x]
  show ?case
  proof (cases "bind_step w x bound")
    case (Inl e)
    with st have "\<not> binds_once w (insert x bs)" by simp
    then have "\<not> binds_once w (bs \<union> set (x # xs))"
      unfolding binds_once_def by (meson Un_upper1 inj_on_subset insert_subset list.set_intros(1) Un_iff)
    with Inl show ?thesis by simp
  next
    case (Inr d)
    with st have "indexes w (insert x bs) d" by simp
    from Cons.IH [OF this] Inr show ?thesis by (simp cong: sum.case_cong)
  qed
qed simp

lemma bind_contracts_result:
  "case bind_contracts w bs of Inr bound \<Rightarrow> indexes w (set bs) bound | Inl _ \<Rightarrow> \<not> binds_once w (set bs)"
  using rfold_bind [of w "{}" "[]" bs]
  by (simp add: bind_contracts_def indexes_def [of w "{}"] cong: sum.case_cong)

lemma bind_contracts_succeeds: "succeeds (bind_contracts w bs) \<longleftrightarrow> binds_once w (set bs)"
  using bind_contracts_result [of w bs] indexes_once
  by (cases "bind_contracts w bs") auto

lemma set_contracts_in: "b \<in> set (contracts_in w cs) \<longleftrightarrow> (\<exists>c\<in>set cs. contract_of w c = Some b)"
  unfolding contracts_in_def
  by (induction cs) (auto simp: List.map_filter_simps split: option.splits)

lemma contracts_in_append [simp]: "contracts_in w (xs @ ys) = contracts_in w xs @ contracts_in w ys"
  by (simp add: contracts_in_def map_filter_def)

lemma error_declarationsE:
  assumes "error_declarations w reg raises = Inr cs"
  shows "distinct cs" and "binds_once w (set (contracts_in w cs))"
proof -
  from assms obtain ds bound where "cs = fromkeys ds" "bind_contracts w (contracts_in w cs) = Inr bound"
    by (auto simp: error_declarations_def Let_def)
  then show "distinct cs" "binds_once w (set (contracts_in w cs))"
    using bind_contracts_succeeds [of w "contracts_in w cs"] by (simp_all add: succeeds_iff)
qed

lemma set_merge_declarations:
  "c \<in> set (merge_declarations w inherited local) \<longleftrightarrow>
     c \<in> set local \<or>
     (c \<in> set inherited \<and>
      (\<forall>b. contract_of w c = Some b \<longrightarrow>
         (\<forall>l\<in>set local. \<forall>b'. contract_of w l = Some b' \<longrightarrow>
            eb_exception (w_binding w b') \<noteq> eb_exception (w_binding w b))))"
proof (cases "contract_of w c")
  case None
  then show ?thesis by (auto simp: merge_declarations_def Let_def)
next
  case (Some b)
  have "eb_exception (w_binding w b) \<notin> set (map (\<lambda>b. eb_exception (w_binding w b)) (contracts_in w local)) \<longleftrightarrow>
      (\<forall>l\<in>set local. \<forall>b'. contract_of w l = Some b' \<longrightarrow>
         eb_exception (w_binding w b') \<noteq> eb_exception (w_binding w b))"
    unfolding set_map image_iff set_contracts_in Bex_def by metis
  with Some show ?thesis by (simp add: merge_declarations_def Let_def) blast
qed

lemma merged_binds_once:
  assumes "binds_once w (set (contracts_in w inherited))" and "binds_once w (set (contracts_in w local))"
  shows "binds_once w (set (contracts_in w (merge_declarations w inherited local)))"
  unfolding binds_once_def
proof (rule inj_onI)
  fix x y
  assume x: "x \<in> set (contracts_in w (merge_declarations w inherited local))"
    and y: "y \<in> set (contracts_in w (merge_declarations w inherited local))"
    and e: "eb_exception (w_binding w x) = eb_exception (w_binding w y)"
  obtain c where c: "c \<in> set (merge_declarations w inherited local)" "contract_of w c = Some x"
    using x by (auto simp: set_contracts_in)
  obtain d where d: "d \<in> set (merge_declarations w inherited local)" "contract_of w d = Some y"
    using y by (auto simp: set_contracts_in)
  have "(c \<in> set local \<and> d \<in> set local) \<or> (c \<in> set inherited \<and> d \<in> set inherited)"
    using c d e unfolding set_merge_declarations by metis
  then show "x = y"
  proof
    assume "c \<in> set local \<and> d \<in> set local"
    with c d have "x \<in> set (contracts_in w local)" "y \<in> set (contracts_in w local)"
      by (auto simp: set_contracts_in)
    with assms(2) e show ?thesis by (auto simp: binds_once_def dest: inj_onD)
  next
    assume "c \<in> set inherited \<and> d \<in> set inherited"
    with c d have "x \<in> set (contracts_in w inherited)" "y \<in> set (contracts_in w inherited)"
      by (auto simp: set_contracts_in)
    with assms(1) e show ?thesis by (auto simp: binds_once_def dest: inj_onD)
  qed
qed

definition sample_binding :: "cls \<Rightarrow> cls \<Rightarrow> rejection option \<Rightarrow> binding" where
  "sample_binding e t r =
     \<lparr>eb_exception = e, eb_rejection = r, eb_error_type = t, eb_message = Msg_none,
      eb_details = Det_none, eb_canon = None\<rparr>"

definition sample_class :: "cls \<Rightarrow> rpc_class" where
  "sample_class c =
     \<lparr>rk_mro = [c, ''RpcError'', ''Exception''], rk_code = error_code c, rk_message = spaced (error_code c),
      rk_rpc_code = server_error_code, rk_details = None, rk_builtin = False,
      rk_contract = map_of [(''MissingRpcError'', 0), (''GoneRpcError'', 1)] c\<rparr>"

definition sample_world :: world where
  "sample_world =
     \<lparr>w_class = sample_class,
      w_binding = (\<lambda>b. if b = 0 then sample_binding ''Missing'' ''MissingRpcError'' (Some Rej_not_found)
                       else sample_binding ''Missing'' ''GoneRpcError'' None),
      w_store = sample_store, w_canon = (\<lambda>e. e), w_host_ok = (\<lambda>s. True), w_models = no_models,
      w_active = None, w_isinstance = (\<lambda>v c. False), w_make = (\<lambda>c kw. None)\<rparr>"

text \<open>
  Indexing the bindings of one operation succeeds exactly when no exception class
  is bound by two different bindings, and the index then holds, for each class, exactly the
  binding declared for it.
\<close>

theorem bind_contracts_exact:
  "(succeeds (bind_contracts w bs) \<longleftrightarrow>
     (\<forall>x\<in>set bs. \<forall>y\<in>set bs. eb_exception (w_binding w x) = eb_exception (w_binding w y) \<longrightarrow> x = y))
   \<and> (\<forall>bound c b. bind_contracts w bs = Inr bound \<longrightarrow>
        (dict_get bound c = Some b \<longleftrightarrow> b \<in> set bs \<and> eb_exception (w_binding w b) = c))"
proof -
  have "(\<forall>bound c b. bind_contracts w bs = Inr bound \<longrightarrow>
      (dict_get bound c = Some b \<longleftrightarrow> b \<in> set bs \<and> eb_exception (w_binding w b) = c))"
    using bind_contracts_result [of w bs] by (auto simp: indexes_def)
  moreover have "succeeds (bind_contracts w bs) \<longleftrightarrow>
      (\<forall>x\<in>set bs. \<forall>y\<in>set bs. eb_exception (w_binding w x) = eb_exception (w_binding w y) \<longrightarrow> x = y)"
    unfolding bind_contracts_succeeds by (simp add: binds_once_def inj_on_def)
  ultimately show ?thesis by blast
qed

theorem bind_contracts_exact_witness:
  "\<exists>bound. bind_contracts sample_world [1] = Inr bound \<and> dict_get bound ''Missing'' = Some 1"
proof -
  obtain bound where b: "bind_contracts sample_world [1] = Inr bound"
  proof -
    have "succeeds (bind_contracts sample_world [1])" by code_simp
    then show thesis using that by (auto simp: succeeds_iff)
  qed
  have "eb_exception (w_binding sample_world 1) = ''Missing''" by code_simp
  with b bind_contracts_exact [of sample_world "[1]"] show ?thesis by auto
qed

text \<open>
  Claim C32. Declarations of an operation override the bindings its channel declares for the
  same exception and keep all others: every local error and every inherited error that is not
  overridden is declared, once, and where the channel's own bindings are consistent the merged
  ones are, so that mapping a failure by them cannot raise.
\<close>

theorem merge_error_declarations_sound:
  assumes "merge_error_declarations w reg inherited raises = Inr merged"
    and "succeeds (bind_contracts w (contracts_in w inherited))"
  shows "\<exists>local. error_declarations w reg raises = Inr local
    \<and> distinct merged
    \<and> (\<forall>c. c \<in> set merged \<longleftrightarrow> c \<in> set local \<or>
        (c \<in> set inherited \<and>
         (\<forall>b. contract_of w c = Some b \<longrightarrow>
            (\<forall>l\<in>set local. \<forall>b'. contract_of w l = Some b' \<longrightarrow>
               eb_exception (w_binding w b') \<noteq> eb_exception (w_binding w b)))))
    \<and> (\<forall>sv f mname. succeeds (rpc_error_for w sv f mname merged))"
proof -
  from assms(1) obtain local where l: "error_declarations w reg raises = Inr local"
    and m: "merged = merge_declarations w inherited local"
    by (auto simp: merge_error_declarations_def)
  have "succeeds (bind_contracts w (contracts_in w merged))"
    using merged_binds_once error_declarationsE(2) [OF l] assms(2)
    by (simp add: bind_contracts_succeeds m)
  then have "succeeds (rpc_error_for w sv f mname merged)" for sv f mname
    by (auto simp: rpc_error_for_def succeeds_iff split: fkind.splits)
  moreover have "distinct merged" by (simp add: m merge_declarations_def Let_def)
  ultimately show ?thesis using l m set_merge_declarations by blast
qed

theorem merge_error_declarations_sound_witness:
  "\<exists>local. error_declarations sample_world None [Decl_binding 1] = Inr local \<and> distinct [''GoneRpcError'']"
proof -
  have "merge_error_declarations sample_world None [''MissingRpcError''] [Decl_binding 1] = Inr [''GoneRpcError'']"
    "succeeds (bind_contracts sample_world (contracts_in sample_world [''MissingRpcError'']))"
    by code_simp+
  from merge_error_declarations_sound [OF this] show ?thesis by blast
qed

text \<open>
  Claim C17. The error a failed call answers with: where the declared bindings are consistent
  a mapping always results; on a strict channel a call's error is a built-in one or an
  instance of a declared class; and an exception that is no \<open>RpcError\<close>, that no declared
  binding covers, and that the application's mapper leaves unmapped or fails on, is reported
  as the internal error, whatever it says.
\<close>

theorem rpc_error_for_contained:
  assumes "succeeds (bind_contracts w (contracts_in w declared))"
  shows "\<exists>e. rpc_error_for w sv f mname declared = Inr e
    \<and> (sv_strict sv \<and> mname \<noteq> None \<longrightarrow> rx_builtin e \<or> (\<exists>c\<in>set declared. c \<in> set (rx_mro e)))
    \<and> ((\<forall>r. fl_kind f \<noteq> KRpc r)
        \<and> (\<forall>c\<in>set (exc_mro (fl_exc f)). \<forall>b\<in>set (contracts_in w declared). eb_exception (w_binding w b) \<noteq> c)
        \<and> (\<forall>m. sv_mapper sv = Some m \<longrightarrow> (\<forall>r. m f \<noteq> Inr (Map_error r)))
       \<longrightarrow> e = internal_error w declared)"
proof -
  obtain bound where b: "bind_contracts w (contracts_in w declared) = Inr bound"
    using assms by (auto simp: succeeds_iff)
  have ib: "rx_builtin (internal_error w declared)"
    by (simp add: internal_error_def internal_rpc_error_def instance_error_def builtin_class_def
        split: option.split)
  have adm: "sv_strict sv \<and> mname \<noteq> None \<longrightarrow>
      rx_builtin (admit_error w sv mname declared m)
      \<or> (\<exists>c\<in>set declared. c \<in> set (rx_mro (admit_error w sv mname declared m)))" for m
    using ib by (auto simp: admit_error_def declared_instance_def list_ex_iff split: option.splits)
  define e where "e = (case fl_kind f of KRpc r \<Rightarrow> admit_error w sv mname declared (Some r)
      | _ \<Rightarrow> (case map_failure w sv f bound of None \<Rightarrow> internal_error w declared
              | Some m \<Rightarrow> admit_error w sv mname declared m))"
  have r: "rpc_error_for w sv f mname declared = Inr e"
    by (simp add: rpc_error_for_def b e_def split: fkind.split)
  have s: "sv_strict sv \<and> mname \<noteq> None \<longrightarrow> rx_builtin e \<or> (\<exists>c\<in>set declared. c \<in> set (rx_mro e))"
    using adm ib by (auto simp: e_def split: fkind.splits option.splits)
  have i: "e = internal_error w declared"
    if k: "\<forall>r. fl_kind f \<noteq> KRpc r"
      and c: "\<forall>c\<in>set (exc_mro (fl_exc f)). \<forall>b\<in>set (contracts_in w declared). eb_exception (w_binding w b) \<noteq> c"
      and m: "\<forall>m. sv_mapper sv = Some m \<longrightarrow> (\<forall>r. m f \<noteq> Inr (Map_error r))"
  proof -
    have ix: "dict_get bound c = Some x \<Longrightarrow> x \<in> set (contracts_in w declared) \<and> eb_exception (w_binding w x) = c" for c x
      using bind_contracts_result [of w "contracts_in w declared"] b by (simp add: indexes_def)
    have "contract_for (fl_exc f) bound = None"
      unfolding contract_for_def find_first_None using ix c by (meson option.exhaust)
    then have "map_failure w sv f bound = None \<or> map_failure w sv f bound = Some None"
      using m by (auto simp: map_failure_def split: option.splits sum.splits mapper_value.splits)
    with k show ?thesis by (auto simp: e_def admit_error_def split: fkind.splits)
  qed
  show ?thesis
    by (intro exI [of _ e] conjI r s impI i) simp_all
qed

theorem rpc_error_for_contained_witness:
  "\<exists>e. rpc_error_for sample_world \<lparr>sv_mapper = None, sv_strict = True\<rparr>
      (Failure \<lparr>exc_mro = [''KeyError'', ''Exception''], exc_text = ''secret''\<rparr> KPlain) (Some ''get'') [''MissingRpcError''] = Inr e"
proof -
  have "succeeds (bind_contracts sample_world (contracts_in sample_world [''MissingRpcError'']))"
    by code_simp
  from rpc_error_for_contained [OF this] show ?thesis by blast
qed

text \<open>
  An error class the library accepts has a well-formed code, and only a built-in
  class has one of the codes JSON-RPC reserves; the class a binding creates is never built-in.
\<close>

theorem init_subclass_codes:
  assumes "init_subclass b = Inr k"
  shows "valid_code (rk_code k)
    \<and> (cb_builtin b \<or> rk_rpc_code k \<notin> set standard_codes \<and> \<not> (-32768 \<le> rk_rpc_code k \<and> rk_rpc_code k < -32099))
    \<and> (\<forall>e is_exc is_rpc c m d n rej i. binding_body e is_exc is_rpc c m d n rej i = Inr b \<longrightarrow> \<not> rk_builtin k)"
proof -
  from assms obtain code n d where c: "body_code b = Inr code" "body_rpc_code b = Inr n"
    and k: "rk_code k = code" "rk_rpc_code k = n" "rk_builtin k = (cb_builtin b \<or> cb_inherited_builtin b)"
    by (auto simp: init_subclass_def)
  have "valid_code code"
    using c(1) by (auto simp: body_code_def split: option.splits pyval.splits if_splits)
  moreover have "cb_builtin b \<or> n \<notin> set standard_codes \<and> \<not> (-32768 \<le> n \<and> n < -32099)"
    using c(2) by (auto simp: body_rpc_code_def split: if_splits)
  moreover have "\<not> cb_builtin b \<and> \<not> cb_inherited_builtin b"
    if "binding_body e is_exc is_rpc c m d x rej i = Inr b" for e is_exc is_rpc c m d x rej i
    using that by (auto simp: binding_body_def Let_def split: if_splits)
  ultimately show ?thesis using k by blast
qed

definition sample_body :: class_body where
  "sample_body =
     \<lparr>cb_name = ''HTTPNotFoundError'', cb_bases = [''RpcError''], cb_code = None, cb_rpc_code = None,
      cb_builtin = False, cb_message = None, cb_details_own = None, cb_annotation = Ann_absent,
      cb_inherited_details = None, cb_inherited_builtin = False, cb_contract = None\<rparr>"

theorem init_subclass_codes_witness:
  "\<exists>k. init_subclass sample_body = Inr k \<and> rk_code k = ''http_not_found'' \<and> valid_code (rk_code k)"
proof -
  obtain k where k: "init_subclass sample_body = Inr k" "rk_code k = ''http_not_found''"
  proof -
    have "(case init_subclass sample_body of Inr k \<Rightarrow> rk_code k = ''http_not_found'' | Inl _ \<Rightarrow> False)"
      by code_simp
    then show thesis using that by (cases "init_subclass sample_body") simp_all
  qed
  with init_subclass_codes [OF k(1)] show ?thesis by blast
qed

text \<open>
  The rejections of a connection: bindings accepted for \<open>rejects=\<close> always index,
  the mapper they make leaves a failure unmapped exactly when no class of it is bound, and a
  failure it maps is rejected by the binding of its most specific bound class with the
  rejection that binding declares.
\<close>

theorem rejecting_contracts_sound:
  assumes "rejecting_contracts w rs = Inr bs"
  shows "\<exists>bound. bind_contracts w bs = Inr bound
    \<and> contract_rejections w bs = Inr (if bound = [] then None else Some (RejFn (reject_by_contract w bound)))
    \<and> (\<forall>f. reject_by_contract w bound f = Inr None \<longleftrightarrow>
         (\<forall>c\<in>set (exc_mro (fl_exc f)). \<forall>b\<in>set bs. eb_exception (w_binding w b) \<noteq> c))
    \<and> (\<forall>f r. reject_by_contract w bound f = Inr (Some r) \<longrightarrow>
         (\<exists>us c vs b. exc_mro (fl_exc f) = us @ c # vs \<and> b \<in> set bs
            \<and> eb_exception (w_binding w b) = c \<and> eb_rejection (w_binding w b) = Some (rj_rejection r)
            \<and> (\<forall>u\<in>set us. \<forall>x\<in>set bs. eb_exception (w_binding w x) \<noteq> u)))"
proof -
  obtain bound where b: "bind_contracts w bs = Inr bound"
    and l: "rmap (\<lambda>i. (case i of Foreign \<Rightarrow>
              Inl (Protocol_definition ''rejects= takes RpcErrorBinding values with a rejection'')
          | Instance b \<Rightarrow> if eb_rejection (w_binding w b) = None
              then Inl (Protocol_definition ''rejects= takes RpcErrorBinding values with a rejection'')
              else Inr b)) (fromkeys rs) = Inr bs"
    using assms unfolding rejecting_contracts_def rbind_eq_Inr by blast
  have rej: "eb_rejection (w_binding w x) \<noteq> None" if "x \<in> set bs" for x
  proof -
    from rmap_Inr_mem [OF l that] obtain i where
      "(case i of Foreign \<Rightarrow>
              Inl (Protocol_definition ''rejects= takes RpcErrorBinding values with a rejection'')
          | Instance b \<Rightarrow> if eb_rejection (w_binding w b) = None
              then Inl (Protocol_definition ''rejects= takes RpcErrorBinding values with a rejection'')
              else Inr b) = Inr x"
      by blast
    then show ?thesis by (cases i) (simp_all split: if_splits)
  qed
  have ix: "dict_get bound c = Some x \<longleftrightarrow> x \<in> set bs \<and> eb_exception (w_binding w x) = c" for c x
    using bind_contracts_result [of w bs] b by (simp add: indexes_def)
  have none: "dict_get bound c = None \<longleftrightarrow> (\<forall>x\<in>set bs. eb_exception (w_binding w x) \<noteq> c)" for c
    using ix [of c] by (cases "dict_get bound c") auto
  have "reject_by_contract w bound f = Inr None \<longleftrightarrow>
      (\<forall>c\<in>set (exc_mro (fl_exc f)). \<forall>b\<in>set bs. eb_exception (w_binding w b) \<noteq> c)" for f
  proof (cases "contract_for (fl_exc f) bound")
    case None
    then have "\<forall>c\<in>set (exc_mro (fl_exc f)). \<forall>b\<in>set bs. eb_exception (w_binding w b) \<noteq> c"
      by (simp add: contract_for_def find_first_None none)
    with None show ?thesis by (simp add: reject_by_contract_def)
  next
    case (Some x)
    then obtain c where "c \<in> set (exc_mro (fl_exc f))" "dict_get bound c = Some x"
      using find_first_Some_mem unfolding contract_for_def by metis
    then have "\<not> (\<forall>c\<in>set (exc_mro (fl_exc f)). \<forall>b\<in>set bs. eb_exception (w_binding w b) \<noteq> c)" "x \<in> set bs"
      by (auto simp: ix)
    moreover have "reject_by_contract w bound f \<noteq> Inr None"
      using Some rej [OF \<open>x \<in> set bs\<close>]
      by (auto simp: reject_by_contract_def binding_reject_def split: option.splits sum.splits)
    ultimately show ?thesis by simp
  qed
  moreover have "\<exists>us c vs x. exc_mro (fl_exc f) = us @ c # vs \<and> x \<in> set bs
      \<and> eb_exception (w_binding w x) = c \<and> eb_rejection (w_binding w x) = Some (rj_rejection r)
      \<and> (\<forall>u\<in>set us. \<forall>x\<in>set bs. eb_exception (w_binding w x) \<noteq> u)"
    if r: "reject_by_contract w bound f = Inr (Some r)" for f r
  proof -
    obtain x where x: "contract_for (fl_exc f) bound = Some x" "binding_reject w x (fl_exc f) = Inr (Some r)"
      using r by (auto simp: reject_by_contract_def split: option.splits sum.splits)
    have "eb_rejection (w_binding w x) = Some (rj_rejection r)"
      using x(2) by (auto simp: binding_reject_def split: option.splits)
    moreover obtain us c vs where "exc_mro (fl_exc f) = us @ c # vs" "dict_get bound c = Some x"
        "\<forall>u\<in>set us. dict_get bound u = None"
      using x(1) find_first_Some_split unfolding contract_for_def by metis
    ultimately show ?thesis unfolding ix none by blast
  qed
  ultimately show ?thesis using b by (intro exI [of _ bound]) (simp add: contract_rejections_def)
qed

theorem rejecting_contracts_sound_witness:
  "\<exists>bound. bind_contracts sample_world [0] = Inr bound"
proof -
  have "rejecting_contracts sample_world [Instance 0, Instance 0] = Inr [0]" by code_simp
  from rejecting_contracts_sound [OF this] show ?thesis by blast
qed

end
