(* ===== verification/Ws_Server.thy ===== *)
theory Ws_Server
  imports Ws_Errors "HOL-Library.List_Lexorder"
begin

text \<open>
  Serving one decoded JSON-RPC message: the request envelope and its metadata
  (\<open>envelopes.py\<close>, \<open>request_metadata.py\<close>), dispatch to a method (\<open>dispatch.py\<close>) and the
  server that answers requests, notifications, batches, timeouts and cancellations
  (\<open>server.py\<close>), all in \<open>fastapi_canon/integrations/websockets\<close>. A decoded message is a
  Python value whose objects are dicts with string keys. The application's functions, its
  dependency resolver and its pydantic models are parameters of a method's record.
\<close>

section \<open>Reading a raw request (server.py)\<close>

definition member :: "string \<Rightarrow> pyval \<Rightarrow> pyval option" where
  \<comment> \<open>\<open>item.get(name)\<close> of a dict; absent for any other value\<close>
  "member name v = (case v of PDict d \<Rightarrow> map_of d (PStr name) | _ \<Rightarrow> None)"

definition is_dict :: "pyval \<Rightarrow> bool" where
  "is_dict v = (case v of PDict _ \<Rightarrow> True | _ \<Rightarrow> False)"

definition request_id :: "pyval \<Rightarrow> pyval" where
  "request_id raw =
     (case member ''id'' raw of
        Some (PStr s) \<Rightarrow> PStr s | Some (PInt i) \<Rightarrow> PInt i | _ \<Rightarrow> PNone)"

definition request_method :: "pyval \<Rightarrow> string option" where
  "request_method raw = (case member ''method'' raw of Some (PStr s) \<Rightarrow> Some s | _ \<Rightarrow> None)"

definition looks_like_notification :: "pyval \<Rightarrow> bool" where
  "looks_like_notification raw =
     (is_dict raw \<and> member ''id'' raw = None \<and> member ''jsonrpc'' raw = Some (PStr ''2.0'')
      \<and> request_method raw \<noteq> None)"

section \<open>Request metadata (request\_metadata.py)\<close>

definition metadata_keys :: "string list" where
  "metadata_keys = [''traceparent'', ''tracestate'', ''baggage'']"

definition metadata_max_bytes :: nat where
  "metadata_max_bytes = 4096"

text \<open>The bytes \<open>json.dumps(.., ensure_ascii=False)\<close> writes for a character and a string.\<close>

definition json_char_len :: "char \<Rightarrow> nat" where
  "json_char_len c =
     (let n = ord_of c
      in if n = 34 \<or> n = 92 \<or> n = 8 \<or> n = 9 \<or> n = 10 \<or> n = 12 \<or> n = 13 then 2
         else if n < 32 then 6 else 1)"

definition json_str_len :: "string \<Rightarrow> nat" where
  "json_str_len s = 2 + sum_list (map json_char_len s)"

definition json_object_len :: "(string \<times> string) list \<Rightarrow> nat" where
  "json_object_len d =
     2 + (length d - 1) + sum_list (map (\<lambda>p. json_str_len (fst p) + 1 + json_str_len (snd p)) d)"

definition metadata_fields :: "pyval \<Rightarrow> (string \<times> string) list option" where
  "metadata_fields v =
     (case v of
        PDict d \<Rightarrow>
          those (map (\<lambda>(k, x). case k of
                        PStr n \<Rightarrow> if n \<in> set metadata_keys
                                  then (case x of PStr t \<Rightarrow> Some (n, t) | _ \<Rightarrow> None) else None
                      | _ \<Rightarrow> None) d)
      | _ \<Rightarrow> None)"

definition validate_request_metadata :: "pyval \<Rightarrow> (string, (string \<times> string) list) result" where
  "validate_request_metadata v =
     (case metadata_fields v of
        None \<Rightarrow> Inl ''Request meta must contain only supported string fields''
      | Some d \<Rightarrow>
          if json_object_len d > metadata_max_bytes then Inl ''Request meta exceeds 4096 UTF-8 bytes''
          else Inr d)"

definition observed_request_metadata :: "pyval \<Rightarrow> (string \<times> string) list option" where
  "observed_request_metadata raw =
     (case member ''meta'' raw of
        None \<Rightarrow> None
      | Some v \<Rightarrow> (case validate_request_metadata v of Inl _ \<Rightarrow> None | Inr d \<Rightarrow> Some d))"

section \<open>The request envelope (envelopes.py)\<close>

record envelope =
  en_id :: pyval
  en_has_id :: bool
  en_method :: string
  en_params :: pyval
  en_meta :: "(string \<times> string) list option"

definition envelope_fields :: "string list" where
  "envelope_fields = [''jsonrpc'', ''id'', ''method'', ''params'', ''meta'']"

definition id_valid :: "pyval option \<Rightarrow> bool" where
  \<comment> \<open>\<open>StrictStr | StrictInt | None\<close>: a bool is no int\<close>
  "id_valid v = (case v of None \<Rightarrow> True | Some PNone \<Rightarrow> True | Some (PStr _) \<Rightarrow> True
                 | Some (PInt _) \<Rightarrow> True | Some _ \<Rightarrow> False)"

definition params_valid :: "pyval option \<Rightarrow> bool" where
  "params_valid v = (case v of None \<Rightarrow> True | Some (PDict d) \<Rightarrow> list_all (\<lambda>p. str_key (fst p)) d
                     | Some (PList _) \<Rightarrow> True | Some _ \<Rightarrow> False)"

definition known_members :: "pyval \<Rightarrow> bool" where
  "known_members raw =
     (case raw of
        PDict d \<Rightarrow> list_all (\<lambda>p. case fst p of PStr n \<Rightarrow> n \<in> set envelope_fields | _ \<Rightarrow> False) d
      | _ \<Rightarrow> False)"

definition validate_envelope :: "pyval \<Rightarrow> envelope option" where
  "validate_envelope raw =
     (if known_members raw
         \<and> member ''jsonrpc'' raw = Some (PStr ''2.0'')
         \<and> id_valid (member ''id'' raw) \<and> params_valid (member ''params'' raw)
      then
        (case (request_method raw, member ''meta'' raw) of
           (None, _) \<Rightarrow> None
         | (Some m, meta) \<Rightarrow>
             (case map_option validate_request_metadata meta of
                Some (Inl _) \<Rightarrow> None
              | checked \<Rightarrow>
                  Some \<lparr>en_id = (case member ''id'' raw of Some v \<Rightarrow> v | None \<Rightarrow> PNone),
                        en_has_id = (member ''id'' raw \<noteq> None), en_method = m,
                        en_params = (case member ''params'' raw of Some v \<Rightarrow> v | None \<Rightarrow> PDict []),
                        en_meta = (case checked of Some (Inr d) \<Rightarrow> Some d | _ \<Rightarrow> None)\<rparr>))
      else None)"

definition expects_response :: "envelope \<Rightarrow> bool" where
  "expects_response e = en_has_id e"

section \<open>Dispatch (dispatch.py)\<close>

text \<open>
  \<open>rm_validate\<close> is the pydantic validation of named params, which yields a value or the list
  of issues (location and message) of the \<open>ValidationError\<close>; \<open>rm_remodel\<close> the second
  validation against the declared model where the validated value is of another class;
  \<open>rm_result\<close> validates a result and returns it, or the result itself where that is a model.
\<close>

type_synonym issues = "(string list \<times> string) list"

record rpc_method =
  rm_name :: string
  rm_has_params :: bool
  rm_validate :: "pyval \<Rightarrow> (issues, pyval) result"
  rm_remodel :: "pyval \<Rightarrow> (issues, pyval) result"
  rm_injected :: "(string \<times> cls) list"
  rm_params_parameter :: "string option"
  rm_scope :: "(failure, unit) result"
  rm_function :: "(string \<times> pyval) list \<Rightarrow> (failure, pyval) result"
  rm_result :: "pyval \<Rightarrow> (failure, pyval) result"
  rm_raises :: "cls list"
  rm_timeout :: "rat option option"

definition rpc_failure :: "rpc_error \<Rightarrow> failure" where
  "rpc_failure e = Failure \<lparr>exc_mro = rx_mro e, exc_text = rx_message e\<rparr> (KRpc e)"

definition method_not_found :: "string \<Rightarrow> rpc_error" where
  "method_not_found name =
     instance_error ((builtin_class ''RpcMethodNotFoundError'' ''method_not_found'' (-32601))
         \<lparr>rk_details := Some ''RpcMethodNotFound''\<rparr>)
       (Some (PDict [(PStr ''method'', PStr name)])) ''Method not found''"

definition invalid_params :: "string \<Rightarrow> issues \<Rightarrow> rpc_error" where
  "invalid_params message iss =
     instance_error ((builtin_class ''RpcInvalidParamsError'' ''invalid_params'' (-32602))
         \<lparr>rk_details := Some ''RpcInvalidParams''\<rparr>)
       (Some (PDict [(PStr ''issues'',
          PList (map (\<lambda>i. PDict [(PStr ''loc'', PList (map PStr (fst i))), (PStr ''message'', PStr (snd i))]) iss))]))
       message"

definition from_validation_error :: "issues \<Rightarrow> rpc_error" where
  "from_validation_error iss =
     (let first = hd iss
      in invalid_params
           (''Invalid params at '' @ join_with ''.'' (''params'' # fst first) @ '': '' @ snd first) iss)"

definition sorted_names :: "string list \<Rightarrow> string list" where
  "sorted_names names = sort_key (map ord_of) names"

definition validated_params :: "rpc_method \<Rightarrow> pyval \<Rightarrow> (rpc_error, pyval option) result" where
  "validated_params m params =
     (case params of
        PDict d \<Rightarrow>
          if \<not> rm_has_params m
          then (if d \<noteq> []
                then Inl (from_validation_error
                       (map (\<lambda>n. ([n], ''Extra inputs are not permitted''))
                         (sorted_names (map (\<lambda>p. case fst p of PStr s \<Rightarrow> s | _ \<Rightarrow> []) d))))
                else Inr None)
          else
            (case rbind (rm_validate m params) (rm_remodel m) of
               Inl iss \<Rightarrow> Inl (from_validation_error iss)
             | Inr v \<Rightarrow> Inr (Some v))
      | _ \<Rightarrow> Inl (invalid_params ''RPC methods require named params'' []))"

record invocation =
  iv_request :: envelope
  iv_method :: rpc_method
  iv_params :: "pyval option"

definition find_method :: "rpc_method list \<Rightarrow> string \<Rightarrow> rpc_method option" where
  "find_method ms name = List.find (\<lambda>m. rm_name m = name) ms"

definition parse_request ::
    "rpc_method list \<Rightarrow> pyval \<Rightarrow> envelope option \<Rightarrow> (rpc_error, invocation) result" where
  "parse_request ms raw env =
     rbind (case env of Some e \<Rightarrow> Inr e
            | None \<Rightarrow> (case validate_envelope raw of None \<Rightarrow> Inl invalid_request_error | Some e \<Rightarrow> Inr e))
       (\<lambda>request.
         (case find_method ms (en_method request) of
            None \<Rightarrow> Inl (method_not_found (en_method request))
          | Some m \<Rightarrow>
              rbind (validated_params m (en_params request))
                (\<lambda>p. Inr \<lparr>iv_request = request, iv_method = m, iv_params = p\<rparr>)))"

definition protocol_failure :: "string \<Rightarrow> failure" where
  "protocol_failure t =
     Failure \<lparr>exc_mro = [''ProtocolDefinitionError'', ''ErrorConfigurationError'', ''Exception''], exc_text = t\<rparr> KPlain"

definition execute :: "(cls \<Rightarrow> (failure, pyval) result) \<Rightarrow> invocation \<Rightarrow> (failure, pyval) result" where
  "execute provide iv =
     (let m = iv_method iv
      in rbind (rm_scope m) (\<lambda>_.
         rbind (rmap (\<lambda>p. rbind (provide (snd p)) (\<lambda>v. Inr (fst p, v))) (rm_injected m)) (\<lambda>arguments.
         rbind (case iv_params iv of
                  None \<Rightarrow> Inr arguments
                | Some p \<Rightarrow>
                    (case rm_params_parameter m of
                       None \<Rightarrow> Inl (protocol_failure ''RPC method has no params parameter'')
                     | Some name \<Rightarrow> Inr (dict_set name p arguments))) (\<lambda>args.
         rbind (rm_function m args) (\<lambda>result.
         rbind (rm_result m result) (\<lambda>validated. Inr validated))))))"

section \<open>Responses (envelopes.py, server.py)\<close>

datatype failure_payload = Problem_payload problem | Error_payload string "pyval option"

record failure_body =
  fb_code :: int
  fb_message :: string
  fb_data :: failure_payload

datatype response = Success pyval pyval | Failed pyval failure_body

definition from_error :: "pyval \<Rightarrow> rpc_error \<Rightarrow> response" where
  "from_error i e =
     Failed i \<lparr>fb_code = rx_rpc_code e, fb_message = rx_message e,
               fb_data = (case rx_problem e of
                            Some p \<Rightarrow> Problem_payload p
                          | None \<Rightarrow> Error_payload (rx_code e) (rx_details e))\<rparr>"

definition response_id :: "response \<Rightarrow> pyval" where
  "response_id r = (case r of Success i _ \<Rightarrow> i | Failed i _ \<Rightarrow> i)"

definition failure_response ::
    "world \<Rightarrow> server \<Rightarrow> pyval \<Rightarrow> failure \<Rightarrow> cls list \<Rightarrow> (definition_error, response option) result" where
  "failure_response w sv raw f declared =
     rbind (rpc_error_for w sv f (request_method raw) declared) (\<lambda>mapped.
       Inr (if looks_like_notification raw then None else Some (from_error (request_id raw) mapped)))"

definition dispatch_request ::
    "world \<Rightarrow> server \<Rightarrow> rpc_method list \<Rightarrow> (cls \<Rightarrow> (failure, pyval) result) \<Rightarrow> pyval \<Rightarrow> envelope option
      \<Rightarrow> (definition_error, response option) result" where
  "dispatch_request w sv ms provide raw env =
     (case parse_request ms raw env of
        Inl e \<Rightarrow> failure_response w sv raw (rpc_failure e) []
      | Inr iv \<Rightarrow>
          (case execute provide iv of
             Inl f \<Rightarrow> failure_response w sv raw f (rm_raises (iv_method iv))
           | Inr result \<Rightarrow>
               Inr (if expects_response (iv_request iv)
                    then Some (Success (en_id (iv_request iv)) result) else None)))"

definition handle_failure ::
    "world \<Rightarrow> server \<Rightarrow> pyval \<Rightarrow> rpc_error \<Rightarrow> (definition_error, response option) result" where
  "handle_failure w sv raw e = failure_response w sv raw (rpc_failure e) []"

definition request_timeout_for :: "rpc_method list \<Rightarrow> rat option \<Rightarrow> pyval \<Rightarrow> rat option" where
  "request_timeout_for ms fallback raw =
     (case find_method ms (case request_method raw of Some n \<Rightarrow> n | None \<Rightarrow> []) of
        Some m \<Rightarrow> (case rm_timeout m of Some t \<Rightarrow> t | None \<Rightarrow> fallback)
      | None \<Rightarrow> fallback)"

text \<open>
  How a bounded operation ends: with a value, with \<open>TimeoutError\<close>, cancelled (the flag says
  that the cancellation carries \<open>_CLIENT_CANCEL\<close>) or with another exception; \<open>expired\<close> is
  the state of its timeout context. \<open>seen\<close> is what the middleware scope saw first.
\<close>

datatype op_end = Op_value "response option" | Op_timeout_error | Op_cancelled bool | Op_raised failure

datatype bounded = Answers "(definition_error, response option) result" | Propagates op_end

definition interruption :: "bool \<Rightarrow> conn_close option option \<Rightarrow> op_end \<Rightarrow> rpc_error option" where
  "interruption expired connection e =
     (case e of
        Op_cancelled client \<Rightarrow>
          if expired then Some timeout_error
          else if client \<and> (connection = None \<or> connection = Some None) then Some cancelled_error
          else None
      | _ \<Rightarrow> None)"

definition run_bounded ::
    "world \<Rightarrow> server \<Rightarrow> pyval \<Rightarrow> bool \<Rightarrow> conn_close option option \<Rightarrow> (bool \<times> op_end) option \<Rightarrow> op_end \<Rightarrow> bounded" where
  "run_bounded w sv raw expired connection seen e =
     (let observed = (case seen of None \<Rightarrow> None
                      | Some (ex, c) \<Rightarrow> interruption ex connection c);
          answer = (\<lambda>failure. case observed of
                      Some o' \<Rightarrow> Answers (handle_failure w sv raw o')
                    | None \<Rightarrow> Answers (handle_failure w sv raw failure))
      in case e of
           Op_value r \<Rightarrow> Answers (Inr r)
         | Op_timeout_error \<Rightarrow> if \<not> expired then Propagates e else answer timeout_error
         | Op_cancelled _ \<Rightarrow>
             (case interruption expired connection e of None \<Rightarrow> Propagates e | Some f \<Rightarrow> answer f)
         | Op_raised _ \<Rightarrow> Propagates e)"

datatype reply = One response | Many "response list"

definition handle ::
    "world \<Rightarrow> server \<Rightarrow> int \<Rightarrow> (pyval \<Rightarrow> (definition_error, response option) result) \<Rightarrow> pyval
      \<Rightarrow> (definition_error, reply option) result" where
  \<comment> \<open>\<open>one\<close> is \<open>_handle_one_bounded\<close>\<close>
  "handle w sv max_size one raw =
     (case raw of
        PList items \<Rightarrow>
          if items = [] \<or> int (length items) > max_size
          then rbind (handle_failure w sv raw invalid_request_error) (\<lambda>r. Inr (map_option One r))
          else
            rbind (rmap one items) (\<lambda>rs.
              Inr (case List.map_filter (\<lambda>r. r) rs of [] \<Rightarrow> None | xs \<Rightarrow> Some (Many xs)))
      | _ \<Rightarrow> rbind (one raw) (\<lambda>r. Inr (map_option One r)))"

section \<open>Lemmas\<close>

lemma validate_envelopeE:
  assumes "validate_envelope raw = Some e"
  obtains "is_dict raw" "member ''jsonrpc'' raw = Some (PStr ''2.0'')" "id_valid (member ''id'' raw)"
    "request_method raw = Some (en_method e)" "en_has_id e = (member ''id'' raw \<noteq> None)"
    "en_id e = (case member ''id'' raw of Some v \<Rightarrow> v | None \<Rightarrow> PNone)"
    "params_valid (member ''params'' raw)"
    "en_params e = (case member ''params'' raw of Some v \<Rightarrow> v | None \<Rightarrow> PDict [])"
proof -
  have "known_members raw" using assms by (auto simp: validate_envelope_def split: if_splits)
  then have "is_dict raw" by (cases raw) (simp_all add: known_members_def is_dict_def)
  with assms that show thesis
    by (auto simp: validate_envelope_def split: if_splits option.splits sum.splits)
qed

lemma envelope_request_id: "validate_envelope raw = Some e \<Longrightarrow> en_id e = request_id raw"
  by (erule validate_envelopeE)
    (auto simp: request_id_def id_valid_def split: option.splits pyval.splits)

lemma envelope_notification:
  "validate_envelope raw = Some e \<Longrightarrow> looks_like_notification raw \<longleftrightarrow> \<not> expects_response e"
  by (erule validate_envelopeE) (auto simp: looks_like_notification_def expects_response_def)

lemma failure_response_id:
  "failure_response w sv raw f declared = Inr r \<Longrightarrow>
     (r = None \<longleftrightarrow> looks_like_notification raw) \<and> (\<forall>x. r = Some x \<longrightarrow> response_id x = request_id raw)"
  by (auto simp: failure_response_def from_error_def response_id_def split: if_splits)

lemma contracts_in_Nil [simp]: "contracts_in w [] = []"
  by (simp add: contracts_in_def List.map_filter_simps)

lemma rpc_failure_total: "succeeds (failure_response w sv raw (rpc_failure e) declared)"
  by (simp add: failure_response_def rpc_error_for_def rpc_failure_def)

lemma failure_response_total:
  "succeeds (bind_contracts w (contracts_in w declared)) \<Longrightarrow>
     succeeds (failure_response w sv raw f declared)"
  by (auto simp: failure_response_def rpc_error_for_def succeeds_iff split: fkind.splits)

definition consistent_methods :: "world \<Rightarrow> rpc_method list \<Rightarrow> bool" where
  "consistent_methods w ms = (\<forall>m\<in>set ms. succeeds (bind_contracts w (contracts_in w (rm_raises m))))"

lemma parse_request_method: "parse_request ms raw env = Inr iv \<Longrightarrow> iv_method iv \<in> set ms"
proof -
  assume "parse_request ms raw env = Inr iv"
  then obtain r :: envelope where "find_method ms (en_method r) = Some (iv_method iv)"
    by (auto simp: parse_request_def split: option.splits)
  then show ?thesis by (auto simp: find_method_def find_Some_iff)
qed

lemma parse_request_envelope:
  assumes "parse_request ms raw env = Inr iv" and "env \<noteq> None \<Longrightarrow> env = validate_envelope raw"
  shows "validate_envelope raw = Some (iv_request iv)"
proof -
  from assms(1) have "(case env of Some e \<Rightarrow> Inr e
      | None \<Rightarrow> (case validate_envelope raw of None \<Rightarrow> Inl invalid_request_error | Some e \<Rightarrow> Inr e))
      = (Inr (iv_request iv) :: (rpc_error, envelope) result)"
    unfolding parse_request_def
    by (auto split: option.splits)
  then show ?thesis using assms(2) by (cases env) (auto split: option.splits)
qed

lemma dispatch_request_total:
  assumes "consistent_methods w ms"
  shows "succeeds (dispatch_request w sv ms provide raw env)"
proof (cases "parse_request ms raw env")
  case (Inl e)
  then show ?thesis by (simp add: dispatch_request_def rpc_failure_total)
next
  case (Inr iv)
  have "succeeds (bind_contracts w (contracts_in w (rm_raises (iv_method iv))))"
    using parse_request_method [OF Inr] assms by (simp add: consistent_methods_def)
  from failure_response_total [OF this] Inr show ?thesis
    by (cases "execute provide iv") (simp_all add: dispatch_request_def)
qed

section \<open>Properties\<close>

text \<open>
  Claim C3. Answering: whatever message is decoded, whether its envelope was validated before
  or not, and whatever its method does, a server whose methods declare consistent errors
  answers without raising; it answers nothing exactly where the message is a notification, and
  an answer carries the id of its request, or none where the id is malformed.
\<close>

theorem dispatch_answers:
  assumes "consistent_methods w ms" and "env \<noteq> None \<longrightarrow> env = validate_envelope raw"
  shows "\<exists>r. dispatch_request w sv ms provide raw env = Inr r
    \<and> (r = None \<longleftrightarrow> looks_like_notification raw)
    \<and> (\<forall>x. r = Some x \<longrightarrow> response_id x = request_id raw)"
proof -
  obtain r where r: "dispatch_request w sv ms provide raw env = Inr r"
    using dispatch_request_total [OF assms(1), of sv provide raw env] by (auto simp: succeeds_iff)
  have "(r = None \<longleftrightarrow> looks_like_notification raw) \<and> (\<forall>x. r = Some x \<longrightarrow> response_id x = request_id raw)"
  proof (cases "parse_request ms raw env")
    case (Inl e)
    with r failure_response_id show ?thesis unfolding dispatch_request_def by auto
  next
    case (Inr iv)
    have e: "validate_envelope raw = Some (iv_request iv)"
      using parse_request_envelope [OF Inr] assms(2) by blast
    show ?thesis
    proof (cases "execute provide iv")
      case (Inl f)
      with r Inr failure_response_id show ?thesis unfolding dispatch_request_def by auto
    next
      case ok: (Inr v)
      with r Inr envelope_notification [OF e] envelope_request_id [OF e] show ?thesis
        by (auto simp: dispatch_request_def response_id_def)
    qed
  qed
  with r show ?thesis by blast
qed

definition echo_method :: rpc_method where
  "echo_method =
     \<lparr>rm_name = ''echo'', rm_has_params = True, rm_validate = (\<lambda>v. Inr v), rm_remodel = (\<lambda>v. Inr v),
      rm_injected = [(''db'', ''Db'')], rm_params_parameter = Some ''params'', rm_scope = Inr (),
      rm_function = (\<lambda>args. case dict_get args ''params'' of Some v \<Rightarrow> Inr v
                              | None \<Rightarrow> Inl (protocol_failure ''no params'')),
      rm_result = (\<lambda>v. Inr v), rm_raises = [''MissingRpcError''], rm_timeout = Some (Some 5)\<rparr>"

definition sample_request :: pyval where
  "sample_request =
     PDict [(PStr ''jsonrpc'', PStr ''2.0''), (PStr ''id'', PInt 7), (PStr ''method'', PStr ''echo''),
            (PStr ''params'', PDict [(PStr ''x'', PInt 1)])]"

theorem dispatch_answers_witness:
  "\<exists>r. dispatch_request sample_world \<lparr>sv_mapper = None, sv_strict = False\<rparr> [echo_method]
        (\<lambda>c. Inr (PObj c)) sample_request None = Inr r
     \<and> r = Some (Success (PInt 7) (PDict [(PStr ''x'', PInt 1)])) \<and> response_id (the r) = PInt 7"
proof -
  have m: "consistent_methods sample_world [echo_method]"
    "(None :: envelope option) \<noteq> None \<longrightarrow> None = validate_envelope sample_request"
    by code_simp+
  have v: "dispatch_request sample_world \<lparr>sv_mapper = None, sv_strict = False\<rparr> [echo_method]
        (\<lambda>c. Inr (PObj c)) sample_request None = Inr (Some (Success (PInt 7) (PDict [(PStr ''x'', PInt 1)])))"
    "request_id sample_request = PInt 7"
    by code_simp+
  from dispatch_answers [OF m, of "\<lparr>sv_mapper = None, sv_strict = False\<rparr>" "\<lambda>c. Inr (PObj c)"] v show ?thesis
    by auto
qed

lemma map_filter_id: "List.map_filter (\<lambda>r. r) rs = map the (filter (\<lambda>r. r \<noteq> None) rs)"
  by (induction rs) (auto simp: List.map_filter_simps split: option.splits)

text \<open>
  A batch within the size limit is answered with exactly the answers of its
  requests, in their order, notifications leaving no entry, and not at all where every member
  is a notification; an empty or oversized batch gets the single invalid-request error.
\<close>

theorem handle_batch_exact:
  assumes "list_all2 (\<lambda>x r. one x = Inr r) items rs"
  shows "handle w sv n one (PList items) =
    (if items = [] \<or> int (length items) > n
     then Inr (Some (One (from_error PNone invalid_request_error)))
     else Inr (if filter (\<lambda>r. r \<noteq> None) rs = [] then None
               else Some (Many (map the (filter (\<lambda>r. r \<noteq> None) rs)))))"
proof (cases "items = [] \<or> int (length items) > n")
  case True
  have "handle_failure w sv (PList items) invalid_request_error =
      Inr (Some (from_error PNone invalid_request_error))"
    by (simp add: handle_failure_def failure_response_def rpc_error_for_def rpc_failure_def
        looks_like_notification_def is_dict_def request_id_def request_method_def member_def
        admit_error_def)
  with True show ?thesis by (simp add: handle_def)
next
  case False
  have "rmap one items = Inr rs" using assms by (simp add: rmap_Inr_iff)
  with False show ?thesis
    by (simp add: handle_def map_filter_id split: list.split)
qed

theorem handle_batch_exact_witness:
  "handle sample_world \<lparr>sv_mapper = None, sv_strict = False\<rparr> 32 (\<lambda>x. Inr None) (PList [PNone]) = Inr None"
proof -
  have "list_all2 (\<lambda>x r. (Inr None :: (definition_error, response option) result) = Inr r) [PNone] [None]"
    by simp
  from handle_batch_exact [OF this, of sample_world "\<lparr>sv_mapper = None, sv_strict = False\<rparr>" 32]
  show ?thesis by simp
qed

lemma handle_failure_builtin:
  "rx_builtin e \<Longrightarrow> handle_failure w sv raw e =
     Inr (if looks_like_notification raw then None else Some (from_error (request_id raw) e))"
  by (simp add: handle_failure_def failure_response_def rpc_error_for_def rpc_failure_def admit_error_def)

lemma builtin_errors [simp]:
  "rx_builtin timeout_error" "rx_builtin cancelled_error" "rx_builtin invalid_request_error"
  "rx_builtin shutting_down_error" "rx_builtin pending_limit_error" "rx_builtin parse_error"
  by (simp_all add: timeout_error_def cancelled_error_def invalid_request_error_def
      shutting_down_error_def pending_limit_error_def parse_error_def instance_error_def builtin_class_def)

text \<open>
  How an interrupted request ends: an expired request timeout is answered with the
  timeout error, a cancellation by the client with the cancellation error unless the
  connection's close was already decided, notifications with nothing; any other cancellation,
  a timeout of the method's own and any other exception propagate.
\<close>

theorem run_bounded_interrupted:
  "run_bounded w sv raw expired conn None e =
     (let answer = (\<lambda>x. Answers (Inr (if looks_like_notification raw then None
                                        else Some (from_error (request_id raw) x))))
      in case e of
           Op_value r \<Rightarrow> Answers (Inr r)
         | Op_raised f \<Rightarrow> Propagates e
         | Op_timeout_error \<Rightarrow> if expired then answer timeout_error else Propagates e
         | Op_cancelled client \<Rightarrow>
             if expired then answer timeout_error
             else if client \<and> (\<forall>c. conn \<noteq> Some (Some c)) then answer cancelled_error
             else Propagates e)"
proof -
  have c: "(conn = None \<or> conn = Some None) \<longleftrightarrow> (\<forall>c. conn \<noteq> Some (Some c))"
    by (cases conn; cases "the conn") auto
  show ?thesis
    unfolding run_bounded_def Let_def interruption_def c
    by (cases e) (simp_all add: handle_failure_builtin)
qed

lemma metadata_fields_Some:
  "metadata_fields v = Some d \<longleftrightarrow>
     v = PDict (map (\<lambda>p. (PStr (fst p), PStr (snd p))) d) \<and> (\<forall>p\<in>set d. fst p \<in> set metadata_keys)"
proof -
  define f where "f = (\<lambda>(k, x). case k of
                        PStr n \<Rightarrow> if n \<in> set metadata_keys
                                  then (case x of PStr t \<Rightarrow> Some (n, t) | _ \<Rightarrow> None) else None
                      | _ \<Rightarrow> None)"
  have f: "f p = Some q \<longleftrightarrow> p = (PStr (fst q), PStr (snd q)) \<and> fst q \<in> set metadata_keys" for p q
    by (cases p; cases "fst p"; cases "snd p"; cases q) (auto simp: f_def)
  have t: "those (map f kvs) = Some d \<longleftrightarrow>
      kvs = map (\<lambda>p. (PStr (fst p), PStr (snd p))) d \<and> (\<forall>p\<in>set d. fst p \<in> set metadata_keys)" for kvs
  proof (induction kvs arbitrary: d)
    case (Cons k kvs)
    show ?case
    proof (cases d)
      case Nil
      then show ?thesis by (auto split: option.splits)
    next
      case d: (Cons q qs)
      have "those (map f (k # kvs)) = Some d \<longleftrightarrow> f k = Some q \<and> those (map f kvs) = Some qs"
        by (auto simp: d split: option.splits)
      then show ?thesis by (auto simp: f Cons.IH d)
    qed
  qed auto
  show ?thesis
    by (cases v) (auto simp: metadata_fields_def f_def [symmetric] t)
qed

text \<open>
  Request metadata is accepted exactly where it is an object of the supported
  members with string values whose compact JSON has at most 4096 UTF-8 bytes, and it is
  accepted unchanged; a request with other metadata has no valid envelope.
\<close>

theorem request_metadata_exact:
  "(validate_request_metadata v = Inr d \<longleftrightarrow>
      v = PDict (map (\<lambda>p. (PStr (fst p), PStr (snd p))) d)
      \<and> (\<forall>p\<in>set d. fst p \<in> set metadata_keys) \<and> json_object_len d \<le> 4096)
   \<and> (member ''meta'' raw = Some v \<and> (\<nexists>d. validate_request_metadata v = Inr d) \<longrightarrow>
        validate_envelope raw = None)"
proof -
  have "validate_request_metadata v = Inr d \<longleftrightarrow>
      metadata_fields v = Some d \<and> json_object_len d \<le> 4096"
    by (auto simp: validate_request_metadata_def metadata_max_bytes_def not_less
        split: option.splits if_splits)
  moreover have "validate_envelope raw = None"
    if "member ''meta'' raw = Some v" "\<nexists>d. validate_request_metadata v = Inr d"
  proof -
    from that(2) obtain x where "validate_request_metadata v = Inl x"
      by (cases "validate_request_metadata v") auto
    with that(1) show ?thesis by (simp add: validate_envelope_def split: option.split)
  qed
  ultimately show ?thesis using metadata_fields_Some by blast
qed

theorem request_metadata_exact_witness:
  "validate_envelope (PDict [(PStr ''jsonrpc'', PStr ''2.0''), (PStr ''method'', PStr ''m''),
     (PStr ''meta'', PDict [(PStr ''cookie'', PStr ''s'')])]) = None"
proof -
  let ?raw = "PDict [(PStr ''jsonrpc'', PStr ''2.0''), (PStr ''method'', PStr ''m''),
     (PStr ''meta'', PDict [(PStr ''cookie'', PStr ''s'')])]"
  have "validate_request_metadata (PDict [(PStr ''cookie'', PStr ''s'')]) =
      Inl ''Request meta must contain only supported string fields''"
    "member ''meta'' ?raw = Some (PDict [(PStr ''cookie'', PStr ''s'')])"
    by code_simp+
  then show ?thesis
    using request_metadata_exact [of "PDict [(PStr ''cookie'', PStr ''s'')]" "[]" ?raw] by auto
qed

end
