(* ===== verification/Ws_Admission.thy ===== *)
theory Ws_Admission
  imports Ws_Server
begin

text \<open>
  The reader of an RPC connection, \<open>_run_rpc_endpoint\<close> in
  \<open>fastapi_canon/integrations/websockets/runtime.py\<close>: what it does with each frame
  (size, encoding, JSON, batches, cancellations, pings, duplicate ids), the pool of pending
  requests, the table of in-flight ids, the bound on response collectors, and what happens
  when a call starts, ends, or is cancelled. The reader handles a frame without awaiting, so
  a frame is one step; starts and ends of calls interleave with frames freely.
\<close>

section \<open>The pool of pending requests\<close>

record pending =
  pn_limit :: int
  pn_held :: "nat list"
  pn_next :: nat

definition pending_count :: "pending \<Rightarrow> int" where
  "pending_count p = int (length (pn_held p))"

definition pending_reserve :: "pending \<Rightarrow> nat option \<times> pending" where
  \<comment> \<open>a fresh \<open>object()\<close> is a number never used before\<close>
  "pending_reserve p =
     (if pending_count p \<ge> pn_limit p then (None, p)
      else (Some (pn_next p), p\<lparr>pn_held := pn_next p # pn_held p, pn_next := Suc (pn_next p)\<rparr>))"

definition pending_release :: "nat \<Rightarrow> pending \<Rightarrow> pending" where
  "pending_release r p = p\<lparr>pn_held := removeAll r (pn_held p)\<rparr>"

definition pending_ok :: "pending \<Rightarrow> bool" where
  "pending_ok p = (distinct (pn_held p) \<and> (\<forall>r\<in>set (pn_held p). r < pn_next p) \<and> 0 \<le> pn_limit p)"

definition pending_held :: "pending \<Rightarrow> nat set" where
  "pending_held p = set (pn_held p)"

definition pending_limit :: "pending \<Rightarrow> nat option" where
  "pending_limit p = Some (nat (pn_limit p))"

lemmas pending_defs = pending_reserve_def pending_release_def pending_ok_def pending_held_def
  pending_limit_def pending_count_def

interpretation pool: slot_pool pending_reserve pending_release pending_held pending_limit pending_ok
proof unfold_locales
  fix s
  assume "pending_ok s"
  then show "pending_ok (snd (pending_reserve s))"
    by (auto simp: pending_defs dest: less_SucI)
next
  fix s s' :: pending and r
  assume ok: "pending_ok s" and r: "pending_reserve s = (Some r, s')"
  have "card (set (pn_held s)) = length (pn_held s)" using ok by (simp add: pending_defs distinct_card)
  then show "r \<notin> pending_held s \<and> pending_held s' = insert r (pending_held s)
      \<and> pending_limit s' = pending_limit s
      \<and> (case pending_limit s of None \<Rightarrow> True | Some n \<Rightarrow> card (pending_held s) < n)"
    using ok r by (auto simp: pending_defs split: if_splits)
next
  fix s s' :: pending
  assume ok: "pending_ok s" and r: "pending_reserve s = (None, s')"
  have "card (set (pn_held s)) = length (pn_held s)" using ok by (simp add: pending_defs distinct_card)
  then show "s' = s \<and> (case pending_limit s of None \<Rightarrow> False | Some n \<Rightarrow> n \<le> card (pending_held s))"
    using ok r by (auto simp: pending_defs split: if_splits)
qed (auto simp: pending_defs distinct_removeAll)

section \<open>Frames, calls and the reader's state\<close>

datatype frame = Bad_utf8 nat | Bad_json nat | Decoded nat pyval

definition frame_size :: "frame \<Rightarrow> nat" where
  "frame_size f = (case f of Bad_utf8 n \<Rightarrow> n | Bad_json n \<Rightarrow> n | Decoded n _ \<Rightarrow> n)"

record call =
  ca_message :: pyval
  ca_reservation :: "nat option"
  ca_invalid :: bool
  ca_batch :: bool
  ca_shutting_down :: bool
  ca_envelope :: "envelope option"
  ca_key :: "pyval option"
  ca_started :: bool
  ca_cancel_requested :: bool

record reader =
  rd_limits :: limits
  rd_draining :: bool
  rd_pending :: pending
  rd_calls :: "(nat \<times> call) list"
  rd_next :: nat
  rd_requests :: "(pyval \<times> nat) list"
  rd_collectors :: nat
  rd_close :: "(conn_close \<times> string) option"
  rd_reading :: bool

definition start_reader :: "limits \<Rightarrow> reader" where
  "start_reader l =
     \<lparr>rd_limits = l, rd_draining = False,
      rd_pending = \<lparr>pn_limit = max_pending_requests l, pn_held = [], pn_next = 0\<rparr>,
      rd_calls = [], rd_next = 0, rd_requests = [], rd_collectors = 0, rd_close = None,
      rd_reading = True\<rparr>"

definition collector_bound :: "reader \<Rightarrow> int" where
  "collector_bound s = max_pending_requests (rd_limits s) + max_queue_size (rd_limits s)"

definition collectors_full :: "reader \<Rightarrow> bool" where
  "collectors_full s = (int (rd_collectors s) \<ge> collector_bound s)"

definition stop_reading :: "conn_close \<Rightarrow> string \<Rightarrow> reader \<Rightarrow> reader" where
  \<comment> \<open>\<open>request_close\<close> followed by \<open>return\<close>: the first requested close stays\<close>
  "stop_reading c reason s =
     s\<lparr>rd_close := (case rd_close s of None \<Rightarrow> Some (c, reason) | Some v \<Rightarrow> Some v), rd_reading := False\<rparr>"

definition schedule_failure :: "reader \<Rightarrow> reader" where
  "schedule_failure s =
     (if collectors_full s then stop_reading Cl_policy_violation ''Too many response collectors'' s
      else s\<lparr>rd_collectors := Suc (rd_collectors s)\<rparr>)"

definition exact_id :: "pyval option \<Rightarrow> pyval option" where
  \<comment> \<open>\<open>type(v) in (str, int)\<close>: the key of an in-flight request\<close>
  "exact_id v = (case v of Some (PStr s) \<Rightarrow> Some (PStr s) | Some (PInt i) \<Rightarrow> Some (PInt i) | _ \<Rightarrow> None)"

definition member_names :: "pyval \<Rightarrow> pyval list" where
  "member_names v = (case v of PDict d \<Rightarrow> map fst d | _ \<Rightarrow> [])"

definition update_call :: "nat \<Rightarrow> (call \<Rightarrow> call) \<Rightarrow> (nat \<times> call) list \<Rightarrow> (nat \<times> call) list" where
  "update_call i f cs = map (\<lambda>p. if fst p = i then (i, f (snd p)) else p) cs"

text \<open>\<open>cancel_request\<close>: handled at once, whatever its params; a live admitted call with that
  id is cancelled, once.\<close>

definition is_cancel :: "pyval \<Rightarrow> bool" where
  "is_cancel item =
     (is_dict item \<and> member ''method'' item = Some (PStr ''$/cancelRequest'') \<and> member ''id'' item = None)"

definition cancel_target :: "pyval \<Rightarrow> pyval option" where
  "cancel_target item =
     (case member ''params'' item of
        Some ps \<Rightarrow>
          if member ''jsonrpc'' item = Some (PStr ''2.0'')
             \<and> set (member_names item) = {PStr ''jsonrpc'', PStr ''method'', PStr ''params''}
             \<and> is_dict ps \<and> set (member_names ps) = {PStr ''id''}
          then exact_id (member ''id'' ps) else None
      | None \<Rightarrow> None)"

definition cancel_call :: "pyval \<Rightarrow> reader \<Rightarrow> reader" where
  "cancel_call k s =
     (case dict_get (rd_requests s) k of
        None \<Rightarrow> s
      | Some i \<Rightarrow>
          (case dict_get (rd_calls s) i of
             None \<Rightarrow> s
           | Some c \<Rightarrow>
               if ca_reservation c \<noteq> None \<and> \<not> ca_cancel_requested c
               then s\<lparr>rd_calls := update_call i (\<lambda>x. x\<lparr>ca_cancel_requested := True\<rparr>) (rd_calls s)\<rparr>
               else s))"

definition cancel_request :: "pyval \<Rightarrow> reader \<Rightarrow> reader" where
  "cancel_request item s = (case cancel_target item of None \<Rightarrow> s | Some k \<Rightarrow> cancel_call k s)"

definition is_ping :: "pyval \<Rightarrow> bool" where
  "is_ping item = (is_dict item \<and> member ''method'' item = Some (PStr ''$/ping''))"

definition ping_valid :: "pyval \<Rightarrow> bool" where
  "ping_valid item =
     (member ''jsonrpc'' item = Some (PStr ''2.0'')
      \<and> set (member_names item) \<subseteq> {PStr ''jsonrpc'', PStr ''method'', PStr ''id'', PStr ''params''}
      \<and> (case member ''params'' item of None \<Rightarrow> True | Some v \<Rightarrow> v = PDict [])
      \<and> (member ''id'' item = None \<or> exact_id (member ''id'' item) \<noteq> None))"

definition ping_response :: "pyval \<Rightarrow> response list" where
  "ping_response item =
     (case member ''id'' item of
        None \<Rightarrow> []
      | Some i \<Rightarrow> [if ping_valid item then Success i PNone
                   else from_error PNone invalid_request_error])"

definition reader_envelope :: "pyval \<Rightarrow> envelope option" where
  \<comment> \<open>a cancellation with an id is an invalid request\<close>
  "reader_envelope item =
     (case validate_envelope item of
        None \<Rightarrow> None
      | Some e \<Rightarrow> if en_method e = ''$/cancelRequest'' then None else Some e)"

definition reserve_for :: "envelope option \<Rightarrow> reader \<Rightarrow> nat option \<times> reader" where
  "reserve_for env s =
     (if env = None \<or> rd_draining s then (None, s)
      else (case pending_reserve (rd_pending s) of (r, p) \<Rightarrow> (r, s\<lparr>rd_pending := p\<rparr>)))"

definition release_reservation :: "nat option \<Rightarrow> reader \<Rightarrow> reader" where
  "release_reservation r s =
     (case r of None \<Rightarrow> s | Some x \<Rightarrow> s\<lparr>rd_pending := pending_release x (rd_pending s)\<rparr>)"

definition item_key :: "envelope option \<Rightarrow> pyval \<Rightarrow> pyval option" where
  "item_key env item = (if env = None then None else exact_id (member ''id'' item))"

definition add_call :: "call \<Rightarrow> reader \<Rightarrow> reader" where
  "add_call c s =
     s\<lparr>rd_calls := rd_calls s @ [(rd_next s, c)], rd_next := Suc (rd_next s),
       rd_requests := (case ca_key c of None \<Rightarrow> rd_requests s
                       | Some k \<Rightarrow> dict_set k (rd_next s) (rd_requests s))\<rparr>"

definition admit_item :: "bool \<Rightarrow> pyval \<Rightarrow> reader \<Rightarrow> reader" where
  "admit_item batch item s =
     (let env = reader_envelope item;
          key = item_key env item;
          (r, s1) = reserve_for env s
      in if key \<noteq> None \<and> the key \<in> fst ` set (rd_requests s1)
         then stop_reading Cl_protocol_error ''Duplicate in-flight request id'' (release_reservation r s1)
         else add_call
                \<lparr>ca_message = item, ca_reservation = r, ca_invalid = (env = None), ca_batch = batch,
                 ca_shutting_down = (env \<noteq> None \<and> rd_draining s), ca_envelope = env, ca_key = key,
                 ca_started = False, ca_cancel_requested = False\<rparr> s1)"

text \<open>One member of a message: the state, how many calls it made, the control responses.\<close>

definition read_item :: "bool \<Rightarrow> bool \<Rightarrow> pyval \<Rightarrow> reader \<times> nat \<times> response list \<Rightarrow> reader \<times> nat \<times> response list" where
  "read_item batch full item st =
     (case st of (s, n, controls) \<Rightarrow>
        if \<not> rd_reading s then st
        else if is_cancel item then (cancel_request item s, n, controls)
        else if is_ping item then (s, n, controls @ ping_response item)
        else if full then (stop_reading Cl_policy_violation ''Too many response collectors'' s, n, controls)
        else (admit_item batch item s, Suc n, controls))"

definition read_items :: "bool \<Rightarrow> bool \<Rightarrow> pyval list \<Rightarrow> reader \<Rightarrow> reader \<times> nat \<times> response list" where
  "read_items batch full items s = fold (read_item batch full) items (s, 0, [])"

definition finish_frame :: "reader \<times> nat \<times> response list \<Rightarrow> reader" where
  \<comment> \<open>nothing to answer, or one collector that awaits the calls and sends the answers\<close>
  "finish_frame st =
     (case st of (s, n, controls) \<Rightarrow>
        if \<not> rd_reading s then s
        else if n = 0 \<and> controls = [] then s
        else if collectors_full s
        then stop_reading Cl_policy_violation ''Too many response collectors'' s
        else s\<lparr>rd_collectors := Suc (rd_collectors s)\<rparr>)"

definition too_big :: "limits \<Rightarrow> nat \<Rightarrow> bool" where
  "too_big l n = (case max_message_bytes l of None \<Rightarrow> False | Some m \<Rightarrow> int n > m)"

definition read_frame :: "frame \<Rightarrow> reader \<Rightarrow> reader" where
  "read_frame f s =
     (if too_big (rd_limits s) (frame_size f) then stop_reading Cl_message_too_big [] s
      else
        (case f of
           Bad_utf8 _ \<Rightarrow> stop_reading Cl_protocol_error ''Invalid RPC frame'' s
         | Bad_json _ \<Rightarrow> schedule_failure s
         | Decoded _ (PList items) \<Rightarrow>
             if items = [] \<or> int (length items) > max_batch_size (rd_limits s) then schedule_failure s
             else finish_frame (read_items True (collectors_full s) items s)
         | Decoded _ item \<Rightarrow> finish_frame (read_items False (collectors_full s) [item] s)))"

section \<open>Calls\<close>

datatype call_work =
    Answer_invalid | Answer_shutting_down | Answer_pending_limit | Run_subscription | Run_method

definition invoke_one :: "(string \<Rightarrow> bool) \<Rightarrow> call \<Rightarrow> call_work" where
  "invoke_one owns c =
     (if ca_invalid c then Answer_invalid
      else if ca_shutting_down c then Answer_shutting_down
      else if ca_reservation c = None then Answer_pending_limit
      else if \<not> ca_batch c \<and> (case request_method (ca_message c) of Some m \<Rightarrow> owns m | None \<Rightarrow> False)
      then Run_subscription else Run_method)"

definition call_started :: "nat \<Rightarrow> reader \<Rightarrow> reader" where
  "call_started i s = s\<lparr>rd_calls := update_call i (\<lambda>c. c\<lparr>ca_started := True\<rparr>) (rd_calls s)\<rparr>"

definition call_returns :: "nat \<Rightarrow> reader \<Rightarrow> reader" where
  \<comment> \<open>the \<open>finally\<close> of \<open>invoke_one\<close>\<close>
  "call_returns i s =
     (case dict_get (rd_calls s) i of
        None \<Rightarrow> s | Some c \<Rightarrow> release_reservation (ca_reservation c) s)"

definition call_done :: "nat \<Rightarrow> reader \<Rightarrow> reader" where
  "call_done i s =
     (case dict_get (rd_calls s) i of
        None \<Rightarrow> s
      | Some c \<Rightarrow>
          (let s1 = release_reservation (ca_reservation c) (s\<lparr>rd_calls := dict_pop i (rd_calls s)\<rparr>)
           in case ca_key c of
                None \<Rightarrow> s1
              | Some k \<Rightarrow> if dict_get (rd_requests s1) k = Some i
                          then s1\<lparr>rd_requests := dict_pop k (rd_requests s1)\<rparr> else s1))"

definition answers_cancelled :: "bool \<Rightarrow> bool \<Rightarrow> call \<Rightarrow> bool" where
  \<comment> \<open>\<open>collect_one\<close>: a call cancelled before it started is still answered, by the collector\<close>
  "answers_cancelled closing collector_cancelled c =
     (\<not> (ca_started c \<or> \<not> ca_cancel_requested c \<or> closing \<or> collector_cancelled))"

datatype reader_event =
  Frame frame | Start_call nat | Call_returns nat | Call_done nat | Collector_done | Drain_begins

fun reader_step :: "reader_event \<Rightarrow> reader \<Rightarrow> reader" where
  "reader_step (Frame f) s = (if rd_reading s then read_frame f s else s)"
| "reader_step (Start_call i) s = call_started i s"
| "reader_step (Call_returns i) s = call_returns i s"
| "reader_step (Call_done i) s = call_done i s"
| "reader_step Collector_done s = s\<lparr>rd_collectors := rd_collectors s - 1\<rparr>"
| "reader_step Drain_begins s = s\<lparr>rd_draining := True\<rparr>"

definition reader_run :: "reader_event list \<Rightarrow> reader \<Rightarrow> reader" where
  "reader_run es s = fold reader_step es s"

section \<open>The invariant\<close>

definition key_of :: "(nat \<times> call) list \<Rightarrow> nat \<Rightarrow> pyval option" where
  "key_of cs i = Option.bind (dict_get cs i) ca_key"

definition slot_of :: "(nat \<times> call) list \<Rightarrow> nat \<Rightarrow> nat option" where
  "slot_of cs i = Option.bind (dict_get cs i) ca_reservation"

definition calls_ok :: "reader \<Rightarrow> bool" where
  "calls_ok s = (wf_dict (rd_calls s) \<and> wf_dict (rd_requests s)
     \<and> (\<forall>i. dict_get (rd_calls s) i \<noteq> None \<longrightarrow> i < rd_next s))"

definition table_ok :: "reader \<Rightarrow> bool" where
  \<comment> \<open>the in-flight table is exactly the live calls that have a key\<close>
  "table_ok s = (\<forall>k i. dict_get (rd_requests s) k = Some i \<longleftrightarrow> key_of (rd_calls s) i = Some k)"

definition slots_ok :: "reader \<Rightarrow> bool" where
  \<comment> \<open>reservations belong to live calls, each to one\<close>
  "slots_ok s =
     (pending_ok (rd_pending s)
      \<and> (\<forall>i r. slot_of (rd_calls s) i = Some r \<longrightarrow> r < pn_next (rd_pending s))
      \<and> (\<forall>i j r. slot_of (rd_calls s) i = Some r \<and> slot_of (rd_calls s) j = Some r \<longrightarrow> i = j)
      \<and> (\<forall>r\<in>pending_held (rd_pending s). \<exists>i. slot_of (rd_calls s) i = Some r))"

definition bounds_ok :: "reader \<Rightarrow> bool" where
  "bounds_ok s =
     (pool.capped (rd_pending s) \<and> pn_limit (rd_pending s) = max_pending_requests (rd_limits s)
      \<and> (int (rd_collectors s) \<le> collector_bound s \<or> rd_collectors s = 0))"

definition reader_inv :: "reader \<Rightarrow> bool" where
  "reader_inv s = (calls_ok s \<and> table_ok s \<and> slots_ok s \<and> bounds_ok s)"

lemmas reader_inv_defs = reader_inv_def calls_ok_def table_ok_def slots_ok_def bounds_ok_def

lemma dict_get_update_call:
  "dict_get (update_call i f cs) j = (if j = i then map_option f (dict_get cs i) else dict_get cs j)"
  by (induction cs) (auto simp: update_call_def)

lemma wf_update_call [simp]: "wf_dict (update_call i f cs) = wf_dict cs"
proof -
  have "map fst (update_call i f cs) = map fst cs" by (induction cs) (auto simp: update_call_def)
  then show ?thesis by (simp add: wf_dict_def)
qed

lemma dict_get_append_fresh:
  "dict_get cs n = None \<Longrightarrow> dict_get (cs @ [(n, c)]) j = (if j = n then Some c else dict_get cs j)"
  by (simp add: map_add_def split: option.split)

lemma key_of_update: "(\<And>c. ca_key (f c) = ca_key c) \<Longrightarrow> key_of (update_call i f cs) = key_of cs"
  by (rule ext) (auto simp: key_of_def dict_get_update_call split: Option.bind_split)

lemma slot_of_update:
  "(\<And>c. ca_reservation (f c) = ca_reservation c) \<Longrightarrow> slot_of (update_call i f cs) = slot_of cs"
  by (rule ext) (auto simp: slot_of_def dict_get_update_call split: Option.bind_split)

lemma update_call_inv:
  assumes inv: "reader_inv s" and k: "\<And>c. ca_key (f c) = ca_key c"
    and r: "\<And>c. ca_reservation (f c) = ca_reservation c"
  shows "reader_inv (s\<lparr>rd_calls := update_call i f (rd_calls s)\<rparr>)"
proof -
  have "dict_get (update_call i f (rd_calls s)) j \<noteq> None \<longleftrightarrow> dict_get (rd_calls s) j \<noteq> None" for j
    by (simp add: dict_get_update_call)
  with inv show ?thesis
    by (simp add: reader_inv_defs key_of_update [OF k] slot_of_update [OF r] collector_bound_def del: not_None_eq)
qed

lemma stop_reading_inv [simp]: "reader_inv (stop_reading c m s) = reader_inv s"
  by (simp add: reader_inv_defs stop_reading_def collector_bound_def)

lemma cancel_request_inv: "reader_inv s \<Longrightarrow> reader_inv (cancel_request item s)"
  by (auto simp: cancel_request_def cancel_call_def update_call_inv split: option.splits)

lemma collector_inv:
  "reader_inv s \<Longrightarrow> \<not> collectors_full s \<Longrightarrow> reader_inv (s\<lparr>rd_collectors := Suc (rd_collectors s)\<rparr>)"
  by (simp add: reader_inv_defs collectors_full_def collector_bound_def)

lemma schedule_failure_inv: "reader_inv s \<Longrightarrow> reader_inv (schedule_failure s)"
  by (simp add: schedule_failure_def collector_inv)

lemma finish_frame_inv: "reader_inv s \<Longrightarrow> reader_inv (finish_frame (s, n, cs))"
  by (simp add: finish_frame_def collector_inv)

lemma collector_done_inv: "reader_inv s \<Longrightarrow> reader_inv (s\<lparr>rd_collectors := rd_collectors s - 1\<rparr>)"
  by (auto simp: reader_inv_defs collector_bound_def)

lemma key_of_append:
  "dict_get cs n = None \<Longrightarrow> key_of (cs @ [(n, c)]) j = (if j = n then ca_key c else key_of cs j)"
  by (simp add: key_of_def dict_get_append_fresh del: map_of_append)

lemma slot_of_append:
  "dict_get cs n = None \<Longrightarrow> slot_of (cs @ [(n, c)]) j = (if j = n then ca_reservation c else slot_of cs j)"
  by (simp add: slot_of_def dict_get_append_fresh del: map_of_append)

lemma key_of_pop: "key_of (dict_pop i cs) j = (if j = i then None else key_of cs j)"
  by (simp add: key_of_def dict_get_pop)

lemma slot_of_pop: "slot_of (dict_pop i cs) j = (if j = i then None else slot_of cs j)"
  by (simp add: slot_of_def dict_get_pop)

lemma reader_fresh: "reader_inv s \<Longrightarrow> dict_get (rd_calls s) (rd_next s) = None"
  by (auto simp: reader_inv_defs)

subsection \<open>Admitting an item\<close>

text \<open>A reservation is either absent, leaving the pool, or fresh and held.\<close>

lemma reserve_for_cases:
  assumes "reader_inv s" and "reserve_for env s = (r, s1)"
  shows "(r = None \<and> s1 = s) \<or>
    (\<exists>x p. r = Some x \<and> pending_reserve (rd_pending s) = (Some x, p) \<and> s1 = s\<lparr>rd_pending := p\<rparr>
        \<and> x = pn_next (rd_pending s) \<and> pn_next p = Suc x \<and> pn_limit p = pn_limit (rd_pending s)
        \<and> pending_ok p \<and> pool.capped p \<and> pending_held p = insert x (pending_held (rd_pending s)))"
proof (cases "env = None \<or> rd_draining s")
  case True
  with assms(2) show ?thesis by (simp add: reserve_for_def)
next
  case False
  obtain q p where q: "pending_reserve (rd_pending s) = (q, p)" by (cases "pending_reserve (rd_pending s)")
  with False assms(2) have r: "r = q" "s1 = s\<lparr>rd_pending := p\<rparr>" by (auto simp: reserve_for_def)
  have ok: "pending_ok (rd_pending s)" "pool.capped (rd_pending s)"
    using assms(1) by (simp_all add: reader_inv_defs)
  show ?thesis
  proof (cases q)
    case None
    with q have "p = rd_pending s" by (auto simp: pending_reserve_def split: if_splits)
    with None r show ?thesis by simp
  next
    case (Some x)
    have "pending_ok p" "pool.capped p"
      using pool.ok_reserve [OF ok(1)] pool.capped_reserve [OF ok] q by simp_all
    moreover have "x = pn_next (rd_pending s) \<and> pn_next p = Suc x \<and> pn_limit p = pn_limit (rd_pending s)
        \<and> pending_held p = insert x (pending_held (rd_pending s))"
      using q Some by (auto simp: pending_reserve_def pending_held_def split: if_splits)
    ultimately show ?thesis using r q Some by simp
  qed
qed

lemma release_after_reserve:
  assumes "reader_inv s" and "reserve_for env s = (r, s1)"
  shows "reader_inv (release_reservation r s1)"
    and "rd_pending (release_reservation r s1) = (rd_pending s)\<lparr>pn_next := pn_next (rd_pending s1)\<rparr>"
proof -
  have nh: "pn_next (rd_pending s) \<notin> set (pn_held (rd_pending s))"
    using assms(1) by (auto simp: reader_inv_defs pending_ok_def)
  show p: "rd_pending (release_reservation r s1) = (rd_pending s)\<lparr>pn_next := pn_next (rd_pending s1)\<rparr>"
    using reserve_for_cases [OF assms] nh
    by (auto simp: release_reservation_def pending_release_def pending_reserve_def removeAll_id
        split: if_splits)
  have same: "release_reservation r s1 = s\<lparr>rd_pending := (rd_pending s)\<lparr>pn_next := pn_next (rd_pending s1)\<rparr>\<rparr>"
    using reserve_for_cases [OF assms] p by (auto simp: release_reservation_def)
  have le: "pn_next (rd_pending s) \<le> pn_next (rd_pending s1)"
    using reserve_for_cases [OF assms] by auto
  show "reader_inv (release_reservation r s1)"
    using assms(1) le unfolding same
    by (auto simp: reader_inv_defs pending_ok_def pending_held_def pool.capped_def pending_limit_def
        collector_bound_def dest: less_le_trans) (meson order_less_le_trans)+
qed

lemma add_call_inv:
  assumes inv: "reader_inv s" and r: "reserve_for env s = (r, s1)"
    and c: "ca_reservation c = r" and k: "\<And>k. ca_key c = Some k \<Longrightarrow> dict_get (rd_requests s) k = None"
  shows "reader_inv (add_call c s1)"
proof -
  have s1: "rd_calls s1 = rd_calls s" "rd_requests s1 = rd_requests s" "rd_next s1 = rd_next s"
    "rd_collectors s1 = rd_collectors s" "rd_limits s1 = rd_limits s"
    using reserve_for_cases [OF inv r] by auto
  note fr = reader_fresh [OF inv]
  note ap = key_of_append [OF fr] slot_of_append [OF fr]
  have slot: "slot_of (rd_calls s) (rd_next s) = None" "key_of (rd_calls s) (rd_next s) = None"
    using fr by (simp_all add: slot_of_def key_of_def)
  have nk: "key_of (rd_calls s) i \<noteq> Some x" if "ca_key c = Some x" for i x
  proof
    assume "key_of (rd_calls s) i = Some x"
    with inv have "dict_get (rd_requests s) x = Some i" by (simp add: reader_inv_def table_ok_def)
    with k [OF that] show False by simp
  qed
  have "calls_ok (add_call c s1)"
    using inv fr
    by (auto simp: reader_inv_defs add_call_def s1 wf_dict_def dict_get_append_fresh [OF fr]
        map_of_eq_None_iff distinct_update dest: less_SucI split: option.split)
  moreover have "table_ok (add_call c s1)"
    using inv slot k
    by (cases "ca_key c")
      (auto simp: reader_inv_def table_ok_def add_call_def s1 ap dict_get_set nk split: if_splits)
  moreover have "slots_ok (add_call c s1)"
    using reserve_for_cases [OF inv r]
  proof
    assume n: "r = None \<and> s1 = s"
    then have "slot_of (rd_calls (add_call c s1)) = slot_of (rd_calls s)"
      using slot c by (intro ext) (simp add: add_call_def ap)
    moreover have "rd_pending (add_call c s1) = rd_pending s" using n by (simp add: add_call_def)
    ultimately show ?thesis using inv by (simp add: reader_inv_def slots_ok_def)
  next
    assume "\<exists>x p. r = Some x \<and> pending_reserve (rd_pending s) = (Some x, p) \<and> s1 = s\<lparr>rd_pending := p\<rparr>
        \<and> x = pn_next (rd_pending s) \<and> pn_next p = Suc x \<and> pn_limit p = pn_limit (rd_pending s)
        \<and> pending_ok p \<and> pool.capped p \<and> pending_held p = insert x (pending_held (rd_pending s))"
    then obtain x p where x: "r = Some x" "s1 = s\<lparr>rd_pending := p\<rparr>" "x = pn_next (rd_pending s)"
      "pn_next p = Suc x" "pending_ok p" "pending_held p = insert x (pending_held (rd_pending s))"
      by blast
    have o: "\<And>i y. slot_of (rd_calls s) i = Some y \<Longrightarrow> y < x"
      "\<And>i j y. slot_of (rd_calls s) i = Some y \<Longrightarrow> slot_of (rd_calls s) j = Some y \<Longrightarrow> i = j"
      "\<And>y. y \<in> pending_held (rd_pending s) \<Longrightarrow> \<exists>i. slot_of (rd_calls s) i = Some y"
      using inv x(3) unfolding reader_inv_def slots_ok_def by blast+
    have sl: "slot_of (rd_calls (add_call c s1)) i =
        (if i = rd_next s then Some x else slot_of (rd_calls s) i)" for i
      using c x(1) by (simp add: add_call_def s1 ap)
    have "\<exists>i. slot_of (rd_calls (add_call c s1)) i = Some y" if "y \<in> insert x (pending_held (rd_pending s))" for y
      using that o(3) [of y] slot(1) unfolding sl by (metis insert_iff option.distinct(1))
    moreover have "rd_pending (add_call c s1) = p" using x(2) by (simp add: add_call_def)
    moreover have "\<forall>i y. slot_of (rd_calls (add_call c s1)) i = Some y \<longrightarrow> y < pn_next p"
      unfolding sl using x(4) by (auto split: if_splits dest: o(1) intro: less_SucI)
    moreover have "\<forall>i j y. slot_of (rd_calls (add_call c s1)) i = Some y
        \<and> slot_of (rd_calls (add_call c s1)) j = Some y \<longrightarrow> i = j"
      unfolding sl by (auto split: if_splits dest: o(1) o(2))
    ultimately show ?thesis
      using x(5,6) by (simp add: slots_ok_def)
  qed
  moreover have "bounds_ok (add_call c s1)"
    using inv reserve_for_cases [OF inv r]
    by (auto simp: reader_inv_def bounds_ok_def add_call_def collector_bound_def)
  ultimately show ?thesis by (simp add: reader_inv_def)
qed

lemma admit_item_inv:
  assumes "reader_inv s"
  shows "reader_inv (admit_item batch item s)"
proof -
  obtain r s1 where r: "reserve_for (reader_envelope item) s = (r, s1)"
    by (cases "reserve_for (reader_envelope item) s")
  have q: "rd_requests s1 = rd_requests s" using reserve_for_cases [OF assms r] by auto
  show ?thesis
  proof (cases "item_key (reader_envelope item) item \<noteq> None
      \<and> the (item_key (reader_envelope item) item) \<in> fst ` set (rd_requests s1)")
    case True
    then show ?thesis
      using release_after_reserve(1) [OF assms r] by (simp add: admit_item_def Let_def r)
  next
    case False
    have k: "item_key (reader_envelope item) item = Some k \<Longrightarrow> dict_get (rd_requests s) k = None" for k
      using False q by (auto simp: map_of_eq_None_iff)
    show ?thesis
      unfolding admit_item_def Let_def r prod.case if_not_P [OF False]
      by (rule add_call_inv [OF assms r]) (simp_all add: k)
  qed
qed

lemma read_item_inv: "reader_inv (fst st) \<Longrightarrow> reader_inv (fst (read_item b full item st))"
  by (cases st) (simp add: read_item_def cancel_request_inv admit_item_inv)

lemma read_items_inv: "reader_inv s \<Longrightarrow> reader_inv (fst (read_items b full items s))"
proof -
  have "reader_inv (fst st) \<Longrightarrow> reader_inv (fst (fold (read_item b full) items st))" for st
    by (induction items arbitrary: st) (simp_all add: read_item_inv)
  then show "reader_inv s \<Longrightarrow> reader_inv (fst (read_items b full items s))"
    by (simp add: read_items_def)
qed

lemma finish_items_inv: "reader_inv s \<Longrightarrow> reader_inv (finish_frame (read_items b full items s))"
  using read_items_inv [of s b full items] finish_frame_inv
  by (cases "read_items b full items s") simp

lemma read_frame_inv: "reader_inv s \<Longrightarrow> reader_inv (read_frame f s)"
  unfolding read_frame_def
  by (auto simp: schedule_failure_inv finish_items_inv split: frame.split pyval.split)

lemma release_inv:
  assumes "reader_inv s"
  shows "reader_inv (release_reservation r s)"
proof (cases r)
  case (Some x)
  have ok: "pending_ok (rd_pending s)" "pool.capped (rd_pending s)"
    using assms by (simp_all add: reader_inv_defs)
  have "pending_ok (pending_release x (rd_pending s))" "pool.capped (pending_release x (rd_pending s))"
    using pool.ok_release [OF ok(1)] pool.capped_release [OF ok] by simp_all
  moreover have "pending_held (pending_release x (rd_pending s)) \<subseteq> pending_held (rd_pending s)"
    using pool.release_held [OF ok(1), of x] by blast
  moreover have "pn_next (pending_release x (rd_pending s)) = pn_next (rd_pending s)"
    "pn_limit (pending_release x (rd_pending s)) = pn_limit (rd_pending s)"
    by (simp_all add: pending_release_def)
  ultimately show ?thesis
    using assms Some
    by (auto simp: release_reservation_def reader_inv_defs collector_bound_def)
qed (simp add: release_reservation_def assms)

lemma call_done_inv:
  assumes inv: "reader_inv s"
  shows "reader_inv (call_done i s)"
proof (cases "dict_get (rd_calls s) i")
  case None
  with inv show ?thesis by (simp add: call_done_def)
next
  case (Some c)
  define p where "p = (case ca_reservation c of None \<Rightarrow> rd_pending s
      | Some x \<Rightarrow> pending_release x (rd_pending s))"
  define q where "q = (case ca_key c of None \<Rightarrow> rd_requests s
      | Some k \<Rightarrow> if dict_get (rd_requests s) k = Some i then dict_pop k (rd_requests s) else rd_requests s)"
  have e: "call_done i s = s\<lparr>rd_calls := dict_pop i (rd_calls s), rd_pending := p, rd_requests := q\<rparr>"
    using Some
    by (auto simp: call_done_def Let_def release_reservation_def p_def q_def split: option.split)
  have ok: "pending_ok (rd_pending s)" "pool.capped (rd_pending s)"
    using inv by (simp_all add: reader_inv_defs)
  have p: "pending_ok p" "pool.capped p" "pn_next p = pn_next (rd_pending s)"
    "pn_limit p = pn_limit (rd_pending s)" "slot_of (rd_calls s) i = Some r \<Longrightarrow> r \<notin> pending_held p"
    "pending_held p \<subseteq> pending_held (rd_pending s)" for r
    using ok pool.ok_release [OF ok(1)] pool.capped_release [OF ok] pool.release_held [OF ok(1)] Some
    by (auto simp: p_def slot_of_def pending_release_def split: option.splits)
  have tab: "dict_get (rd_requests s) k = Some j \<longleftrightarrow> key_of (rd_calls s) j = Some k" for k j
    using inv by (simp add: reader_inv_def table_ok_def)
  have "calls_ok (call_done i s)"
    using inv by (auto simp: e reader_inv_def calls_ok_def dict_get_pop q_def split: option.splits if_splits)
  moreover have "table_ok (call_done i s)"
  proof (cases "ca_key c")
    case None
    then have n: "key_of (rd_calls s) i = None" using Some by (simp add: key_of_def)
    show ?thesis using tab n by (auto simp: table_ok_def e key_of_pop q_def None split: if_splits)
  next
    case k: (Some k)
    then have n: "key_of (rd_calls s) i = Some k" using Some by (simp add: key_of_def)
    then have d: "dict_get (rd_requests s) k = Some i" by (simp add: tab)
    have "dict_get q k' = Some j \<longleftrightarrow> key_of (dict_pop i (rd_calls s)) j = Some k'" for k' j
      using tab [of k' j] n d tab [of k j] by (auto simp: q_def k key_of_pop dict_get_pop)
    then show ?thesis by (simp add: table_ok_def e)
  qed
  moreover have "slots_ok (call_done i s)"
  proof -
    have "\<exists>j. slot_of (dict_pop i (rd_calls s)) j = Some r" if r: "r \<in> pending_held p" for r
    proof -
      have "r \<in> pending_held (rd_pending s)" using p(6) r by blast
      then obtain j where j: "slot_of (rd_calls s) j = Some r"
        using inv unfolding reader_inv_def slots_ok_def by blast
      with p(5) r have "j \<noteq> i" by metis
      with j show ?thesis by (metis slot_of_pop)
    qed
    then show ?thesis
      using inv p(1,3) by (auto simp: e reader_inv_def slots_ok_def slot_of_pop split: if_splits)
  qed
  moreover have "bounds_ok (call_done i s)"
    using inv p by (simp add: e reader_inv_def bounds_ok_def collector_bound_def)
  ultimately show ?thesis by (simp add: reader_inv_def)
qed

lemma reader_step_inv: "reader_inv s \<Longrightarrow> reader_inv (reader_step e s)"
proof (cases e)
  case (Frame f)
  then show "reader_inv s \<Longrightarrow> ?thesis" by (simp add: read_frame_inv)
next
  case (Start_call i)
  then show "reader_inv s \<Longrightarrow> ?thesis" by (simp add: call_started_def update_call_inv)
next
  case (Call_returns i)
  then show "reader_inv s \<Longrightarrow> ?thesis"
    by (simp add: call_returns_def release_inv split: option.split)
next
  case (Call_done i)
  then show "reader_inv s \<Longrightarrow> ?thesis" by (simp add: call_done_inv)
next
  case Collector_done
  then show "reader_inv s \<Longrightarrow> ?thesis" by (simp add: collector_done_inv del: One_nat_def)
next
  case Drain_begins
  then show "reader_inv s \<Longrightarrow> ?thesis"
    by (simp add: reader_inv_defs collector_bound_def)
qed

lemma reader_run_inv: "reader_inv s \<Longrightarrow> reader_inv (reader_run es s)"
  unfolding reader_run_def by (induction es arbitrary: s) (simp_all add: reader_step_inv)

lemma start_reader_inv: "limits_ok l \<Longrightarrow> reader_inv (start_reader l)"
  by (auto simp: reader_inv_defs start_reader_def pending_ok_def pending_held_def pool.capped_def
      pending_limit_def key_of_def slot_of_def limits_ok_def)

lemma stop_reading_limits [simp]: "rd_limits (stop_reading c m s) = rd_limits s"
  by (simp add: stop_reading_def)

lemma read_item_limits: "rd_limits (fst (read_item b full item st)) = rd_limits (fst st)"
proof (cases st)
  case (fields s n cs)
  have "rd_limits (cancel_request item s) = rd_limits s"
    by (simp add: cancel_request_def cancel_call_def split: option.split)
  moreover have "rd_limits (admit_item b item s) = rd_limits s"
  proof -
    obtain r s1 where r: "reserve_for (reader_envelope item) s = (r, s1)"
      by (cases "reserve_for (reader_envelope item) s")
    then have "rd_limits s1 = rd_limits s"
      by (auto simp: reserve_for_def split: if_splits prod.splits)
    then show ?thesis
      by (simp add: admit_item_def Let_def r release_reservation_def add_call_def split: option.split)
  qed
  ultimately show ?thesis by (simp add: read_item_def fields)
qed

lemma finish_items_limits: "rd_limits (finish_frame (read_items b full items s)) = rd_limits s"
proof -
  have f: "rd_limits (fst (fold (read_item b full) items st)) = rd_limits (fst st)" for st
    by (induction items arbitrary: st) (simp_all add: read_item_limits)
  have "rd_limits (finish_frame st) = rd_limits (fst st)" for st
    by (cases st) (simp add: finish_frame_def)
  then show ?thesis by (simp add: read_items_def f)
qed

lemma read_frame_limits: "rd_limits (read_frame f s) = rd_limits s"
  unfolding read_frame_def
  by (simp add: schedule_failure_def finish_items_limits split: frame.split pyval.split)

section \<open>Properties\<close>

definition rpc_item :: "int \<Rightarrow> pyval" where
  "rpc_item i = PDict [(PStr ''jsonrpc'', PStr ''2.0''), (PStr ''id'', PInt i), (PStr ''method'', PStr ''echo'')]"

definition cancel_item :: "int \<Rightarrow> pyval" where
  "cancel_item i = PDict [(PStr ''jsonrpc'', PStr ''2.0''), (PStr ''method'', PStr ''$/cancelRequest''),
     (PStr ''params'', PDict [(PStr ''id'', PInt i)])]"

definition sample_reader :: reader where
  "sample_reader = reader_run [Frame (Decoded 90 (PList [rpc_item 1, rpc_item 2]))] (start_reader default_limits)"

lemma default_limits_accepted: "limits_post_init default_limits = Inr default_limits"
  by code_simp

text \<open>
  Claim C2. In every history of frames, starts and ends of calls, answers and a drain, a
  connection admits at most \<open>max_pending_requests\<close> calls at once and awaits at most
  \<open>max_pending_requests + max_queue_size\<close> collectors; no two live calls share a request id,
  the in-flight table names exactly the live calls that have an id, and every reservation in
  use belongs to one live call, so that none outlives its call.
\<close>

theorem reader_bounded:
  assumes "limits_post_init l = Inr l" and s_def: "s = reader_run es (start_reader l)"
  shows "card (pending_held (rd_pending s)) \<le> nat (max_pending_requests (rd_limits s))
    \<and> int (rd_collectors s) \<le> collector_bound s
    \<and> (\<forall>k i. dict_get (rd_requests s) k = Some i \<longleftrightarrow>
         (\<exists>c. dict_get (rd_calls s) i = Some c \<and> ca_key c = Some k))
    \<and> (\<forall>i j k. key_of (rd_calls s) i = Some k \<and> key_of (rd_calls s) j = Some k \<longrightarrow> i = j)
    \<and> (\<forall>r\<in>pending_held (rd_pending s). \<exists>!i. slot_of (rd_calls s) i = Some r)"
proof -
  have l: "limits_ok l" using assms(1) limits_post_init_ok by blast
  have inv: "reader_inv s" unfolding s_def by (rule reader_run_inv [OF start_reader_inv [OF l]])
  have "rd_limits (reader_step e x) = rd_limits x" for e x
    by (cases e) (auto simp: read_frame_limits call_started_def call_returns_def call_done_def Let_def
        release_reservation_def split: option.split)
  then have lim: "rd_limits s = l"
    unfolding s_def reader_run_def by (induction es rule: rev_induct) (simp_all add: start_reader_def)
  have "0 \<le> collector_bound s" using l by (simp add: collector_bound_def lim limits_ok_def)
  then have "int (rd_collectors s) \<le> collector_bound s"
    using inv by (auto simp: reader_inv_def bounds_ok_def)
  moreover have "card (pending_held (rd_pending s)) \<le> nat (max_pending_requests (rd_limits s))"
    using inv by (auto simp: reader_inv_def bounds_ok_def pool.capped_def pending_limit_def)
  moreover have "dict_get (rd_requests s) k = Some i \<longleftrightarrow>
         (\<exists>c. dict_get (rd_calls s) i = Some c \<and> ca_key c = Some k)" for k i
    using inv by (auto simp: reader_inv_def table_ok_def key_of_def bind_eq_Some_conv)
  moreover have "\<forall>i j k. key_of (rd_calls s) i = Some k \<and> key_of (rd_calls s) j = Some k \<longrightarrow> i = j"
  proof (intro allI impI, elim conjE)
    fix i j k
    assume "key_of (rd_calls s) i = Some k" and "key_of (rd_calls s) j = Some k"
    with inv have "dict_get (rd_requests s) k = Some i" "dict_get (rd_requests s) k = Some j"
      by (simp_all add: reader_inv_def table_ok_def)
    then show "i = j" by simp
  qed
  moreover have "\<forall>r\<in>pending_held (rd_pending s). \<exists>!i. slot_of (rd_calls s) i = Some r"
    using inv unfolding reader_inv_def slots_ok_def by blast
  ultimately show ?thesis by blast
qed

theorem reader_bounded_witness:
  "card (pending_held (rd_pending sample_reader)) \<le> nat (max_pending_requests (rd_limits sample_reader))"
  using reader_bounded [OF default_limits_accepted sample_reader_def] by blast

lemma stop_reading_frame [simp]:
  "rd_calls (stop_reading c m s) = rd_calls s" "rd_pending (stop_reading c m s) = rd_pending s"
  "rd_requests (stop_reading c m s) = rd_requests s" "\<not> rd_reading (stop_reading c m s)"
  "rd_draining (stop_reading c m s) = rd_draining s"
  "rd_close (stop_reading c m s) = (case rd_close s of None \<Rightarrow> Some (c, m) | Some v \<Rightarrow> Some v)"
  by (simp_all add: stop_reading_def)

lemma release_reservation_frame [simp]:
  "rd_calls (release_reservation r s) = rd_calls s" "rd_requests (release_reservation r s) = rd_requests s"
  "rd_close (release_reservation r s) = rd_close s"
  by (simp_all add: release_reservation_def split: option.split)

text \<open>
  A valid request whose id is still in flight ends the connection with a protocol
  error: it makes no call, holds no reservation, leaves the calls in flight as they are, and
  the reader reads no further frame.
\<close>

theorem duplicate_id_closes:
  assumes "limits_post_init l = Inr l" and s_def: "s = reader_run es (start_reader l)"
    and "reader_envelope item = Some e" and "exact_id (member ''id'' item) = Some k"
    and "dict_get (rd_calls s) i = Some c" and "ca_key c = Some k"
    and s'_def: "s' = admit_item batch item s"
  shows "rd_calls s' = rd_calls s \<and> pending_held (rd_pending s') = pending_held (rd_pending s)
    \<and> \<not> rd_reading s'
    \<and> rd_close s' = (case rd_close s of Some v \<Rightarrow> Some v
                     | None \<Rightarrow> Some (Cl_protocol_error, ''Duplicate in-flight request id''))"
proof -
  have l: "limits_ok l" using assms(1) limits_post_init_ok by blast
  have inv: "reader_inv s" unfolding s_def by (rule reader_run_inv [OF start_reader_inv [OF l]])
  have "key_of (rd_calls s) i = Some k" using assms(5,6) by (simp add: key_of_def)
  with inv have d: "dict_get (rd_requests s) k = Some i" by (simp add: reader_inv_def table_ok_def)
  obtain r s1 where r: "reserve_for (reader_envelope item) s = (r, s1)"
    by (cases "reserve_for (reader_envelope item) s")
  have s1: "rd_requests s1 = rd_requests s" "rd_calls s1 = rd_calls s" "rd_close s1 = rd_close s"
    using reserve_for_cases [OF inv r] by auto
  have "item_key (reader_envelope item) item = Some k" using assms(3,4) by (simp add: item_key_def)
  moreover have "k \<in> fst ` set (rd_requests s1)" using imageI [OF map_of_SomeD [OF d], of fst] by (simp add: s1)
  ultimately have e: "s' = stop_reading Cl_protocol_error ''Duplicate in-flight request id''
      (release_reservation r s1)"
    by (simp add: s'_def admit_item_def Let_def r)
  have "pending_held (rd_pending (release_reservation r s1)) = pending_held (rd_pending s)"
    unfolding release_after_reserve(2) [OF inv r] by (simp add: pending_held_def)
  then show ?thesis by (simp add: e s1)
qed

theorem duplicate_id_closes_witness:
  "rd_close (admit_item False (rpc_item 1) sample_reader) =
     Some (Cl_protocol_error, ''Duplicate in-flight request id'')"
proof -
  obtain e where e: "reader_envelope (rpc_item 1) = Some e"
  proof -
    have "reader_envelope (rpc_item 1) \<noteq> None" by code_simp
    then show thesis using that by blast
  qed
  obtain c where c: "dict_get (rd_calls sample_reader) 0 = Some c" "ca_key c = Some (PInt 1)"
  proof -
    have "(case dict_get (rd_calls sample_reader) 0 of Some c \<Rightarrow> ca_key c = Some (PInt 1) | None \<Rightarrow> False)"
      by code_simp
    then show thesis using that by (cases "dict_get (rd_calls sample_reader) 0") simp_all
  qed
  have "exact_id (member ''id'' (rpc_item 1)) = Some (PInt 1)" "rd_close sample_reader = None"
    by code_simp+
  with duplicate_id_closes [OF default_limits_accepted sample_reader_def e _ c refl] show ?thesis by simp
qed

text \<open>
  A client cancellation is always consumed without an answer; a well-formed one
  marks exactly the live, admitted call whose request has that id, leaving its admission and
  all other calls alone, and any other one changes nothing.
\<close>

theorem cancel_request_targets:
  assumes "limits_post_init l = Inr l" and s_def: "s = reader_run es (start_reader l)"
    and "is_cancel item" and "rd_reading s"
  shows "\<exists>s'. read_item batch full item (s, n, controls) = (s', n, controls)
    \<and> rd_pending s' = rd_pending s \<and> rd_requests s' = rd_requests s \<and> rd_close s' = rd_close s
    \<and> (\<forall>i. dict_get (rd_calls s') i =
         map_option (\<lambda>c. if ca_reservation c \<noteq> None \<and> ca_key c \<noteq> None \<and> ca_key c = cancel_target item
                         then c\<lparr>ca_cancel_requested := True\<rparr> else c) (dict_get (rd_calls s) i))"
proof -
  have l: "limits_ok l" using assms(1) limits_post_init_ok by blast
  have inv: "reader_inv s" unfolding s_def by (rule reader_run_inv [OF start_reader_inv [OF l]])
  have tab: "dict_get (rd_requests s) k = Some i \<longleftrightarrow> key_of (rd_calls s) i = Some k" for k i
    using inv by (simp add: reader_inv_def table_ok_def)
  have same: "c\<lparr>ca_cancel_requested := True\<rparr> = c" if "ca_cancel_requested c" for c
    using that by simp
  define s' where "s' = cancel_request item s"
  have frame: "rd_pending s' = rd_pending s \<and> rd_requests s' = rd_requests s \<and> rd_close s' = rd_close s"
    by (simp add: s'_def cancel_request_def cancel_call_def split: option.split)
  have "dict_get (rd_calls s') i =
      map_option (\<lambda>c. if ca_reservation c \<noteq> None \<and> ca_key c \<noteq> None \<and> ca_key c = cancel_target item
                      then c\<lparr>ca_cancel_requested := True\<rparr> else c) (dict_get (rd_calls s) i)" for i
  proof (cases "cancel_target item")
    case None
    then show ?thesis by (cases "dict_get (rd_calls s) i") (auto simp: s'_def cancel_request_def)
  next
    case (Some k)
    show ?thesis
    proof (cases "dict_get (rd_requests s) k")
      case None
      then have "key_of (rd_calls s) i \<noteq> Some k" using tab [of k i] by simp
      with None Some show ?thesis
        by (cases "dict_get (rd_calls s) i") (simp_all add: s'_def cancel_request_def cancel_call_def key_of_def)
    next
      case j: (Some j)
      then obtain c where c: "dict_get (rd_calls s) j = Some c" "ca_key c = Some k"
        using tab [of k j] by (auto simp: key_of_def bind_eq_Some_conv)
      have other: "dict_get (rd_calls s) i = Some d \<Longrightarrow> ca_key d = Some k \<Longrightarrow> i = j" for d
        using tab [of k i] j by (simp add: key_of_def)
      have e: "rd_calls s' = (if ca_reservation c \<noteq> None \<and> \<not> ca_cancel_requested c
          then update_call j (\<lambda>x. x\<lparr>ca_cancel_requested := True\<rparr>) (rd_calls s) else rd_calls s)"
        using Some j c by (simp add: s'_def cancel_request_def cancel_call_def)
      show ?thesis
      proof (cases "i = j")
        case True
        with c Some same show ?thesis by (simp add: e dict_get_update_call)
      next
        case False
        then have "dict_get (rd_calls s') i = dict_get (rd_calls s) i"
          by (simp add: e dict_get_update_call)
        with other False Some show ?thesis by (cases "dict_get (rd_calls s) i") auto
      qed
    qed
  qed
  moreover have "read_item batch full item (s, n, controls) = (s', n, controls)"
    using assms(3,4) by (simp add: read_item_def s'_def)
  ultimately show ?thesis using frame by blast
qed

theorem cancel_request_targets_witness:
  "\<exists>s'. read_item False False (cancel_item 2) (sample_reader, 0, []) = (s', 0, [])
     \<and> rd_pending s' = rd_pending sample_reader"
proof -
  have "is_cancel (cancel_item 2)" "rd_reading sample_reader" by code_simp+
  from cancel_request_targets [OF default_limits_accepted sample_reader_def this] show ?thesis by blast
qed

end
