(* ===== verification/Ws_Ports.thy ===== *)
theory Ws_Ports
  imports Ws_Admission
begin

text \<open>
  The message ports of streaming and socket endpoints
  (\<open>fastapi_canon/integrations/websockets\<close>): \<open>streams.py\<close>, \<open>sockets.py\<close> and the readers and
  writers of \<open>_run_stream_endpoint\<close> and \<open>_run_socket\<close> in \<open>runtime.py\<close>. A frame is text or bytes,
  both lists of 8-bit characters (text is its UTF-8 form). JSON messages (pydantic) and the
  recognition of the end message are parameters. A reader handles one frame at a time and
  blocks while its queue is full; handlers and readers interleave freely.
\<close>

section \<open>Queues\<close>

text \<open>An \<open>asyncio.Queue\<close> with at most one blocked \<open>put\<close>, the reader's.\<close>

record 'a port =
  pt_items :: "'a list"
  pt_blocked :: "'a option"
  pt_max :: nat

definition new_port :: "nat \<Rightarrow> 'a port" where
  "new_port n = \<lparr>pt_items = [], pt_blocked = None, pt_max = n\<rparr>"

definition port_put :: "'a \<Rightarrow> 'a port \<Rightarrow> 'a port" where
  "port_put x p =
     (if length (pt_items p) < pt_max p then p\<lparr>pt_items := pt_items p @ [x]\<rparr> else p\<lparr>pt_blocked := Some x\<rparr>)"

definition port_settle :: "'a port \<Rightarrow> 'a port" where
  \<comment> \<open>the blocked \<open>put\<close> resumes\<close>
  "port_settle p =
     (case pt_blocked p of
        None \<Rightarrow> p
      | Some x \<Rightarrow> if length (pt_items p) < pt_max p then p\<lparr>pt_items := pt_items p @ [x], pt_blocked := None\<rparr> else p)"

definition port_get :: "'a port \<Rightarrow> ('a \<times> 'a port) option" where
  "port_get p = (case pt_items p of [] \<Rightarrow> None | x # xs \<Rightarrow> Some (x, p\<lparr>pt_items := xs\<rparr>))"

definition port_pending :: "'a port \<Rightarrow> 'a list" where
  "port_pending p = pt_items p @ (case pt_blocked p of None \<Rightarrow> [] | Some x \<Rightarrow> [x])"

definition port_ok :: "'a port \<Rightarrow> bool" where
  "port_ok p = (length (pt_items p) \<le> pt_max p)"

named_theorems port_simps \<open>a queue as the list of what is pending in it\<close>

lemma pending_new [port_simps]: "port_pending (new_port n) = []"
  by (simp add: port_pending_def new_port_def)

lemma pending_put [port_simps]: "pt_blocked p = None \<Longrightarrow> port_pending (port_put x p) = port_pending p @ [x]"
  by (simp add: port_pending_def port_put_def)

lemma pending_settle [port_simps]: "port_pending (port_settle p) = port_pending p"
  by (simp add: port_pending_def port_settle_def split: option.split)

lemma pending_get: "port_get p = Some (x, p') \<Longrightarrow> port_pending p = x # port_pending p'"
  by (auto simp: port_pending_def port_get_def split: list.splits)

lemma port_ok_steps [port_simps]:
  "port_ok (new_port n)" "port_ok p \<Longrightarrow> port_ok (port_put x p)" "port_ok p \<Longrightarrow> port_ok (port_settle p)"
  by (auto simp: port_ok_def new_port_def port_put_def port_settle_def split: option.split)

lemma port_max_steps [simp]: "pt_max (port_put x p) = pt_max p" "pt_max (port_settle p) = pt_max p"
  by (auto simp: port_put_def port_settle_def split: option.split)

lemma port_ok_get: "port_get p = Some (x, p') \<Longrightarrow> port_ok p \<Longrightarrow> port_ok p' \<and> pt_max p' = pt_max p"
  by (auto simp: port_ok_def port_get_def split: list.splits)

section \<open>Frames\<close>

datatype ws_frame = Text_frame string | Bytes_frame string

definition ws_frame_size :: "ws_frame \<Rightarrow> nat" where
  "ws_frame_size f = (case f of Text_frame t \<Rightarrow> length t | Bytes_frame b \<Rightarrow> length b)"

datatype message_type = Text_message | Binary_message

definition frame_type :: "ws_frame \<Rightarrow> message_type" where
  "frame_type f = (case f of Text_frame _ \<Rightarrow> Text_message | Bytes_frame _ \<Rightarrow> Binary_message)"

definition port_closed :: "connection \<Rightarrow> bool" where
  \<comment> \<open>\<open>RpcSocket.closed\<close>\<close>
  "port_closed c = (rc_closed c \<or> rc_close_code c \<noteq> None)"

section \<open>Binary streams (streams.py)\<close>

text \<open>\<open>None\<close> in the queue is \<open>_END\<close>. \<open>sp_taken\<close> and \<open>sp_put\<close> record the frames the handler
  received and the frames the reader handed to the queue, \<open>sp_sent\<close> the frames sent.\<close>

record stream_port =
  sp_conn :: connection
  sp_queue :: "string option port"
  sp_input_ended :: bool
  sp_ended :: bool
  sp_reading :: bool
  sp_running :: bool
  sp_put :: "string list"
  sp_taken :: "string list"
  sp_sent :: "string list"

definition new_stream :: "limits \<Rightarrow> connection \<Rightarrow> stream_port" where
  "new_stream l c =
     \<lparr>sp_conn = c, sp_queue = new_port (nat (max_queue_size l)), sp_input_ended = False, sp_ended = False,
      sp_reading = True, sp_running = True, sp_put = [], sp_taken = [], sp_sent = []\<rparr>"

definition stream_close :: "conn_close \<Rightarrow> string \<Rightarrow> stream_port \<Rightarrow> stream_port" where
  "stream_close code reason s = s\<lparr>sp_conn := request_close_stream code reason None (sp_conn s)\<rparr>"

definition stop_stream_reader :: "conn_close \<Rightarrow> string \<Rightarrow> stream_port \<Rightarrow> stream_port" where
  "stop_stream_reader code reason s = (stream_close code reason s)\<lparr>sp_reading := False\<rparr>"

definition read_stream_frame :: "(string \<Rightarrow> bool) \<Rightarrow> limits \<Rightarrow> bool \<Rightarrow> ws_frame \<Rightarrow> stream_port \<Rightarrow> stream_port" where
  \<comment> \<open>one round of \<open>read()\<close>; \<open>has_input\<close>: the stream declares an input\<close>
  "read_stream_frame is_end l has_input f s =
     (if \<not> has_input then stop_stream_reader Cl_protocol_error ''Binary stream is server-to-client'' s
      else if too_big l (ws_frame_size f) then stop_stream_reader Cl_message_too_big [] s
      else (case f of
              Text_frame t \<Rightarrow>
                if sp_input_ended s \<or> \<not> is_end t
                then stop_stream_reader Cl_protocol_error ''Unexpected text frame on a binary stream'' s
                else s\<lparr>sp_input_ended := True, sp_queue := port_put None (sp_queue s)\<rparr>
            | Bytes_frame b \<Rightarrow>
                if sp_input_ended s then stop_stream_reader Cl_protocol_error ''Binary input after end'' s
                else s\<lparr>sp_queue := port_put (Some b) (sp_queue s), sp_put := sp_put s @ [b]\<rparr>))"

definition stream_reader_gone :: "disconnect \<Rightarrow> stream_port \<Rightarrow> stream_port" where
  "stream_reader_gone d s = s\<lparr>sp_conn := disconnected_stream d (sp_conn s), sp_reading := False\<rparr>"

datatype 'a received = Got 'a | Input_ended | Blocked | Gone disconnect

definition receive_input :: "stream_port \<Rightarrow> string received \<times> stream_port" where
  \<comment> \<open>\<open>RpcBinaryInput.receive\<close>\<close>
  "receive_input s =
     (if sp_ended s then (Input_ended, s)
      else (case port_get (sp_queue s) of
              None \<Rightarrow> (Blocked, s)
            | Some (None, q) \<Rightarrow> (Input_ended, s\<lparr>sp_queue := q, sp_ended := True\<rparr>)
            | Some (Some b, q) \<Rightarrow> (Got b, s\<lparr>sp_queue := q, sp_taken := sp_taken s @ [b]\<rparr>)))"

datatype outgoing = Out_text string | Out_bytes string | Out_value pyval

datatype output_result = Sent_ok | Send_type_error string | Send_disconnect disconnect

datatype socket_outcome = Delivered | Peer_gone disconnect | Send_blocked

definition send_output :: "outgoing \<Rightarrow> socket_outcome \<Rightarrow> stream_port \<Rightarrow> output_result \<times> stream_port" where
  \<comment> \<open>\<open>RpcBinaryOutput.send\<close>: a disconnect is raised to the handler\<close>
  "send_output m outcome s =
     (case m of
        Out_bytes b \<Rightarrow>
          if port_closed (sp_conn s) then (Send_disconnect (disconnect_enum Cl_normal ''The binary stream is closed''), s)
          else (case outcome of
                  Peer_gone d \<Rightarrow> (Send_disconnect d, s)
                | _ \<Rightarrow> (Sent_ok, s\<lparr>sp_sent := sp_sent s @ [b]\<rparr>))
      | _ \<Rightarrow> (Send_type_error ''RpcBinaryOutput.send() expects bytes'', s))"

definition yield_frame :: "outgoing \<Rightarrow> socket_outcome \<Rightarrow> stream_port \<Rightarrow> stream_port" where
  \<comment> \<open>one round of \<open>write()\<close>\<close>
  "yield_frame m outcome s =
     (case m of
        Out_bytes b \<Rightarrow>
          (case outcome of
             Peer_gone d \<Rightarrow> s\<lparr>sp_conn := disconnected_stream d (sp_conn s), sp_running := False\<rparr>
           | _ \<Rightarrow> s\<lparr>sp_sent := sp_sent s @ [b]\<rparr>)
      | _ \<Rightarrow> (stream_close Cl_internal_error ''Internal error'' s)\<lparr>sp_running := False\<rparr>)"

text \<open>\<open>close_stream_error\<close>; the error mapper raises (\<open>Inl\<close>) or maps to an error or to nothing.\<close>

definition close_stream_error ::
    "rejections option \<Rightarrow> (failure \<Rightarrow> (failure, rpc_error option) result) option \<Rightarrow> failure \<Rightarrow> stream_port \<Rightarrow> stream_port" where
  "close_stream_error rs mapper f s =
     (case fl_kind f of
        KStreamClose code reason \<Rightarrow> stream_close code reason s
      | _ \<Rightarrow>
        (case safe_rejection f rs of
           Some r \<Rightarrow> stream_close (rejection_close (rj_rejection r)) (rj_reason r) s
         | None \<Rightarrow>
           (case (case fl_kind f of KRpc e \<Rightarrow> Some e
                  | _ \<Rightarrow> (case mapper of None \<Rightarrow> None
                         | Some m \<Rightarrow> (case m f of Inl _ \<Rightarrow> None | Inr r \<Rightarrow> r))) of
              Some e \<Rightarrow> stream_close Cl_policy_violation (rx_code e @ '': '' @ rx_message e) s
            | None \<Rightarrow> stream_close Cl_internal_error ''Internal error'' s)))"

datatype handler_end = Returned | Raised failure | Disconnected disconnect

definition stream_handler_ends ::
    "rejections option \<Rightarrow> (failure \<Rightarrow> (failure, rpc_error option) result) option \<Rightarrow> handler_end \<Rightarrow> stream_port \<Rightarrow> stream_port" where
  \<comment> \<open>the ends of \<open>write()\<close> and \<open>handle()\<close>\<close>
  "stream_handler_ends rs mapper e s =
     (case e of
        Returned \<Rightarrow> stream_close Cl_normal [] s
      | Raised f \<Rightarrow> close_stream_error rs mapper f s
      | Disconnected d \<Rightarrow> s\<lparr>sp_conn := disconnected_stream d (sp_conn s)\<rparr>)\<lparr>sp_running := False\<rparr>"

definition cancel_stream_tasks :: "stream_port \<Rightarrow> stream_port" where
  "cancel_stream_tasks s = s\<lparr>sp_reading := False, sp_running := False\<rparr>"

text \<open>What may happen to an open stream: the environment's arguments are free.\<close>

inductive stream_step ::
    "(string \<Rightarrow> bool) \<Rightarrow> limits \<Rightarrow> bool \<Rightarrow> rejections option \<Rightarrow>
     (failure \<Rightarrow> (failure, rpc_error option) result) option \<Rightarrow> stream_port \<Rightarrow> stream_port \<Rightarrow> bool"
  for is_end l has_input rs mapper where
  frame: "sp_reading s \<Longrightarrow> pt_blocked (sp_queue s) = None \<Longrightarrow>
    stream_step is_end l has_input rs mapper s (read_stream_frame is_end l has_input f s)"
| resume: "sp_reading s \<Longrightarrow>
    stream_step is_end l has_input rs mapper s (s\<lparr>sp_queue := port_settle (sp_queue s)\<rparr>)"
| reader_gone: "sp_reading s \<Longrightarrow> pt_blocked (sp_queue s) = None \<Longrightarrow>
    stream_step is_end l has_input rs mapper s (stream_reader_gone d s)"
| reader_failed: "sp_reading s \<Longrightarrow> pt_blocked (sp_queue s) = None \<Longrightarrow>
    stream_step is_end l has_input rs mapper s ((close_stream_error rs mapper f s)\<lparr>sp_reading := False\<rparr>)"
| receive: "sp_running s \<Longrightarrow> receive_input s = (r, s') \<Longrightarrow> stream_step is_end l has_input rs mapper s s'"
| send: "sp_running s \<Longrightarrow> send_output m outcome s = (r, s') \<Longrightarrow> stream_step is_end l has_input rs mapper s s'"
| yielded: "sp_running s \<Longrightarrow> stream_step is_end l has_input rs mapper s (yield_frame m outcome s)"
| handler_ends: "sp_running s \<Longrightarrow>
    stream_step is_end l has_input rs mapper s (stream_handler_ends rs mapper e s)"
| cancelled: "stream_step is_end l has_input rs mapper s (cancel_stream_tasks s)"
| connection: "ws_step Stream_endpoint sock (sp_conn s) e c \<Longrightarrow>
    stream_step is_end l has_input rs mapper s (s\<lparr>sp_conn := c\<rparr>)"

inductive stream_reaches for is_end l has_input rs mapper where
  start: "stream_reaches is_end l has_input rs mapper (new_stream l c)"
| step: "stream_reaches is_end l has_input rs mapper s \<Longrightarrow> stream_step is_end l has_input rs mapper s s' \<Longrightarrow>
    stream_reaches is_end l has_input rs mapper s'"

section \<open>Sockets (sockets.py)\<close>

subsection \<open>Declared protocols\<close>

record socket_protocol =
  pr_name :: pyval
  pr_version :: pyval
  pr_encoding :: pyval
  pr_schemas :: pyval

definition lower_or_digit :: "char \<Rightarrow> bool" where
  "lower_or_digit c = (is_lower c \<or> is_digit c)"

fun token_rest :: "bool \<Rightarrow> string \<Rightarrow> bool" where
  \<comment> \<open>\<open>[a-z0-9]*(?:[._-][a-z0-9]+)*\<close>; the flag: a separator was just read\<close>
  "token_rest after_separator [] = (\<not> after_separator)"
| "token_rest after_separator (c # cs) =
     (if lower_or_digit c then token_rest False cs
      else c \<in> {CHR ''.'', CHR ''_'', CHR ''-''} \<and> \<not> after_separator \<and> token_rest True cs)"

definition is_token :: "string \<Rightarrow> bool" where
  \<comment> \<open>\<open>_TOKEN.fullmatch\<close>\<close>
  "is_token s = (case s of [] \<Rightarrow> False | c # cs \<Rightarrow> is_lower c \<and> token_rest False cs)"

definition token_value :: "pyval \<Rightarrow> bool" where
  "token_value v = (case v of PStr s \<Rightarrow> is_token s | _ \<Rightarrow> False)"

definition stripped :: "string \<Rightarrow> bool" where
  \<comment> \<open>\<open>s == s.strip()\<close> of a non-empty text\<close>
  "stripped s = (s \<noteq> [] \<and> \<not> is_space (hd s) \<and> \<not> is_space (last s))"

definition uri_value :: "pyval \<Rightarrow> bool" where
  \<comment> \<open>\<open>value.split() == [value]\<close>\<close>
  "uri_value v = (case v of PStr s \<Rightarrow> s \<noteq> [] \<and> list_all (\<lambda>c. \<not> is_space c) s | _ \<Rightarrow> False)"

datatype protocol_error = Protocol_value_error string | Protocol_type_error string

definition iterable_items :: "pyval \<Rightarrow> pyval list option" where
  \<comment> \<open>\<open>tuple(schemas)\<close> of a value that is no text\<close>
  "iterable_items v = (case v of PList xs \<Rightarrow> Some xs | PTuple xs \<Rightarrow> Some xs | PDict d \<Rightarrow> Some (map fst d) | _ \<Rightarrow> None)"

definition protocol_post_init :: "socket_protocol \<Rightarrow> (protocol_error, socket_protocol) result" where
  "protocol_post_init p =
     rbind (ensure (token_value (pr_name p)) (Protocol_value_error ''names are lowercase tokens'')) (\<lambda>_.
     rbind (ensure (case pr_version p of PNone \<Rightarrow> True | PStr s \<Rightarrow> stripped s | _ \<Rightarrow> False)
              (Protocol_value_error ''versions are non-empty strings'')) (\<lambda>_.
     rbind (ensure (token_value (pr_encoding p)) (Protocol_value_error ''encodings are lowercase tokens'')) (\<lambda>_.
     (case iterable_items (pr_schemas p) of
        None \<Rightarrow> Inl (Protocol_type_error ''schemas must be a sequence of strings'')
      | Some vs \<Rightarrow>
          rbind (ensure (list_all uri_value vs) (Protocol_value_error ''schemas must be URI references'')) (\<lambda>_.
          rbind (ensure (distinct vs) (Protocol_value_error ''schemas must be distinct'')) (\<lambda>_.
          Inr (p\<lparr>pr_schemas := PTuple vs\<rparr>)))))))"

subsection \<open>The socket of a handler\<close>

text \<open>\<open>contract_in\<close> and \<open>contract_out\<close> are the message contract (\<open>SocketMessages\<close>): None means a
  validation or serialization error. Without a contract a value is the frame.\<close>

datatype socket_value = Raw ws_frame | Json pyval

record socket_port =
  so_conn :: connection
  so_messages :: "message_type list"
  so_queue :: "socket_value port"
  so_reading :: bool
  so_running :: bool
  so_put :: "socket_value list"
  so_taken :: "socket_value list"
  so_sent :: "ws_frame list"

definition new_socket :: "limits \<Rightarrow> message_type list \<Rightarrow> connection \<Rightarrow> socket_port" where
  "new_socket l types c =
     \<lparr>so_conn = c, so_messages = types, so_queue = new_port (nat (max_queue_size l)), so_reading = True,
      so_running = True, so_put = [], so_taken = [], so_sent = []\<rparr>"

definition socket_close :: "conn_close \<Rightarrow> string \<Rightarrow> socket_port \<Rightarrow> socket_port" where
  "socket_close code reason s = s\<lparr>so_conn := request_close_socket code reason None (so_conn s)\<rparr>"

definition stop_socket_reader :: "conn_close \<Rightarrow> string \<Rightarrow> socket_port \<Rightarrow> socket_port" where
  "stop_socket_reader code reason s = (socket_close code reason s)\<lparr>so_reading := False\<rparr>"

definition put_message :: "(ws_frame \<Rightarrow> pyval option) option \<Rightarrow> ws_frame \<Rightarrow> socket_port \<Rightarrow> socket_port" where
  \<comment> \<open>\<open>RpcSocket._put\<close>; the reader returns when it is False\<close>
  "put_message contract_in f s =
     (case (case contract_in of None \<Rightarrow> Some (Raw f) | Some decode \<Rightarrow> map_option Json (decode f)) of
        None \<Rightarrow> stop_socket_reader Cl_protocol_error ''Invalid incoming socket message'' s
      | Some v \<Rightarrow> s\<lparr>so_queue := port_put v (so_queue s), so_put := so_put s @ [v]\<rparr>)"

definition read_socket_frame :: "(ws_frame \<Rightarrow> pyval option) option \<Rightarrow> limits \<Rightarrow> ws_frame \<Rightarrow> socket_port \<Rightarrow> socket_port" where
  \<comment> \<open>one round of \<open>read()\<close> of \<open>_run_socket\<close>\<close>
  "read_socket_frame contract_in l f s =
     (if too_big l (ws_frame_size f) then stop_socket_reader Cl_message_too_big [] s
      else if frame_type f \<notin> set (so_messages s)
      then stop_socket_reader Cl_protocol_error
             (if frame_type f = Text_message then ''Unsupported text message'' else ''Unsupported binary message'') s
      else put_message contract_in f s)"

definition socket_reader_gone :: "disconnect \<Rightarrow> socket_port \<Rightarrow> socket_port" where
  "socket_reader_gone d s = s\<lparr>so_conn := disconnected_socket d (so_conn s), so_reading := False\<rparr>"

definition receive_message :: "socket_port \<Rightarrow> socket_value received \<times> socket_port" where
  \<comment> \<open>\<open>RpcSocket.receive\<close>\<close>
  "receive_message s =
     (case port_get (so_queue s) of
        None \<Rightarrow>
          if port_closed (so_conn s)
          then (Gone (disconnect_enum (case rc_close_code (so_conn s) of Some c \<Rightarrow> c | None \<Rightarrow> Cl_normal)
                        (rc_close_reason (so_conn s))), s)
          else (Blocked, s)
      | Some (v, q) \<Rightarrow> (Got v, s\<lparr>so_queue := q, so_taken := so_taken s @ [v]\<rparr>))"

definition outgoing_frame :: "(outgoing \<Rightarrow> string option) option \<Rightarrow> outgoing \<Rightarrow> (output_result, ws_frame) result" where
  "outgoing_frame contract_out m =
     (case contract_out of
        Some encode \<Rightarrow>
          (case encode m of
             None \<Rightarrow> Inl (Send_disconnect (disconnect_enum Cl_internal_error ''Invalid outgoing socket message''))
           | Some t \<Rightarrow> Inr (Text_frame t))
      | None \<Rightarrow>
          (case m of Out_text t \<Rightarrow> Inr (Text_frame t) | Out_bytes b \<Rightarrow> Inr (Bytes_frame b)
           | Out_value _ \<Rightarrow> Inl (Send_type_error ''RpcSocket.send() expects str or bytes'')))"

definition socket_send ::
    "(outgoing \<Rightarrow> string option) option \<Rightarrow> outgoing \<Rightarrow> socket_outcome \<Rightarrow> socket_port \<Rightarrow> output_result \<times> socket_port" where
  \<comment> \<open>\<open>RpcSocket.send\<close>, the part under the lock in one step\<close>
  "socket_send contract_out m outcome s =
     (case outgoing_frame contract_out m of
        Inl (Send_disconnect d) \<Rightarrow> (Send_disconnect d, socket_close Cl_internal_error ''Invalid outgoing socket message'' s)
      | Inl r \<Rightarrow> (r, s)
      | Inr f \<Rightarrow>
          if frame_type f \<notin> set (so_messages s) then (Send_type_error ''This socket does not send these messages'', s)
          else if port_closed (so_conn s) then (Send_disconnect (disconnect_enum Cl_normal ''The socket is closed''), s)
          else (case outcome of
                  Delivered \<Rightarrow> (Sent_ok, s\<lparr>so_sent := so_sent s @ [f]\<rparr>)
                | Peer_gone d \<Rightarrow> (Send_disconnect d, s\<lparr>so_conn := disconnected_socket d (so_conn s)\<rparr>)
                | Send_blocked \<Rightarrow> (Send_disconnect (disconnect_enum Cl_policy_violation ''Client too slow''),
                                  socket_close Cl_policy_violation ''Client too slow'' s)))"

fun leaf_exceptions :: "failure \<Rightarrow> failure list" where
  "leaf_exceptions (Failure e k) = (case k of KGroup fs \<Rightarrow> concat (map leaf_exceptions fs) | _ \<Rightarrow> [Failure e k])"

definition is_disconnect :: "failure \<Rightarrow> bool" where
  "is_disconnect f = (case fl_kind f of KDisconnect _ \<Rightarrow> True | _ \<Rightarrow> False)"

text \<open>\<open>closes\<close> are the endpoint's own close bindings: None when there is none for the failure or
  when it raises.\<close>

definition close_failure :: "(failure \<Rightarrow> reject option) \<Rightarrow> rejections option \<Rightarrow> failure \<Rightarrow> socket_port \<Rightarrow> socket_port" where
  "close_failure closes rs f s =
     (case List.find (\<lambda>g. \<not> is_disconnect g) (leaf_exceptions f) of
        None \<Rightarrow> socket_close Cl_normal [] s
      | Some g \<Rightarrow>
          (case (case closes g of Some r \<Rightarrow> Some r | None \<Rightarrow> safe_rejection g rs) of
             Some r \<Rightarrow> socket_close (rejection_close (rj_rejection r)) (rj_reason r) s
           | None \<Rightarrow> socket_close Cl_internal_error ''Internal error'' s))"

definition socket_handler_ends ::
    "(failure \<Rightarrow> reject option) \<Rightarrow> rejections option \<Rightarrow> failure option \<Rightarrow> socket_port \<Rightarrow> socket_port" where
  "socket_handler_ends closes rs e s =
     (case e of None \<Rightarrow> socket_close Cl_normal [] s | Some f \<Rightarrow> close_failure closes rs f s)\<lparr>so_running := False\<rparr>"

definition cancel_socket_tasks :: "socket_port \<Rightarrow> socket_port" where
  "cancel_socket_tasks s = s\<lparr>so_reading := False, so_running := False\<rparr>"

inductive socket_step ::
    "(ws_frame \<Rightarrow> pyval option) option \<Rightarrow> (outgoing \<Rightarrow> string option) option \<Rightarrow> limits \<Rightarrow>
     (failure \<Rightarrow> reject option) \<Rightarrow> rejections option \<Rightarrow> socket_port \<Rightarrow> socket_port \<Rightarrow> bool"
  for cin cout l closes rs where
  frame: "so_reading s \<Longrightarrow> pt_blocked (so_queue s) = None \<Longrightarrow>
    socket_step cin cout l closes rs s (read_socket_frame cin l f s)"
| resume: "so_reading s \<Longrightarrow> socket_step cin cout l closes rs s (s\<lparr>so_queue := port_settle (so_queue s)\<rparr>)"
| reader_gone: "so_reading s \<Longrightarrow> pt_blocked (so_queue s) = None \<Longrightarrow>
    socket_step cin cout l closes rs s (socket_reader_gone d s)"
| reader_failed: "so_reading s \<Longrightarrow> pt_blocked (so_queue s) = None \<Longrightarrow>
    socket_step cin cout l closes rs s (stop_socket_reader Cl_internal_error ''Internal error'' s)"
| receive: "so_running s \<Longrightarrow> receive_message s = (r, s') \<Longrightarrow> socket_step cin cout l closes rs s s'"
| send: "so_running s \<Longrightarrow> socket_send cout m outcome s = (r, s') \<Longrightarrow> socket_step cin cout l closes rs s s'"
| handler_ends: "so_running s \<Longrightarrow> socket_step cin cout l closes rs s (socket_handler_ends closes rs e s)"
| cancelled: "socket_step cin cout l closes rs s (cancel_socket_tasks s)"
| connection: "ws_step Socket_endpoint sock (so_conn s) e c \<Longrightarrow>
    socket_step cin cout l closes rs s (s\<lparr>so_conn := c\<rparr>)"

inductive socket_reaches for cin cout l closes rs where
  start: "socket_reaches cin cout l closes rs (new_socket l types c)"
| step: "socket_reaches cin cout l closes rs s \<Longrightarrow> socket_step cin cout l closes rs s s' \<Longrightarrow>
    socket_reaches cin cout l closes rs s'"

section \<open>Streams deliver their input in order\<close>

definition stream_inv :: "limits \<Rightarrow> stream_port \<Rightarrow> bool" where
  "stream_inv l s \<longleftrightarrow>
     map Some (sp_put s) @ (if sp_input_ended s then [None] else []) =
       map Some (sp_taken s) @ (if sp_ended s then [None] else []) @ port_pending (sp_queue s) \<and>
     port_ok (sp_queue s) \<and> pt_max (sp_queue s) = nat (max_queue_size l)"

lemma stream_close_fields [simp]:
  "sp_queue (stream_close c r s) = sp_queue s" "sp_put (stream_close c r s) = sp_put s"
  "sp_taken (stream_close c r s) = sp_taken s" "sp_ended (stream_close c r s) = sp_ended s"
  "sp_input_ended (stream_close c r s) = sp_input_ended s" "sp_sent (stream_close c r s) = sp_sent s"
  by (simp_all add: stream_close_def)

lemma close_stream_error_fields [simp]:
  "sp_queue (close_stream_error rs m f s) = sp_queue s" "sp_put (close_stream_error rs m f s) = sp_put s"
  "sp_taken (close_stream_error rs m f s) = sp_taken s" "sp_ended (close_stream_error rs m f s) = sp_ended s"
  "sp_input_ended (close_stream_error rs m f s) = sp_input_ended s" "sp_sent (close_stream_error rs m f s) = sp_sent s"
  by (auto simp: close_stream_error_def split: fkind.split option.split)

lemma read_stream_frame_inv:
  "stream_inv l s \<Longrightarrow> pt_blocked (sp_queue s) = None \<Longrightarrow> stream_inv l (read_stream_frame is_end l has_input f s)"
  by (auto simp: stream_inv_def read_stream_frame_def stop_stream_reader_def port_simps
      split: ws_frame.split)

lemma receive_input_inv:
  assumes "stream_inv l s" and "receive_input s = (r, s')"
  shows "stream_inv l s'"
proof (cases "sp_ended s \<or> port_get (sp_queue s) = None")
  case True
  with assms show ?thesis by (auto simp: receive_input_def split: if_splits)
next
  case False
  then obtain x q where q: "port_get (sp_queue s) = Some (x, q)" and e: "\<not> sp_ended s" by auto
  from pending_get [OF q] port_ok_get [OF q] assms e q show ?thesis
    by (auto simp: receive_input_def stream_inv_def split: option.splits if_splits)
qed

lemma stream_step_inv: "stream_step is_end l has_input rs mapper s s' \<Longrightarrow> stream_inv l s \<Longrightarrow> stream_inv l s'"
proof (induction rule: stream_step.induct)
  case (frame s f)
  then show ?case by (simp add: read_stream_frame_inv)
next
  case (receive s r s')
  then show ?case using receive_input_inv by blast
qed (auto simp: stream_inv_def stream_reader_gone_def send_output_def yield_frame_def stream_handler_ends_def
    cancel_stream_tasks_def port_simps split: outgoing.splits if_splits socket_outcome.splits handler_end.splits)

lemma stream_reaches_inv: "stream_reaches is_end l has_input rs mapper s \<Longrightarrow> stream_inv l s"
  by (induction rule: stream_reaches.induct)
    (auto simp: stream_step_inv, simp add: stream_inv_def new_stream_def port_simps, simp add: new_port_def)

lemma some_end: "map Some xs @ [None] = map Some ys @ None # p \<Longrightarrow> xs = ys \<and> p = []"
proof (induction ys arbitrary: xs)
  case Nil
  then show ?case by (cases xs) simp_all
next
  case (Cons y ys)
  from Cons.IH [of "tl xs"] Cons.prems show ?case by (cases xs) simp_all
qed

lemma input_complete: "stream_inv l s \<Longrightarrow> sp_ended s \<Longrightarrow> sp_input_ended s \<and> sp_taken s = sp_put s \<and> port_pending (sp_queue s) = []"
proof -
  assume s: "stream_inv l s" "sp_ended s"
  then have eq: "map Some (sp_put s) @ (if sp_input_ended s then [None] else []) =
      map Some (sp_taken s) @ None # port_pending (sp_queue s)" by (simp add: stream_inv_def)
  have "None \<in> set (map Some (sp_put s) @ (if sp_input_ended s then [None] else []))" unfolding eq by simp
  then have ended: "sp_input_ended s" by (auto split: if_splits)
  have "map Some (sp_put s) @ [None] = map Some (sp_taken s) @ None # port_pending (sp_queue s)"
    using eq ended by simp
  from some_end [OF this] ended show ?thesis by simp
qed

lemma some_lists:
  "map Some xs @ e = map Some ys @ p \<Longrightarrow> e = [] \<or> e = [None] \<Longrightarrow> take (length ys) xs = ys"
proof (induction ys arbitrary: xs)
  case (Cons y ys)
  then show ?case by (cases xs) auto
qed simp

lemma taken_prefix:
  assumes "stream_inv l s"
  shows "take (length (sp_taken s)) (sp_put s) = sp_taken s"
proof (rule some_lists)
  show "map Some (sp_put s) @ (if sp_input_ended s then [None] else []) =
      map Some (sp_taken s) @ (if sp_ended s then [None] else []) @ port_pending (sp_queue s)"
    using assms by (simp add: stream_inv_def)
qed simp


section \<open>Sockets\<close>

definition socket_inv :: "limits \<Rightarrow> socket_port \<Rightarrow> bool" where
  "socket_inv l s \<longleftrightarrow> so_put s = so_taken s @ port_pending (so_queue s) \<and> port_ok (so_queue s) \<and>
     pt_max (so_queue s) = nat (max_queue_size l) \<and>
     list_all (\<lambda>f. frame_type f \<in> set (so_messages s)) (so_sent s) \<and>
     list_all (\<lambda>v. case v of Raw f \<Rightarrow> frame_type f \<in> set (so_messages s) | Json _ \<Rightarrow> True) (so_put s)"

lemma socket_close_fields [simp]:
  "so_queue (socket_close c r s) = so_queue s" "so_put (socket_close c r s) = so_put s"
  "so_taken (socket_close c r s) = so_taken s" "so_sent (socket_close c r s) = so_sent s"
  "so_messages (socket_close c r s) = so_messages s"
  by (simp_all add: socket_close_def)

lemma close_failure_fields [simp]:
  "so_queue (close_failure closes rs f s) = so_queue s" "so_put (close_failure closes rs f s) = so_put s"
  "so_taken (close_failure closes rs f s) = so_taken s" "so_sent (close_failure closes rs f s) = so_sent s"
  "so_messages (close_failure closes rs f s) = so_messages s"
  by (auto simp: close_failure_def split: option.split)

lemma socket_step_inv: "socket_step cin cout l closes rs s s' \<Longrightarrow> socket_inv l s \<Longrightarrow> socket_inv l s'"
proof (induction rule: socket_step.induct)
  case (frame s f)
  then show ?case
    by (auto simp: socket_inv_def read_socket_frame_def put_message_def stop_socket_reader_def port_simps
        split: option.split)
next
  case (receive s r s')
  show ?case
  proof (cases "port_get (so_queue s)")
    case (Some p)
    then obtain v q where q: "port_get (so_queue s) = Some (v, q)" by (cases p) auto
    from pending_get [OF q] port_ok_get [OF q] receive q show ?thesis
      by (auto simp: receive_message_def socket_inv_def split: socket_value.splits)
  qed (use receive in \<open>auto simp: receive_message_def split: if_splits\<close>)
next
  case (send s m outcome r s')
  then show ?case
    by (auto simp: socket_inv_def socket_send_def split: sum.splits output_result.splits if_splits socket_outcome.splits)
qed (auto simp: socket_inv_def socket_reader_gone_def stop_socket_reader_def socket_handler_ends_def
    cancel_socket_tasks_def port_simps split: option.split)

lemma socket_reaches_inv: "socket_reaches cin cout l closes rs s \<Longrightarrow> socket_inv l s"
  by (induction rule: socket_reaches.induct)
    (auto simp: socket_step_inv, simp add: socket_inv_def new_socket_def port_simps, simp add: new_port_def)

text \<open>
  In every reachable state of a socket the handler has received the accepted messages in
  their order, at most the queue limit of them wait, every frame received raw or sent has a type
  the endpoint declares, and nothing is sent once the close is decided.
\<close>

theorem socket_messages_sound:
  assumes "socket_reaches cin cout l closes rs s"
  shows "so_put s = so_taken s @ port_pending (so_queue s) \<and> length (pt_items (so_queue s)) \<le> nat (max_queue_size l) \<and>
    list_all (\<lambda>f. frame_type f \<in> set (so_messages s)) (so_sent s) \<and>
    list_all (\<lambda>v. case v of Raw f \<Rightarrow> frame_type f \<in> set (so_messages s) | Json _ \<Rightarrow> True) (so_put s) \<and>
    (port_closed (so_conn s) \<longrightarrow> (\<forall>s'. socket_step cin cout l closes rs s s' \<longrightarrow> so_sent s' = so_sent s))"
proof -
  have "socket_step cin cout l closes rs s s' \<Longrightarrow> port_closed (so_conn s) \<Longrightarrow> so_sent s' = so_sent s" for s'
    by (erule socket_step.cases)
      (auto simp: read_socket_frame_def put_message_def stop_socket_reader_def socket_reader_gone_def
        receive_message_def socket_send_def socket_handler_ends_def cancel_socket_tasks_def
        split: option.splits if_splits sum.splits output_result.splits socket_outcome.splits prod.splits)
  with socket_reaches_inv [OF assms] show ?thesis unfolding socket_inv_def port_ok_def by metis
qed

section \<open>Sending after the close is decided\<close>

text \<open>
  Claim C38. When the handler of a stream sends after the close of its connection was decided and
  lets the exception pass, the run takes it for a disconnect of the client: whatever close was
  decided, no close frame is sent, neither by the run nor on leaving the accepted connection.
\<close>

theorem send_after_close_loses_frame:
  assumes "rc_phase (sp_conn s) = Running" and "rc_event (sp_conn s)" and "rc_close_code (sp_conn s) = Some code"
  shows "\<exists>d. send_output (Out_bytes b) outcome s = (Send_disconnect d, s) \<and>
    rc_attempts (snd (leave Stream_endpoint sock Run_completed
      (sp_conn (stream_handler_ends rs mapper (Disconnected d) s)))) = rc_attempts (sp_conn s)"
  using assms
  by (auto simp: send_output_def port_closed_def stream_handler_ends_def disconnected_stream_def
      request_close_stream_def leave_def finish_run_def finish_stream_def mark_closed_def accepted_exit_def Let_def)

definition closing_stream :: stream_port where
  "closing_stream = stream_close Cl_policy_violation ''done''
     (new_stream default_limits (set_close_handler Stream_endpoint sample_connection))"

theorem send_after_close_loses_frame_witness:
  "rc_close_code (sp_conn closing_stream) = Some Cl_policy_violation \<and>
   (\<exists>d. rc_attempts (snd (leave Stream_endpoint (\<lambda>_. Close_sent) Run_completed
      (sp_conn (stream_handler_ends None None (Disconnected d) closing_stream)))) = rc_attempts (sp_conn closing_stream))"
proof -
  have "rc_phase (sp_conn closing_stream) = Running" and "rc_event (sp_conn closing_stream)"
    and code: "rc_close_code (sp_conn closing_stream) = Some Cl_policy_violation"
    by code_simp+
  from send_after_close_loses_frame [OF this] code show ?thesis by blast
qed


theorem socket_messages_sound_witness:
  "so_put (read_socket_frame None default_limits (Text_frame ''hi'') (new_socket default_limits [Text_message] sample_connection))
     = [Raw (Text_frame ''hi'')]"
proof -
  let ?s0 = "new_socket default_limits [Text_message] sample_connection"
  let ?s1 = "read_socket_frame None default_limits (Text_frame ''hi'') ?s0"
  have s: "so_reading ?s0" "pt_blocked (so_queue ?s0) = None" by code_simp+
  have "socket_reaches None None default_limits (\<lambda>_. None) None ?s1"
    by (rule socket_reaches.step [OF socket_reaches.start socket_step.frame [OF s]])
  from socket_messages_sound [OF this] have "so_put ?s1 = so_taken ?s1 @ port_pending (so_queue ?s1)" by simp
  moreover have "so_taken ?s1 = []" and "port_pending (so_queue ?s1) = [Raw (Text_frame ''hi'')]" by code_simp+
  ultimately show ?thesis by simp
qed

end
