(* ===== verification/Ws_Drain.thy ===== *)
theory Ws_Drain
  imports Ws_Connection
begin

text \<open>
  The shutdown coordinator of a service's connections
  (\<open>fastapi_canon/integrations/websockets/drain.py\<close>). A session is the task serving one socket,
  identified by a number in order of arrival; \<open>dr_active\<close> is \<open>RpcDrain._sessions\<close>. Sessions
  register, get their connection, offer a graceful end and leave in any order, also while the
  drain runs; their connections change by the steps of \<open>Ws_Connection\<close>.
\<close>

record drain_session =
  ds_connection :: "connection option"
  ds_kind :: endpoint_kind
  ds_begin :: bool
  ds_ready :: bool
  ds_finished :: bool
  ds_begun :: bool
  ds_cancelled :: bool

text \<open>The task of \<open>_drain\<close>: created, waiting for the grace period with its snapshot of the
  sessions, waiting for the work to end, and done (the flag: some work was still pending).\<close>

datatype drain_phase = Idle | Created | Grace "nat list" | Cleanup "nat list" | Drained bool

record drain =
  dr_sessions :: "drain_session list"
  dr_active :: "nat list"
  dr_phase :: drain_phase

definition new_drain :: drain where
  "new_drain = \<lparr>dr_sessions = [], dr_active = [], dr_phase = Idle\<rparr>"

definition draining :: "drain \<Rightarrow> bool" where
  "draining d = (dr_phase d \<noteq> Idle)"

definition connection_count :: "drain \<Rightarrow> nat" where
  "connection_count d = length (dr_active d)"

definition new_session :: "endpoint_kind \<Rightarrow> drain_session" where
  "new_session k = \<lparr>ds_connection = None, ds_kind = k, ds_begin = False, ds_ready = False, ds_finished = False,
     ds_begun = False, ds_cancelled = False\<rparr>"

definition enter_session :: "endpoint_kind \<Rightarrow> drain \<Rightarrow> (rejection \<times> string, nat) result \<times> drain" where
  \<comment> \<open>\<open>RpcDrain._session\<close>: the refusal sent, or the session registered\<close>
  "enter_session k d =
     (if draining d then (Inl (Rej_unavailable, ''Server restarting''), d)
      else (Inr (length (dr_sessions d)),
            d\<lparr>dr_sessions := dr_sessions d @ [new_session k], dr_active := length (dr_sessions d) # dr_active d\<rparr>))"

definition update_session :: "nat \<Rightarrow> (drain_session \<Rightarrow> drain_session) \<Rightarrow> drain \<Rightarrow> drain" where
  "update_session i f d = d\<lparr>dr_sessions := (dr_sessions d)[i := f (dr_sessions d ! i)]\<rparr>"

definition leave_session :: "nat \<Rightarrow> drain \<Rightarrow> drain" where
  \<comment> \<open>the \<open>finally\<close> of \<open>_session\<close>\<close>
  "leave_session i d =
     (update_session i (\<lambda>s. s\<lparr>ds_finished := True, ds_ready := True\<rparr>) d)\<lparr>dr_active := remove1 i (dr_active d)\<rparr>"

definition connect_session :: "connection \<Rightarrow> drain_session \<Rightarrow> drain_session" where
  \<comment> \<open>\<open>_prepare\<close>: streams and sockets have no graceful end of their own\<close>
  "connect_session c s = s\<lparr>ds_connection := Some c, ds_ready := ds_ready s \<or> ds_kind s \<noteq> Rpc_endpoint\<rparr>"

definition offer_graceful :: "drain_session \<Rightarrow> drain_session" where
  \<comment> \<open>\<open>drain_session.begin = graceful\<close> and \<open>ready.set()\<close> of an RPC endpoint\<close>
  "offer_graceful s = s\<lparr>ds_begin := True, ds_ready := True\<rparr>"

definition stop_session :: "drain_session \<Rightarrow> drain_session" where
  \<comment> \<open>\<open>_DrainSession.stop\<close>\<close>
  "stop_session s = s\<lparr>ds_connection := map_option drain_stop (ds_connection s), ds_cancelled := True\<rparr>"

definition timeout_valid :: "pyval \<Rightarrow> (value_error, unit) result" where
  \<comment> \<open>\<open>isfinite\<close> of a huge int overflows; values that are no numbers raise a type error\<close>
  "timeout_valid t =
     (let bad = Inl (Value_error ''Drain timeout must be finite and nonnegative'')
      in case t of
           PInt i \<Rightarrow> if float_range \<le> \<bar>i\<bar> then Inl Overflow_error else if i < 0 then bad else Inr ()
         | PFloat (Fin q) \<Rightarrow> if q < 0 then bad else Inr ()
         | PFloat _ \<Rightarrow> bad
         | PBool _ \<Rightarrow> bad
         | _ \<Rightarrow> Inl (Runtime_error ''must be real number''))"

definition call_drain :: "pyval \<Rightarrow> drain \<Rightarrow> (value_error, unit) result \<times> drain" where
  \<comment> \<open>\<open>RpcDrain.drain\<close> up to awaiting the shared task\<close>
  "call_drain t d =
     (case timeout_valid t of
        Inl e \<Rightarrow> (Inl e, d)
      | Inr _ \<Rightarrow> (Inr (), if dr_phase d = Idle then d\<lparr>dr_phase := Created\<rparr> else d))"

definition begin_drain :: "drain \<Rightarrow> drain" where
  \<comment> \<open>the drain task takes its snapshot and starts \<open>finish\<close> for every session\<close>
  "begin_drain d = d\<lparr>dr_phase := Grace (dr_active d)\<rparr>"

definition begin_graceful :: "drain_session \<Rightarrow> drain_session" where
  \<comment> \<open>\<open>_DrainSession.finish\<close> of a session that is ready: its graceful end, if it offers one\<close>
  "begin_graceful s = (if ds_finished s \<or> \<not> ds_begin s then s else s\<lparr>ds_begun := True\<rparr>)"

definition unfinished :: "drain \<Rightarrow> nat list \<Rightarrow> nat list" where
  "unfinished d is = filter (\<lambda>i. \<not> ds_finished (dr_sessions d ! i)) is"

definition end_grace :: "drain \<Rightarrow> drain" where
  \<comment> \<open>after the grace period, or when every session has finished: the others are stopped\<close>
  "end_grace d =
     (case dr_phase d of
        Grace is \<Rightarrow> (fold (\<lambda>i. update_session i stop_session) (unfinished d is) d)\<lparr>dr_phase := Cleanup is\<rparr>
      | _ \<Rightarrow> d)"

definition end_cleanup :: "drain \<Rightarrow> drain" where
  \<comment> \<open>the deadline, or when every session task has ended; pending tasks are cancelled again\<close>
  "end_cleanup d =
     (case dr_phase d of
        Cleanup is \<Rightarrow>
          (fold (\<lambda>i. update_session i (\<lambda>s. s\<lparr>ds_cancelled := True\<rparr>)) (unfinished d is) d)
            \<lparr>dr_phase := Drained (unfinished d is \<noteq> [])\<rparr>
      | _ \<Rightarrow> d)"

section \<open>Histories\<close>

inductive drain_step :: "drain \<Rightarrow> drain \<Rightarrow> bool" where
  enters: "drain_step d (snd (enter_session k d))"
| leaves: "i \<in> set (dr_active d) \<Longrightarrow> drain_step d (leave_session i d)"
| connects: "i \<in> set (dr_active d) \<Longrightarrow> ds_connection (dr_sessions d ! i) = None \<Longrightarrow> rc_close_code c = None \<Longrightarrow>
    \<not> ds_cancelled (dr_sessions d ! i) \<Longrightarrow> drain_step d (update_session i (connect_session c) d)"
| offers: "i \<in> set (dr_active d) \<Longrightarrow> ds_kind (dr_sessions d ! i) = Rpc_endpoint \<Longrightarrow> drain_step d (update_session i offer_graceful d)"
| moves: "i \<in> set (dr_active d) \<Longrightarrow> ds_connection (dr_sessions d ! i) = Some c \<Longrightarrow>
    ws_step (ds_kind (dr_sessions d ! i)) sock c e c' \<Longrightarrow>
    drain_step d (update_session i (\<lambda>s. s\<lparr>ds_connection := Some c'\<rparr>) d)"
| calls: "drain_step d (snd (call_drain t d))"
| begins: "dr_phase d = Created \<Longrightarrow> drain_step d (begin_drain d)"
| graceful: "dr_phase d = Grace is \<Longrightarrow> i \<in> set is \<Longrightarrow> ds_ready (dr_sessions d ! i) \<Longrightarrow>
    drain_step d (update_session i begin_graceful d)"
| grace_over: "dr_phase d = Grace is \<Longrightarrow> drain_step d (end_grace d)"
| cleaned: "dr_phase d = Cleanup is \<Longrightarrow> drain_step d (end_cleanup d)"

inductive drain_reaches :: "drain \<Rightarrow> bool" where
  start: "drain_reaches new_drain"
| step: "drain_reaches d \<Longrightarrow> drain_step d d' \<Longrightarrow> drain_reaches d'"

section \<open>The drain is one-way and complete\<close>

named_theorems code_kept \<open>a decided close code stays decided\<close>

lemma arm_expiry_code [code_kept]: "rc_close_code (arm_expiry now s) = rc_close_code s"
  by (simp add: arm_expiry_def)

lemma mark_closed_code [code_kept]: "rc_close_code (mark_closed s) = rc_close_code s"
  by (simp add: mark_closed_def)

lemma request_close_code [code_kept]: "rc_close_code s = Some c \<Longrightarrow> \<exists>c'. rc_close_code (request_close k code r raw s) = Some c'"
  by (cases k) (auto simp: request_close_def close_defs)

lemma close_and_mark_code [code_kept]: "rc_close_code (snd (close_and_mark sock v s)) = rc_close_code s"
  by (auto simp: close_and_mark_def attempt_close_def Let_def mark_closed_def split: close_outcome.split)

lemma rpc_final_code [code_kept]: "rc_close_code (snd (rpc_final sock s)) = rc_close_code s"
  by (simp add: rpc_final_def close_and_mark_code mark_closed_code)

lemma finish_run_code: "rc_close_code s = Some c \<Longrightarrow> rc_close_code (snd (finish_run k sock r s)) = Some c"
  by (cases k; cases r)
    (auto simp: finish_run_def finish_rpc_def finish_stream_def finish_socket_def shutdown_value_def Let_def code_kept
      split: prod.splits dest!: arg_cong [where f = snd])

lemma accepted_exit_code: "rc_close_code s = Some c \<Longrightarrow> rc_close_code (snd (accepted_exit sock r s)) = Some c"
  by (cases r) (auto simp: accepted_exit_def default_code_def Let_def code_kept split: prod.splits dest!: arg_cong [where f = snd])

lemma leave_code: "rc_close_code s = Some c \<Longrightarrow> rc_close_code (snd (leave k sock r s)) = Some c"
  using finish_run_code [of s c k sock r] accepted_exit_code [of "snd (finish_run k sock r s)" c sock "fst (finish_run k sock r s)"]
    accepted_exit_code [of s c sock r]
  by (auto simp: leave_def split: prod.splits)

lemma ws_step_keeps_code:
  assumes "ws_step k sock c e c'" and "rc_close_code c \<noteq> None"
  shows "rc_close_code c' \<noteq> None"
  using assms
proof (cases rule: ws_step.cases)
  case (expiry now v)
  with assms show ?thesis by (auto simp: expire_at_def code_kept split: option.splits)
next
  case (gone d)
  have "rc_close_code (client_disconnected k d c) \<noteq> None"
    using assms(2) by (cases k) (auto simp: client_disconnected_def disconnected_rpc_def disconnected_stream_def
        disconnected_socket_def close_defs)
  with gone show ?thesis by simp
next
  case (install)
  with assms request_close_code [of "c\<lparr>rc_on_close := True, rc_phase := Running\<rparr>"] show ?thesis
    by (auto simp: set_close_handler_def Let_def)
next
  case (closes code reason)
  with assms request_close_code [of c] show ?thesis by (auto simp: app_close_def split: if_splits)
next
  case (decides code reason raw)
  with assms request_close_code [of c] show ?thesis by auto
next
  case (leaves r)
  with assms leave_code [of c] show ?thesis by auto
qed (auto simp: expire_def accepted_enter_def drain_stop_def Let_def)

lemma drain_stop_code: "\<exists>y. rc_close_code (drain_stop c) = Some y"
  by (auto simp: drain_stop_def)

definition drained_session_ok :: "drain_session \<Rightarrow> bool" where
  "drained_session_ok s \<longleftrightarrow> (ds_cancelled s \<longrightarrow> (\<forall>c. ds_connection s = Some c \<longrightarrow> rc_close_code c \<noteq> None))"

definition active_ok :: "drain \<Rightarrow> bool" where
  "active_ok d \<longleftrightarrow> distinct (dr_active d) \<and>
     (\<forall>i. i \<in> set (dr_active d) \<longleftrightarrow> i < length (dr_sessions d) \<and> \<not> ds_finished (dr_sessions d ! i))"

definition phase_ok :: "drain \<Rightarrow> bool" where
  "phase_ok d \<longleftrightarrow> (case dr_phase d of
        Grace is \<Rightarrow> set (dr_active d) \<subseteq> set is
      | Cleanup is \<Rightarrow> set (dr_active d) \<subseteq> set is \<and> (\<forall>i\<in>set (dr_active d). ds_cancelled (dr_sessions d ! i))
      | Drained pending \<Rightarrow> (\<not> pending \<longrightarrow> dr_active d = []) \<and> (\<forall>i\<in>set (dr_active d). ds_cancelled (dr_sessions d ! i))
      | _ \<Rightarrow> True)"

definition drain_inv :: "drain \<Rightarrow> bool" where
  "drain_inv d \<longleftrightarrow> active_ok d \<and> phase_ok d \<and> list_all drained_session_ok (dr_sessions d)"

lemma update_session_fields [simp]:
  "dr_active (update_session i f d) = dr_active d" "dr_phase (update_session i f d) = dr_phase d"
  "length (dr_sessions (update_session i f d)) = length (dr_sessions d)"
  by (simp_all add: update_session_def)

lemma update_session_nth: "i < length (dr_sessions d) \<Longrightarrow>
    dr_sessions (update_session i f d) ! j = (if j = i then f (dr_sessions d ! i) else dr_sessions d ! j)"
  by (simp add: update_session_def nth_list_update)

text \<open>An update of a session that keeps it unfinished, cancelled and sound keeps the invariant.\<close>

lemma update_session_inv:
  assumes "drain_inv d" and "i < length (dr_sessions d)"
    and "ds_finished (f (dr_sessions d ! i)) = ds_finished (dr_sessions d ! i)"
    and "ds_cancelled (dr_sessions d ! i) \<Longrightarrow> ds_cancelled (f (dr_sessions d ! i))"
    and "drained_session_ok (f (dr_sessions d ! i))"
  shows "drain_inv (update_session i f d)"
proof -
  have "active_ok (update_session i f d)"
    using assms(1,2,3) by (auto simp: drain_inv_def active_ok_def update_session_nth)
  moreover have "phase_ok (update_session i f d)"
    using assms(1,2,4) by (auto simp: drain_inv_def phase_ok_def update_session_nth split: drain_phase.splits)
  moreover have "list_all drained_session_ok (dr_sessions (update_session i f d))"
    using assms(1,2,5) by (auto simp: drain_inv_def list_all_length update_session_nth)
  ultimately show ?thesis by (simp add: drain_inv_def)
qed

lemma active_bound: "drain_inv d \<Longrightarrow> i \<in> set (dr_active d) \<Longrightarrow> i < length (dr_sessions d)"
  by (simp add: drain_inv_def active_ok_def)

lemma nth_drained_ok: "drain_inv d \<Longrightarrow> i < length (dr_sessions d) \<Longrightarrow> drained_session_ok (dr_sessions d ! i)"
  by (simp add: drain_inv_def list_all_length)

lemma stop_all:
  assumes "drain_inv d" and "\<forall>i\<in>set is. i < length (dr_sessions d)"
    and "f = stop_session \<or> f = (\<lambda>s. s\<lparr>ds_cancelled := True\<rparr>) \<and> (\<forall>i\<in>set is. ds_cancelled (dr_sessions d ! i))"
  shows "drain_inv (fold (\<lambda>i. update_session i f) is d) \<and> dr_active (fold (\<lambda>i. update_session i f) is d) = dr_active d \<and>
    dr_phase (fold (\<lambda>i. update_session i f) is d) = dr_phase d \<and>
    length (dr_sessions (fold (\<lambda>i. update_session i f) is d)) = length (dr_sessions d) \<and>
    (\<forall>j<length (dr_sessions d). (ds_cancelled (dr_sessions d ! j) \<or> j \<in> set is \<longrightarrow>
        ds_cancelled (dr_sessions (fold (\<lambda>i. update_session i f) is d) ! j)) \<and>
      ds_finished (dr_sessions (fold (\<lambda>i. update_session i f) is d) ! j) = ds_finished (dr_sessions d ! j))"
  using assms
proof (induction "is" arbitrary: d)
  case (Cons i "is")
  let ?d = "update_session i f d"
  have i: "i < length (dr_sessions d)" using Cons.prems by simp
  have f: "ds_finished (f s) = ds_finished s" "ds_cancelled (f s)" for s
    using Cons.prems(3) by (auto simp: stop_session_def)
  have "drained_session_ok (f (dr_sessions d ! i))"
    using Cons.prems(3) nth_drained_ok [OF Cons.prems(1) i] drain_stop_code
    by (auto simp: stop_session_def drained_session_ok_def)
  then have inv: "drain_inv ?d" using Cons.prems(1) i f by (intro update_session_inv) auto
  have "\<forall>j\<in>set is. j < length (dr_sessions ?d)" using Cons.prems(2) by simp
  moreover have "f = stop_session \<or> f = (\<lambda>s. s\<lparr>ds_cancelled := True\<rparr>) \<and> (\<forall>j\<in>set is. ds_cancelled (dr_sessions ?d ! j))"
    using Cons.prems(3) f(2) i by (auto simp: update_session_nth)
  ultimately show ?case using Cons.IH [OF inv] i f by (simp add: update_session_nth)
qed simp

lemma leave_session_inv:
  assumes "drain_inv d" and "i \<in> set (dr_active d)"
  shows "drain_inv (leave_session i d)"
proof -
  have i: "i < length (dr_sessions d)" using active_bound assms by blast
  have "active_ok (leave_session i d)"
    using assms i by (auto simp: drain_inv_def active_ok_def leave_session_def update_session_nth)
  moreover have "phase_ok (leave_session i d)"
    using assms i set_remove1_subset [of i "dr_active d"]
    by (auto simp: drain_inv_def phase_ok_def leave_session_def update_session_nth active_ok_def split: drain_phase.splits)
  moreover have "list_all drained_session_ok (dr_sessions (leave_session i d))"
    using assms i by (auto simp: drain_inv_def list_all_length leave_session_def update_session_nth drained_session_ok_def)
  ultimately show ?thesis by (simp add: drain_inv_def)
qed

lemma enter_session_inv:
  assumes "drain_inv d"
  shows "drain_inv (snd (enter_session k d))"
proof (cases "draining d")
  case False
  let ?n = "length (dr_sessions d)"
  let ?d = "d\<lparr>dr_sessions := dr_sessions d @ [new_session k], dr_active := ?n # dr_active d\<rparr>"
  have d: "snd (enter_session k d) = ?d" and idle: "dr_phase d = Idle"
    using False by (simp_all add: enter_session_def draining_def)
  have active: "i \<in> set (dr_active d) \<longleftrightarrow> i < ?n \<and> \<not> ds_finished (dr_sessions d ! i)" for i
    using assms by (simp add: drain_inv_def active_ok_def)
  have "i \<in> set (dr_active ?d) \<longleftrightarrow> i < length (dr_sessions ?d) \<and> \<not> ds_finished (dr_sessions ?d ! i)" for i
    using active [of i] by (cases "i < ?n"; cases "i = ?n") (simp_all add: nth_append new_session_def)
  moreover have "distinct (dr_active ?d)" using assms active [of ?n] by (simp add: drain_inv_def active_ok_def)
  moreover have "list_all drained_session_ok (dr_sessions ?d)"
    using assms by (simp add: drain_inv_def drained_session_ok_def new_session_def)
  moreover have "phase_ok ?d" using idle by (simp add: phase_ok_def)
  ultimately show ?thesis unfolding d drain_inv_def active_ok_def by blast
qed (use assms in \<open>simp add: enter_session_def\<close>)

lemma set_unfinished: "i \<in> set (unfinished d is) \<longleftrightarrow> i \<in> set is \<and> \<not> ds_finished (dr_sessions d ! i)"
  by (simp add: unfinished_def)

definition snapshot_ok :: "drain \<Rightarrow> bool" where
  "snapshot_ok d \<longleftrightarrow> (case dr_phase d of
     Grace is \<Rightarrow> \<forall>i\<in>set is. i < length (dr_sessions d)
   | Cleanup is \<Rightarrow> \<forall>i\<in>set is. i < length (dr_sessions d)
   | _ \<Rightarrow> True)"

lemma end_grace_inv:
  assumes "drain_inv d" and "snapshot_ok d" and "dr_phase d = Grace is"
  shows "drain_inv (end_grace d)"
proof -
  let ?u = "unfinished d is" and ?e = "fold (\<lambda>i. update_session i stop_session) (unfinished d is) d"
  have bound: "\<forall>i\<in>set ?u. i < length (dr_sessions d)" using assms(2,3) by (simp add: snapshot_ok_def set_unfinished)
  note all = stop_all [OF assms(1) bound, of stop_session, simplified]
  have "\<forall>i\<in>set (dr_active d). ds_cancelled (dr_sessions ?e ! i)"
  proof
    fix i assume i: "i \<in> set (dr_active d)"
    with assms(1,3) have "i \<in> set is" "i < length (dr_sessions d)" "\<not> ds_finished (dr_sessions d ! i)"
      by (auto simp: drain_inv_def active_ok_def phase_ok_def)
    then show "ds_cancelled (dr_sessions ?e ! i)" using all by (simp add: set_unfinished)
  qed
  moreover have "set (dr_active d) \<subseteq> set is" using assms(1,3) by (auto simp: drain_inv_def phase_ok_def)
  ultimately show ?thesis using all assms(3)
    by (auto simp: end_grace_def drain_inv_def active_ok_def phase_ok_def)
qed

lemma end_cleanup_inv:
  assumes "drain_inv d" and "snapshot_ok d" and "dr_phase d = Cleanup is"
  shows "drain_inv (end_cleanup d)"
proof -
  let ?f = "\<lambda>s. s\<lparr>ds_cancelled := True\<rparr>"
  let ?u = "unfinished d is" and ?e = "fold (\<lambda>i. update_session i ?f) (unfinished d is) d"
  have bound: "\<forall>i\<in>set ?u. i < length (dr_sessions d)" using assms(2,3) by (simp add: snapshot_ok_def set_unfinished)
  have "\<forall>i\<in>set ?u. ds_cancelled (dr_sessions d ! i)"
    using assms(1,3) bound by (auto simp: drain_inv_def phase_ok_def active_ok_def set_unfinished)
  note all = stop_all [OF assms(1) bound, of ?f, simplified, OF disjI2, OF this]
  have "?u = [] \<Longrightarrow> dr_active d = []"
    using assms(1,3) by (auto simp: drain_inv_def active_ok_def phase_ok_def unfinished_def filter_empty_conv)
      (metis list.set_intros(1) neq_Nil_conv subsetD)
  moreover have "\<forall>i\<in>set (dr_active d). ds_cancelled (dr_sessions ?e ! i)"
    using assms(1,3) all active_bound [OF assms(1)] by (auto simp: drain_inv_def phase_ok_def)
  ultimately show ?thesis using all assms(3)
    by (auto simp: end_cleanup_def drain_inv_def active_ok_def phase_ok_def)
qed

lemma snapshot_ok_update: "snapshot_ok (update_session i f d) = snapshot_ok d"
  by (simp add: snapshot_ok_def split: drain_phase.split)

lemma fold_update_fields [simp]:
  "dr_phase (fold (\<lambda>i. update_session i f) is d) = dr_phase d"
  "dr_active (fold (\<lambda>i. update_session i f) is d) = dr_active d"
  "length (dr_sessions (fold (\<lambda>i. update_session i f) is d)) = length (dr_sessions d)"
  by (induction "is" arbitrary: d) simp_all

lemma drain_step_inv:
  assumes "drain_step d d'" and "drain_inv d" and "snapshot_ok d"
  shows "drain_inv d' \<and> snapshot_ok d'"
  using assms(1)
proof cases
  case (enters k)
  with assms enter_session_inv show ?thesis
    by (auto simp: enter_session_def snapshot_ok_def draining_def split: drain_phase.splits)
next
  case (leaves i)
  with assms leave_session_inv show ?thesis
    by (auto simp: leave_session_def snapshot_ok_def split: drain_phase.splits)
next
  case (connects i c)
  then have i: "i < length (dr_sessions d)" using assms(2) active_bound by blast
  have "drain_inv (update_session i (connect_session c) d)"
    by (rule update_session_inv [OF assms(2) i]) (use connects in \<open>simp_all add: connect_session_def drained_session_ok_def\<close>)
  with connects assms(3) show ?thesis by (simp add: snapshot_ok_update)
next
  case (offers i)
  then have i: "i < length (dr_sessions d)" using assms(2) active_bound by blast
  have "drain_inv (update_session i offer_graceful d)"
    by (rule update_session_inv [OF assms(2) i])
      (use nth_drained_ok [OF assms(2) i] in \<open>simp_all add: offer_graceful_def drained_session_ok_def\<close>)
  with offers assms(3) show ?thesis by (simp add: snapshot_ok_update)
next
  case (moves i c sock e c')
  then have i: "i < length (dr_sessions d)" using assms(2) active_bound by blast
  have code: "ds_cancelled (dr_sessions d ! i) \<Longrightarrow> \<exists>y. rc_close_code c' = Some y"
    using nth_drained_ok [OF assms(2) i] moves ws_step_keeps_code [OF moves(4)] by (simp add: drained_session_ok_def)
  have "drain_inv (update_session i (\<lambda>s. s\<lparr>ds_connection := Some c'\<rparr>) d)"
    by (rule update_session_inv [OF assms(2) i]) (use code in \<open>simp_all add: drained_session_ok_def\<close>)
  with moves assms(3) show ?thesis by (simp add: snapshot_ok_update)
next
  case (calls t)
  have "d' = d \<or> dr_phase d = Idle \<and> d' = d\<lparr>dr_phase := Created\<rparr>"
    unfolding calls by (simp add: call_drain_def split: sum.split)
  then show ?thesis
  proof
    assume "dr_phase d = Idle \<and> d' = d\<lparr>dr_phase := Created\<rparr>"
    with assms(2) show ?thesis by (simp add: drain_inv_def active_ok_def phase_ok_def snapshot_ok_def)
  qed (use assms in simp)
next
  case begins
  with assms(2) show ?thesis
    by (simp add: begin_drain_def drain_inv_def active_ok_def phase_ok_def snapshot_ok_def)
next
  case (graceful "is" i)
  then have i: "i < length (dr_sessions d)" using assms(3) by (simp add: snapshot_ok_def)
  have "drain_inv (update_session i begin_graceful d)"
    by (rule update_session_inv [OF assms(2) i])
      (use nth_drained_ok [OF assms(2) i] in \<open>simp_all add: begin_graceful_def drained_session_ok_def\<close>)
  with graceful assms(3) show ?thesis by (simp add: snapshot_ok_update)
next
  case (grace_over "is")
  with assms end_grace_inv show ?thesis by (simp add: snapshot_ok_def end_grace_def)
next
  case (cleaned "is")
  with assms end_cleanup_inv show ?thesis by (simp add: snapshot_ok_def end_cleanup_def)
qed

lemma drain_reaches_inv: "drain_reaches d \<Longrightarrow> drain_inv d \<and> snapshot_ok d"
proof (induction rule: drain_reaches.induct)
  case start
  show ?case by (simp add: new_drain_def drain_inv_def active_ok_def phase_ok_def snapshot_ok_def)
qed (use drain_step_inv in blast)

lemma active_exact: "drain_inv d \<Longrightarrow> connection_count d = card {i. i < length (dr_sessions d) \<and> \<not> ds_finished (dr_sessions d ! i)}"
proof -
  assume "drain_inv d"
  then have "set (dr_active d) = {i. i < length (dr_sessions d) \<and> \<not> ds_finished (dr_sessions d ! i)}" and "distinct (dr_active d)"
    by (auto simp: drain_inv_def active_ok_def)
  then show ?thesis unfolding connection_count_def by (metis distinct_card)
qed



end
