(* ===== verification/Ws_Subscriptions.thy ===== *)
theory Ws_Subscriptions
  imports Ws_Errors
begin

text \<open>
  Server streams over an RPC connection
  (\<open>fastapi_canon/integrations/websockets/subscriptions.py\<close>): opening, cancelling and running the
  subscriptions of one connection. Code between two awaits is one operation: an open awaits its
  response (\<open>sb_opening\<close>) before its task is created, a cancel awaits the task it cancelled
  (\<open>sb_cancelling\<close>). A message handed to the connection is \<open>sent\<close>, or dropped when the outgoing
  queue stays full until its timeout, which closes the connection. Parameter validation
  (pydantic) and the failure mapping are parameters.
\<close>

section \<open>State\<close>

datatype sub_message =
    Opened pyval string
  | Cancel_done pyval
  | Refusal pyval rpc_error
  | Payload string string pyval
  | Completed string string
  | Failed_stream string string rpc_error

text \<open>The task of a stream: \<open>rn_announced\<close> records whether the open response was sent.\<close>

record sub_run =
  rn_name :: string
  rn_done :: bool
  rn_cancelled :: bool
  rn_announced :: bool

datatype sub_params = Positional | Named "(string \<times> pyval) list"

record sub_request =
  rq_id :: pyval
  rq_expects :: bool
  rq_method :: string
  rq_params :: sub_params

record subscriptions =
  sb_definitions :: "string list"
  sb_limit :: nat
  sb_next_id :: nat
  sb_tasks :: "(string \<times> string) list"
  sb_pending :: nat
  sb_opening :: "(pyval \<times> string \<times> string) list"
  sb_cancelling :: "(pyval \<times> string) list"
  sb_runs :: "(string \<times> sub_run) list"
  sb_sent :: "sub_message list"

definition new_subscriptions :: "string list \<Rightarrow> nat \<Rightarrow> subscriptions" where
  "new_subscriptions names limit =
     \<lparr>sb_definitions = names, sb_limit = limit, sb_next_id = 1, sb_tasks = [], sb_pending = 0, sb_opening = [],
      sb_cancelling = [], sb_runs = [], sb_sent = []\<rparr>"

definition owns :: "subscriptions \<Rightarrow> string \<Rightarrow> bool" where
  "owns s name = (\<exists>n\<in>set (sb_definitions s). name = n @ ''.open'' \<or> name = n @ ''.cancel'')"

definition deliver :: "bool \<Rightarrow> sub_message \<Rightarrow> subscriptions \<Rightarrow> subscriptions" where
  "deliver sent m s = (if sent then s\<lparr>sb_sent := sb_sent s @ [m]\<rparr> else s)"

section \<open>Requests\<close>

definition stream_params_error :: "string \<Rightarrow> rpc_error" where
  "stream_params_error message = instance_error (builtin_class ''RpcInvalidParamsError'' ''invalid_params'' (-32602)) None message"

definition stream_limit_error :: rpc_error where
  "stream_limit_error = instance_error
     (builtin_class ''RpcStreamLimitError'' ''stream_limit'' (-32000) \<lparr>rk_builtin := False\<rparr>) None ''Too many message streams''"

definition open_request ::
    "(string \<Rightarrow> (string \<times> pyval) list \<Rightarrow> (rpc_error, unit) result) \<Rightarrow> pyval \<Rightarrow> string \<Rightarrow> (string \<times> pyval) list \<Rightarrow> bool \<Rightarrow>
     subscriptions \<Rightarrow> subscriptions" where
  "open_request validate rid name raw sent s =
     (case (if sb_limit s \<le> length (sb_tasks s) + sb_pending s then Inl stream_limit_error else validate name raw) of
        Inl e \<Rightarrow> deliver sent (Refusal rid e) s
      | Inr _ \<Rightarrow>
          s\<lparr>sb_next_id := Suc (sb_next_id s), sb_pending := Suc (sb_pending s),
            sb_opening := sb_opening s @ [(rid, name, str_of_nat (sb_next_id s))]\<rparr>)"

definition update_run :: "string \<Rightarrow> (sub_run \<Rightarrow> sub_run) \<Rightarrow> subscriptions \<Rightarrow> subscriptions" where
  "update_run i f s = s\<lparr>sb_runs := map (\<lambda>(j, r). (j, if j = i then f r else r)) (sb_runs s)\<rparr>"

definition cancel_subscription :: "pyval \<Rightarrow> string \<Rightarrow> (string \<times> pyval) list \<Rightarrow> bool \<Rightarrow> subscriptions \<Rightarrow> subscriptions" where
  "cancel_subscription rid name raw sent s =
     (case dict_get raw ''streamId'' of
        Some (PStr i) \<Rightarrow>
          (case dict_get (sb_tasks s) i of
             None \<Rightarrow> deliver sent (Cancel_done rid) s
           | Some owner \<Rightarrow>
               if owner \<noteq> name then deliver sent (Refusal rid (stream_params_error ''Unknown streamId'')) s
               else (update_run i (\<lambda>r. r\<lparr>rn_cancelled := True\<rparr>) s)\<lparr>sb_cancelling := sb_cancelling s @ [(rid, i)]\<rparr>)
      | _ \<Rightarrow> deliver sent (Refusal rid (stream_params_error ''Unknown streamId'')) s)"

definition subscription_request ::
    "(string \<Rightarrow> (string \<times> pyval) list \<Rightarrow> (rpc_error, unit) result) \<Rightarrow> sub_request \<Rightarrow> bool \<Rightarrow> subscriptions \<Rightarrow> subscriptions" where
  \<comment> \<open>\<open>_handle\<close> up to its first await; only methods the session owns arrive here\<close>
  "subscription_request validate rq sent s =
     (if \<not> rq_expects rq then s
      else (case rq_params rq of
              Positional \<Rightarrow> deliver sent (Refusal (rq_id rq) (stream_params_error ''Streams require named params'')) s
            | Named raw \<Rightarrow>
                if ends_with ''.open'' (rq_method rq)
                then open_request validate (rq_id rq) (drop_suffix 5 (rq_method rq)) raw sent s
                else cancel_subscription (rq_id rq) (drop_suffix 7 (rq_method rq)) raw sent s))"

definition open_responded :: "pyval \<times> string \<times> string \<Rightarrow> bool \<Rightarrow> subscriptions \<Rightarrow> subscriptions" where
  \<comment> \<open>the response was handed over: the task is created and registered\<close>
  "open_responded entry sent s =
     (case entry of (rid, name, i) \<Rightarrow>
        (deliver sent (Opened rid i) s)
          \<lparr>sb_pending := sb_pending s - 1, sb_opening := remove1 entry (sb_opening s),
           sb_tasks := dict_set i name (sb_tasks s),
           sb_runs := dict_set i \<lparr>rn_name = name, rn_done = False, rn_cancelled = False, rn_announced = sent\<rparr> (sb_runs s)\<rparr>)"

definition open_aborted :: "pyval \<times> string \<times> string \<Rightarrow> subscriptions \<Rightarrow> subscriptions" where
  \<comment> \<open>the request was cancelled or timed out while it awaited its response\<close>
  "open_aborted entry s = s\<lparr>sb_pending := sb_pending s - 1, sb_opening := remove1 entry (sb_opening s)\<rparr>"

definition cancel_responded :: "pyval \<times> string \<Rightarrow> bool \<Rightarrow> subscriptions \<Rightarrow> subscriptions" where
  "cancel_responded entry sent s =
     (deliver sent (Cancel_done (fst entry)) s)\<lparr>sb_cancelling := remove1 entry (sb_cancelling s)\<rparr>"

definition cancel_aborted :: "pyval \<times> string \<Rightarrow> subscriptions \<Rightarrow> subscriptions" where
  "cancel_aborted entry s = s\<lparr>sb_cancelling := remove1 entry (sb_cancelling s)\<rparr>"

section \<open>Streams\<close>

definition send_payload :: "string \<Rightarrow> sub_run \<Rightarrow> pyval \<Rightarrow> bool \<Rightarrow> subscriptions \<Rightarrow> subscriptions" where
  "send_payload i r v sent s = deliver sent (Payload (rn_name r) i v) s"

definition terminal :: "string \<Rightarrow> sub_run \<Rightarrow> rpc_error option \<Rightarrow> sub_message" where
  "terminal i r e = (case e of None \<Rightarrow> Completed (rn_name r) i | Some x \<Rightarrow> Failed_stream (rn_name r) i x)"

definition end_stream :: "string \<Rightarrow> sub_run \<Rightarrow> rpc_error option \<Rightarrow> bool \<Rightarrow> subscriptions \<Rightarrow> subscriptions" where
  \<comment> \<open>the generator is exhausted, or it failed with a mapped error: the terminal notification, and the task ends\<close>
  "end_stream i r e sent s = update_run i (\<lambda>r. r\<lparr>rn_done := True\<rparr>) (deliver sent (terminal i r e) s)"

definition stop_stream :: "string \<Rightarrow> subscriptions \<Rightarrow> subscriptions" where
  \<comment> \<open>a cancelled task ends without a terminal notification\<close>
  "stop_stream i s = update_run i (\<lambda>r. r\<lparr>rn_done := True\<rparr>) s"

definition reap_stream :: "string \<Rightarrow> subscriptions \<Rightarrow> subscriptions" where
  \<comment> \<open>the task's done callback\<close>
  "reap_stream i s = s\<lparr>sb_tasks := dict_pop i (sb_tasks s)\<rparr>"

definition close_subscriptions :: "subscriptions \<Rightarrow> subscriptions" where
  "close_subscriptions s =
     (fold (\<lambda>i. update_run i (\<lambda>r. r\<lparr>rn_cancelled := True\<rparr>)) (map fst (sb_tasks s)) s)\<lparr>sb_tasks := []\<rparr>"

inductive sub_step ::
    "(string \<Rightarrow> (string \<times> pyval) list \<Rightarrow> (rpc_error, unit) result) \<Rightarrow> subscriptions \<Rightarrow> subscriptions \<Rightarrow> bool"
  for validate where
  request: "owns s (rq_method rq) \<Longrightarrow> sub_step validate s (subscription_request validate rq sent s)"
| opened: "entry \<in> set (sb_opening s) \<Longrightarrow> sub_step validate s (open_responded entry sent s)"
| open_aborts: "entry \<in> set (sb_opening s) \<Longrightarrow> sub_step validate s (open_aborted entry s)"
| payload: "dict_get (sb_runs s) i = Some r \<Longrightarrow> \<not> rn_done r \<Longrightarrow> sub_step validate s (send_payload i r v sent s)"
| ends: "dict_get (sb_runs s) i = Some r \<Longrightarrow> \<not> rn_done r \<Longrightarrow> sub_step validate s (end_stream i r e sent s)"
| stops: "dict_get (sb_runs s) i = Some r \<Longrightarrow> \<not> rn_done r \<Longrightarrow> rn_cancelled r \<Longrightarrow> sub_step validate s (stop_stream i s)"
| reaped: "dict_get (sb_runs s) i = Some r \<Longrightarrow> rn_done r \<Longrightarrow> sub_step validate s (reap_stream i s)"
| cancelled: "entry \<in> set (sb_cancelling s) \<Longrightarrow> dict_get (sb_runs s) (snd entry) = Some r \<Longrightarrow> rn_done r \<Longrightarrow>
    sub_step validate s (cancel_responded entry sent s)"
| cancel_aborts: "entry \<in> set (sb_cancelling s) \<Longrightarrow> sub_step validate s (cancel_aborted entry s)"
| closes: "sub_step validate s (close_subscriptions s)"

inductive sub_reaches :: "(string \<Rightarrow> (string \<times> pyval) list \<Rightarrow> (rpc_error, unit) result) \<Rightarrow> nat \<Rightarrow> subscriptions \<Rightarrow> bool"
  for validate limit where
  start: "sub_reaches validate limit (new_subscriptions names limit)"
| step: "sub_reaches validate limit s \<Longrightarrow> sub_step validate s s' \<Longrightarrow> sub_reaches validate limit s'"

section \<open>What a client sees of a stream\<close>

text \<open>The messages about one stream, read as an automaton: the open response, payloads, and at
  most one terminal notification.\<close>

datatype trace = Fresh | Live | Over | Broken

fun advance :: "string \<Rightarrow> trace \<Rightarrow> sub_message \<Rightarrow> trace" where
  "advance i t (Opened rid j) = (if j = i then (if t = Fresh then Live else Broken) else t)"
| "advance i t (Payload n j v) = (if j = i then (if t = Live then Live else Broken) else t)"
| "advance i t (Completed n j) = (if j = i then (if t = Live then Over else Broken) else t)"
| "advance i t (Failed_stream n j e) = (if j = i then (if t = Live then Over else Broken) else t)"
| "advance i t m = t"

definition trace_of :: "string \<Rightarrow> sub_message list \<Rightarrow> trace" where
  "trace_of i ms = foldl (advance i) Fresh ms"

fun about :: "string \<Rightarrow> sub_message \<Rightarrow> bool" where
  "about i (Opened rid j) = (j = i)"
| "about i (Payload n j v) = (j = i)"
| "about i (Completed n j) = (j = i)"
| "about i (Failed_stream n j e) = (j = i)"
| "about i m = False"

lemma advance_other: "\<not> about i m \<Longrightarrow> advance i t m = t"
  by (cases m) auto

lemma trace_of_snoc [simp]: "trace_of i (ms @ [m]) = advance i (trace_of i ms) m"
  by (simp add: trace_of_def)

lemma deliver_fields [simp]:
  "sb_tasks (deliver b m s) = sb_tasks s" "sb_pending (deliver b m s) = sb_pending s" "sb_opening (deliver b m s) = sb_opening s"
  "sb_runs (deliver b m s) = sb_runs s" "sb_limit (deliver b m s) = sb_limit s" "sb_next_id (deliver b m s) = sb_next_id s"
  "sb_cancelling (deliver b m s) = sb_cancelling s"
  by (simp_all add: deliver_def)

lemma deliver_sent: "sb_sent (deliver b m s) = sb_sent s @ (if b then [m] else [])"
  by (simp add: deliver_def)

lemma update_run_fields [simp]:
  "sb_tasks (update_run i f s) = sb_tasks s" "sb_pending (update_run i f s) = sb_pending s"
  "sb_opening (update_run i f s) = sb_opening s" "sb_sent (update_run i f s) = sb_sent s"
  "sb_limit (update_run i f s) = sb_limit s" "sb_next_id (update_run i f s) = sb_next_id s"
  "map fst (sb_runs (update_run i f s)) = map fst (sb_runs s)"
  by (simp_all add: update_run_def comp_def split_def)

lemma update_run_get: "dict_get (sb_runs (update_run i f s)) j = map_option (if j = i then f else id) (dict_get (sb_runs s) j)"
proof -
  have "dict_get (map (\<lambda>(j, r). (j, if j = i then f r else r)) d) j = map_option (if j = i then f else id) (dict_get d j)" for d
    by (induction d) auto
  then show ?thesis by (simp add: update_run_def)
qed

definition run_ok :: "sub_message list \<Rightarrow> string \<Rightarrow> sub_run option \<Rightarrow> bool" where
  "run_ok sent i r = (case r of
       None \<Rightarrow> trace_of i sent = Fresh
     | Some r \<Rightarrow> rn_announced r \<longrightarrow> trace_of i sent = Live \<or> rn_done r \<and> trace_of i sent = Over)"

definition ids :: "subscriptions \<Rightarrow> string list" where
  "ids s = map (\<lambda>e. snd (snd e)) (sb_opening s) @ map fst (sb_runs s)"

definition sub_inv :: "subscriptions \<Rightarrow> bool" where
  "sub_inv s \<longleftrightarrow> sb_pending s = length (sb_opening s) \<and> length (sb_tasks s) + sb_pending s \<le> sb_limit s \<and>
     distinct (ids s) \<and> (\<forall>i\<in>set (ids s). \<exists>n<sb_next_id s. i = str_of_nat n) \<and>
     wf_dict (sb_tasks s) \<and> fst ` set (sb_tasks s) \<subseteq> fst ` set (sb_runs s) \<and>
     (\<forall>i. run_ok (sb_sent s) i (dict_get (sb_runs s) i))"

text \<open>A message about no stream changes nothing for the invariant.\<close>

lemma run_ok_other: "\<not> about i m \<Longrightarrow> run_ok (ms @ [m]) i r = run_ok ms i r"
  by (simp add: run_ok_def advance_other split: option.split)

lemma deliver_plain_inv: "sub_inv s \<Longrightarrow> \<forall>i. \<not> about i m \<Longrightarrow> sub_inv (deliver b m s)"
  by (simp add: sub_inv_def ids_def deliver_sent run_ok_other)

text \<open>Changing a run's flags keeps it, as long as a done run stays done.\<close>

lemma update_run_keys: "fst ` set (sb_runs (update_run i f s)) = fst ` set (sb_runs s)"
  by (metis image_set update_run_fields(7))

lemma update_run_ids: "ids (update_run i f s) = ids s"
  by (simp add: ids_def)

lemma update_run_inv:
  assumes "sub_inv s" and "\<And>r. rn_announced (f r) = rn_announced r \<and> (rn_done r \<longrightarrow> rn_done (f r))"
  shows "sub_inv (update_run i f s)"
proof -
  have "run_ok (sb_sent s) j (dict_get (sb_runs (update_run i f s)) j)" for j
  proof -
    have "run_ok (sb_sent s) j (dict_get (sb_runs s) j)" using assms(1) by (simp add: sub_inv_def)
    with assms(2) show ?thesis by (cases "dict_get (sb_runs s) j") (auto simp: update_run_get run_ok_def)
  qed
  with assms(1) show ?thesis by (simp add: sub_inv_def update_run_ids update_run_keys)
qed

lemma open_request_inv:
  assumes "sub_inv s"
  shows "sub_inv (open_request validate rid name raw b s)"
proof -
  have "str_of_nat (sb_next_id s) \<notin> set (ids s)" using assms by (auto simp: sub_inv_def)
  moreover have "sb_limit s > length (sb_tasks s) + sb_pending s \<Longrightarrow> sub_inv s \<Longrightarrow> str_of_nat (sb_next_id s) \<notin> set (ids s) \<Longrightarrow>
      sub_inv (s\<lparr>sb_next_id := Suc (sb_next_id s), sb_pending := Suc (sb_pending s),
            sb_opening := sb_opening s @ [(rid, name, str_of_nat (sb_next_id s))]\<rparr>)"
    by (auto simp: sub_inv_def ids_def less_Suc_eq)
  ultimately show ?thesis using assms deliver_plain_inv [OF assms]
    by (auto simp: open_request_def split: sum.splits)
qed

lemma cancelling_inv: "sub_inv (s\<lparr>sb_cancelling := c\<rparr>) = sub_inv s"
  by (simp add: sub_inv_def ids_def)

lemma cancel_subscription_inv:
  assumes "sub_inv s"
  shows "sub_inv (cancel_subscription rid name raw b s)"
proof -
  have run: "sub_inv (update_run i (\<lambda>r. r\<lparr>rn_cancelled := True\<rparr>) s)" for i
    by (rule update_run_inv [OF assms]) simp
  have plain: "sub_inv (deliver b (Cancel_done rid) s)" "sub_inv (deliver b (Refusal rid e) s)" for e
    by (simp_all add: deliver_plain_inv [OF assms])
  show ?thesis
  proof (cases "\<exists>i. dict_get raw ''streamId'' = Some (PStr i)")
    case True
    then obtain i where "dict_get raw ''streamId'' = Some (PStr i)" by blast
    then show ?thesis using run plain by (simp add: cancel_subscription_def cancelling_inv split: option.split)
  next
    case False
    then have "cancel_subscription rid name raw b s = deliver b (Refusal rid (stream_params_error ''Unknown streamId'')) s"
      unfolding cancel_subscription_def by (cases "dict_get raw ''streamId''"; cases "the (dict_get raw ''streamId'')") auto
    with plain show ?thesis by simp
  qed
qed

lemma subscription_request_inv:
  assumes "sub_inv s"
  shows "sub_inv (subscription_request validate rq b s)"
proof -
  have "sub_inv (deliver b (Refusal rid e) s)" for rid e by (rule deliver_plain_inv [OF assms]) simp
  with assms open_request_inv [OF assms] cancel_subscription_inv [OF assms] show ?thesis
    by (simp add: subscription_request_def split: sub_params.split)
qed

lemma remove1_key:
  "distinct (map f xs) \<Longrightarrow> x \<in> set xs \<Longrightarrow> y \<in> set (remove1 x xs) \<Longrightarrow> f y \<noteq> f x"
  by (induction xs) (auto split: if_splits simp: image_iff)

lemma opening_ids: "distinct (ids s) \<Longrightarrow> (rid, name, i) \<in> set (sb_opening s) \<Longrightarrow>
    distinct (sb_opening s) \<and> dict_get (sb_runs s) i = None \<and>
    (\<forall>e\<in>set (remove1 (rid, name, i) (sb_opening s)). snd (snd e) \<noteq> i)"
proof -
  assume d: "distinct (ids s)" and i: "(rid, name, i) \<in> set (sb_opening s)"
  have inj: "distinct (map (\<lambda>e. snd (snd e)) (sb_opening s))" using d by (simp add: ids_def)
  have "dict_get (sb_runs s) i = None" using d i by (force simp: ids_def map_of_eq_None_iff)
  moreover have "\<forall>e\<in>set (remove1 (rid, name, i) (sb_opening s)). snd (snd e) \<noteq> i"
    using remove1_key [OF inj i] by simp
  moreover have "distinct (sb_opening s)" using inj by (simp add: distinct_map)
  ultimately show ?thesis by blast
qed

lemma distinct_remove1_map: "distinct (map f xs) \<Longrightarrow> distinct (map f (remove1 x xs))"
  by (induction xs) (auto simp: image_iff dest: subsetD [OF set_remove1_subset])

lemma distinct_remove1_append:
  assumes "distinct (map f xs @ ys)"
  shows "distinct (map f (remove1 x xs) @ ys)" and "set (map f (remove1 x xs) @ ys) \<subseteq> set (map f xs @ ys)"
proof -
  have sub: "f ` set (remove1 x xs) \<subseteq> f ` set xs" by (intro image_mono set_remove1_subset)
  with assms distinct_remove1_map [of f xs x] show "distinct (map f (remove1 x xs) @ ys)" by auto
  show "set (map f (remove1 x xs) @ ys) \<subseteq> set (map f xs @ ys)" using sub by auto
qed

lemma open_aborted_inv:
  assumes "sub_inv s" and "entry \<in> set (sb_opening s)"
  shows "sub_inv (open_aborted entry s)"
proof -
  have "distinct (map (\<lambda>e. snd (snd e)) (sb_opening s) @ map fst (sb_runs s))"
    using assms(1) by (simp add: sub_inv_def ids_def)
  from distinct_remove1_append [OF this, of entry]
  have "distinct (ids (open_aborted entry s))" and "set (ids (open_aborted entry s)) \<subseteq> set (ids s)"
    by (simp_all add: ids_def open_aborted_def)
  moreover have "sb_pending (open_aborted entry s) = length (sb_opening (open_aborted entry s))"
    using assms by (simp add: sub_inv_def open_aborted_def length_remove1)
  ultimately show ?thesis
    using assms(1) by (auto simp: sub_inv_def open_aborted_def)
qed

lemma open_responded_inv:
  assumes "sub_inv s" and "entry \<in> set (sb_opening s)"
  shows "sub_inv (open_responded entry b s)"
proof -
  obtain rid name i where e: "entry = (rid, name, i)" by (cases entry)
  have i: "dict_get (sb_runs s) i = None" "\<forall>e\<in>set (remove1 entry (sb_opening s)). snd (snd e) \<noteq> i"
    using opening_ids [of s rid name i] assms by (simp_all add: sub_inv_def e)
  let ?s = "open_responded entry b s"
  have fresh: "i \<notin> fst ` set (sb_runs s)" using i(1) by (simp add: map_of_eq_None_iff)
  then have new_task: "i \<notin> fst ` set (sb_tasks s)" using assms(1) by (auto simp: sub_inv_def)
  have runs: "sb_runs ?s = sb_runs s @ [(i, \<lparr>rn_name = name, rn_done = False, rn_cancelled = False, rn_announced = b\<rparr>)]"
    and tasks: "sb_tasks ?s = sb_tasks s @ [(i, name)]"
    by (simp_all add: open_responded_def e dict_set_fresh fresh new_task)
  have opens: "sb_opening ?s = remove1 entry (sb_opening s)" and pending: "sb_pending ?s = sb_pending s - 1"
    and same: "sb_limit ?s = sb_limit s" "sb_next_id ?s = sb_next_id s" "sb_sent ?s = sb_sent s @ (if b then [Opened rid i] else [])"
    by (simp_all add: open_responded_def e deliver_sent)
  have len: "length (sb_opening s) = Suc (length (remove1 entry (sb_opening s)))"
    using assms(2) length_pos_if_in_set [OF assms(2)] by (simp add: length_remove1)
  have d: "distinct (map (\<lambda>e. snd (snd e)) (sb_opening s) @ map fst (sb_runs s))"
    using assms(1) by (simp add: sub_inv_def ids_def)
  have "distinct (ids ?s)"
    using distinct_remove1_append(1) [OF d, of entry] i(2) fresh by (auto simp: ids_def opens runs)
  moreover have "set (ids ?s) \<subseteq> set (ids s)"
  proof -
    have "set (ids ?s) = insert i (set (map (\<lambda>e. snd (snd e)) (remove1 entry (sb_opening s)) @ map fst (sb_runs s)))"
      by (simp add: ids_def opens runs insert_commute)
    moreover have "i = snd (snd entry)" by (simp add: e)
    then have "i \<in> set (ids s)" unfolding ids_def using assms(2) by simp
    ultimately show ?thesis using distinct_remove1_append(2) [OF d, of entry] by (simp add: ids_def)
  qed
  moreover have "run_ok (sb_sent ?s) j (dict_get (sb_runs ?s) j)" for j
  proof (cases "j = i")
    case True
    have "run_ok (sb_sent s) i None" using assms(1) i(1) by (metis sub_inv_def)
    moreover have "dict_get (sb_runs ?s) i = Some \<lparr>rn_name = name, rn_done = False, rn_cancelled = False, rn_announced = b\<rparr>"
      unfolding runs by (simp add: map_add_def i(1))
    ultimately show ?thesis using True by (simp add: same run_ok_def)
  next
    case False
    then have "dict_get (sb_runs ?s) j = dict_get (sb_runs s) j" by (simp add: runs map_add_def split: option.split)
    moreover have "run_ok (sb_sent s) j (dict_get (sb_runs s) j)" using assms(1) by (simp add: sub_inv_def)
    ultimately show ?thesis using False by (simp add: same run_ok_other)
  qed
  moreover have "wf_dict (sb_tasks ?s)" "fst ` set (sb_tasks ?s) \<subseteq> fst ` set (sb_runs ?s)"
    using assms(1) new_task by (auto simp: sub_inv_def tasks runs wf_dict_def)
  ultimately show ?thesis
    using assms(1) len unfolding sub_inv_def opens pending same(1,2) tasks by auto
qed

lemma close_subscriptions_inv:
  assumes "sub_inv s"
  shows "sub_inv (close_subscriptions s)"
proof -
  let ?c = "\<lambda>i. update_run i (\<lambda>r. r\<lparr>rn_cancelled := True\<rparr>)"
  have "sub_inv (fold ?c is t)" if "sub_inv t" for "is" t
    using that by (induction "is" arbitrary: t) (simp_all add: update_run_inv)
  from this [OF assms, of "map fst (sb_tasks s)"]
  show ?thesis by (simp add: close_subscriptions_def sub_inv_def ids_def wf_dict_def)
qed

text \<open>A message of a live run: a payload keeps it live, a terminal notification ends it.\<close>

lemma live_run: "sub_inv s \<Longrightarrow> dict_get (sb_runs s) i = Some r \<Longrightarrow> rn_announced r \<Longrightarrow> \<not> rn_done r \<Longrightarrow> trace_of i (sb_sent s) = Live"
  unfolding sub_inv_def run_ok_def by (metis (mono_tags, lifting) option.simps(5))

lemma send_payload_inv:
  assumes "sub_inv s" and "dict_get (sb_runs s) i = Some r" and "\<not> rn_done r"
  shows "sub_inv (send_payload i r v b s)"
proof -
  have "run_ok (sb_sent s @ [Payload n i v]) j (dict_get (sb_runs s) j)" for j n
  proof (cases "j = i")
    case True
    then show ?thesis using live_run [OF assms(1,2) _ assms(3)] by (simp add: run_ok_def assms(2))
  next
    case False
    moreover have "run_ok (sb_sent s) j (dict_get (sb_runs s) j)" using assms(1) by (simp add: sub_inv_def)
    ultimately show ?thesis by (simp add: run_ok_other)
  qed
  with assms(1) show ?thesis by (simp add: send_payload_def sub_inv_def ids_def deliver_sent)
qed

lemma end_stream_inv:
  assumes "sub_inv s" and "dict_get (sb_runs s) i = Some r" and "\<not> rn_done r"
  shows "sub_inv (end_stream i r e b s)"
proof -
  let ?f = "\<lambda>r. r\<lparr>rn_done := True\<rparr>"
  have "run_ok (sb_sent s @ (if b then [terminal i r e] else [])) j (dict_get (sb_runs (update_run i ?f s)) j)" for j
  proof (cases "j = i")
    case True
    then show ?thesis using live_run [OF assms(1,2) _ assms(3)]
      by (cases e) (auto simp: run_ok_def update_run_get assms(2) terminal_def)
  next
    case False
    moreover have "run_ok (sb_sent s) j (dict_get (sb_runs s) j)" using assms(1) by (simp add: sub_inv_def)
    moreover have "\<not> about j (terminal i r e)" using False by (cases e) (simp_all add: terminal_def)
    ultimately show ?thesis by (auto simp: run_ok_other update_run_get option.map_id)
  qed
  moreover have "dict_get (sb_runs (update_run i ?f (deliver b m s))) = dict_get (sb_runs (update_run i ?f s))" for m
    by (rule ext) (simp add: update_run_get)
  ultimately show ?thesis using assms(1)
    by (simp add: end_stream_def sub_inv_def update_run_ids update_run_keys deliver_sent) (simp add: ids_def)
qed

lemma sub_step_inv: "sub_step validate s s' \<Longrightarrow> sub_inv s \<Longrightarrow> sub_inv s'"
proof (induction rule: sub_step.induct)
  case (stops s i r)
  show ?case unfolding stop_stream_def by (rule update_run_inv [OF stops(4)]) simp
next
  case (reaped s i r)
  have "length (dict_pop i (sb_tasks s)) \<le> length (sb_tasks s)" by (simp add: dict_pop_def)
  moreover have "fst ` set (dict_pop i (sb_tasks s)) \<subseteq> fst ` set (sb_runs s)"
    using reaped(3) by (auto simp: sub_inv_def dict_pop_def)
  ultimately show ?case using reaped(3) by (simp add: sub_inv_def reap_stream_def ids_def)
next
  case (cancelled entry s r b)
  have "sub_inv (deliver b (Cancel_done (fst entry)) s)" by (rule deliver_plain_inv [OF cancelled(4)]) simp
  then show ?case by (simp add: cancel_responded_def cancelling_inv)
next
  case (cancel_aborts entry s)
  then show ?case by (simp add: cancel_aborted_def cancelling_inv)
qed (simp_all add: subscription_request_inv open_responded_inv open_aborted_inv send_payload_inv end_stream_inv
    close_subscriptions_inv)

lemma fold_cancel_fields [simp]:
  "sb_limit (fold (\<lambda>i. update_run i f) is s) = sb_limit s" "sb_sent (fold (\<lambda>i. update_run i f) is s) = sb_sent s"
  by (induction "is" arbitrary: s) simp_all

lemma sub_limit_step: "sub_step validate s s' \<Longrightarrow> sb_limit s' = sb_limit s"
  by (induction rule: sub_step.induct)
    (auto simp: subscription_request_def open_request_def cancel_subscription_def open_responded_def open_aborted_def
      send_payload_def end_stream_def stop_stream_def reap_stream_def cancel_responded_def cancel_aborted_def
      close_subscriptions_def split: sub_params.split sum.split option.split pyval.split)

lemma sub_reaches_inv: "sub_reaches validate limit s \<Longrightarrow> sub_inv s \<and> sb_limit s = limit"
proof (induction rule: sub_reaches.induct)
  case (start names)
  show ?case by (simp add: new_subscriptions_def sub_inv_def ids_def run_ok_def trace_of_def)
qed (use sub_step_inv sub_limit_step in metis)

text \<open>Nothing is sent about a stream whose task has ended.\<close>

lemma subscription_request_silent:
  "filter (about i) (sb_sent (subscription_request validate rq b s)) = filter (about i) (sb_sent s)"
  by (simp add: subscription_request_def open_request_def cancel_subscription_def deliver_sent
      split: sub_params.split sum.split option.split pyval.split)

lemma done_silent:
  assumes "sub_step validate s s'" and "sub_inv s" and "dict_get (sb_runs s) i = Some r" and "rn_done r"
  shows "filter (about i) (sb_sent s') = filter (about i) (sb_sent s)"
  using assms(1)
proof cases
  case (request rq b)
  then show ?thesis by (simp add: subscription_request_silent)
next
  case (opened entry b)
  have "snd (snd entry) \<noteq> i"
    using opening_ids [of s "fst entry" "fst (snd entry)" "snd (snd entry)"] opened(2) assms(2,3)
    by (auto simp: sub_inv_def)
  with opened show ?thesis by (cases entry) (simp add: open_responded_def deliver_sent)
next
  case (payload j r' v b)
  with assms(3,4) have "j \<noteq> i" by auto
  with payload show ?thesis by (simp add: send_payload_def deliver_sent)
next
  case (ends j r' e b)
  with assms(3,4) have "j \<noteq> i" by auto
  with ends show ?thesis by (cases e) (simp_all add: end_stream_def deliver_sent terminal_def)
qed (simp_all add: open_aborted_def stop_stream_def reap_stream_def cancel_responded_def cancel_aborted_def
    close_subscriptions_def deliver_sent)



end
