(* ===== verification/Error_Responses.thy ===== *)
theory Error_Responses
  imports Error_Registry
begin

text \<open>
  The response contracts of a route: success contracts (\<open>fastapi_canon/response.py\<close>), the
  OpenAPI responses compiled from a route's errors (\<open>compile_responses\<close> of
  \<open>error/openapi.py\<close>), the metadata they carry read back (\<open>error/contracts.py\<close>), the
  router's composition of inherited and local declarations (\<open>router.py\<close>) and the reusable
  policies (\<open>policy.py\<close>). OpenAPI documents are Python values; an error identity is written
  into them as \<open>str(id(error))\<close>.
\<close>

section \<open>Python equality and thawing\<close>

text \<open>\<open>==\<close> on JSON-like values: dictionaries compare without order, numbers across types.\<close>

definition number_of :: "pyval \<Rightarrow> rat option" where
  "number_of v = (case v of PBool b \<Rightarrow> Some (if b then 1 else 0) | PInt i \<Rightarrow> Some (of_int i)
     | PFloat (Fin r) \<Rightarrow> Some r | _ \<Rightarrow> None)"

fun py_eq :: "pyval \<Rightarrow> pyval \<Rightarrow> bool"
and py_eq_items :: "pyval list \<Rightarrow> pyval list \<Rightarrow> bool"
and py_eq_pairs :: "(pyval \<times> pyval) list \<Rightarrow> (pyval \<times> pyval) list \<Rightarrow> bool" where
  "py_eq (PDict a) w = (case w of PDict b \<Rightarrow> length a = length b \<and> py_eq_pairs a b | _ \<Rightarrow> False)"
| "py_eq (PList a) w = (case w of PList b \<Rightarrow> py_eq_items a b | _ \<Rightarrow> False)"
| "py_eq (PTuple a) w = (case w of PTuple b \<Rightarrow> py_eq_items a b | _ \<Rightarrow> False)"
| "py_eq v w =
     (case number_of v of Some r \<Rightarrow> number_of w = Some r | None \<Rightarrow> v = w \<and> v \<noteq> PFloat NaN)"
| "py_eq_items [] ys = (ys = [])"
| "py_eq_items (x # xs) ys = (case ys of [] \<Rightarrow> False | y # ys' \<Rightarrow> py_eq x y \<and> py_eq_items xs ys')"
| "py_eq_pairs [] b = True"
| "py_eq_pairs ((k, v) # a) b =
     ((case dict_get b k of None \<Rightarrow> False | Some w \<Rightarrow> py_eq v w) \<and> py_eq_pairs a b)"

fun thaw :: "pyval \<Rightarrow> pyval" where
  "thaw (PDict kvs) = PDict (map (\<lambda>(k, v). (k, thaw v)) kvs)"
| "thaw (PTuple xs) = PList (map thaw xs)"
| "thaw v = v"

abbreviation member :: "(pyval \<times> pyval) list \<Rightarrow> string \<Rightarrow> pyval option" where
  "member d k \<equiv> dict_get d (PStr k)"

abbreviation put :: "string \<Rightarrow> pyval \<Rightarrow> (pyval \<times> pyval) list \<Rightarrow> (pyval \<times> pyval) list" where
  "put k \<equiv> dict_set (PStr k)"

definition drop_member :: "string \<Rightarrow> (pyval \<times> pyval) list \<Rightarrow> (pyval \<times> pyval) list" where
  "drop_member k d = dict_pop (PStr k) d"

definition dict_body :: "pyval \<Rightarrow> (pyval \<times> pyval) list" where
  \<comment> \<open>the items of a value known to be a dictionary\<close>
  "dict_body v = (case v of PDict d \<Rightarrow> d | _ \<Rightarrow> [])"

section \<open>Success contracts (response.py)\<close>

record canon_response =
  cr_status :: int
  cr_media :: "string option"
  cr_schema :: "pyval option"
  cr_description :: string
  cr_headers :: "(string \<times> pyval) list"

definition token_char :: "char \<Rightarrow> bool" where
  \<comment> \<open>the characters of either side of the media type pattern\<close>
  "token_char c = header_char c"

definition media_type_ok :: "string \<Rightarrow> bool" where
  "media_type_ok s =
     (case split_on CHR ''/'' s of
        [t, u] \<Rightarrow> t \<noteq> [] \<and> u \<noteq> [] \<and> list_all token_char t \<and> list_all token_char u
      | _ \<Rightarrow> False)"

definition validate_status :: "pyval \<Rightarrow> (cfg_error, int) result" where
  "validate_status v =
     (case v of PInt n \<Rightarrow> if 200 \<le> n \<and> n \<le> 399 then Inr n
                          else Inl (Cfg ''response status must be between 200 and 399'')
      | _ \<Rightarrow> Inl (Cfg ''response status must be between 200 and 399''))"

definition validate_media_type :: "pyval \<Rightarrow> (cfg_error, string option) result" where
  "validate_media_type v =
     (case v of PNone \<Rightarrow> Inr None
      | PStr s \<Rightarrow> if media_type_ok s then Inr (Some (str_lower s))
                  else Inl (Cfg ''media_type must be a valid type/subtype string or None'')
      | _ \<Rightarrow> Inl (Cfg ''media_type must be a valid type/subtype string or None''))"

definition validate_description :: "pyval \<Rightarrow> (cfg_error, string) result" where
  "validate_description v =
     (case v of PStr s \<Rightarrow> if \<not> blank s \<and> single_line s then Inr s
                          else Inl (Cfg ''response description must be a non-empty, single-line string'')
      | _ \<Rightarrow> Inl (Cfg ''response description must be a non-empty, single-line string''))"

definition normalize_schema :: "pyval \<Rightarrow> (cfg_error, pyval option) result" where
  "normalize_schema v =
     (case v of PNone \<Rightarrow> Inr None
      | PDict kvs \<Rightarrow> rbind (freeze_pairs ''response schema'' kvs) (\<lambda>ws. Inr (Some (PDict ws)))
      | _ \<Rightarrow> Inl (Cfg ''schema must be a mapping or None''))"

definition default_header :: pyval where
  "default_header = PDict [(PStr ''schema'', PDict [(PStr ''type'', PStr ''string'')])]"

fun normalize_header_items ::
    "(pyval \<times> pyval) list \<Rightarrow> string list \<Rightarrow> (cfg_error, (string \<times> pyval) list) result" where
  "normalize_header_items [] seen = Inr []"
| "normalize_header_items ((name, d) # rest) seen =
     rbind (validate_header_name name ''response headers'') (\<lambda>n.
       if str_lower n \<in> set seen then Inl (Cfg_at ''response headers contain duplicate name'' n)
       else (case d of
           PDict body \<Rightarrow>
             rbind (freeze_pairs (''response headers.'' @ n) body) (\<lambda>ws.
             rbind (normalize_header_items rest (str_lower n # seen)) (\<lambda>r. Inr ((n, PDict ws) # r)))
         | _ \<Rightarrow> Inl (Cfg_at ''response header must be a mapping'' n)))"

definition normalize_headers :: "pyval \<Rightarrow> (cfg_error, (string \<times> pyval) list) result" where
  "normalize_headers v =
     (case v of
        PDict kvs \<Rightarrow> normalize_header_items kvs []
      | PList xs \<Rightarrow> normalize_header_items (map (\<lambda>n. (n, default_header)) xs) []
      | PTuple xs \<Rightarrow> normalize_header_items (map (\<lambda>n. (n, default_header)) xs) []
      | _ \<Rightarrow> Inl (Cfg ''response headers must be a sequence of names or a mapping''))"

definition new_response ::
    "pyval \<Rightarrow> pyval \<Rightarrow> pyval \<Rightarrow> pyval \<Rightarrow> pyval \<Rightarrow> (cfg_error, canon_response) result" where
  "new_response media status schema description headers =
     rbind (validate_status status) (\<lambda>n.
     rbind (validate_media_type media) (\<lambda>m.
     rbind (validate_description description) (\<lambda>d.
     rbind (normalize_schema schema) (\<lambda>s.
     rbind (normalize_headers headers) (\<lambda>h.
       if m = None \<and> s \<noteq> None then Inl (Cfg ''schema requires a media_type'')
       else if m \<noteq> None \<and> n \<in> {204, 304} then Inl (Cfg ''status must not define response content'')
       else Inr \<lparr>cr_status = n, cr_media = m, cr_schema = s, cr_description = d, cr_headers = h\<rparr>)))))"

definition json_response :: "pyval \<Rightarrow> pyval \<Rightarrow> pyval \<Rightarrow> pyval \<Rightarrow> (cfg_error, canon_response) result" where
  "json_response schema status description headers =
     new_response (PStr ''application/json'') status schema description headers"

definition empty_response :: "pyval \<Rightarrow> pyval \<Rightarrow> pyval \<Rightarrow> (cfg_error, canon_response) result" where
  "empty_response status description headers = new_response PNone status PNone description headers"

definition stream_response ::
    "pyval \<Rightarrow> pyval \<Rightarrow> pyval \<Rightarrow> pyval \<Rightarrow> pyval \<Rightarrow> (cfg_error, canon_response) result" where
  "stream_response media status schema description headers =
     new_response media status
       (if schema = PNone then PDict [(PStr ''type'', PStr ''string'')] else schema) description headers"

definition binary_response ::
    "pyval \<Rightarrow> pyval \<Rightarrow> pyval \<Rightarrow> pyval \<Rightarrow> pyval \<Rightarrow> (cfg_error, canon_response) result" where
  "binary_response media status schema description headers =
     new_response media status
       (if schema = PNone then PDict [(PStr ''type'', PStr ''string''), (PStr ''format'', PStr ''binary'')]
        else schema) description headers"

definition sse_response :: "pyval \<Rightarrow> pyval \<Rightarrow> pyval \<Rightarrow> pyval \<Rightarrow> (cfg_error, canon_response) result" where
  "sse_response status schema description headers =
     stream_response (PStr ''text/event-stream'') status schema description headers"

definition as_openapi :: "canon_response \<Rightarrow> (pyval \<times> pyval) list" where
  "as_openapi c =
     [(PStr ''description'', PStr (cr_description c))] @
     (case cr_media c of
        None \<Rightarrow> []
      | Some m \<Rightarrow> [(PStr ''content'', PDict [(PStr m, PDict [(PStr ''schema'',
          case cr_schema c of None \<Rightarrow> PDict [] | Some s \<Rightarrow> thaw s)])])]) @
     (if cr_headers c \<noteq> []
      then [(PStr ''headers'', PDict (map (\<lambda>(n, d). (PStr n, thaw d)) (cr_headers c)))] else [])"

definition errors_extension :: string where "errors_extension = ''x-fastapi-canon-errors''"
definition http_statuses_extension :: string where
  "http_statuses_extension = ''x-fastapi-canon-http-statuses''"
definition success_extension :: string where "success_extension = ''x-fastapi-canon-success''"

definition success_responses :: "canon_response \<Rightarrow> (pyval \<times> pyval) list" where
  \<comment> \<open>\<open>CanonResponse.responses\<close>\<close>
  "success_responses c =
     [(PInt (cr_status c), PDict (put success_extension
        (PStr (case cr_media c of None \<Rightarrow> [] | Some m \<Rightarrow> m)) (as_openapi c)))]"

section \<open>Compiling error responses (openapi.py)\<close>

text \<open>The documentation fields of an \<open>Error\<close>, read through the identity like the others.\<close>

record error_doc =
  do_description :: "string option"
  do_headers :: "(string \<times> pyval) list"
  do_example :: "(pyval \<times> pyval) list option"

type_synonym docs = "err \<Rightarrow> error_doc"

definition or_else :: "string option \<Rightarrow> string \<Rightarrow> string" where
  \<comment> \<open>\<open>a or b\<close>: an empty string counts as absent\<close>
  "or_else a b = (case a of Some s \<Rightarrow> if s = [] then b else s | None \<Rightarrow> b)"

definition schema_name_of :: "store \<Rightarrow> err \<Rightarrow> string" where
  "schema_name_of st e = effective_schema_name (ed_schema_name (st e)) (ed_code (st e))"

definition schema_ref :: "string \<Rightarrow> string" where
  "schema_ref name = ''#/components/schemas/'' @ name"

definition http_code :: "int \<Rightarrow> string" where
  "http_code status = ''http_'' @ str_of_nat (nat status)"

definition http_component_name :: "int \<Rightarrow> string" where
  "http_component_name status = ''Http'' @ str_of_nat (nat status) @ ''Problem''"

definition http_title :: "(int \<Rightarrow> string option) \<Rightarrow> int \<Rightarrow> string" where
  \<comment> \<open>the parameter is the table of \<open>http.HTTPStatus\<close>\<close>
  "http_title phrase status = (case phrase status of Some t \<Rightarrow> t | None \<Rightarrow> ''HTTP Error'')"

definition header_conflict :: "(string \<times> pyval) list \<Rightarrow> string \<Rightarrow> pyval \<Rightarrow> bool" where
  "header_conflict hs name candidate =
     (case List.find (\<lambda>p. str_lower (fst p) = str_lower name) hs of
        None \<Rightarrow> False | Some p \<Rightarrow> \<not> py_eq (snd p) candidate)"

definition add_header :: "string \<times> pyval \<Rightarrow> (string \<times> pyval) list \<Rightarrow> (cfg_error, (string \<times> pyval) list) result" where
  "add_header h hs =
     (let candidate = thaw (snd h)
      in if header_conflict hs (fst h) candidate
         then Inl (Cfg_at ''conflicting OpenAPI header'' (fst h))
         else Inr (dict_set (fst h) candidate hs))"

definition response_for_contracts ::
    "(int \<Rightarrow> string option) \<Rightarrow> store \<Rightarrow> docs \<Rightarrow> err list \<Rightarrow> int option
      \<Rightarrow> (cfg_error, (pyval \<times> pyval) list) result" where
  "response_for_contracts phrase st dc errors http_status =
     (let https = (case http_status of None \<Rightarrow> [] | Some s \<Rightarrow> [s]);
          references = map (\<lambda>e. schema_ref (schema_name_of st e)) errors @
                       map (\<lambda>s. schema_ref (http_component_name s)) https;
          titles = map (\<lambda>e. ed_title (st e)) errors @ map (http_title phrase) https;
          codes = map (\<lambda>e. ed_code (st e)) errors @ map http_code https;
          (schema, description) =
            (if length references = 1
             then (PDict [(PStr ''$ref'', PStr (hd references))],
                   (case errors of e # _ \<Rightarrow> or_else (do_description (dc e)) (ed_title (st e))
                    | [] \<Rightarrow> hd titles))
             else (PDict [(PStr ''oneOf'', PList (map (\<lambda>x. PDict [(PStr ''$ref'', PStr x)]) references)),
                          (PStr ''discriminator'', PDict [(PStr ''propertyName'', PStr ''code''),
                             (PStr ''mapping'', PDict (fold (\<lambda>(c, x). put c (PStr x)) (zip codes references) []))])],
                   ''Possible problems: '' @ join_with '', '' titles));
          base = [(PStr ''description'', PStr description),
                  (PStr ''content'', PDict [(PStr ''application/problem+json'', PDict [(PStr ''schema'', schema)])])] @
                 (if errors \<noteq> [] then [(PStr errors_extension, PList (map (\<lambda>e. PStr (str_of_nat e)) errors))] else []) @
                 map (\<lambda>s. (PStr http_statuses_extension, PList [PInt s])) https
      in rbind (rfold add_header (concat (map (\<lambda>e. do_headers (dc e)) errors)) [])
           (\<lambda>hs. Inr (base @ (if hs \<noteq> [] then [(PStr ''headers'', pack hs)] else []))))"

definition group_errors :: "store \<Rightarrow> err list \<Rightarrow> int \<Rightarrow> err list" where
  "group_errors st errors status = filter (\<lambda>e. ed_status (st e) = status) errors"

fun check_statuses ::
    "store \<Rightarrow> err list \<Rightarrow> nat \<Rightarrow> int list \<Rightarrow> pyval list \<Rightarrow> (cfg_error, int list) result" where
  \<comment> \<open>the loop over \<open>http_statuses\<close> with its seen set; returns the statuses in order\<close>
  "check_statuses st errors index seen [] = Inr []"
| "check_statuses st errors index seen (v # vs) =
     (case v of
        PInt s \<Rightarrow>
          if \<not> (400 \<le> s \<and> s \<le> 599) then Inl (Cfg_at ''http_statuses'' (str_of_nat index))
          else if s \<in> set seen then Inl (Cfg_at ''http_statuses duplicates'' (str_of_nat index))
          else if list_ex (\<lambda>e. ed_code (st e) = http_code s) (group_errors st errors s)
          then Inl (Cfg_at ''generic HTTP status conflicts with domain error code'' (http_code s))
          else rbind (check_statuses st errors (Suc index) (s # seen) vs) (\<lambda>ss. Inr (s # ss))
      | _ \<Rightarrow> Inl (Cfg_at ''http_statuses'' (str_of_nat index)))"

definition compile_one ::
    "(int \<Rightarrow> string option) \<Rightarrow> store \<Rightarrow> docs \<Rightarrow> err list \<Rightarrow> int list \<Rightarrow> int
      \<Rightarrow> (cfg_error, pyval \<times> pyval) result" where
  "compile_one phrase st dc errors https s =
     rbind (response_for_contracts phrase st dc (group_errors st errors s) (if s \<in> set https then Some s else None))
       (\<lambda>d. Inr (PInt s, PDict d))"

definition compile_responses ::
    "(int \<Rightarrow> string option) \<Rightarrow> store \<Rightarrow> docs \<Rightarrow> registry \<Rightarrow> err list \<Rightarrow> pyval list
      \<Rightarrow> canon_response option \<Rightarrow> (cfg_error, (pyval \<times> pyval) list) result" where
  "compile_responses phrase st dc r errors http_statuses success =
     rbind (rmap (\<lambda>e. ensure (contains st r e) (Cfg_at ''error does not belong to this registry'' (ed_code (st e)))) errors) (\<lambda>_.
     rbind (check_statuses st errors 0 [] http_statuses) (\<lambda>https.
     (let statuses = fromkeys (map (\<lambda>e. ed_status (st e)) errors @ https)
      in rbind (rmap (compile_one phrase st dc errors https) statuses) (\<lambda>compiled.
         case success of
           None \<Rightarrow> Inr compiled
         | Some c \<Rightarrow>
             if cr_status c \<in> set statuses then Inl (Cfg ''success response conflicts with error status'')
             else Inr (success_responses c @ compiled)))))"

section \<open>Reading the metadata back (contracts.py)\<close>

record contract =
  ct_errors :: "err list"
  ct_statuses :: "int list"
  ct_success :: "(int \<times> string option) option"

definition contract_error :: "string \<Rightarrow> (cfg_error, 'a) result" where
  "contract_error m = Inl (Cfg_at ''route contains invalid metadata'' m)"

definition add_new :: "'a list \<Rightarrow> 'a list \<Rightarrow> 'a list" where
  \<comment> \<open>append the items of the first list that the second does not have yet\<close>
  "add_new items have = have @ uniq_from have items"

definition known_error :: "registry option \<Rightarrow> pyval \<Rightarrow> (cfg_error, err) result" where
  "known_error r v =
     (case v of
        PStr s \<Rightarrow>
          (case List.find (\<lambda>e. str_of_nat e = s) (case r of None \<Rightarrow> [] | Some g \<Rightarrow> registry_errors g) of
             None \<Rightarrow> contract_error ''error missing from the installed registry''
           | Some e \<Rightarrow> Inr e)
      | _ \<Rightarrow> contract_error ''identity is not a string'')"

definition is_str :: "pyval \<Rightarrow> bool" where
  "is_str v = (case v of PStr _ \<Rightarrow> True | _ \<Rightarrow> False)"

definition error_status :: "pyval \<Rightarrow> int option" where
  "error_status v = (case v of PInt n \<Rightarrow> if 400 \<le> n \<and> n \<le> 599 then Some n else None | _ \<Rightarrow> None)"

definition read_errors ::
    "registry option \<Rightarrow> (pyval \<times> pyval) list \<Rightarrow> contract \<Rightarrow> (cfg_error, contract) result" where
  "read_errors r resp ct =
     (case member resp errors_extension of
        None \<Rightarrow> Inr ct
      | Some (PList ids) \<Rightarrow>
          if \<not> list_all is_str ids then contract_error ''errors''
          else rbind (rmap (known_error r) ids)
                 (\<lambda>es. Inr (ct\<lparr>ct_errors := add_new es (ct_errors ct)\<rparr>))
      | Some _ \<Rightarrow> contract_error ''errors'')"

definition read_statuses :: "(pyval \<times> pyval) list \<Rightarrow> contract \<Rightarrow> (cfg_error, contract) result" where
  "read_statuses resp ct =
     (case member resp http_statuses_extension of
        None \<Rightarrow> Inr ct
      | Some (PList vs) \<Rightarrow>
          (case those (map error_status vs) of
             None \<Rightarrow> contract_error ''HTTP statuses''
           | Some ss \<Rightarrow> Inr (ct\<lparr>ct_statuses := add_new ss (ct_statuses ct)\<rparr>))
      | Some _ \<Rightarrow> contract_error ''HTTP statuses'')"

definition parse_int :: "string \<Rightarrow> int option" where
  \<comment> \<open>\<open>int(text)\<close>: surrounding space, a sign and single underscores between digits are allowed\<close>
  "parse_int s =
     (let t = rev (dropWhile is_space (rev (dropWhile is_space s)));
          (neg, body) = (case t of c # cs \<Rightarrow> if c = CHR ''-'' then (True, cs)
                                             else if c = CHR ''+'' then (False, cs) else (False, t)
                         | [] \<Rightarrow> (False, []));
          parts = split_on CHR ''_'' body
      in if list_all (\<lambda>p. p \<noteq> [] \<and> list_all is_digit p) parts
         then Some (if neg then - int (nat_of_str (concat parts)) else int (nat_of_str (concat parts)))
         else None)"

definition int_of_key :: "pyval \<Rightarrow> int option" where
  "int_of_key k = (case k of PInt n \<Rightarrow> Some n | PBool b \<Rightarrow> Some (if b then 1 else 0)
     | PStr s \<Rightarrow> parse_int s
     | PFloat (Fin r) \<Rightarrow> Some (if r < 0 then - floor (- r) else floor r) | _ \<Rightarrow> None)"

definition read_success :: "pyval \<Rightarrow> (pyval \<times> pyval) list \<Rightarrow> contract \<Rightarrow> (cfg_error, contract) result" where
  "read_success key resp ct =
     (case member resp success_extension of
        None \<Rightarrow> Inr ct
      | Some media \<Rightarrow>
          (case (case media of PNone \<Rightarrow> Some None | PStr s \<Rightarrow> Some (if s = [] then None else Some s) | _ \<Rightarrow> None) of
             None \<Rightarrow> contract_error ''success''
           | Some m \<Rightarrow>
               (case int_of_key key of
                  None \<Rightarrow> contract_error ''non-numeric success status''
                | Some status \<Rightarrow>
                    if ct_success ct \<noteq> None then contract_error ''multiple success contracts''
                    else Inr (ct\<lparr>ct_success := Some (status, m)\<rparr>))))"

definition read_response :: "registry option \<Rightarrow> pyval \<times> pyval \<Rightarrow> contract \<Rightarrow> (cfg_error, contract) result" where
  "read_response r p ct =
     (case snd p of
        PDict resp \<Rightarrow>
          rbind (read_errors r resp ct) (\<lambda>c1.
          rbind (read_statuses resp c1) (\<lambda>c2. read_success (fst p) resp c2))
      | _ \<Rightarrow> Inr ct)"

definition empty_contract :: contract where
  "empty_contract = \<lparr>ct_errors = [], ct_statuses = [], ct_success = None\<rparr>"

definition contracts_from_responses ::
    "registry option \<Rightarrow> (pyval \<times> pyval) list \<Rightarrow> (cfg_error, contract) result" where
  "contracts_from_responses r responses = rfold (read_response r) responses empty_contract"

section \<open>Router declarations (policy.py, router.py)\<close>

text \<open>
  A parameter that should be a sequence of instances: a string or a non-sequence is refused,
  otherwise every item is an instance (an identity) or something else.
\<close>

datatype 'a sequence_arg = Not_sequence | Items "'a item list"

definition normalize_raises :: "err sequence_arg \<Rightarrow> string \<Rightarrow> (cfg_error, err list) result" where
  "normalize_raises v param =
     (case v of Not_sequence \<Rightarrow> Inl (Cfg_at param ''must be a sequence of Error instances'')
      | Items xs \<Rightarrow> unique_instances xs param)"

type_synonym dep = nat

record router_policy =
  rp_dependencies :: "dep list"
  rp_raises :: "err list"

definition new_policy :: "dep sequence_arg \<Rightarrow> err sequence_arg \<Rightarrow> (cfg_error, router_policy) result" where
  "new_policy dependencies raises =
     (case dependencies of
        Not_sequence \<Rightarrow> Inl (Cfg ''dependencies must be a sequence of Depends instances'')
      | Items xs \<Rightarrow>
          rbind (unique_instances xs ''dependencies'') (\<lambda>ds.
          rbind (normalize_raises raises ''raises'') (\<lambda>rs.
            Inr \<lparr>rp_dependencies = ds, rp_raises = rs\<rparr>)))"

definition validate_policy :: "router_policy item option \<Rightarrow> (cfg_error, router_policy option) result" where
  "validate_policy v =
     (case v of None \<Rightarrow> Inr None | Some (Instance p) \<Rightarrow> Inr (Some p)
      | Some Foreign \<Rightarrow> Inl (Cfg ''policy must be a RouterPolicy instance or None''))"

definition normalize_http_statuses :: "pyval \<Rightarrow> (cfg_error, int list) result" where
  "normalize_http_statuses v =
     (case (case v of PList xs \<Rightarrow> Some xs | PTuple xs \<Rightarrow> Some xs | _ \<Rightarrow> None) of
        None \<Rightarrow> Inl (Cfg ''http_statuses must be a sequence of HTTP statuses'')
      | Some xs \<Rightarrow>
          (case those (map error_status xs) of
             None \<Rightarrow> Inl (Cfg ''http_statuses must be between 400 and 599'')
           | Some ss \<Rightarrow> Inr (fromkeys ss)))"

definition identifier_part :: "string \<Rightarrow> bool" where
  \<comment> \<open>\<open>part.isidentifier() and not part.startswith("_")\<close>, for ASCII text\<close>
  "identifier_part p = (case p of [] \<Rightarrow> False
     | c # cs \<Rightarrow> is_alpha c \<and> list_all (\<lambda>x. is_alpha x \<or> is_digit x \<or> x = CHR ''_'') cs)"

definition namespace_ok :: "pyval \<Rightarrow> bool" where
  "namespace_ok v = (case v of PNone \<Rightarrow> True | PStr s \<Rightarrow> list_all identifier_part (split_on CHR ''.'' s) | _ \<Rightarrow> False)"

record router =
  ro_namespace :: pyval
  ro_registry :: "registry option"
  ro_raises :: "err list"
  ro_statuses :: "int list"
  ro_dependencies :: "dep list"
  ro_marker :: bool

datatype router_error = Rt_cfg string | Rt_error cfg_error | Rt_registry registry_error | Rt_response string

definition lift_router :: "(cfg_error, 'a) result \<Rightarrow> (router_error, 'a) result" where
  "lift_router m = (case m of Inl e \<Rightarrow> Inl (Rt_error e) | Inr x \<Rightarrow> Inr x)"

definition register_errors ::
    "(string \<Rightarrow> bool) \<Rightarrow> store \<Rightarrow> registry option \<Rightarrow> err list \<Rightarrow> (registry_error, registry option) result" where
  "register_errors host_ok st registry errors =
     (if errors = [] \<or> (case registry of None \<Rightarrow> False | Some r \<Rightarrow> list_all (contains st r) errors)
      then Inr registry
      else
        rbind (make_registry host_ok st (map Instance errors) PNone PNone) (\<lambda>local.
        rbind (merge_registries host_ok st
                 (\<lambda>i. if i = 0 then (case registry of Some r \<Rightarrow> r | None \<Rightarrow> local) else local)
                 (case registry of None \<Rightarrow> [Instance 1] | Some _ \<Rightarrow> [Instance 0, Instance 1]) PNone
                 (case registry of None \<Rightarrow> PNone | Some r \<Rightarrow> (case rg_base r of None \<Rightarrow> PNone | Some b \<Rightarrow> PStr b)))
          (\<lambda>merged. Inr (Some merged))))"

definition new_router ::
    "(string \<Rightarrow> bool) \<Rightarrow> store \<Rightarrow> pyval \<Rightarrow> err sequence_arg \<Rightarrow> pyval \<Rightarrow> router_policy item option
      \<Rightarrow> dep list \<Rightarrow> (router_error, router) result" where
  "new_router host_ok st namespace raises http_statuses policy dependencies =
     (if \<not> namespace_ok namespace then Inl (Rt_cfg ''namespace must be a dotted public identifier or None'')
      else
        rbind (lift_router (validate_policy policy)) (\<lambda>p.
        rbind (lift_router (normalize_raises raises ''raises'')) (\<lambda>rs.
        rbind (lift_router (normalize_http_statuses http_statuses)) (\<lambda>ss.
        (let all = (case p of None \<Rightarrow> rs | Some q \<Rightarrow> fromkeys (rp_raises q @ rs));
             deps = (case p of None \<Rightarrow> dependencies | Some q \<Rightarrow> rp_dependencies q @ dependencies)
         in case register_errors host_ok st None all of
              Inl e \<Rightarrow> Inl (Rt_registry e)
            | Inr reg \<Rightarrow>
                Inr \<lparr>ro_namespace = namespace, ro_registry = reg, ro_raises = all, ro_statuses = ss,
                     ro_dependencies = deps, ro_marker = (all \<noteq> [] \<or> ss \<noteq> [])\<rparr>)))))"

definition str_of_status :: "pyval \<Rightarrow> string" where
  "str_of_status k = (case k of PStr s \<Rightarrow> s
     | PInt i \<Rightarrow> if i < 0 then ''-'' @ str_of_nat (nat (- i)) else str_of_nat (nat i) | _ \<Rightarrow> [])"

definition pop_success :: "canon_response option \<Rightarrow> (pyval \<times> pyval) list \<Rightarrow> (pyval \<times> pyval) list" where
  "pop_success response d =
     (case response of None \<Rightarrow> d
      | Some c \<Rightarrow> map (\<lambda>(k, v). if k = PInt (cr_status c)
                       then (k, PDict (drop_member success_extension (dict_body v))) else (k, v)) d)"

definition canon_responses ::
    "(int \<Rightarrow> string option) \<Rightarrow> store \<Rightarrow> docs \<Rightarrow> router \<Rightarrow> err list \<Rightarrow> int list
      \<Rightarrow> canon_response option \<Rightarrow> (router_error, (pyval \<times> pyval) list option) result" where
  \<comment> \<open>the compiled responses of a route, none when nothing is declared\<close>
  "canon_responses phrase st dc ro declared statuses response =
     (if declared \<noteq> [] \<or> statuses \<noteq> []
      then rbind (lift_router (compile_responses phrase st dc
               (case ro_registry ro of Some r \<Rightarrow> r
                | None \<Rightarrow> \<lparr>rg_name = None, rg_base = None, rg_entries = [], rg_by_exception = []\<rparr>)
               declared (map PInt statuses) response))
             (\<lambda>d. Inr (Some (pop_success response d)))
      else (case response of
              Some c \<Rightarrow> Inr (Some [(PInt (cr_status c), PDict (as_openapi c))])
            | None \<Rightarrow> Inr None))"

definition router_responses ::
    "(int \<Rightarrow> string option) \<Rightarrow> store \<Rightarrow> docs \<Rightarrow> router \<Rightarrow> (pyval \<times> pyval) list \<Rightarrow> err list \<Rightarrow> int list
      \<Rightarrow> canon_response option \<Rightarrow> (pyval \<times> pyval) list option \<Rightarrow> (router_error, (pyval \<times> pyval) list) result" where
  \<comment> \<open>\<open>_responses_for_route\<close>; \<open>inherited\<close> are the router's own FastAPI responses\<close>
  "router_responses phrase st dc ro inherited local_raises http_statuses response configured =
     (let manual = (case configured of None \<Rightarrow> [] | Some m \<Rightarrow> m);
          taken = map str_of_status (map fst inherited @ map fst manual)
      in rbind (canon_responses phrase st dc ro (fromkeys (ro_raises ro @ local_raises))
                  (fromkeys (ro_statuses ro @ http_statuses)) response) (\<lambda>canon.
           case canon of
             None \<Rightarrow> Inr manual
           | Some d \<Rightarrow>
               if list_ex (\<lambda>k. str_of_status k \<in> set taken) (map fst d)
               then Inl (Rt_response ''Canon response status conflicts with a FastAPI responses declaration'')
               else Inr (fold (\<lambda>(k, v). dict_set k v) d manual)))"

definition route_status ::
    "canon_response option \<Rightarrow> bool \<Rightarrow> int option \<Rightarrow> (router_error, int option) result" where
  \<comment> \<open>the success status of a route; the flag says that a response model is configured\<close>
  "route_status response model status_code =
     (case response of
        None \<Rightarrow> Inr status_code
      | Some c \<Rightarrow>
          if cr_media c = None \<and> model then Inl (Rt_response ''response_model conflicts with bodyless CanonResponse'')
          else if status_code = None then Inr (Some (cr_status c))
          else if status_code \<noteq> Some (cr_status c) then Inl (Rt_response ''response status differs from status_code'')
          else Inr status_code)"

section \<open>Compiled responses are read back exactly\<close>

lemmas extension_names = errors_extension_def http_statuses_extension_def success_extension_def

lemma known_error_member:
  assumes "e \<in> set (registry_errors g)"
  shows "known_error (Some g) (PStr (str_of_nat e)) = Inr e"
proof -
  have "e \<in> set es \<Longrightarrow> List.find (\<lambda>x. str_of_nat x = str_of_nat e) es = Some e" for es
    by (induction es) auto
  with assms show ?thesis by (simp add: known_error_def)
qed

lemma response_members:
  assumes "response_for_contracts phrase st dc es h = Inr d"
  shows "member d errors_extension =
           (if es = [] then None else Some (PList (map (\<lambda>e. PStr (str_of_nat e)) es)))"
    and "member d http_statuses_extension = map_option (\<lambda>s. PList [PInt s]) h"
    and "member d success_extension = None"
  using assms
  by (auto simp: response_for_contracts_def Let_def map_of_append extension_names split: option.splits if_splits list.splits)

lemma add_new_fromkeys: "add_new ys (fromkeys xs) = fromkeys (xs @ ys)"
proof -
  have "uniq_from (fromkeys xs) ys = uniq_from (xs @ []) ys"
    by (rule uniq_from_cong) simp
  then show ?thesis by (simp add: add_new_def uniq_from_append)
qed

lemma rmap_Inr_map: "(\<And>x. x \<in> set xs \<Longrightarrow> f x = Inr (g x)) \<Longrightarrow> rmap f xs = Inr (map g xs)"
  by (induction xs) auto

lemma read_compiled:
  assumes "response_for_contracts phrase st dc es h = Inr d"
    and "set es \<subseteq> set (registry_errors g)"
    and "\<And>s. h = Some s \<Longrightarrow> 400 \<le> s \<and> s \<le> 599"
  shows "read_response (Some g) (PInt k, PDict d)
           \<lparr>ct_errors = fromkeys xs, ct_statuses = fromkeys hs, ct_success = c\<rparr> =
         Inr \<lparr>ct_errors = fromkeys (xs @ es), ct_statuses = fromkeys (hs @ (case h of None \<Rightarrow> [] | Some s \<Rightarrow> [s])),
              ct_success = c\<rparr>"
proof -
  have "rmap (known_error (Some g)) (map (\<lambda>e. PStr (str_of_nat e)) es) = Inr es"
    using assms(2) by (induction es) (auto simp: known_error_member)
  then have 1: "read_errors (Some g) d \<lparr>ct_errors = fromkeys xs, ct_statuses = fromkeys hs, ct_success = c\<rparr>
    = Inr \<lparr>ct_errors = fromkeys (xs @ es), ct_statuses = fromkeys hs, ct_success = c\<rparr>"
    by (simp add: read_errors_def response_members(1) [OF assms(1)] add_new_fromkeys list_all_iff is_str_def)
  have 2: "read_statuses d \<lparr>ct_errors = fromkeys (xs @ es), ct_statuses = fromkeys hs, ct_success = c\<rparr>
    = Inr \<lparr>ct_errors = fromkeys (xs @ es),
           ct_statuses = fromkeys (hs @ (case h of None \<Rightarrow> [] | Some s \<Rightarrow> [s])), ct_success = c\<rparr>"
    using assms(3)
    by (cases h) (auto simp: read_statuses_def response_members(2) [OF assms(1)] add_new_fromkeys error_status_def)
  show ?thesis
    by (simp add: read_response_def 1 2 read_success_def response_members(3) [OF assms(1)])
qed

lemma read_compiled_list:
  assumes "rmap (compile_one phrase st dc errors https) ss = Inr compiled"
    and "set errors \<subseteq> set (registry_errors g)" and "\<forall>s\<in>set https. 400 \<le> s \<and> s \<le> 599"
  shows "rfold (read_response (Some g)) compiled
           \<lparr>ct_errors = fromkeys xs, ct_statuses = fromkeys hs, ct_success = c\<rparr> =
         Inr \<lparr>ct_errors = fromkeys (xs @ concat (map (group_errors st errors) ss)),
              ct_statuses = fromkeys (hs @ filter (\<lambda>s. s \<in> set https) ss), ct_success = c\<rparr>"
  using assms(1)
proof (induction ss arbitrary: compiled xs hs)
  case (Cons s ss)
  let ?h = "if s \<in> set https then Some s else None"
  from Cons.prems obtain p rest where one: "compile_one phrase st dc errors https s = Inr p"
    and rest: "rmap (compile_one phrase st dc errors https) ss = Inr rest" and cp: "compiled = p # rest"
    by auto
  from one obtain d where
    d: "response_for_contracts phrase st dc (group_errors st errors s) ?h = Inr d"
    and p: "p = (PInt s, PDict d)"
    by (auto simp: compile_one_def)
  have "set (group_errors st errors s) \<subseteq> set (registry_errors g)"
    using assms(2) by (auto simp: group_errors_def)
  note step = read_compiled [OF d this, of s xs hs]
  show ?case
  proof (cases "s \<in> set https")
    case True
    with step assms(3) show ?thesis by (simp add: cp p Cons.IH [OF rest])
  next
    case False
    with step show ?thesis by (simp add: cp p Cons.IH [OF rest])
  qed
qed simp

lemma check_statuses_Cons:
  assumes "check_statuses st errors i seen (v # vs) = Inr ss"
  obtains s r where "v = PInt s" "ss = s # r" "400 \<le> s" "s \<le> 599" "s \<notin> set seen"
    "\<not> list_ex (\<lambda>e. ed_code (st e) = http_code s) (group_errors st errors s)"
    "check_statuses st errors (Suc i) (s # seen) vs = Inr r"
  using assms by (cases v) (simp_all del: list_ex_iff split: if_splits, blast)

lemma check_statuses_ok:
  "check_statuses st errors i seen vs = Inr ss \<Longrightarrow>
     vs = map PInt ss \<and> distinct ss \<and> set ss \<inter> set seen = {} \<and> (\<forall>s\<in>set ss. 400 \<le> s \<and> s \<le> 599)"
proof (induction vs arbitrary: i seen ss)
  case (Cons v vs)
  from Cons.prems obtain s r where s: "v = PInt s" "ss = s # r" "400 \<le> s" "s \<le> 599" "s \<notin> set seen"
    "check_statuses st errors (Suc i) (s # seen) vs = Inr r"
    by (rule check_statuses_Cons)
  with Cons.IH [OF s(6)] show ?case by auto
qed simp

lemma concat_groups_skip:
  assumes "\<forall>s\<in>set ts. s \<notin> (\<lambda>e. ed_status (st e)) ` set errors"
  shows "concat (map (group_errors st errors) (ss @ ts)) = concat (map (group_errors st errors) ss)"
proof -
  have "group_errors st errors s = []" if "s \<in> set ts" for s
    using assms that by (auto simp: group_errors_def filter_empty_conv)
  then have "concat (map (group_errors st errors) ts) = []" by auto
  then show ?thesis by simp
qed

lemma set_groups:
  "set (concat (map (group_errors st errors) (fromkeys (map (\<lambda>e. ed_status (st e)) errors)))) = set errors"
  by (auto simp: group_errors_def)

lemma contains_member: "contains st g e \<Longrightarrow> registry_wf st g \<Longrightarrow> e \<in> set (registry_errors g)"
  by (auto simp: contains_def registry_wf_def registry_errors_def split: option.splits)

lemma success_members:
  "member (put success_extension m (as_openapi c)) errors_extension = None"
  "member (put success_extension m (as_openapi c)) http_statuses_extension = None"
  "member (put success_extension m (as_openapi c)) success_extension = Some m"
  by (auto simp: as_openapi_def extension_names dict_get_set split: option.splits)

lemma read_success_response:
  assumes "cr_media c \<noteq> Some []"
  shows "rfold (read_response g) (success_responses c) empty_contract =
    Inr (empty_contract\<lparr>ct_success := Some (cr_status c, cr_media c)\<rparr>)"
  using assms
  by (cases "cr_media c")
     (simp_all add: success_responses_def read_response_def read_errors_def read_statuses_def
       read_success_def success_members int_of_key_def empty_contract_def)

lemma new_response_sound:
  assumes "new_response media status schema description headers = Inr c"
  shows "cr_media c \<noteq> Some [] \<and> 200 \<le> cr_status c \<and> cr_status c \<le> 399 \<and>
    (cr_media c = None \<longrightarrow> cr_schema c = None) \<and> (cr_media c \<noteq> None \<longrightarrow> cr_status c \<notin> {204, 304}) \<and>
    pred_option frozen (cr_schema c)"
proof -
  from assms obtain n m d s h where parts: "validate_status status = Inr n" "validate_media_type media = Inr m"
    "normalize_schema schema = Inr s"
    "\<not> (m = None \<and> s \<noteq> None)" "\<not> (m \<noteq> None \<and> n \<in> {204, 304})"
    and c: "c = \<lparr>cr_status = n, cr_media = m, cr_schema = s, cr_description = d, cr_headers = h\<rparr>"
    by (auto simp: new_response_def simp del: not_None_eq split: if_splits)
  have n: "200 \<le> n \<and> n \<le> 399"
    using parts(1) by (auto simp: validate_status_def split: pyval.splits if_splits)
  have m: "m \<noteq> Some []"
    using parts(2) by (auto simp: validate_media_type_def media_type_ok_def str_lower_def split: pyval.splits if_splits)
  have s: "pred_option frozen s"
    using parts(3) freeze_frozen(3) by (auto simp: normalize_schema_def split: pyval.splits)
  from n m s parts(4,5) show ?thesis by (auto simp: c)
qed

lemma compile_responses_parts:
  assumes "compile_responses phrase st dc g errors vs success = Inr responses"
  obtains https compiled where "\<forall>e\<in>set errors. contains st g e"
    "check_statuses st errors 0 [] vs = Inr https"
    "rmap (compile_one phrase st dc errors https) (fromkeys (map (\<lambda>e. ed_status (st e)) errors @ https)) = Inr compiled"
    "responses = (case success of None \<Rightarrow> [] | Some c \<Rightarrow> success_responses c) @ compiled"
proof -
  from assms obtain us https compiled where
    u: "rmap (\<lambda>e. ensure (contains st g e) (Cfg_at ''error does not belong to this registry'' (ed_code (st e)))) errors = Inr us"
    and p: "check_statuses st errors 0 [] vs = Inr https"
    "rmap (compile_one phrase st dc errors https) (fromkeys (map (\<lambda>e. ed_status (st e)) errors @ https)) = Inr compiled"
    "responses = (case success of None \<Rightarrow> [] | Some c \<Rightarrow> success_responses c) @ compiled"
    unfolding compile_responses_def Let_def by (cases success) (auto split: if_splits)
  from u have "\<forall>e\<in>set errors. contains st g e"
    by (induction errors arbitrary: us) auto
  with p that show thesis by blast
qed

text \<open>
  Claim C21. What \<open>compile_responses\<close> writes into a route's OpenAPI responses is read back by
  \<open>contracts_from_responses\<close> exactly: the declared errors, grouped by status in the order in
  which the statuses first appear and each once, the declared HTTP statuses, and the success
  contract.
\<close>

theorem response_contract_roundtrip:
  assumes "compile_responses phrase st dc g errors vs success = Inr responses"
    and "registry_wf st g" and "\<forall>c. success = Some c \<longrightarrow> cr_media c \<noteq> Some []"
  shows "\<exists>https. vs = map PInt https \<and> distinct https \<and>
    contracts_from_responses (Some g) responses = Inr
      \<lparr>ct_errors = fromkeys (concat (map (group_errors st errors) (fromkeys (map (\<lambda>e. ed_status (st e)) errors)))),
       ct_statuses = filter (\<lambda>s. s \<in> set https) (fromkeys (map (\<lambda>e. ed_status (st e)) errors @ https)),
       ct_success = map_option (\<lambda>c. (cr_status c, cr_media c)) success\<rparr>"
proof -
  let ?ks = "map (\<lambda>e. ed_status (st e)) errors"
  obtain https compiled where p: "\<forall>e\<in>set errors. contains st g e" "check_statuses st errors 0 [] vs = Inr https"
    "rmap (compile_one phrase st dc errors https) (fromkeys (?ks @ https)) = Inr compiled"
    "responses = (case success of None \<Rightarrow> [] | Some c \<Rightarrow> success_responses c) @ compiled"
    using assms(1) by (rule compile_responses_parts)
  note ok = check_statuses_ok [OF p(2)]
  let ?c = "map_option (\<lambda>c. (cr_status c, cr_media c)) success"
  have first: "rfold (read_response (Some g)) (case success of None \<Rightarrow> [] | Some c \<Rightarrow> success_responses c)
      empty_contract = Inr (empty_contract\<lparr>ct_success := ?c\<rparr>)"
    using assms(3) read_success_response [of _ "Some g"] by (cases success) (auto simp: empty_contract_def)
  have members: "set errors \<subseteq> set (registry_errors g)"
    using p(1) assms(2) contains_member by blast
  have range: "\<forall>s\<in>set https. 400 \<le> s \<and> s \<le> 599" using ok by blast
  have groups: "concat (map (group_errors st errors) (fromkeys (?ks @ https))) =
      concat (map (group_errors st errors) (fromkeys ?ks))"
    unfolding uniq_from_append by (rule concat_groups_skip) auto
  have "rfold (read_response (Some g)) compiled (empty_contract\<lparr>ct_success := ?c\<rparr>) = Inr
      \<lparr>ct_errors = fromkeys (concat (map (group_errors st errors) (fromkeys ?ks))),
       ct_statuses = filter (\<lambda>s. s \<in> set https) (fromkeys (?ks @ https)), ct_success = ?c\<rparr>"
    using read_compiled_list [OF p(3) members range, of "[]" "[]"] groups
    by (simp add: empty_contract_def)
  with ok first show ?thesis
    by (intro exI [of _ https]) (simp add: contracts_from_responses_def p(4) rfold_append)
qed

section \<open>Composition with manual responses\<close>

lemma compile_one_key:
  "compile_one phrase st dc errors https s = Inr p \<Longrightarrow> fst p = PInt s \<and>
     (\<forall>e\<in>set (group_errors st errors s). \<exists>d ids. snd p = PDict d \<and>
        member d errors_extension = Some (PList ids) \<and> PStr (str_of_nat e) \<in> set ids)"
  by (auto simp: compile_one_def response_members(1) split del: if_split) (auto split: if_splits)

lemma compiled_keys:
  "rmap (compile_one phrase st dc errors https) ss = Inr compiled \<Longrightarrow> map fst compiled = map PInt ss"
  by (induction ss arbitrary: compiled) (auto dest: compile_one_key)

lemma compiled_entry:
  assumes "rmap (compile_one phrase st dc errors https) ss = Inr compiled" and "e \<in> set errors"
    and "ed_status (st e) \<in> set ss"
  shows "\<exists>d ids. (PInt (ed_status (st e)), PDict d) \<in> set compiled \<and>
    member d errors_extension = Some (PList ids) \<and> PStr (str_of_nat e) \<in> set ids"
  using assms(1,3)
proof (induction ss arbitrary: compiled)
  case (Cons s ss)
  from Cons.prems(1) obtain p rest where p: "compile_one phrase st dc errors https s = Inr p"
    and rest: "rmap (compile_one phrase st dc errors https) ss = Inr rest" and c: "compiled = p # rest"
    by auto
  show ?case
  proof (cases "s = ed_status (st e)")
    case True
    then have "e \<in> set (group_errors st errors s)" using assms(2) by (simp add: group_errors_def)
    with compile_one_key [OF p] obtain d ids where "snd p = PDict d" "member d errors_extension = Some (PList ids)"
      "PStr (str_of_nat e) \<in> set ids" by blast
    moreover from compile_one_key [OF p] True have "fst p = PInt (ed_status (st e))" by simp
    ultimately have "p = (PInt (ed_status (st e)), PDict d)" by (cases p) simp
    with \<open>member d errors_extension = Some (PList ids)\<close> \<open>PStr (str_of_nat e) \<in> set ids\<close>
    show ?thesis by (auto simp: c)
  next
    case False
    with Cons.IH [OF rest] Cons.prems(2) show ?thesis by (auto simp: c)
  qed
qed simp

lemma compile_responses_keys:
  assumes "compile_responses phrase st dc g errors vs success = Inr responses"
  shows "distinct (map fst responses) \<and> (\<forall>e\<in>set errors. \<exists>d ids.
    (PInt (ed_status (st e)), PDict d) \<in> set responses \<and>
    member d errors_extension = Some (PList ids) \<and> PStr (str_of_nat e) \<in> set ids)"
proof -
  let ?ks = "map (\<lambda>e. ed_status (st e)) errors"
  obtain https compiled where p: "check_statuses st errors 0 [] vs = Inr https"
    "rmap (compile_one phrase st dc errors https) (fromkeys (?ks @ https)) = Inr compiled"
    "responses = (case success of None \<Rightarrow> [] | Some c \<Rightarrow> success_responses c) @ compiled"
    using assms by (rule compile_responses_parts)
  have keys: "map fst compiled = map PInt (fromkeys (?ks @ https))" by (rule compiled_keys [OF p(2)])
  have dist: "distinct (map fst compiled)"
    unfolding keys by (rule distinct_map [THEN iffD2]) (simp add: inj_on_def)
  have fresh: "PInt (cr_status c) \<notin> fst ` set compiled" if "success = Some c" for c
  proof -
    have "cr_status c \<notin> set (fromkeys (?ks @ https))"
      using assms p(1) p(2) that by (auto simp: compile_responses_def Let_def split: if_splits)
    then have "PInt (cr_status c) \<notin> set (map fst compiled)" unfolding keys by auto
    then show ?thesis by simp
  qed
  have "distinct (map fst responses)"
    using dist fresh by (cases success) (auto simp: p(3) success_responses_def)
  moreover have "\<exists>d ids. (PInt (ed_status (st e)), PDict d) \<in> set responses \<and>
      member d errors_extension = Some (PList ids) \<and> PStr (str_of_nat e) \<in> set ids" if "e \<in> set errors" for e
    using compiled_entry [OF p(2) that] that by (auto simp: p(3))
  ultimately show ?thesis by blast
qed

lemma fold_dict_set_append:
  "distinct (map fst d) \<Longrightarrow> fst ` set d \<inter> fst ` set m = {} \<Longrightarrow> fold (\<lambda>(k, v). dict_set k v) d m = m @ d"
proof (induction d arbitrary: m)
  case (Cons p d)
  then have "fst p \<notin> fst ` set m" by auto
  then have "dict_set (fst p) (snd p) m = m @ [p]" by (simp add: dict_set_fresh)
  with Cons show ?case by (cases p) auto
qed simp

definition documents :: "(pyval \<times> pyval) list \<Rightarrow> store \<Rightarrow> err \<Rightarrow> bool" where
  \<comment> \<open>the response of the error's status lists the error\<close>
  "documents responses st e =
     (case dict_get responses (PInt (ed_status (st e))) of
        Some (PDict d) \<Rightarrow>
          (case member d errors_extension of
             Some (PList ids) \<Rightarrow> PStr (str_of_nat e) \<in> set ids | _ \<Rightarrow> False)
      | _ \<Rightarrow> False)"

lemma documentsI:
  "dict_get responses (PInt (ed_status (st e))) = Some (PDict d) \<Longrightarrow>
   member d errors_extension = Some (PList ids) \<Longrightarrow> PStr (str_of_nat e) \<in> set ids \<Longrightarrow> documents responses st e"
  by (simp add: documents_def)

lemma pop_success_keys: "map fst (pop_success response d) = map fst d"
  by (auto simp: pop_success_def split: option.split)

lemma pop_success_entry:
  assumes "(k, PDict d) \<in> set ds" and "member d errors_extension = Some v"
  shows "\<exists>d'. (k, PDict d') \<in> set (pop_success response ds) \<and> member d' errors_extension = Some v"
proof (cases response)
  case None
  with assms show ?thesis by (auto simp: pop_success_def)
next
  case (Some c)
  let ?d = "if k = PInt (cr_status c) then drop_member success_extension d else d"
  have "(k, PDict ?d) \<in> set (pop_success response ds)"
    using assms(1) by (force simp: pop_success_def Some dict_body_def)
  moreover have "member ?d errors_extension = Some v"
    using assms(2) by (simp add: drop_member_def dict_get_pop extension_names)
  ultimately show ?thesis by blast
qed

lemma canon_responses_sound:
  assumes "canon_responses phrase st dc ro declared statuses response = Inr canon"
  shows "distinct (map fst (case canon of None \<Rightarrow> [] | Some d \<Rightarrow> d)) \<and>
    (\<forall>e\<in>set declared. documents (case canon of None \<Rightarrow> [] | Some d \<Rightarrow> d) st e)"
proof (cases "declared \<noteq> [] \<or> statuses \<noteq> []")
  case True
  with assms obtain g ds where c: "compile_responses phrase st dc g declared (map PInt statuses) response = Inr ds"
    and d: "canon = Some (pop_success response ds)"
    unfolding canon_responses_def by (auto simp: lift_router_def split: sum.splits)
  note keys = compile_responses_keys [OF c]
  have dist: "distinct (map fst (pop_success response ds))" using keys by (simp add: pop_success_keys)
  have "documents (pop_success response ds) st e" if "e \<in> set declared" for e
  proof -
    from keys that obtain b ids where b: "(PInt (ed_status (st e)), PDict b) \<in> set ds"
      "member b errors_extension = Some (PList ids)" "PStr (str_of_nat e) \<in> set ids" by blast
    from pop_success_entry [OF b(1,2), of response] obtain b' where
      "(PInt (ed_status (st e)), PDict b') \<in> set (pop_success response ds)"
      "member b' errors_extension = Some (PList ids)" by blast
    with dist b(3) show ?thesis by (intro documentsI [of _ st e b' ids]) simp_all
  qed
  with dist show ?thesis by (simp add: d)
next
  case False
  with assms show ?thesis by (auto simp: canon_responses_def split: option.splits)
qed

lemma router_responses_append:
  assumes "router_responses phrase st dc ro inherited local_raises http_statuses response configured = Inr out"
    and manual: "manual = (case configured of None \<Rightarrow> [] | Some m \<Rightarrow> m)"
  obtains canon where "out = manual @ canon" "distinct (map fst canon)"
    "\<forall>k\<in>fst ` set canon. str_of_status k \<notin> set (map str_of_status (map fst inherited @ map fst manual))"
    "\<forall>e\<in>set (ro_raises ro @ local_raises). documents canon st e"
proof -
  let ?taken = "map str_of_status (map fst inherited @ map fst manual)"
  from assms obtain canon where canon: "canon_responses phrase st dc ro (fromkeys (ro_raises ro @ local_raises))
      (fromkeys (ro_statuses ro @ http_statuses)) response = Inr canon"
    and out: "(case canon of None \<Rightarrow> Inr manual
     | Some d \<Rightarrow> if list_ex (\<lambda>k. str_of_status k \<in> set ?taken) (map fst d)
         then Inl (Rt_response ''Canon response status conflicts with a FastAPI responses declaration'')
         else Inr (fold (\<lambda>(k, v). dict_set k v) d manual)) = Inr out"
    unfolding router_responses_def Let_def by (simp only: rbind_eq_Inr) blast
  note sound = canon_responses_sound [OF canon]
  show thesis
  proof (cases canon)
    case None
    with sound out that [of "[]"] show thesis by simp
  next
    case (Some d)
    with out have "\<not> list_ex (\<lambda>k. str_of_status k \<in> set ?taken) (map fst d)"
      and eq: "out = fold (\<lambda>(k, v). dict_set k v) d manual"
      by (simp_all split: if_splits)
    then have free: "\<forall>k\<in>fst ` set d. str_of_status k \<notin> set ?taken"
      by (simp add: list_ex_iff del: set_append)
    then have disj: "fst ` set d \<inter> fst ` set manual = {}" by force
    from sound Some have "distinct (map fst d)" by simp
    with disj have "out = manual @ d" by (simp add: eq fold_dict_set_append)
    with free sound Some that [of d] show thesis by simp
  qed
qed

text \<open>
  The responses a route registers keep every response the caller configured as it is
  and document every error the router or the route declares at the error's own status; no
  compiled status equals one that the caller or the router configured by hand.
\<close>

theorem router_responses_compose:
  assumes "router_responses phrase st dc ro inherited local_raises http_statuses response configured = Inr out"
    and "manual = (case configured of None \<Rightarrow> [] | Some m \<Rightarrow> m)" and "wf_dict manual"
  shows "take (length manual) out = manual \<and> wf_dict out \<and>
    (\<forall>k\<in>set (map fst (drop (length manual) out)). k \<notin> set (map fst inherited)) \<and>
    (\<forall>e\<in>set (ro_raises ro @ local_raises). documents out st e)"
proof -
  obtain canon where c: "out = manual @ canon" "distinct (map fst canon)"
    "\<forall>k\<in>fst ` set canon. str_of_status k \<notin> set (map str_of_status (map fst inherited @ map fst manual))"
    "\<forall>e\<in>set (ro_raises ro @ local_raises). documents canon st e"
    using assms(1,2) by (rule router_responses_append)
  have disj: "fst ` set canon \<inter> fst ` set manual = {}" using c(3) by force
  have "documents out st e" if "e \<in> set (ro_raises ro @ local_raises)" for e
  proof -
    from that c(4) have doc: "documents canon st e" by simp
    then obtain d where "dict_get canon (PInt (ed_status (st e))) = Some d"
      by (auto simp: documents_def split: option.splits)
    then have "PInt (ed_status (st e)) \<in> fst ` set canon" by (force dest: map_of_SomeD)
    with disj have "dict_get manual (PInt (ed_status (st e))) = None" by (auto simp: map_of_eq_None_iff)
    then have "dict_get out (PInt (ed_status (st e))) = dict_get canon (PInt (ed_status (st e)))"
      by (simp add: c(1) map_of_append map_add_def split: option.splits)
    with doc show ?thesis by (simp add: documents_def)
  qed
  moreover have "\<forall>k\<in>set (map fst canon). k \<notin> set (map fst inherited)" using c(3) by force
  ultimately show ?thesis
    using assms(3) c(2) disj by (auto simp: wf_dict_def c(1))
qed

section \<open>Witnesses\<close>

definition sample_docs :: docs where
  "sample_docs e = \<lparr>do_description = None, do_headers = [(''Retry-After'', PDict [])], do_example = None\<rparr>"

definition sample_success :: canon_response where
  "sample_success = \<lparr>cr_status = 200, cr_media = Some ''application/json'', cr_schema = None,
     cr_description = ''ok'', cr_headers = []\<rparr>"

definition sample_compiled :: "(pyval \<times> pyval) list" where
  "sample_compiled = (case compile_responses (\<lambda>_. None) sample_store sample_docs sample_registry [1, 0]
     [PInt 409, PInt 404] (Some sample_success) of Inr d \<Rightarrow> d | Inl _ \<Rightarrow> [])"

lemma sample_compiled_made:
  "compile_responses (\<lambda>_. None) sample_store sample_docs sample_registry [1, 0]
     [PInt 409, PInt 404] (Some sample_success) = Inr sample_compiled"
  by code_simp

theorem response_contract_roundtrip_witness:
  "succeeds (contracts_from_responses (Some sample_registry) sample_compiled)"
  using response_contract_roundtrip [OF sample_compiled_made sample_registry_wf]
  by (auto simp: sample_success_def)

definition sample_router :: router where
  "sample_router = \<lparr>ro_namespace = PNone, ro_registry = Some sample_registry, ro_raises = [1], ro_statuses = [409],
     ro_dependencies = [], ro_marker = True\<rparr>"

definition sample_manual :: "(pyval \<times> pyval) list" where
  "sample_manual = [(PInt 418, PDict [(PStr ''description'', PStr ''teapot'')])]"

definition sample_route :: "(pyval \<times> pyval) list" where
  "sample_route = (case router_responses (\<lambda>_. None) sample_store sample_docs sample_router [] [0] []
     (Some sample_success) (Some sample_manual) of Inr d \<Rightarrow> d | Inl _ \<Rightarrow> [])"

lemma sample_route_made:
  "router_responses (\<lambda>_. None) sample_store sample_docs sample_router [] [0] []
     (Some sample_success) (Some sample_manual) = Inr sample_route"
  by code_simp

theorem router_responses_compose_witness:
  "take 1 sample_route = sample_manual \<and> documents sample_route sample_store 0 \<and> documents sample_route sample_store 1"
  using router_responses_compose [OF sample_route_made refl]
  by (simp add: sample_manual_def sample_router_def wf_dict_def)

end
