(* ===== verification/Error_OpenAPI.thy ===== *)
theory Error_OpenAPI
  imports Error_Responses Error_Rendering
begin

text \<open>
  The OpenAPI compiler (\<open>fastapi_canon/error/openapi.py\<close>): the component schemas of errors
  and of the built-in problems, the composition of errors inherited from including routers,
  the contract of Canon streams and the compilation of a generated document, operation by
  operation. A document is a Python value; the source mutates a deep copy of it in place,
  the model returns the updated parts. What pydantic computes is a parameter
  (\<open>openapi_api\<close>): a model's JSON schema, and whether \<open>Problem\<close> accepts an example.
  An index or attribute error of the source is the configuration error \<open>shape_error\<close>.
\<close>

section \<open>Nested access\<close>

definition shape_error :: "(cfg_error, 'a) result" where
  "shape_error = Inl (Cfg ''document has an unexpected shape'')"

fun nested :: "string list \<Rightarrow> pyval \<Rightarrow> pyval option" where
  "nested [] v = Some v"
| "nested (k # ks) v =
     (case v of PDict d \<Rightarrow> (case member d k of None \<Rightarrow> None | Some w \<Rightarrow> nested ks w) | _ \<Rightarrow> None)"

definition body_or_empty :: "pyval option \<Rightarrow> (pyval \<times> pyval) list" where
  \<comment> \<open>\<open>d.get(key, {})\<close>, used as a dictionary\<close>
  "body_or_empty v = (case v of None \<Rightarrow> [] | Some w \<Rightarrow> dict_body w)"

definition update_member ::
    "string \<Rightarrow> ((pyval \<times> pyval) list \<Rightarrow> (pyval \<times> pyval) list) \<Rightarrow> (pyval \<times> pyval) list \<Rightarrow> (pyval \<times> pyval) list" where
  \<comment> \<open>a mutation of \<open>d.setdefault(key, {})\<close>\<close>
  "update_member k f d = put k (PDict (f (body_or_empty (member d k)))) d"

definition put_all :: "(string \<times> pyval) list \<Rightarrow> (pyval \<times> pyval) list \<Rightarrow> (pyval \<times> pyval) list" where
  "put_all kvs d = fold (\<lambda>(k, v). put k v) kvs d"

definition ref_to :: "string \<Rightarrow> pyval" where
  "ref_to reference = pack [(''$ref'', PStr reference)]"

definition problem_media :: string where "problem_media = ''application/problem+json''"

section \<open>Schemas\<close>

definition str_type :: pyval where "str_type = pack [(''type'', PStr ''string'')]"

definition const_of :: "string \<Rightarrow> pyval \<Rightarrow> pyval" where
  "const_of t v = pack [(''type'', PStr t), (''const'', v)]"

definition const_uri :: "string \<Rightarrow> pyval" where
  "const_uri uri = pack [(''type'', PStr ''string''), (''format'', PStr ''uri-reference''), (''const'', PStr uri)]"

definition base_problem_schema :: "(pyval \<times> pyval) list" where
  "base_problem_schema =
     [(PStr ''type'', PStr ''object''), (PStr ''title'', PStr ''Problem''),
      (PStr ''description'', PStr ''RFC 9457 Problem Details with a stable application code.''),
      (PStr ''properties'', pack
         [(''type'', pack [(''type'', PStr ''string''), (''format'', PStr ''uri-reference'')]),
          (''title'', str_type),
          (''status'', pack [(''type'', PStr ''integer''), (''minimum'', PInt 100), (''maximum'', PInt 599)]),
          (''code'', pack [(''type'', PStr ''string''), (''pattern'', PStr ''^[a-z][a-z0-9_]{2,}$'')]),
          (''detail'', str_type),
          (''instance'', pack [(''type'', PStr ''string''), (''format'', PStr ''uri-reference'')])]),
      (PStr ''required'', PList [PStr ''type'', PStr ''title'', PStr ''status'', PStr ''code'']),
      (PStr ''additionalProperties'', PBool True)]"

definition problem_schema_with :: "string \<Rightarrow> (string \<times> pyval) list \<Rightarrow> (pyval \<times> pyval) list" where
  \<comment> \<open>a base schema with its title and some properties replaced\<close>
  "problem_schema_with title props =
     update_member ''properties'' (put_all props) (put ''title'' (PStr title) base_problem_schema)"

definition identity_props :: "string \<Rightarrow> int \<Rightarrow> string \<Rightarrow> (string \<times> pyval) list" where
  "identity_props uri status code =
     [(''type'', const_uri uri), (''title'', str_type), (''status'', const_of ''integer'' (PInt status)),
      (''code'', const_of ''string'' (PStr code))]"

definition http_problem_schema :: "int \<Rightarrow> (pyval \<times> pyval) list" where
  "http_problem_schema status =
     problem_schema_with (http_component_name status) (identity_props ''about:blank'' status (http_code status))"

definition request_validation_schema :: "registry \<Rightarrow> (cfg_error, (pyval \<times> pyval) list) result" where
  "request_validation_schema r =
     (case rg_base r of
        None \<Rightarrow> Inl (Cfg ''type_base is required for the request validation schema'')
      | Some b \<Rightarrow>
          Inr (put ''required'' (PList [PStr ''type'', PStr ''title'', PStr ''status'', PStr ''code'', PStr ''errors''])
            (problem_schema_with ''RequestValidationProblem''
              (identity_props (b @ ''/request_validation_error'') 422 ''request_validation_error'' @
               [(''errors'', pack [(''type'', PStr ''array''), (''items'', pack
                  [(''type'', PStr ''object''),
                   (''properties'', pack
                      [(''code'', str_type), (''detail'', str_type), (''pointer'', str_type), (''parameter'', str_type),
                       (''in'', pack [(''type'', PStr ''string''),
                          (''enum'', PList [PStr ''path'', PStr ''query'', PStr ''header'', PStr ''cookie''])])]),
                   (''required'', PList [PStr ''code'', PStr ''detail'']),
                   (''additionalProperties'', PBool False)])])]))))"

definition internal_error_schema :: "string \<Rightarrow> (pyval \<times> pyval) list" where
  "internal_error_schema base =
     problem_schema_with ''InternalServerProblem''
       (identity_props (base @ ''/internal_server_error'') 500 ''internal_server_error'')"

definition json_type :: "pyval \<Rightarrow> string" where
  "json_type v =
     (case v of PNone \<Rightarrow> ''null'' | PBool _ \<Rightarrow> ''boolean'' | PInt _ \<Rightarrow> ''integer'' | PFloat _ \<Rightarrow> ''number''
      | PStr _ \<Rightarrow> ''string'' | PList _ \<Rightarrow> ''array'' | _ \<Rightarrow> ''object'')"

definition schema_for_static_value :: "pyval \<Rightarrow> pyval" where
  "schema_for_static_value v = pack [(''const'', thaw v), (''type'', PStr (json_type (thaw v)))]"

fun replace_str :: "nat \<Rightarrow> string \<Rightarrow> string \<Rightarrow> string \<Rightarrow> string" where
  \<comment> \<open>\<open>s.replace(old, new)\<close> with a non-empty \<open>old\<close>; the length of s is enough fuel\<close>
  "replace_str 0 old new s = s"
| "replace_str (Suc n) old new s =
     (case s of [] \<Rightarrow> []
      | c # cs \<Rightarrow> if starts_with old s then new @ replace_str n old new (drop (length old) s)
                  else c # replace_str n old new cs)"

fun rewrite_local_definitions :: "string \<Rightarrow> pyval \<Rightarrow> pyval" where
  "rewrite_local_definitions component (PDict kvs) =
     PDict (map (\<lambda>(k, v).
       (k, case (k, v) of
             (PStr key, PStr s) \<Rightarrow>
               if key = ''$ref'' then PStr (replace_str (length s) ''#/$defs/''
                    (''#/components/schemas/'' @ component @ ''/$defs/'') s)
               else PStr s
           | _ \<Rightarrow> rewrite_local_definitions component v)) kvs)"
| "rewrite_local_definitions component (PList xs) = PList (map (rewrite_local_definitions component) xs)"
| "rewrite_local_definitions component v = v"

record openapi_api = render_api +
  model_schema :: "cls list \<Rightarrow> (pyval \<times> pyval) list"
  problem_accepts :: "(pyval \<times> pyval) list \<Rightarrow> bool"

definition same_member :: "(pyval \<times> pyval) list \<Rightarrow> string \<Rightarrow> pyval \<Rightarrow> bool" where
  "same_member d name v = py_eq (case member d name of None \<Rightarrow> PNone | Some w \<Rightarrow> w) v"

definition validate_example ::
    "openapi_api \<Rightarrow> error_def \<Rightarrow> string \<Rightarrow> (pyval \<times> pyval) list \<Rightarrow> (cfg_error, unit) result" where
  "validate_example api e uri example =
     rbind (rmap (\<lambda>(n, v). ensure (same_member example n v) (Cfg_at ''example for error has invalid'' n))
              [(''type'', PStr uri), (''status'', PInt (ed_status e)), (''code'', PStr (ed_code e))]) (\<lambda>_.
     rbind (case ed_extensions e of
              Static kvs \<Rightarrow>
                rmap (\<lambda>(k, v). case k of
                   PStr n \<Rightarrow> ensure (same_member example n (thaw v)) (Cfg_at ''example has invalid extension member'' n)
                 | _ \<Rightarrow> shape_error) kvs
            | _ \<Rightarrow> Inr []) (\<lambda>_.
       ensure (problem_accepts api example \<and>
               (case ed_model e of None \<Rightarrow> True
                | Some m \<Rightarrow> validate_dump api m
                    (filter (\<lambda>(k, v). k \<notin> PStr ` set reserved_members) example) \<noteq> None))
         (Cfg ''example for error has invalid extension members'')))"

definition tag_definitions :: "string \<Rightarrow> string \<Rightarrow> (pyval \<times> pyval) list \<Rightarrow> (pyval \<times> pyval) list" where
  \<comment> \<open>the provenance of the definitions of an extension model\<close>
  "tag_definitions uri schema_name defs =
     map (\<lambda>(k, v). case (k, v) of
        (PStr n, PDict d) \<Rightarrow>
          (let d1 = (if member d ''x-canon-model-id'' = None
                     then put ''x-canon-model-id'' (PStr (uri @ ''#/$defs/'' @ n)) d else d)
           in (k, PDict (if member d1 ''x-canon-model-name'' = None
                         then put ''x-canon-model-name'' (PStr (schema_name @ n)) d1 else d1)))
      | _ \<Rightarrow> (k, v)) defs"

definition required_of :: "(pyval \<times> pyval) list \<Rightarrow> pyval list" where
  "required_of d = (case member d ''required'' of Some (PList xs) \<Rightarrow> xs | _ \<Rightarrow> [])"

definition require_more :: "pyval list \<Rightarrow> (pyval \<times> pyval) list \<Rightarrow> (pyval \<times> pyval) list" where
  "require_more names d = put ''required'' (PList (required_of d @ names)) d"

definition extend_schema ::
    "openapi_api \<Rightarrow> error_def \<Rightarrow> string \<Rightarrow> string \<Rightarrow> (pyval \<times> pyval) list \<Rightarrow> (pyval \<times> pyval) list" where
  \<comment> \<open>the properties of the extension members\<close>
  "extend_schema api e uri schema_name schema =
     (case ed_model e of
        Some m \<Rightarrow>
          (let ext = model_schema api m;
               s1 = update_member ''properties'' (fold (\<lambda>(k, v). dict_set k v) (body_or_empty (member ext ''properties''))) schema;
               s2 = require_more (required_of ext) s1
           in case member ext ''$defs'' of
                None \<Rightarrow> s2
              | Some defs \<Rightarrow> put ''$defs'' (PDict (tag_definitions uri schema_name (dict_body defs))) s2)
      | None \<Rightarrow>
          (case ed_extensions e of
             Static kvs \<Rightarrow>
               require_more (map fst kvs)
                 (update_member ''properties'' (fold (\<lambda>(k, v). dict_set k (schema_for_static_value v)) kvs) schema)
           | _ \<Rightarrow> schema))"

definition compile_problem_schema ::
    "openapi_api \<Rightarrow> store \<Rightarrow> docs \<Rightarrow> registry \<Rightarrow> err \<Rightarrow> bool \<Rightarrow> (cfg_error, (pyval \<times> pyval) list) result" where
  "compile_problem_schema api st dc r e include_status =
     (case type_uri_for st r e of
        Inl _ \<Rightarrow> Inl (Cfg ''error does not belong to this registry'')
      | Inr None \<Rightarrow> Inl (Cfg ''error has no resolved problem type URI'')
      | Inr (Some uri) \<Rightarrow>
          (let d = st e; name = schema_name_of st e;
               s0 = problem_schema_with name (identity_props uri (ed_status d) (ed_code d));
               s1 = (if include_status then s0
                     else put ''required'' (PList (remove1 (PStr ''status'') (required_of s0)))
                            (update_member ''properties'' (drop_member ''status'') s0));
               s2 = extend_schema api d uri name s1
           in case do_example (dc e) of
                None \<Rightarrow> Inr s2
              | Some ex \<Rightarrow>
                  (let example = dict_body (thaw (PDict ex))
                   in rbind (validate_example api d uri example) (\<lambda>_.
                        Inr (put ''examples'' (PList [PDict (if include_status then example
                                                             else drop_member ''status'' example)]) s2)))))"

definition problem_schema ::
    "openapi_api \<Rightarrow> store \<Rightarrow> docs \<Rightarrow> registry \<Rightarrow> err \<Rightarrow> pyval \<Rightarrow> (cfg_error, (pyval \<times> pyval) list) result" where
  \<comment> \<open>\<open>catalog.problem_schema\<close>\<close>
  "problem_schema api st dc r e include_status =
     (case include_status of
        PBool b \<Rightarrow>
          rbind (compile_problem_schema api st dc r e b) (\<lambda>s.
            Inr (put ''$id'' (case type_uri_for st r e of Inr (Some uri) \<Rightarrow> PStr uri | _ \<Rightarrow> PNone) s))
      | _ \<Rightarrow> Inl (Cfg ''include_status must be a bool''))"

definition compile_error_schema ::
    "openapi_api \<Rightarrow> store \<Rightarrow> docs \<Rightarrow> registry \<Rightarrow> err \<Rightarrow> (cfg_error, pyval) result" where
  "compile_error_schema api st dc r e =
     rbind (compile_problem_schema api st dc r e True)
       (\<lambda>s. Inr (rewrite_local_definitions (schema_name_of st e) (PDict s)))"

section \<open>Components and responses\<close>

definition add_component :: "string \<Rightarrow> pyval \<Rightarrow> (pyval \<times> pyval) list \<Rightarrow> (cfg_error, (pyval \<times> pyval) list) result" where
  "add_component name schema comps =
     (case member comps name of
        Some existing \<Rightarrow>
          if existing \<noteq> PNone \<and> \<not> py_eq existing schema
          then Inl (Cfg_at ''OpenAPI component already exists with another schema'' name)
          else Inr (put name schema comps)
      | None \<Rightarrow> Inr (put name schema comps))"

definition retain_success_content :: "pyval \<Rightarrow> (pyval \<times> pyval) list \<Rightarrow> (cfg_error, (pyval \<times> pyval) list) result" where
  "retain_success_content media resp =
     (case media of
        PNone \<Rightarrow> Inr (drop_member ''content'' resp)
      | PStr m \<Rightarrow>
          if m = [] then Inr (drop_member ''content'' resp)
          else (case member resp ''content'' of
                  Some (PDict content) \<Rightarrow>
                    (case member content m of
                       Some c \<Rightarrow> Inr (put ''content'' (PDict [(PStr m, c)]) resp)
                     | None \<Rightarrow> Inl (Cfg_at ''compiled success response is missing media type'' m))
                | _ \<Rightarrow> Inl (Cfg_at ''compiled success response is missing media type'' m))
      | _ \<Rightarrow> Inl (Cfg ''compiled success response contains invalid media type metadata''))"

definition validation_ref :: pyval where
  "validation_ref = ref_to ''#/components/schemas/HTTPValidationError''"

definition is_default_validation_response :: "pyval \<Rightarrow> bool" where
  "is_default_validation_response v =
     (case v of
        PDict resp \<Rightarrow>
          (case member resp ''content'' of
             Some (PDict content) \<Rightarrow>
               (case member content ''application/json'' of
                  Some (PDict media) \<Rightarrow>
                    (case member media ''schema'' of Some s \<Rightarrow> py_eq s validation_ref | None \<Rightarrow> False)
                | _ \<Rightarrow> False)
           | _ \<Rightarrow> False)
      | _ \<Rightarrow> False)"

definition replace_default_validation_response :: "(pyval \<times> pyval) list \<Rightarrow> (pyval \<times> pyval) list" where
  "replace_default_validation_response responses =
     (case member responses ''422'' of
        Some (PDict resp) \<Rightarrow>
          if \<not> is_default_validation_response (PDict resp) then responses
          else put ''422'' (PDict (put ''description'' (PStr ''Request validation failed'')
                 (update_member ''content'' (\<lambda>c. put problem_media
                     (pack [(''schema'', ref_to ''#/components/schemas/RequestValidationProblem'')])
                     (drop_member ''application/json'' c)) resp))) responses
      | _ \<Rightarrow> responses)"

definition identify_variant ::
    "(pyval \<times> pyval) list \<Rightarrow> pyval \<Rightarrow> (string \<times> pyval) list \<Rightarrow> (cfg_error, (string \<times> pyval) list) result" where
  "identify_variant comps variant mapping =
     (case nested [''$ref''] variant of
        Some (PStr reference) \<Rightarrow>
          (let prefix = ''#/components/schemas/'';
               name = (if starts_with prefix reference then drop (length prefix) reference else reference)
           in case nested [name, ''properties'', ''type'', ''const''] (PDict comps) of
                Some (PStr uri) \<Rightarrow>
                  if dict_get mapping uri \<noteq> None then Inl (Cfg_at ''route has ambiguous problem type'' uri)
                  else Inr (mapping @ [(uri, PStr reference)])
              | _ \<Rightarrow> shape_error)
      | _ \<Rightarrow> shape_error)"

definition identify_problem_types ::
    "(pyval \<times> pyval) list \<Rightarrow> (pyval \<times> pyval) list \<Rightarrow> (cfg_error, (pyval \<times> pyval) list) result" where
  "identify_problem_types comps resp =
     (case nested [''content'', problem_media, ''schema''] (PDict resp) of
        Some (PDict schema) \<Rightarrow>
          (case member schema ''oneOf'' of
             Some (PList variants) \<Rightarrow>
               rbind (rfold (identify_variant comps) variants []) (\<lambda>mapping.
                 Inr (update_member ''content'' (update_member problem_media (update_member ''schema''
                   (put ''discriminator'' (pack [(''propertyName'', PStr ''type''), (''mapping'', pack mapping)])))) resp))
           | _ \<Rightarrow> Inr resp)
      | _ \<Rightarrow> shape_error)"

definition has_member :: "string \<Rightarrow> (pyval \<times> pyval) list \<Rightarrow> bool" where
  "has_member k d = (member d k \<noteq> None)"

definition finish_response ::
    "(pyval \<times> pyval) list \<Rightarrow> pyval \<times> pyval \<Rightarrow> (cfg_error, pyval \<times> pyval) result" where
  \<comment> \<open>the loop over the responses of an operation that removes Canon's metadata\<close>
  "finish_response comps p =
     (case snd p of
        PDict resp \<Rightarrow>
          rbind (if has_member errors_extension resp \<or> has_member http_statuses_extension resp
                 then identify_problem_types comps resp else Inr resp) (\<lambda>r1.
          (let r2 = drop_member http_statuses_extension (drop_member errors_extension r1)
           in case member r2 success_extension of
                None \<Rightarrow> Inr (fst p, PDict r2)
              | Some media \<Rightarrow>
                  rbind (retain_success_content media (drop_member success_extension r2))
                    (\<lambda>r3. Inr (fst p, PDict r3))))
      | _ \<Rightarrow> Inr p)"

definition problem_union :: "string \<Rightarrow> string \<Rightarrow> string \<Rightarrow> string \<Rightarrow> pyval" where
  "problem_union code1 reference1 code2 reference2 = pack
     [(''oneOf'', PList [ref_to reference1, ref_to reference2]),
      (''discriminator'', pack [(''propertyName'', PStr ''code''),
         (''mapping'', PDict (put code2 (PStr reference2) [(PStr code1, PStr reference1)]))])]"

definition after_last :: "char \<Rightarrow> string \<Rightarrow> string" where
  \<comment> \<open>\<open>s.rsplit(c, 1)[-1]\<close>\<close>
  "after_last c s = rev (takeWhile (\<lambda>x. x \<noteq> c) (rev s))"

definition add_to_problem ::
    "(pyval \<times> pyval) list \<Rightarrow> string \<Rightarrow> string \<Rightarrow> (pyval \<times> pyval) list \<Rightarrow> (cfg_error, (pyval \<times> pyval) list) result" where
  \<comment> \<open>the schema of an existing problem response, extended by a built-in problem\<close>
  "add_to_problem comps code reference problem =
     (case member problem ''schema'' of
        None \<Rightarrow> shape_error
      | Some schema \<Rightarrow>
          if py_eq schema (ref_to reference) then Inr problem
          else (case schema of
              PDict sd \<Rightarrow>
                (let mapping = body_or_empty (nested [''discriminator'', ''mapping''] schema)
                 in case member sd ''$ref'' of
                      Some (PStr existing) \<Rightarrow>
                        (case nested [after_last CHR ''/'' existing, ''properties'', ''code'', ''const''] (PDict comps) of
                           Some (PStr existing_code) \<Rightarrow>
                             if existing_code = code then Inl (Cfg_at ''problem code conflicts with normalization'' code)
                             else Inr (put ''schema'' (problem_union existing_code existing code reference) problem)
                         | _ \<Rightarrow> Inr problem)
                    | Some _ \<Rightarrow> shape_error
                    | None \<Rightarrow>
                        if has_member ''oneOf'' sd \<and> mapping \<noteq> []
                        then (case member mapping code of
                                Some existing \<Rightarrow>
                                  if \<not> py_eq existing (PStr reference)
                                  then Inl (Cfg_at ''problem code conflicts with normalization'' code)
                                  else Inr problem
                              | None \<Rightarrow>
                                  (case member sd ''oneOf'' of
                                     Some (PList xs) \<Rightarrow>
                                       Inr (put ''schema'' (PDict (update_member ''discriminator''
                                              (update_member ''mapping'' (put code (PStr reference)))
                                              (put ''oneOf'' (PList (xs @ [ref_to reference])) sd))) problem)
                                   | _ \<Rightarrow> shape_error))
                        else Inr problem)
            | _ \<Rightarrow> shape_error))"

definition add_builtin_response ::
    "(pyval \<times> pyval) list \<Rightarrow> (pyval \<times> pyval) list \<Rightarrow> string \<Rightarrow> string \<Rightarrow> string \<Rightarrow> string
      \<Rightarrow> (cfg_error, (pyval \<times> pyval) list) result" where
  "add_builtin_response comps responses status code component title =
     (let reference = schema_ref component;
          resp = (case member responses status of Some v \<Rightarrow> v | None \<Rightarrow> pack [(''description'', PStr title)])
      in case resp of
           PDict rd \<Rightarrow>
             if has_member ''$ref'' rd then Inr (put status resp responses)
             else
               (let content = body_or_empty (member rd ''content'');
                    problem = (case member content problem_media of Some p \<Rightarrow> p
                               | None \<Rightarrow> pack [(''schema'', ref_to reference)])
                in case problem of
                     PDict pd \<Rightarrow>
                       rbind (add_to_problem comps code reference pd) (\<lambda>pd'.
                         Inr (put status (PDict (put ''content''
                           (PDict (put problem_media (PDict pd') content)) rd)) responses))
                   | _ \<Rightarrow> shape_error)
         | _ \<Rightarrow> shape_error)"

definition inherit_response ::
    "(pyval \<times> pyval) list \<Rightarrow> int \<Rightarrow> (pyval \<times> pyval) list \<Rightarrow> (cfg_error, (pyval \<times> pyval) list) result" where
  \<comment> \<open>one inherited status: the generated response replaces none, a Canon response or the default 422\<close>
  "inherit_response generated status resps =
     (let key = str_of_status (PInt status);
          existing = (case member resps key of None \<Rightarrow> PNone | Some v \<Rightarrow> v);
          body = dict_body existing
      in if existing \<noteq> PNone \<and>
            \<not> (has_member errors_extension body \<or> has_member http_statuses_extension body \<or>
               (status = 422 \<and> is_default_validation_response existing))
         then Inl (Cfg_at ''route inherits a response status that conflicts with a FastAPI responses declaration'' key)
         else (case dict_get generated (PInt status) of None \<Rightarrow> shape_error | Some g \<Rightarrow> Inr (put key g resps)))"

definition compose_inherited_responses ::
    "(int \<Rightarrow> string option) \<Rightarrow> store \<Rightarrow> docs \<Rightarrow> registry \<Rightarrow> err list \<times> int list \<Rightarrow> err list \<times> int list
      \<Rightarrow> (pyval \<times> pyval) list \<Rightarrow> (cfg_error, (pyval \<times> pyval) list) result" where
  "compose_inherited_responses phrase st dc r shared local responses =
     rbind (compile_responses phrase st dc r (fromkeys (fst shared @ fst local))
              (map PInt (fromkeys (snd shared @ snd local))) None) (\<lambda>generated.
       rfold (inherit_response generated)
         (fromkeys (map (\<lambda>e. ed_status (st e)) (fst shared) @ snd shared)) responses)"

section \<open>Canon streams\<close>

definition stream_internal_schema :: "string \<Rightarrow> (pyval \<times> pyval) list" where
  "stream_internal_schema uri =
     put ''required'' (PList [PStr ''type'', PStr ''title'', PStr ''code''])
       (update_member ''properties'' (\<lambda>props.
          update_member ''code'' (put ''const'' (PStr ''internal_server_error''))
            (update_member ''type'' (put ''const'' (PStr uri)) (drop_member ''status'' props)))
          base_problem_schema)"

definition control_event :: "string \<Rightarrow> pyval \<Rightarrow> pyval" where
  "control_event event data = pack
     [(''type'', PStr ''object''),
      (''properties'', pack
         [(''event'', const_of ''string'' (PStr event)),
          (''data'', pack [(''type'', PStr ''string''), (''contentMediaType'', PStr ''application/json''),
             (''contentSchema'', data)])]),
      (''required'', PList [PStr ''event'', PStr ''data''])]"

definition stream_item_schema :: "(pyval \<times> pyval) list \<Rightarrow> pyval list \<Rightarrow> pyval" where
  "stream_item_schema business problems =
     pack [(''oneOf'', PList
       [PDict (update_member ''properties'' (update_member ''event''
          (put ''not'' (pack [(''pattern'', PStr (''^canon'' @ [CHR 0x5C, CHR ''.'']))]))) business),
        control_event ''canon.problem'' (pack [(''anyOf'', PList problems)]),
        control_event ''canon.complete'' (pack [(''type'', PStr ''object''), (''maxProperties'', PInt 0)])])]"

definition stream_response_step ::
    "pyval list \<Rightarrow> pyval \<times> pyval \<Rightarrow> (pyval \<times> pyval) list \<times> (pyval \<times> pyval) list
      \<Rightarrow> (cfg_error, (pyval \<times> pyval) list \<times> (pyval \<times> pyval) list) result" where
  \<comment> \<open>one response: the profile and the responses rewritten so far\<close>
  "stream_response_step problems p acc =
     (let (profile, done_resps) = acc
      in case snd p of
           PDict resp \<Rightarrow>
             (case member (body_or_empty (member resp ''content'')) ''text/event-stream'' of
                Some (PDict media) \<Rightarrow>
                  if \<not> starts_with ''2'' (str_of_status (fst p)) then Inr (profile, done_resps @ [p])
                  else (case member media ''itemSchema'' of
                          Some (PDict business) \<Rightarrow>
                            Inr (put ''businessItemSchema'' (PDict business) profile,
                                 done_resps @ [(fst p, PDict (update_member ''content''
                                   (update_member ''text/event-stream''
                                     (put ''itemSchema'' (stream_item_schema business problems))) resp))])
                        | _ \<Rightarrow> Inl (Cfg ''Canon streams require a typed SSE item schema''))
              | _ \<Rightarrow> Inr (profile, done_resps @ [p]))
         | _ \<Rightarrow> shape_error)"

definition compile_stream_contract ::
    "registry option \<Rightarrow> (pyval \<times> pyval) list \<Rightarrow> (pyval \<times> pyval) list \<Rightarrow> (pyval \<times> pyval) list
      \<Rightarrow> (cfg_error, (pyval \<times> pyval) list \<times> (pyval \<times> pyval) list \<times> (pyval \<times> pyval) list) result" where
  \<comment> \<open>returns the profile, the responses and the components\<close>
  "compile_stream_contract r profile responses comps =
     (let name = ''CanonInternalServerErrorEmbedded'';
          uri = (case r of Some g \<Rightarrow> (case rg_base g of Some b \<Rightarrow>
                   if b = [] then ''urn:fastapi-canon:internal_server_error'' else b @ ''/internal_server_error''
                 | None \<Rightarrow> ''urn:fastapi-canon:internal_server_error'')
                 | None \<Rightarrow> ''urn:fastapi-canon:internal_server_error'')
      in rbind (add_component name (PDict (stream_internal_schema uri)) comps) (\<lambda>comps'.
         case member profile ''problems'' of
           Some (PList ps) \<Rightarrow>
             rbind (rfold (stream_response_step (ps @ [ref_to (schema_ref name)])) responses (profile, []))
               (\<lambda>(profile', responses'). Inr (profile', responses', comps'))
         | _ \<Rightarrow> shape_error))"

definition stream_problem_step ::
    "openapi_api \<Rightarrow> store \<Rightarrow> docs \<Rightarrow> registry \<Rightarrow> err \<Rightarrow> (pyval \<times> pyval) list \<times> pyval list
      \<Rightarrow> (cfg_error, (pyval \<times> pyval) list \<times> pyval list) result" where
  "stream_problem_step api st dc r e acc =
     (let (comps, problems) = acc; name = schema_name_of st e @ ''Embedded''
      in rbind (compile_problem_schema api st dc r e False) (\<lambda>schema.
         rbind (add_component name (rewrite_local_definitions name (PDict schema)) comps) (\<lambda>comps'.
           Inr (comps', problems @ [ref_to (schema_ref name)]))))"

definition stream_identities ::
    "(pyval \<times> pyval) list \<Rightarrow> err list option \<Rightarrow> (cfg_error, pyval list) result" where
  "stream_identities stream shared =
     (case (case member stream ''errorIds'' of None \<Rightarrow> Some [] | Some (PList xs) \<Rightarrow> Some xs | _ \<Rightarrow> None) of
        None \<Rightarrow> shape_error
      | Some ids \<Rightarrow>
          Inr (case shared of None \<Rightarrow> ids | Some es \<Rightarrow> fromkeys (ids @ map (\<lambda>e. PStr (str_of_nat e)) es)))"

definition compile_stream ::
    "openapi_api \<Rightarrow> store \<Rightarrow> docs \<Rightarrow> registry option \<Rightarrow> err list option \<Rightarrow> (pyval \<times> pyval) list
      \<Rightarrow> (pyval \<times> pyval) list \<Rightarrow> (cfg_error, (pyval \<times> pyval) list \<times> (pyval \<times> pyval) list) result" where
  \<comment> \<open>the stream metadata of an operation: returns the stream and the components\<close>
  "compile_stream api st dc r shared stream comps =
     (if (case member stream ''version'' of None \<Rightarrow> True | Some v \<Rightarrow> \<not> py_eq v (PInt 1))
      then Inl (Cfg ''Canon streams require an installed error registry'')
      else
        rbind (stream_identities stream shared) (\<lambda>ids.
        rbind (case rmap (known_error r) ids of Inl _ \<Rightarrow> Inl (Cfg ''Canon stream declares an unknown error'')
               | Inr es \<Rightarrow> Inr es) (\<lambda>es.
        rbind (case r of None \<Rightarrow> Inr (comps, []) | Some g \<Rightarrow> rfold (stream_problem_step api st dc g) es (comps, []))
          (\<lambda>(comps', problems).
            Inr (put ''problems'' (PList problems)
                  (put ''completeEvent'' (PStr ''canon.complete'')
                    (put ''problemEvent'' (PStr ''canon.problem'') (drop_member ''errorIds'' stream))), comps')))))"

section \<open>Documents\<close>

record compiler =
  co_registry :: "registry option"
  co_validation :: bool
  co_http :: bool
  co_internal :: bool
  co_inherited :: "string \<Rightarrow> (err list \<times> int list) option"

definition check_operation_id ::
    "string \<Rightarrow> (pyval \<times> pyval) list \<Rightarrow> (string \<times> string) list \<Rightarrow> (cfg_error, (string \<times> string) list) result" where
  "check_operation_id path oper ids =
     (case member oper ''operationId'' of
        None \<Rightarrow> Inr ids
      | Some PNone \<Rightarrow> Inr ids
      | Some (PStr i) \<Rightarrow>
          if blank i then Inl (Cfg_at ''route has an invalid operationId'' path)
          else if dict_get ids i \<noteq> None then Inl (Cfg_at ''duplicate operationId'' i)
          else Inr (dict_set i path ids)
      | Some _ \<Rightarrow> Inl (Cfg_at ''route has an invalid operationId'' path))"

definition inherit_step ::
    "(int \<Rightarrow> string option) \<Rightarrow> store \<Rightarrow> docs \<Rightarrow> compiler \<Rightarrow> string \<Rightarrow> contract \<Rightarrow> (pyval \<times> pyval) list
      \<Rightarrow> (pyval \<times> pyval) list
      \<Rightarrow> (cfg_error, contract \<times> (pyval \<times> pyval) list \<times> (pyval \<times> pyval) list) result" where
  \<comment> \<open>the contract, the operation and its responses after the inherited errors are composed\<close>
  "inherit_step phrase st dc cc path ct oper responses =
     (case co_inherited cc path of
        None \<Rightarrow> Inr (ct, oper, responses)
      | Some shared \<Rightarrow>
          (case co_registry cc of
             None \<Rightarrow> Inl (Cfg ''inherited router errors require an error registry'')
           | Some g \<Rightarrow>
               rbind (compose_inherited_responses phrase st dc g shared (ct_errors ct, ct_statuses ct) responses) (\<lambda>rs.
               rbind (contracts_from_responses (Some g) rs) (\<lambda>ct'.
                 Inr (ct', (if member oper ''callbacks'' = Some (PDict []) then drop_member ''callbacks'' oper else oper), rs)))))"

definition finish_operation ::
    "(int \<Rightarrow> string option) \<Rightarrow> compiler \<Rightarrow> int list \<Rightarrow> (pyval \<times> pyval) list \<Rightarrow> (pyval \<times> pyval) list
      \<Rightarrow> (cfg_error, (pyval \<times> pyval) list \<times> (pyval \<times> pyval) list) result" where
  \<comment> \<open>the components of the HTTP statuses, the metadata removed, the built-in problems added\<close>
  "finish_operation phrase cc statuses responses comps =
     rbind (ensure (statuses = [] \<or> co_http cc) (Cfg ''HTTP exception normalization is disabled'')) (\<lambda>_.
     rbind (rfold (\<lambda>s. add_component (http_component_name s) (PDict (http_problem_schema s))) statuses comps) (\<lambda>comps1.
     rbind (rmap (finish_response comps1) responses) (\<lambda>rs1.
     rbind (if co_validation cc
            then (let rs2 = replace_default_validation_response rs1
                  in if has_member ''422'' rs2
                     then add_builtin_response comps1 rs2 ''422'' ''request_validation_error''
                            ''RequestValidationProblem'' ''Request validation failed''
                     else Inr rs2)
            else Inr rs1) (\<lambda>rs3.
     rbind (if co_internal cc
            then add_builtin_response comps1 rs3 ''500'' ''internal_server_error''
                   ''InternalServerProblem'' ''Internal Server Error''
            else Inr rs3) (\<lambda>rs4. Inr (rs4, comps1))))))"

record compile_state =
  cs_components :: "(pyval \<times> pyval) list"
  cs_ids :: "(string \<times> string) list"

definition compile_operation ::
    "(int \<Rightarrow> string option) \<Rightarrow> openapi_api \<Rightarrow> store \<Rightarrow> docs \<Rightarrow> compiler \<Rightarrow> string \<Rightarrow> (pyval \<times> pyval) list
      \<Rightarrow> compile_state \<Rightarrow> (cfg_error, (pyval \<times> pyval) list \<times> compile_state) result" where
  "compile_operation phrase api st dc cc path oper s =
     rbind (check_operation_id path oper (cs_ids s)) (\<lambda>ids.
     rbind (case member oper ''x-canon-stream'' of
              None \<Rightarrow> Inr (None, cs_components s)
            | Some PNone \<Rightarrow> Inr (None, cs_components s)
            | Some (PDict stream) \<Rightarrow>
                rbind (compile_stream api st dc (co_registry cc) (map_option fst (co_inherited cc path)) stream (cs_components s))
                  (\<lambda>(stream', comps). Inr (Some stream', comps))
            | Some _ \<Rightarrow> shape_error) (\<lambda>(stream, comps1).
     (let responses = body_or_empty (member oper ''responses'')
      in rbind (case stream of
                  None \<Rightarrow> Inr (oper, responses, comps1)
                | Some profile \<Rightarrow>
                    rbind (compile_stream_contract (co_registry cc) profile responses comps1)
                      (\<lambda>(profile', rs, comps). Inr (put ''x-canon-stream'' (PDict profile') oper, rs, comps)))
           (\<lambda>(oper1, rs1, comps2).
         rbind (contracts_from_responses (co_registry cc) rs1) (\<lambda>ct.
         rbind (inherit_step phrase st dc cc path ct oper1 rs1) (\<lambda>(ct', oper2, rs2).
         rbind (finish_operation phrase cc (ct_statuses ct') rs2 comps2) (\<lambda>(rs3, comps3).
           Inr (put ''responses'' (PDict rs3) oper2, \<lparr>cs_components = comps3, cs_ids = ids\<rparr>))))))))"

definition http_methods :: "string list" where
  "http_methods = [''get'', ''put'', ''post'', ''delete'', ''options'', ''head'', ''patch'', ''trace'']"

definition str_upper :: "string \<Rightarrow> string" where
  "str_upper s = map upper_char s"

definition method_operations :: "string \<Rightarrow> (pyval \<times> pyval) list \<Rightarrow> (string \<times> (pyval \<times> pyval) list) list" where
  "method_operations path item =
     List.map_filter (\<lambda>(k, v). case (k, v) of
       (PStr m, PDict oper) \<Rightarrow> if m \<in> set http_methods then Some (str_upper m @ '' '' @ path, oper) else None
     | _ \<Rightarrow> None) item"

definition path_operations :: "pyval \<times> pyval \<Rightarrow> (string \<times> (pyval \<times> pyval) list) list" where
  "path_operations p = (case snd p of PDict item \<Rightarrow> method_operations (str_of_status (fst p)) item | _ \<Rightarrow> [])"

definition iter_operations :: "(pyval \<times> pyval) list \<Rightarrow> (string \<times> (pyval \<times> pyval) list) list" where
  "iter_operations document =
     concat (map (\<lambda>sec. concat (map path_operations (body_or_empty (member document sec)))) [''paths'', ''webhooks''])"

fun update_methods ::
    "(string \<Rightarrow> (pyval \<times> pyval) list \<Rightarrow> 's \<Rightarrow> ('e, (pyval \<times> pyval) list \<times> 's) result) \<Rightarrow> string
      \<Rightarrow> (pyval \<times> pyval) list \<Rightarrow> 's \<Rightarrow> ('e, (pyval \<times> pyval) list \<times> 's) result" where
  "update_methods f path [] s = Inr ([], s)"
| "update_methods f path ((k, v) # rest) s =
     rbind (case (k, v) of
              (PStr m, PDict oper) \<Rightarrow>
                if m \<in> set http_methods
                then rbind (f (str_upper m @ '' '' @ path) oper s) (\<lambda>(oper', s'). Inr (PDict oper', s'))
                else Inr (v, s)
            | _ \<Rightarrow> Inr (v, s)) (\<lambda>(v', s').
     rbind (update_methods f path rest s') (\<lambda>(rest', s''). Inr ((k, v') # rest', s'')))"

fun update_paths ::
    "(string \<Rightarrow> (pyval \<times> pyval) list \<Rightarrow> 's \<Rightarrow> ('e, (pyval \<times> pyval) list \<times> 's) result)
      \<Rightarrow> (pyval \<times> pyval) list \<Rightarrow> 's \<Rightarrow> ('e, (pyval \<times> pyval) list \<times> 's) result" where
  "update_paths f [] s = Inr ([], s)"
| "update_paths f ((k, v) # rest) s =
     rbind (case v of
              PDict item \<Rightarrow> rbind (update_methods f (str_of_status k) item s) (\<lambda>(item', s'). Inr (PDict item', s'))
            | _ \<Rightarrow> Inr (v, s)) (\<lambda>(v', s').
     rbind (update_paths f rest s') (\<lambda>(rest', s''). Inr ((k, v') # rest', s'')))"

definition update_section ::
    "(string \<Rightarrow> (pyval \<times> pyval) list \<Rightarrow> 's \<Rightarrow> ('e, (pyval \<times> pyval) list \<times> 's) result)
      \<Rightarrow> string \<Rightarrow> (pyval \<times> pyval) list \<times> 's \<Rightarrow> ('e, (pyval \<times> pyval) list \<times> 's) result" where
  "update_section f sec acc =
     (case member (fst acc) sec of
        None \<Rightarrow> Inr acc
      | Some items \<Rightarrow>
          rbind (update_paths f (dict_body items) (snd acc))
            (\<lambda>(items', s'). Inr (put sec (PDict items') (fst acc), s')))"

definition update_operations ::
    "(string \<Rightarrow> (pyval \<times> pyval) list \<Rightarrow> 's \<Rightarrow> ('e, (pyval \<times> pyval) list \<times> 's) result)
      \<Rightarrow> (pyval \<times> pyval) list \<Rightarrow> 's \<Rightarrow> ('e, (pyval \<times> pyval) list \<times> 's) result" where
  \<comment> \<open>the loop of \<open>_compile_document\<close> over the generator, with the mutation of each operation\<close>
  "update_operations f document s = rfold (update_section f) [''paths'', ''webhooks''] (document, s)"

definition registry_components ::
    "openapi_api \<Rightarrow> store \<Rightarrow> docs \<Rightarrow> compiler \<Rightarrow> (pyval \<times> pyval) list \<Rightarrow> (cfg_error, (pyval \<times> pyval) list) result" where
  "registry_components api st dc cc comps =
     rbind (case co_registry cc of
              None \<Rightarrow> Inr comps
            | Some g \<Rightarrow>
                rbind (add_component ''Problem'' (PDict base_problem_schema) comps) (\<lambda>c1.
                rfold (\<lambda>e c. rbind (compile_error_schema api st dc g e)
                               (\<lambda>schema. add_component (schema_name_of st e) schema c)) (registry_errors g) c1)) (\<lambda>c2.
     rbind (if \<not> co_validation cc then Inr c2
            else (case co_registry cc of
                    None \<Rightarrow> Inl (Cfg ''validation error normalization requires an error registry'')
                  | Some g \<Rightarrow> rbind (request_validation_schema g)
                      (\<lambda>schema. add_component ''RequestValidationProblem'' (PDict schema) c2))) (\<lambda>c3.
       if \<not> co_internal cc then Inr c3
       else (case co_registry cc of
               None \<Rightarrow> Inl (Cfg ''internal error normalization requires type_base'')
             | Some g \<Rightarrow>
                 (case rg_base g of
                    None \<Rightarrow> Inl (Cfg ''internal error normalization requires type_base'')
                  | Some b \<Rightarrow> add_component ''InternalServerProblem'' (PDict (internal_error_schema b)) c3))))"

definition compile_document ::
    "(int \<Rightarrow> string option) \<Rightarrow> openapi_api \<Rightarrow> store \<Rightarrow> docs \<Rightarrow> compiler \<Rightarrow> (pyval \<times> pyval) list
      \<Rightarrow> (cfg_error, (pyval \<times> pyval) list) result" where
  "compile_document phrase api st dc cc document =
     (let schemas = body_or_empty (member (body_or_empty (member document ''components'')) ''schemas'')
      in rbind (registry_components api st dc cc schemas) (\<lambda>comps.
         rbind (update_operations (compile_operation phrase api st dc cc) document
                  \<lparr>cs_components = comps, cs_ids = []\<rparr>) (\<lambda>(document', s).
           Inr (update_member ''components'' (put ''schemas'' (PDict (cs_components s))) document'))))"

section \<open>A compiled document, operation by operation\<close>

type_synonym ('s) op_step = "string \<Rightarrow> (pyval \<times> pyval) list \<Rightarrow> 's \<Rightarrow> (cfg_error, (pyval \<times> pyval) list \<times> 's) result"

fun run_operations ::
    "'s op_step \<Rightarrow> (string \<times> (pyval \<times> pyval) list) list \<Rightarrow> 's
      \<Rightarrow> (cfg_error, (string \<times> (pyval \<times> pyval) list) list \<times> 's) result" where
  "run_operations f [] s = Inr ([], s)"
| "run_operations f ((p, oper) # ops) s =
     rbind (f p oper s) (\<lambda>(oper', s'). rbind (run_operations f ops s') (\<lambda>(r, s''). Inr ((p, oper') # r, s'')))"

lemma run_operations_append:
  "run_operations f ops s = Inr (r, s') \<Longrightarrow> run_operations f ops' s' = Inr (r', s'') \<Longrightarrow>
     run_operations f (ops @ ops') s = Inr (r @ r', s'')"
proof (induction ops arbitrary: s r)
  case (Cons op ops)
  obtain p oper where op: "op = (p, oper)" by (cases op)
  with Cons.prems obtain oper' s1 r1 where "f p oper s = Inr (oper', s1)" "run_operations f ops s1 = Inr (r1, s')"
    "r = (p, oper') # r1" by auto
  with Cons.IH [of s1 r1] Cons.prems(2) op show ?case by simp
qed simp

lemma update_methods_run:
  "update_methods f path item s = Inr (item', s') \<Longrightarrow>
     run_operations f (method_operations path item) s = Inr (method_operations path item', s')"
proof (induction item arbitrary: s item')
  case (Cons p item)
  obtain k v where p: "p = (k, v)" by (cases p)
  show ?case
  proof (cases "\<exists>m oper. k = PStr m \<and> v = PDict oper \<and> m \<in> set http_methods")
    case True
    then obtain m oper where m: "k = PStr m" "v = PDict oper" "m \<in> set http_methods" by blast
    with Cons.prems obtain oper' s1 rest where "f (str_upper m @ '' '' @ path) oper s = Inr (oper', s1)"
      "update_methods f path item s1 = Inr (rest, s')" "item' = (k, PDict oper') # rest"
      by (auto simp: p)
    with Cons.IH [of s1 rest] m show ?thesis
      by (simp add: p method_operations_def List.map_filter_simps)
  next
    case False
    then have same: "(case (k, v) of
              (PStr m, PDict oper) \<Rightarrow>
                if m \<in> set http_methods
                then rbind (f (str_upper m @ '' '' @ path) oper s) (\<lambda>(oper', s'). Inr (PDict oper', s'))
                else Inr (v, s)
            | _ \<Rightarrow> Inr (v, s)) = Inr (v, s)"
      and none: "(case (k, v) of
       (PStr m, PDict oper) \<Rightarrow> if m \<in> set http_methods then Some (str_upper m @ '' '' @ path, oper) else None
     | _ \<Rightarrow> None) = None"
      by (auto split: pyval.split)
    with Cons.prems obtain rest where "update_methods f path item s = Inr (rest, s')" "item' = (k, v) # rest"
      by (auto simp: p)
    with Cons.IH none show ?thesis by (simp add: p method_operations_def List.map_filter_simps)
  qed
qed (simp add: method_operations_def List.map_filter_simps)

lemma update_paths_run:
  "update_paths f items s = Inr (items', s') \<Longrightarrow>
     run_operations f (concat (map path_operations items)) s = Inr (concat (map path_operations items'), s')"
proof (induction items arbitrary: s items')
  case (Cons p items)
  obtain k v where p: "p = (k, v)" by (cases p)
  show ?case
  proof (cases "\<exists>item. v = PDict item")
    case True
    then obtain item where v: "v = PDict item" by blast
    with Cons.prems obtain item' s1 rest where
      u: "update_methods f (str_of_status k) item s = Inr (item', s1)"
      and rest: "update_paths f items s1 = Inr (rest, s')" "items' = (k, PDict item') # rest"
      by (auto simp: p)
    from run_operations_append [OF update_methods_run [OF u] Cons.IH [OF rest(1)]] show ?thesis
      by (simp add: p v rest(2) path_operations_def)
  next
    case False
    then have "(case v of PDict item \<Rightarrow> rbind (update_methods f (str_of_status k) item s) (\<lambda>(item', s'). Inr (PDict item', s'))
        | _ \<Rightarrow> Inr (v, s)) = Inr (v, s)" and none: "path_operations (k, v) = []"
      by (auto simp: path_operations_def split: pyval.split)
    with Cons.prems obtain rest where "update_paths f items s = Inr (rest, s')" "items' = (k, v) # rest"
      by (auto simp: p)
    with Cons.IH none show ?thesis by (simp add: p)
  qed
qed simp

definition section_operations :: "(pyval \<times> pyval) list \<Rightarrow> string \<Rightarrow> (string \<times> (pyval \<times> pyval) list) list" where
  "section_operations document sec = concat (map path_operations (body_or_empty (member document sec)))"

lemma section_operations_cong: "member d sec = member d' sec \<Longrightarrow> section_operations d sec = section_operations d' sec"
  by (simp add: section_operations_def)

lemma iter_operations_sections:
  "iter_operations d = section_operations d ''paths'' @ section_operations d ''webhooks''"
  by (simp add: iter_operations_def section_operations_def)

lemma update_section_run:
  assumes "update_section f sec (d, s) = Inr (d', s')"
  shows "run_operations f (section_operations d sec) s = Inr (section_operations d' sec, s') \<and>
    (\<forall>k. k \<noteq> sec \<longrightarrow> member d' k = member d k)"
proof (cases "member d sec")
  case None
  with assms show ?thesis by (simp add: update_section_def section_operations_def body_or_empty_def)
next
  case (Some items)
  with assms obtain items' where u: "update_paths f (dict_body items) s = Inr (items', s')"
    and d': "d' = put sec (PDict items') d"
    by (auto simp: update_section_def)
  from update_paths_run [OF u] show ?thesis
    by (simp add: Some d' section_operations_def body_or_empty_def dict_body_def dict_get_set)
qed

lemma update_operations_run:
  assumes "update_operations f d s = Inr (d', s')"
  shows "run_operations f (iter_operations d) s = Inr (iter_operations d', s')"
proof -
  from assms obtain d1 s1 where 1: "update_section f ''paths'' (d, s) = Inr (d1, s1)"
    and 2: "update_section f ''webhooks'' (d1, s1) = Inr (d', s')"
    by (auto simp: update_operations_def)
  note a = update_section_run [OF 1] and b = update_section_run [OF 2]
  have w: "section_operations d1 ''webhooks'' = section_operations d ''webhooks''"
    using a by (intro section_operations_cong) simp
  have p: "section_operations d' ''paths'' = section_operations d1 ''paths''"
    using b by (intro section_operations_cong) simp
  from a b have "run_operations f (section_operations d ''paths'' @ section_operations d ''webhooks'') s =
      Inr (section_operations d1 ''paths'' @ section_operations d' ''webhooks'', s')"
    by (intro run_operations_append [of f _ s _ s1]) (simp_all add: w)
  then show ?thesis by (simp add: iter_operations_sections p)
qed

lemma iter_operations_put:
  "k \<noteq> ''paths'' \<Longrightarrow> k \<noteq> ''webhooks'' \<Longrightarrow> iter_operations (put k v d) = iter_operations d"
  by (simp add: iter_operations_sections section_operations_def dict_get_set)

lemma run_operations_invariant:
  assumes "run_operations f ops s = Inr (ops', s')" and "I s"
    and "\<And>p oper s oper' s'. f p oper s = Inr (oper', s') \<Longrightarrow> I s \<Longrightarrow> I s' \<and> Q oper'"
  shows "map fst ops' = map fst ops \<and> (\<forall>op\<in>set ops'. Q (snd op)) \<and> I s'"
  using assms(1,2)
proof (induction ops arbitrary: s ops')
  case (Cons op ops)
  obtain p oper where op: "op = (p, oper)" by (cases op)
  with Cons.prems obtain oper' s1 r where f: "f p oper s = Inr (oper', s1)"
    and r: "run_operations f ops s1 = Inr (r, s')" "ops' = (p, oper') # r"
    by auto
  from assms(3) [OF f Cons.prems(2)] Cons.IH [OF r(1)] r(2) op show ?case by simp
qed simp

section \<open>No metadata is left\<close>

definition clean_response :: "pyval \<Rightarrow> bool" where
  "clean_response v = (case v of
     PDict r \<Rightarrow> \<not> has_member errors_extension r \<and> \<not> has_member http_statuses_extension r \<and> \<not> has_member success_extension r
   | _ \<Rightarrow> True)"

definition clean_responses :: "(pyval \<times> pyval) list \<Rightarrow> bool" where
  "clean_responses rs = list_all (\<lambda>p. clean_response (snd p)) rs"

lemma set_dict_set_subset: "set (dict_set k v d) \<subseteq> insert (k, v) (set d)"
  by (induction d) auto

lemma clean_put: "clean_responses rs \<Longrightarrow> clean_response v \<Longrightarrow> clean_responses (put k v rs)"
  using set_dict_set_subset [of "PStr k" v rs] by (force simp: clean_responses_def list_all_iff)

lemma has_member_put [simp]: "has_member k (put j v d) \<longleftrightarrow> k = j \<or> has_member k d"
  by (simp add: has_member_def dict_get_set)

lemma has_member_drop [simp]: "has_member k (drop_member j d) \<longleftrightarrow> k \<noteq> j \<and> has_member k d"
  by (simp add: has_member_def drop_member_def dict_get_pop)

lemma has_member_update [simp]: "has_member k (update_member j f d) \<longleftrightarrow> k = j \<or> has_member k d"
  by (simp add: update_member_def)

lemma clean_lookup: "clean_responses rs \<Longrightarrow> member rs k = Some v \<Longrightarrow> clean_response v"
  by (force simp: clean_responses_def list_all_iff dest: map_of_SomeD)

lemma retain_success_content_members:
  "retain_success_content m r = Inr r' \<Longrightarrow> k \<noteq> ''content'' \<Longrightarrow> has_member k r' \<longleftrightarrow> has_member k r"
  by (auto simp: retain_success_content_def split: pyval.splits option.splits if_splits)

lemma finish_response_clean:
  assumes "finish_response comps p = Inr q"
  shows "clean_response (snd q) \<and> fst q = fst p"
proof (cases "\<exists>resp. snd p = PDict resp")
  case False
  with assms show ?thesis by (auto simp: finish_response_def clean_response_def split: pyval.splits)
next
  case True
  then obtain resp where "snd p = PDict resp" by blast
  with assms obtain r1 where r: "(let r2 = drop_member http_statuses_extension (drop_member errors_extension r1)
      in case member r2 success_extension of None \<Rightarrow> Inr (fst p, PDict r2)
         | Some media \<Rightarrow> rbind (retain_success_content media (drop_member success_extension r2))
             (\<lambda>r3. Inr (fst p, PDict r3))) = Inr q"
    by (auto simp: finish_response_def)
  let ?r2 = "drop_member http_statuses_extension (drop_member errors_extension r1)"
  show ?thesis
  proof (cases "member ?r2 success_extension")
    case None
    then have "\<not> has_member success_extension ?r2" by (simp add: has_member_def del: has_member_drop)
    then show ?thesis using r None by (auto simp: clean_response_def extension_names)
  next
    case (Some media)
    with r obtain r3 where 3: "retain_success_content media (drop_member success_extension ?r2) = Inr r3"
      and q: "q = (fst p, PDict r3)" by (auto simp: Let_def)
    show ?thesis using retain_success_content_members [OF 3] by (simp add: q clean_response_def extension_names)
  qed
qed

lemma rmap_clean: "rmap (finish_response comps) rs = Inr rs' \<Longrightarrow> clean_responses rs'"
  by (induction rs arbitrary: rs') (auto simp: clean_responses_def dest: finish_response_clean)

lemma replace_default_clean:
  assumes "clean_responses rs"
  shows "clean_responses (replace_default_validation_response rs)"
proof (cases "\<exists>r. member rs ''422'' = Some (PDict r)")
  case False
  with assms show ?thesis
    by (auto simp: replace_default_validation_response_def split: option.splits pyval.splits)
next
  case True
  then obtain r where r: "member rs ''422'' = Some (PDict r)" by blast
  from clean_lookup [OF assms r] have
    "clean_response (PDict (put ''description'' v (update_member ''content'' f r)))" for v f
    by (simp add: clean_response_def extension_names)
  with assms show ?thesis by (simp add: replace_default_validation_response_def r clean_put)
qed

lemma add_builtin_clean:
  assumes "add_builtin_response comps rs status code component title = Inr rs'" and "clean_responses rs"
  shows "clean_responses rs' \<and> has_member status rs'"
proof -
  let ?resp = "case member rs status of Some v \<Rightarrow> v | None \<Rightarrow> pack [(''description'', PStr title)]"
  have clean: "clean_response ?resp"
    using clean_lookup [OF assms(2)]
    by (auto simp: clean_response_def pack_def has_member_def extension_names split: option.split)
  from assms(1) obtain rd where rd: "?resp = PDict rd"
    by (auto simp: add_builtin_response_def Let_def shape_error_def split: pyval.splits)
  have "clean_response (PDict (put ''content'' c rd))" for c
    using clean unfolding rd by (simp add: clean_response_def extension_names)
  with assms clean show ?thesis
    unfolding add_builtin_response_def Let_def rd
    by (auto simp: shape_error_def rd intro!: clean_put split: if_splits pyval.splits)
qed

lemma finish_operation_clean:
  assumes "finish_operation phrase cc statuses rs comps = Inr (rs', comps')"
  shows "clean_responses rs' \<and> (co_internal cc \<longrightarrow> has_member ''500'' rs')"
proof -
  from assms obtain comps1 rs1 rs3 where 1: "rmap (finish_response comps1) rs = Inr rs1"
    and 3: "(if co_validation cc
            then (let rs2 = replace_default_validation_response rs1
                  in if has_member ''422'' rs2
                     then add_builtin_response comps1 rs2 ''422'' ''request_validation_error''
                            ''RequestValidationProblem'' ''Request validation failed''
                     else Inr rs2)
            else Inr rs1) = Inr rs3"
    and 4: "(if co_internal cc
            then add_builtin_response comps1 rs3 ''500'' ''internal_server_error''
                   ''InternalServerProblem'' ''Internal Server Error''
            else Inr rs3) = Inr rs'"
    unfolding finish_operation_def by auto
  have c1: "clean_responses rs1" using 1 by (rule rmap_clean)
  have c3: "clean_responses rs3"
    using 3 c1 replace_default_clean [OF c1] add_builtin_clean
    by (auto simp: Let_def split: if_splits)
  show ?thesis using 4 c3 add_builtin_clean by (auto split: if_splits)
qed

definition operation_id :: "(pyval \<times> pyval) list \<Rightarrow> string option" where
  "operation_id oper = (case member oper ''operationId'' of Some (PStr i) \<Rightarrow> Some i | _ \<Rightarrow> None)"

definition finished :: "compiler \<Rightarrow> (pyval \<times> pyval) list \<Rightarrow> bool" where
  "finished cc oper \<longleftrightarrow>
     (let rs = body_or_empty (member oper ''responses'')
      in clean_responses rs \<and> (co_internal cc \<longrightarrow> has_member ''500'' rs))"

lemma inherit_step_id:
  "inherit_step phrase st dc cc path ct oper rs = Inr (ct', oper', rs') \<Longrightarrow> operation_id oper' = operation_id oper"
  by (auto simp: inherit_step_def operation_id_def drop_member_def dict_get_pop split: option.splits if_splits)

lemma operation_id_put: "k \<noteq> ''operationId'' \<Longrightarrow> operation_id (put k v d) = operation_id d"
  by (simp add: operation_id_def dict_get_set)

lemma check_operation_id_fresh:
  assumes "check_operation_id path oper ids = Inr ids'"
  shows "(case operation_id oper of None \<Rightarrow> ids' = ids
     | Some i \<Rightarrow> dict_get ids i = None \<and> ids' = dict_set i path ids)"
  using assms
  by (auto simp: check_operation_id_def operation_id_def split: option.splits pyval.splits if_splits)

lemma compile_operation_parts:
  assumes "compile_operation phrase api st dc cc path oper s = Inr (oper', s')"
  shows "finished cc oper' \<and> operation_id oper' = operation_id oper \<and>
    check_operation_id path oper (cs_ids s) = Inr (cs_ids s')"
proof -
  from assms obtain ids where ids: "check_operation_id path oper (cs_ids s) = Inr ids"
    by (cases "check_operation_id path oper (cs_ids s)") (auto simp: compile_operation_def)
  from assms ids obtain stream comps1 oper1 rs1 comps2 ct ct' oper2 rs2 rs3 comps3 where
    o1: "(case stream of
                  None \<Rightarrow> Inr (oper, body_or_empty (member oper ''responses''), comps1)
                | Some profile \<Rightarrow>
                    rbind (compile_stream_contract (co_registry cc) profile (body_or_empty (member oper ''responses'')) comps1)
                      (\<lambda>(profile', rs, comps). Inr (put ''x-canon-stream'' (PDict profile') oper, rs, comps))) =
         Inr (oper1, rs1, comps2)"
    and o2: "inherit_step phrase st dc cc path ct oper1 rs1 = Inr (ct', oper2, rs2)"
    and f: "finish_operation phrase cc (ct_statuses ct') rs2 comps2 = Inr (rs3, comps3)"
    and r: "oper' = put ''responses'' (PDict rs3) oper2" "s' = \<lparr>cs_components = comps3, cs_ids = ids\<rparr>"
    unfolding compile_operation_def Let_def by (simp only: rbind_eq_Inr rbind_Inr) (auto simp: Let_def)
  have "operation_id oper1 = operation_id oper"
    using o1 by (cases stream) (auto simp: operation_id_put)
  moreover note inherit_step_id [OF o2] finish_operation_clean [OF f]
  ultimately show ?thesis
    using ids by (simp add: r operation_id_put finished_def body_or_empty_def dict_body_def dict_get_set)
qed

definition operation_ids :: "(string \<times> (pyval \<times> pyval) list) list \<Rightarrow> string list" where
  "operation_ids ops = List.map_filter (\<lambda>op. operation_id (snd op)) ops"

lemma operation_ids_Cons:
  "operation_ids (op # ops) = (case operation_id (snd op) of None \<Rightarrow> operation_ids ops | Some i \<Rightarrow> i # operation_ids ops)"
  by (auto simp: operation_ids_def List.map_filter_simps split: option.split)

lemma compile_ids:
  assumes "run_operations (compile_operation phrase api st dc cc) ops s = Inr (ops', s')"
  shows "distinct (operation_ids ops') \<and> set (operation_ids ops') \<inter> fst ` set (cs_ids s) = {}"
  using assms
proof (induction ops arbitrary: s ops')
  case (Cons op ops)
  obtain p oper where op: "op = (p, oper)" by (cases op)
  with Cons.prems obtain oper' s1 r where f: "compile_operation phrase api st dc cc p oper s = Inr (oper', s1)"
    and r: "run_operations (compile_operation phrase api st dc cc) ops s1 = Inr (r, s')" "ops' = (p, oper') # r"
    by auto
  from compile_operation_parts [OF f] have oid: "operation_id oper' = operation_id oper"
    and ids: "check_operation_id p oper (cs_ids s) = Inr (cs_ids s1)" by simp_all
  note fresh = check_operation_id_fresh [OF ids] and ih = Cons.IH [OF r(1)]
  show ?case
  proof (cases "operation_id oper")
    case None
    with fresh ih show ?thesis by (simp add: r(2) operation_ids_Cons oid)
  next
    case (Some i)
    with fresh have "i \<notin> fst ` set (cs_ids s)" "fst ` set (cs_ids s1) = insert i (fst ` set (cs_ids s))"
      by (auto simp: map_of_eq_None_iff keys_dict_set)
    with ih Some show ?thesis by (auto simp: r(2) operation_ids_Cons oid)
  qed
qed (simp add: operation_ids_def List.map_filter_simps)


section \<open>Inherited errors\<close>

lemma known_error_name: "known_error r (PStr (str_of_nat e)) = Inr e' \<Longrightarrow> e' = e"
  by (auto simp: known_error_def contract_error_def find_Some_iff split: option.splits)

lemma set_add_new: "set (add_new xs ys) = set ys \<union> set xs"
  by (auto simp: add_new_def)

lemma read_response_mono:
  assumes "read_response r p ct = Inr ct'"
  shows "set (ct_errors ct) \<subseteq> set (ct_errors ct')"
proof (cases "\<exists>resp. snd p = PDict resp")
  case False
  with assms show ?thesis by (auto simp: read_response_def split: pyval.splits)
next
  case True
  then obtain resp c1 c2 where "read_errors r resp ct = Inr c1" and 2: "read_statuses resp c1 = Inr c2"
    and 3: "read_success (fst p) resp c2 = Inr ct'"
    using assms by (auto simp: read_response_def)
  then have "set (ct_errors ct) \<subseteq> set (ct_errors c1)"
    by (auto simp: read_errors_def contract_error_def set_add_new split: option.splits pyval.splits if_splits)
  moreover have "ct_errors c2 = ct_errors c1"
    using 2 by (auto simp: read_statuses_def contract_error_def split: option.splits pyval.splits)
  moreover have "ct_errors ct' = ct_errors c2"
    using 3 by (auto simp: read_success_def contract_error_def split: option.splits pyval.splits if_splits)
  ultimately show ?thesis by simp
qed

lemma rmap_mem: "rmap f xs = Inr ys \<Longrightarrow> x \<in> set xs \<Longrightarrow> \<exists>y\<in>set ys. f x = Inr y"
  by (induction xs arbitrary: ys) auto

lemma read_errors_adds:
  assumes "read_errors r resp ct = Inr ct'" and "member resp errors_extension = Some (PList ids)"
    and "PStr (str_of_nat e) \<in> set ids"
  shows "e \<in> set (ct_errors ct')"
proof -
  from assms(1,2) obtain es where es: "rmap (known_error r) ids = Inr es"
    and ct': "ct' = ct\<lparr>ct_errors := add_new es (ct_errors ct)\<rparr>"
    by (auto simp: read_errors_def contract_error_def split: if_splits)
  from rmap_mem [OF es assms(3)] known_error_name have "e \<in> set es" by blast
  then show ?thesis by (simp add: ct' set_add_new)
qed

lemma read_response_adds:
  assumes "read_response r (k, PDict resp) ct = Inr ct'" and "member resp errors_extension = Some (PList ids)"
    and "PStr (str_of_nat e) \<in> set ids"
  shows "e \<in> set (ct_errors ct')"
proof -
  from assms(1) obtain c1 c2 where 1: "read_errors r resp ct = Inr c1" and 2: "read_statuses resp c1 = Inr c2"
    and 3: "read_success k resp c2 = Inr ct'" by (auto simp: read_response_def)
  have "ct_errors c2 = ct_errors c1"
    using 2 by (auto simp: read_statuses_def contract_error_def split: option.splits pyval.splits)
  moreover have "ct_errors ct' = ct_errors c2"
    using 3 by (auto simp: read_success_def contract_error_def split: option.splits pyval.splits if_splits)
  ultimately show ?thesis using read_errors_adds [OF 1 assms(2,3)] by simp
qed

lemma read_all_mono: "rfold (read_response r) rs ct = Inr ct' \<Longrightarrow> set (ct_errors ct) \<subseteq> set (ct_errors ct')"
  by (induction rs arbitrary: ct) (auto dest: read_response_mono)

lemma contracts_from_responses_mem:
  assumes "contracts_from_responses r rs = Inr ct" and "(k, PDict resp) \<in> set rs"
    and "member resp errors_extension = Some (PList ids)" and "PStr (str_of_nat e) \<in> set ids"
  shows "e \<in> set (ct_errors ct)"
proof -
  from assms(2) obtain us vs where rs: "rs = us @ (k, PDict resp) # vs" by (meson split_list)
  with assms(1) obtain c1 c2 where 1: "read_response r (k, PDict resp) c1 = Inr c2"
    and 2: "rfold (read_response r) vs c2 = Inr ct"
    by (auto simp: contracts_from_responses_def rfold_append)
  from read_response_adds [OF 1 assms(3,4)] read_all_mono [OF 2] show ?thesis by blast
qed

lemma str_of_nat_hd: "str_of_nat n \<noteq> CHR ''-'' # s"
proof
  assume "str_of_nat n = CHR ''-'' # s"
  with str_of_nat_digits [of n] have "is_digit CHR ''-''" by simp
  then show False by (simp add: is_digit_def ord_of_def Let_def)
qed

lemma str_of_status_inject: "str_of_status (PInt i) = str_of_status (PInt j) \<longleftrightarrow> i = j"
  by (auto simp: str_of_status_def str_of_nat_hd str_of_nat_hd [symmetric])

lemma inherit_fold:
  assumes "rfold (inherit_response generated) ss rs = Inr rs'" and "distinct ss" and "s \<in> set ss"
  shows "member rs' (str_of_status (PInt s)) = dict_get generated (PInt s) \<and> dict_get generated (PInt s) \<noteq> None"
  using assms
proof (induction ss arbitrary: rs)
  case (Cons x ss)
  from Cons.prems(1) obtain rs1 where x: "inherit_response generated x rs = Inr rs1"
    and rest: "rfold (inherit_response generated) ss rs1 = Inr rs'" by auto
  from x obtain g where g: "dict_get generated (PInt x) = Some g" "rs1 = put (str_of_status (PInt x)) g rs"
    by (auto simp: inherit_response_def shape_error_def Let_def split: if_splits option.splits)
  have keep: "member rs' (str_of_status (PInt x)) = member rs1 (str_of_status (PInt x))" if "x \<notin> set ss"
    using rest that
  proof (induction ss arbitrary: rs1)
    case (Cons y ss)
    from Cons.prems obtain rs2 where y: "inherit_response generated y rs1 = Inr rs2"
      and r: "rfold (inherit_response generated) ss rs2 = Inr rs'" by auto
    from y obtain h where "rs2 = put (str_of_status (PInt y)) h rs1"
      by (auto simp: inherit_response_def shape_error_def Let_def split: if_splits option.splits)
    with Cons.prems(2) have "member rs2 (str_of_status (PInt x)) = member rs1 (str_of_status (PInt x))"
      by (auto simp: dict_get_set str_of_status_inject)
    with Cons.IH [OF r] Cons.prems(2) show ?case by simp
  qed simp
  show ?case
  proof (cases "s = x")
    case True
    with Cons.prems(2) keep g show ?thesis by (simp add: dict_get_set)
  next
    case False
    with Cons.IH [OF rest] Cons.prems(2,3) show ?thesis by simp
  qed
qed simp

text \<open>
  After the errors of the including routers are composed into an operation, its
  compiled contract declares every one of them.
\<close>

theorem inherited_errors_declared:
  assumes "inherit_step phrase st dc cc path ct oper responses = Inr (ct', oper', responses')"
    and "co_inherited cc path = Some shared"
  shows "set (fst shared) \<subseteq> set (ct_errors ct')"
proof
  fix e assume e: "e \<in> set (fst shared)"
  from assms obtain g where c: "compose_inherited_responses phrase st dc g shared (ct_errors ct, ct_statuses ct) responses = Inr responses'"
    and read: "contracts_from_responses (Some g) responses' = Inr ct'"
    by (auto simp: inherit_step_def split: option.splits)
  from c obtain generated where
    gen: "compile_responses phrase st dc g (fromkeys (fst shared @ ct_errors ct)) (map PInt (fromkeys (snd shared @ ct_statuses ct))) None = Inr generated"
    and fold: "rfold (inherit_response generated) (fromkeys (map (\<lambda>e. ed_status (st e)) (fst shared) @ snd shared)) responses = Inr responses'"
    by (auto simp: compose_inherited_responses_def)
  have dist: "distinct (map fst generated)" using compile_responses_keys [OF gen] by blast
  have "e \<in> set (fromkeys (fst shared @ ct_errors ct))" using e by simp
  with compile_responses_keys [OF gen] obtain d ids where d: "(PInt (ed_status (st e)), PDict d) \<in> set generated"
    "member d errors_extension = Some (PList ids)" "PStr (str_of_nat e) \<in> set ids"
    by blast
  from d dist have "dict_get generated (PInt (ed_status (st e))) = Some (PDict d)" by simp
  with inherit_fold [OF fold, of "ed_status (st e)"] e
  have "member responses' (str_of_status (PInt (ed_status (st e)))) = Some (PDict d)" by auto
  then have "(PStr (str_of_status (PInt (ed_status (st e)))), PDict d) \<in> set responses'" by (rule map_of_SomeD)
  from contracts_from_responses_mem [OF read this d(2,3)] show "e \<in> set (ct_errors ct')" .
qed

section \<open>Witnesses and a divergence\<close>

definition plain_api :: openapi_api where
  "plain_api = \<lparr>serialized_names = (\<lambda>_. []), returned_model = (\<lambda>_. None), validate_dump = (\<lambda>_ d. Some d),
     dump_model = (\<lambda>_. None), model_schema = (\<lambda>_. []), problem_accepts = (\<lambda>_. True)\<rparr>"

definition sample_compiler :: compiler where
  "sample_compiler = \<lparr>co_registry = Some sample_merged, co_validation = True, co_http = True, co_internal = True,
     co_inherited = (\<lambda>p. if p = ''GET /a'' then Some ([1], [409]) else None)\<rparr>"

definition sample_document :: "(pyval \<times> pyval) list" where
  "sample_document = [(PStr ''paths'', pack
     [(''/a'', pack [(''get'', pack [(''operationId'', PStr ''a''),
         (''responses'', pack [(''404'', PDict (case response_for_contracts (\<lambda>_. None) sample_store sample_docs [0] None of
            Inr d \<Rightarrow> d | Inl _ \<Rightarrow> []))])])]),
      (''/b'', pack [(''post'', pack [(''operationId'', PStr ''b'')])])])]"

definition sample_out :: "(pyval \<times> pyval) list" where
  "sample_out = (case compile_document (\<lambda>_. None) plain_api sample_store sample_docs sample_compiler sample_document of
     Inr d \<Rightarrow> d | Inl _ \<Rightarrow> [])"

lemma sample_out_made:
  "compile_document (\<lambda>_. None) plain_api sample_store sample_docs sample_compiler sample_document = Inr sample_out"
  by code_simp


definition sample_inherit :: "contract \<times> (pyval \<times> pyval) list \<times> (pyval \<times> pyval) list" where
  "sample_inherit = (case inherit_step (\<lambda>_. None) sample_store sample_docs sample_compiler ''GET /a'' empty_contract [] [] of
     Inr x \<Rightarrow> x | Inl _ \<Rightarrow> (empty_contract, [], []))"

theorem inherited_errors_declared_witness: "1 \<in> set (ct_errors (fst sample_inherit))"
proof -
  have "inherit_step (\<lambda>_. None) sample_store sample_docs sample_compiler ''GET /a'' empty_contract [] [] =
      Inr (fst sample_inherit, fst (snd sample_inherit), snd (snd sample_inherit))"
    by code_simp
  from inherited_errors_declared [OF this, of "([1], [409])"] show ?thesis by (simp add: sample_compiler_def)
qed

text \<open>
  Two domain errors of status 500 give a union discriminated by \<open>type\<close>, with the type URIs as
  its keys; the built-in internal error is then added under its code, which is not a type.
\<close>

definition fatal_store :: store where
  "fatal_store e = (sample_store e)\<lparr>ed_status := 500\<rparr>"

definition fatal_responses :: "(pyval \<times> pyval) list" where
  "fatal_responses = [(PStr ''500'', PDict (case response_for_contracts (\<lambda>_. None) fatal_store sample_docs [0, 1] None of
     Inr d \<Rightarrow> d | Inl _ \<Rightarrow> []))]"

definition fatal_components :: "(pyval \<times> pyval) list" where
  "fatal_components = (case registry_components plain_api fatal_store sample_docs sample_compiler [] of
     Inr c \<Rightarrow> c | Inl _ \<Rightarrow> [])"

definition fatal_discriminator :: "pyval option" where
  "fatal_discriminator = (case finish_operation (\<lambda>_. None) sample_compiler [] fatal_responses fatal_components of
     Inr (rs, _) \<Rightarrow> nested [''500'', ''content'', problem_media, ''schema'', ''discriminator''] (PDict rs)
   | Inl _ \<Rightarrow> None)"

lemma internal_error_keyed_by_code:
  "fatal_discriminator = Some (pack
     [(''propertyName'', PStr ''type''),
      (''mapping'', pack
         [(''urn:p/lookup_failed'', PStr ''#/components/schemas/LookupFailedProblem''),
          (''urn:p/key_missing'', PStr ''#/components/schemas/KeyMissingProblem''),
          (''internal_server_error'', PStr ''#/components/schemas/InternalServerProblem'')])])"
  by code_simp

end
