(* ===== verification/Error_Handlers.thy ===== *)
theory Error_Handlers
  imports Error_OpenAPI
begin

text \<open>
  Error handling on an application: installing a registry's handlers and OpenAPI compiler
  (\<open>fastapi_canon/error/handlers.py\<close>, \<open>install_openapi\<close> of \<open>openapi.py\<close>), the responses the
  handlers send over HTTP and WebSocket connections. The application is a record of the state
  the installer reads and writes; an installed handler is identified by who owns it. Logging
  and the telemetry hook of \<open>_problem_response\<close> are not modelled.
\<close>

section \<open>Installing handlers (handlers.py, openapi.py)\<close>

datatype handler =
    User_handler nat
  | Default_http
  | Default_validation
  | Domain_handler rid
  | Http_handler
  | Request_validation_handler rid
  | Response_validation_handler rid
  | Unhandled_handler rid

record openapi_config =
  oc_registry :: "rid option"
  oc_validation :: bool
  oc_http :: bool
  oc_internal :: bool

datatype openapi_state = Foreign_state | Compiler openapi_config

record app =
  ap_is_fastapi :: bool
  ap_schema_cached :: bool
  ap_started :: bool
  ap_registry :: "rid option"
  ap_options :: "(bool \<times> bool \<times> bool) option"
  ap_handlers :: "(cls \<times> handler) list"
  ap_openapi :: "openapi_state option"

definition config_error :: "string \<Rightarrow> (cfg_error, 'a) result" where
  "config_error m = Inl (Cfg m)"

definition install_openapi :: "openapi_config \<Rightarrow> app \<Rightarrow> (cfg_error, app) result" where
  "install_openapi c a =
     (case ap_openapi a of
        None \<Rightarrow> Inr (a\<lparr>ap_openapi := Some (Compiler c)\<rparr>)
      | Some Foreign_state \<Rightarrow> config_error ''application contains invalid fastapi-canon OpenAPI state''
      | Some (Compiler old) \<Rightarrow>
          if oc_registry c = None \<or> old = c then Inr a
          else if oc_registry old \<noteq> None
          then config_error ''a different fastapi-canon OpenAPI compiler is already installed''
          else if ap_schema_cached a
          then config_error ''install ErrorRegistry before generating or caching OpenAPI''
          else Inr (a\<lparr>ap_openapi := Some (Compiler c)\<rparr>))"

definition ensure_handler_available :: "app \<Rightarrow> cls \<Rightarrow> (cfg_error, unit) result" where
  "ensure_handler_available a c =
     ensure (dict_get (ap_handlers a) c = None) (Cfg_at ''application already defines an exception handler for'' c)"

definition ensure_default_or_available :: "app \<Rightarrow> cls \<Rightarrow> handler \<Rightarrow> (cfg_error, unit) result" where
  "ensure_default_or_available a c known =
     ensure (case dict_get (ap_handlers a) c of None \<Rightarrow> True | Some h \<Rightarrow> h = known)
       (Cfg_at ''application already defines an exception handler for'' c)"

definition http_exception :: cls where "http_exception = ''HTTPException''"
definition request_validation :: cls where "request_validation = ''RequestValidationError''"
definition response_validation :: cls where "response_validation = ''ResponseValidationError''"

definition domain_classes :: "store \<Rightarrow> registry \<Rightarrow> cls list" where
  "domain_classes st r = fromkeys (map (\<lambda>e. ed_exception (st e)) (registry_errors r))"

definition reserved_classes :: "bool \<Rightarrow> bool \<Rightarrow> bool \<Rightarrow> cls list" where
  "reserved_classes validation http unhandled =
     (if http then [http_exception] else []) @
     (if validation then [request_validation, response_validation] else []) @
     (if unhandled then [''Exception''] else [])"

definition builtin_codes :: "bool \<Rightarrow> bool \<Rightarrow> string list" where
  "builtin_codes validation unhandled =
     (if validation then [''request_validation_error''] else []) @
     (if validation \<or> unhandled then [''internal_server_error''] else [])"

definition check_install ::
    "store \<Rightarrow> registry \<Rightarrow> app \<Rightarrow> bool \<Rightarrow> bool \<Rightarrow> bool \<Rightarrow> (cfg_error, unit) result" where
  \<comment> \<open>everything between the state of the application and the first change to it\<close>
  "check_install st r a validation http unhandled =
     rbind (ensure (\<not> ap_schema_cached a)
       (Cfg ''install ErrorRegistry before generating or caching OpenAPI'')) (\<lambda>_.
     rbind (ensure (\<not> ap_started a) (Cfg ''install ErrorRegistry before the app starts'')) (\<lambda>_.
     rbind (case require_resolved st r of Inl _ \<Rightarrow> config_error ''registry cannot be installed with unresolved problem type URIs''
            | Inr _ \<Rightarrow> Inr ()) (\<lambda>_.
     rbind (ensure (\<not> ((validation \<or> unhandled) \<and> rg_base r = None))
       (Cfg ''type_base is required when validation or unhandled-error normalization is enabled'')) (\<lambda>_.
     rbind (rmap (ensure_handler_available a) (domain_classes st r)) (\<lambda>_.
     rbind (if http then ensure_default_or_available a http_exception Default_http else Inr ()) (\<lambda>_.
     rbind (if validation
            then rbind (ensure_default_or_available a request_validation Default_validation)
                   (\<lambda>_. ensure_handler_available a response_validation)
            else Inr ()) (\<lambda>_.
     rbind (if unhandled then ensure_handler_available a ''Exception'' else Inr ()) (\<lambda>_.
     rbind (let overlap = filter (\<lambda>c. c \<in> set (reserved_classes validation http unhandled)) (domain_classes st r)
            in ensure (overlap = [])
                 (Cfg_names ''domain exceptions conflict with enabled normalization handlers'' overlap)) (\<lambda>_.
       ensure (\<forall>e\<in>set (registry_errors r). ed_code (st e) \<notin> set (builtin_codes validation unhandled))
         (Cfg ''domain error code conflicts with enabled normalization''))))))))))"

definition add_handlers ::
    "store \<Rightarrow> registry \<Rightarrow> rid \<Rightarrow> bool \<Rightarrow> bool \<Rightarrow> bool \<Rightarrow> (cls \<times> handler) list \<Rightarrow> (cls \<times> handler) list" where
  "add_handlers st r i validation http unhandled hs =
     (let h1 = fold (\<lambda>c d. dict_set c (Domain_handler i) d) (domain_classes st r) hs;
          h2 = (if http then dict_set http_exception Http_handler h1 else h1);
          h3 = (if validation
                then dict_set response_validation (Response_validation_handler i)
                       (dict_set request_validation (Request_validation_handler i) h2) else h2)
      in if unhandled then dict_set ''Exception'' (Unhandled_handler i) h3 else h3)"

definition install_handlers ::
    "store \<Rightarrow> (rid \<Rightarrow> registry) \<Rightarrow> rid \<Rightarrow> app \<Rightarrow> pyval \<Rightarrow> pyval \<Rightarrow> pyval \<Rightarrow> (cfg_error, app) result" where
  "install_handlers st regs i a v h u =
     (if \<not> ap_is_fastapi a then config_error ''app must be a FastAPI instance''
      else
        (case (v, h, u) of
           (PBool validation, PBool http, PBool unhandled) \<Rightarrow>
             if ap_registry a = Some i
             then (if ap_options a \<noteq> Some (validation, http, unhandled)
                   then config_error ''ErrorRegistry is already installed with different normalization options''
                   else Inr a)
             else if ap_registry a \<noteq> None
             then config_error ''a different ErrorRegistry is already installed on this application''
             else
               rbind (check_install st (regs i) a validation http unhandled) (\<lambda>_.
               rbind (install_openapi
                        \<lparr>oc_registry = Some i, oc_validation = validation, oc_http = http,
                         oc_internal = (validation \<or> unhandled)\<rparr> a) (\<lambda>a1.
                 Inr (a1\<lparr>ap_handlers := add_handlers st (regs i) i validation http unhandled (ap_handlers a1),
                         ap_registry := Some i, ap_options := Some (validation, http, unhandled)\<rparr>)))
         | _ \<Rightarrow> config_error ''options must be bools''))"

section \<open>Responses (handlers.py)\<close>

record http_response =
  hr_payload :: "(string \<times> pyval) list"
  hr_status :: int
  hr_headers :: "(string \<times> string) list"

datatype ws_state = Ws_connecting | Ws_connected | Ws_disconnected

datatype transport = Http_request | Web_socket ws_state bool

datatype reply_sent =
    Http_reply http_response
  | No_reply
  | Denial_reply http_response
  | Close_reply int string

definition connection_response :: "transport \<Rightarrow> http_response \<Rightarrow> string \<Rightarrow> reply_sent" where
  \<comment> \<open>the flag of a WebSocket says that the server supports denial responses\<close>
  "connection_response t resp code =
     (case t of
        Http_request \<Rightarrow> Http_reply resp
      | Web_socket s denial \<Rightarrow>
          if s = Ws_disconnected then No_reply
          else if s = Ws_connecting \<and> denial then Denial_reply resp
          else Close_reply (if hr_status resp \<ge> 500 then 1011 else 1008) (take 123 code))"

definition builtin_type :: "registry \<Rightarrow> string \<Rightarrow> (cfg_error, string) result" where
  "builtin_type r code =
     (case rg_base r of
        None \<Rightarrow> config_error ''type_base is required to render built-in problem''
      | Some b \<Rightarrow> Inr (b @ ''/'' @ code))"

definition problem_response ::
    "(string \<times> pyval) list \<Rightarrow> int \<Rightarrow> (string \<times> string) list \<Rightarrow> http_response" where
  "problem_response payload status headers =
     \<lparr>hr_payload = payload, hr_status = status, hr_headers = headers\<rparr>"

definition internal_error_response :: "registry \<Rightarrow> (cfg_error, http_response) result" where
  "internal_error_response r =
     rbind (builtin_type r ''internal_server_error'') (\<lambda>uri.
       Inr (problem_response
              [(''type'', PStr uri), (''title'', PStr ''Internal Server Error''), (''status'', PInt 500),
               (''code'', PStr ''internal_server_error'')] 500 []))"

datatype handler_outcome = Sent reply_sent | Reraised exc | Misconfigured cfg_error

definition send_internal :: "registry \<Rightarrow> transport \<Rightarrow> handler_outcome" where
  "send_internal r t =
     (case internal_error_response r of
        Inl e \<Rightarrow> Misconfigured e
      | Inr resp \<Rightarrow> Sent (connection_response t resp ''internal_server_error''))"

definition domain_handler ::
    "(string \<Rightarrow> bool) \<Rightarrow> render_api \<Rightarrow> store \<Rightarrow> registry \<Rightarrow> transport \<Rightarrow> exc \<Rightarrow> handler_outcome" where
  "domain_handler host_ok api st r t ex =
     (case resolve r ex of
        None \<Rightarrow> Reraised ex
      | Some e \<Rightarrow>
          (case type_uri_for st r e of
             Inl _ \<Rightarrow> Misconfigured (Cfg ''error does not belong to this registry'')
           | Inr None \<Rightarrow> Misconfigured (Cfg ''error has no resolved problem type URI'')
           | Inr (Some uri) \<Rightarrow>
               (case render_problem host_ok api (st e) ex uri of
                  Inl _ \<Rightarrow> send_internal r t
                | Inr (p, headers) \<Rightarrow>
                    Sent (connection_response t
                      (problem_response (as_dict p) (ed_status (st e)) headers) (ed_code (st e))))))"

record http_exc =
  he_exc :: exc
  he_status :: nat
  he_detail :: pyval
  he_headers :: "(string \<times> string) list"

definition http_exception_handler ::
    "(int \<Rightarrow> string option) \<Rightarrow> transport \<Rightarrow> http_exc \<Rightarrow> handler_outcome" where
  "http_exception_handler phrase t x =
     (if \<not> instance_of (he_exc x) http_exception then Reraised (he_exc x)
      else
        (let status = int (he_status x); code = ''http_'' @ str_of_nat (he_status x);
             payload = [(''type'', PStr ''about:blank''), (''title'', PStr (http_title phrase status)),
                        (''status'', PInt status), (''code'', PStr code)] @
                       (case he_detail x of PStr d \<Rightarrow> [(''detail'', PStr d)] | _ \<Rightarrow> [])
         in Sent (connection_response t (problem_response payload status (he_headers x)) code)))"

subsection \<open>Validation errors\<close>

fun replace_char :: "char \<Rightarrow> string \<Rightarrow> string \<Rightarrow> string" where
  "replace_char c r [] = []"
| "replace_char c r (x # s) = (if x = c then r @ replace_char c r s else x # replace_char c r s)"

definition escape_pointer :: "string \<Rightarrow> string" where
  "escape_pointer s = replace_char CHR ''/'' ''~1'' (replace_char CHR ''~'' ''~0'' s)"

definition str_of_value :: "pyval \<Rightarrow> string" where
  \<comment> \<open>\<open>str\<close> of the parts of an error location\<close>
  "str_of_value v = (case v of PBool b \<Rightarrow> if b then ''True'' else ''False'' | PNone \<Rightarrow> ''None'' | _ \<Rightarrow> str_of_status v)"

record validation_issue =
  vi_loc :: "pyval list"
  vi_type :: "string option"
  vi_msg :: "string option"

definition body_pointer :: "pyval list \<Rightarrow> string" where
  "body_pointer parts =
     (let p = rstrip_char CHR ''/'' (''#/'' @ join_with ''/'' (map (\<lambda>v. escape_pointer (str_of_value v)) parts))
      in if p = [] then ''#'' else p)"

definition validation_error :: "validation_issue \<Rightarrow> (string \<times> pyval) list" where
  "validation_error e =
     (let parts = vi_loc e; src = (case parts of [] \<Rightarrow> PNone | x # _ \<Rightarrow> x);
          base = [(''code'', PStr (case vi_type e of Some t \<Rightarrow> t | None \<Rightarrow> ''validation_error'')),
                  (''detail'', PStr (case vi_msg e of Some m \<Rightarrow> m | None \<Rightarrow> ''Invalid input''))]
      in if src = PStr ''body'' then base @ [(''pointer'', PStr (body_pointer (tl parts)))]
         else if src \<in> set (map PStr [''path'', ''query'', ''header'', ''cookie'']) \<and> length parts > 1
         then base @ [(''parameter'', PStr (str_of_value (last parts))), (''in'', src)]
         else base)"

definition request_validation_response ::
    "registry \<Rightarrow> validation_issue list \<Rightarrow> (cfg_error, http_response) result" where
  "request_validation_response r errors =
     rbind (builtin_type r ''request_validation_error'') (\<lambda>uri.
       Inr (problem_response
         [(''type'', PStr uri), (''title'', PStr ''Request validation failed''), (''status'', PInt 422),
          (''code'', PStr ''request_validation_error''),
          (''errors'', PList (map (\<lambda>e. PDict (map (\<lambda>(k, v). (PStr k, v)) (validation_error e))) errors))]
         422 []))"

definition request_validation_handler ::
    "registry \<Rightarrow> exc \<Rightarrow> validation_issue list \<Rightarrow> handler_outcome" where
  "request_validation_handler r ex errors =
     (if \<not> instance_of ex request_validation then Reraised ex
      else (case request_validation_response r errors of Inl e \<Rightarrow> Misconfigured e | Inr resp \<Rightarrow> Sent (Http_reply resp)))"

definition response_validation_handler :: "registry \<Rightarrow> exc \<Rightarrow> handler_outcome" where
  "response_validation_handler r ex =
     (if \<not> instance_of ex response_validation then Reraised ex
      else (case internal_error_response r of Inl e \<Rightarrow> Misconfigured e | Inr resp \<Rightarrow> Sent (Http_reply resp)))"

definition unhandled_handler :: "registry \<Rightarrow> handler_outcome" where
  "unhandled_handler r =
     (case internal_error_response r of Inl e \<Rightarrow> Misconfigured e | Inr resp \<Rightarrow> Sent (Http_reply resp))"

section \<open>Installation keeps the handlers of the application\<close>

lemma dict_get_fold_set:
  "dict_get (fold (\<lambda>c d. dict_set c (g c) d) cs hs) c = (if c \<in> set cs then Some (g c) else dict_get hs c)"
  by (induction cs arbitrary: hs) (auto simp: dict_get_set)

lemma rmap_ensure: "rmap (\<lambda>x. ensure (P x) (m x)) xs = Inr us \<Longrightarrow> \<forall>x\<in>set xs. P x"
  by (induction xs arbitrary: us) auto

lemma check_install_ok:
  assumes "check_install st r a validation http unhandled = Inr u"
  shows "\<forall>c\<in>set (domain_classes st r). dict_get (ap_handlers a) c = None"
    and "http \<Longrightarrow> dict_get (ap_handlers a) http_exception \<in> {None, Some Default_http}"
    and "validation \<Longrightarrow> dict_get (ap_handlers a) request_validation \<in> {None, Some Default_validation} \<and>
      dict_get (ap_handlers a) response_validation = None"
    and "unhandled \<Longrightarrow> dict_get (ap_handlers a) ''Exception'' = None"
    and "set (domain_classes st r) \<inter> set (reserved_classes validation http unhandled) = {}"
    and "require_resolved st r = Inr ()"
    and "validation \<or> unhandled \<Longrightarrow> rg_base r \<noteq> None"
proof -
  from assms obtain v0 us v1 v2 v3 where
    res: "(case require_resolved st r of Inl _ \<Rightarrow> config_error ''registry cannot be installed with unresolved problem type URIs''
            | Inr _ \<Rightarrow> Inr ()) = Inr v0"
    and base: "\<not> ((validation \<or> unhandled) \<and> rg_base r = None)"
    and dom: "rmap (ensure_handler_available a) (domain_classes st r) = Inr us"
    and h: "(if http then ensure_default_or_available a http_exception Default_http else Inr ()) = Inr v1"
    and v: "(if validation
            then rbind (ensure_default_or_available a request_validation Default_validation)
                   (\<lambda>_. ensure_handler_available a response_validation)
            else Inr ()) = Inr v2"
    and u: "(if unhandled then ensure_handler_available a ''Exception'' else Inr ()) = Inr v3"
    and overlap: "filter (\<lambda>c. c \<in> set (reserved_classes validation http unhandled)) (domain_classes st r) = []"
    unfolding check_install_def Let_def by (simp only: rbind_eq_Inr ensure_eq_Inr) blast
  show "\<forall>c\<in>set (domain_classes st r). dict_get (ap_handlers a) c = None"
    using dom unfolding ensure_handler_available_def by (rule rmap_ensure)
  show "http \<Longrightarrow> dict_get (ap_handlers a) http_exception \<in> {None, Some Default_http}"
    using h by (auto simp: ensure_default_or_available_def split: option.splits)
  show "validation \<Longrightarrow> dict_get (ap_handlers a) request_validation \<in> {None, Some Default_validation} \<and>
      dict_get (ap_handlers a) response_validation = None"
    using v by (auto simp: ensure_default_or_available_def ensure_handler_available_def split: option.splits)
  show "unhandled \<Longrightarrow> dict_get (ap_handlers a) ''Exception'' = None"
    using u by (auto simp: ensure_handler_available_def)
  show "set (domain_classes st r) \<inter> set (reserved_classes validation http unhandled) = {}"
    using overlap by (auto simp: filter_empty_conv)
  show "require_resolved st r = Inr ()"
    using res by (cases "require_resolved st r") (auto simp: config_error_def)
  show "validation \<or> unhandled \<Longrightarrow> rg_base r \<noteq> None" using base by auto
qed

lemmas class_names = http_exception_def request_validation_def response_validation_def

lemma add_handlers_get:
  "dict_get (add_handlers st r i validation http unhandled hs) c =
    (if unhandled \<and> c = ''Exception'' then Some (Unhandled_handler i)
     else if validation \<and> c = response_validation then Some (Response_validation_handler i)
     else if validation \<and> c = request_validation then Some (Request_validation_handler i)
     else if http \<and> c = http_exception then Some Http_handler
     else if c \<in> set (domain_classes st r) then Some (Domain_handler i) else dict_get hs c)"
  by (simp add: add_handlers_def Let_def dict_get_set dict_get_fold_set class_names)

lemma install_openapi_frame:
  "install_openapi c a = Inr a' \<Longrightarrow> ap_handlers a' = ap_handlers a \<and> ap_is_fastapi a' = ap_is_fastapi a \<and>
     ap_registry a' = ap_registry a \<and> ap_options a' = ap_options a"
  by (auto simp: install_openapi_def config_error_def split: option.splits openapi_state.splits if_splits)

lemma install_handlers_cases:
  assumes "install_handlers st regs i a (PBool validation) (PBool http) (PBool unhandled) = Inr a'"
  obtains (present) "a' = a" "ap_registry a = Some i" "ap_options a = Some (validation, http, unhandled)"
    "ap_is_fastapi a"
  | (fresh) a1 u where "ap_registry a = None" "check_install st (regs i) a validation http unhandled = Inr u"
    "ap_handlers a1 = ap_handlers a" "ap_is_fastapi a1" "ap_is_fastapi a"
    "a' = a1\<lparr>ap_handlers := add_handlers st (regs i) i validation http unhandled (ap_handlers a),
             ap_registry := Some i, ap_options := Some (validation, http, unhandled)\<rparr>"
proof (cases "ap_registry a = Some i")
  case True
  with assms present show thesis
    by (auto simp: install_handlers_def config_error_def split: if_splits)
next
  case False
  with assms obtain u a1 where "ap_registry a = None" "check_install st (regs i) a validation http unhandled = Inr u"
    and o: "install_openapi \<lparr>oc_registry = Some i, oc_validation = validation, oc_http = http,
                         oc_internal = (validation \<or> unhandled)\<rparr> a = Inr a1"
    and "a' = a1\<lparr>ap_handlers := add_handlers st (regs i) i validation http unhandled (ap_handlers a1),
             ap_registry := Some i, ap_options := Some (validation, http, unhandled)\<rparr>" "ap_is_fastapi a"
    by (auto simp: install_handlers_def config_error_def simp del: not_None_eq split: if_splits)
  moreover note install_openapi_frame [OF o]
  ultimately show thesis by (intro fresh [of u a1]) simp_all
qed

text \<open>
  Claim C24. A successful installation keeps every exception handler the application had, apart
  from FastAPI's own defaults for HTTP and request-validation errors; afterwards every error of
  the registry is handled by it, installing the same registry with the same options again
  changes nothing, and no other registry can be installed.
\<close>

theorem install_preserves_handlers:
  assumes "install_handlers st regs i a (PBool validation) (PBool http) (PBool unhandled) = Inr a'"
  shows "(\<forall>c h. dict_get (ap_handlers a) c = Some h \<longrightarrow> h \<notin> {Default_http, Default_validation} \<longrightarrow>
           dict_get (ap_handlers a') c = Some h) \<and>
    (ap_registry a = None \<longrightarrow> (\<forall>e\<in>set (registry_errors (regs i)).
       dict_get (ap_handlers a') (ed_exception (st e)) = Some (Domain_handler i))) \<and>
    install_handlers st regs i a' (PBool validation) (PBool http) (PBool unhandled) = Inr a' \<and>
    (\<forall>j v h u. j \<noteq> i \<longrightarrow> \<not> succeeds (install_handlers st regs j a' v h u))"
  using assms
proof (cases rule: install_handlers_cases)
  case present
  then show ?thesis
    by (auto simp: install_handlers_def config_error_def split: pyval.splits)
next
  case (fresh a1 u)
  note ok = check_install_ok [OF fresh(2)]
  have dom: "ed_exception (st e) \<in> set (domain_classes st (regs i))" if "e \<in> set (registry_errors (regs i))" for e
    using that by (simp add: domain_classes_def)
  have disj: "c \<notin> set (reserved_classes validation http unhandled)" if "c \<in> set (domain_classes st (regs i))" for c
    using ok(5) that by blast
  have "dict_get (ap_handlers a') c = Some h"
    if "dict_get (ap_handlers a) c = Some h" "h \<notin> {Default_http, Default_validation}" for c h
    using that ok(1,2,3,4) by (auto simp: fresh(6) add_handlers_get)
  moreover have "dict_get (ap_handlers a') (ed_exception (st e)) = Some (Domain_handler i)"
    if "e \<in> set (registry_errors (regs i))" for e
    using dom [OF that] disj [OF dom [OF that]]
    by (auto simp: fresh(6) add_handlers_get reserved_classes_def split: if_splits)
  moreover have "install_handlers st regs i a' (PBool validation) (PBool http) (PBool unhandled) = Inr a'"
    by (simp add: install_handlers_def fresh(4,6))
  moreover have "\<not> succeeds (install_handlers st regs j a' v h u)" if "j \<noteq> i" for j v h u
    using that by (auto simp: install_handlers_def config_error_def fresh(4,6) split: pyval.splits)
  ultimately show ?thesis by blast
qed

section \<open>Answers to exceptions\<close>

lemma resolve_uri:
  assumes "registry_wf st r" and "require_resolved st r = Inr ()" and "resolve r ex = Some e"
  shows "\<exists>uri. type_uri_for st r e = Inr (Some uri)"
proof -
  from assms(3) obtain en where en: "find_first (\<lambda>c. dict_get (rg_by_exception r) c) (exc_mro ex) = Some en"
    and e: "e = re_error en" by (auto simp: resolve_def)
  from find_first_Some_mem [OF en] obtain c where c: "dict_get (rg_by_exception r) c = Some en" by blast
  with assms(1) have mem: "en \<in> set (rg_entries r)" "ed_exception (st e) = c"
    by (auto simp: registry_wf_def e)
  from assms(2) have "filter (\<lambda>e. re_uri e = None) (rg_entries r) = []"
    by (auto simp: require_resolved_def Let_def)
  with mem(1) have "re_uri en \<noteq> None" by (simp add: filter_empty_conv)
  then obtain uri where "re_uri en = Some uri" by blast
  then show ?thesis using mem(2) c by (simp add: type_uri_for_def e del: not_None_eq)
qed


text \<open>Without a type base a failing callback is itself answered by a configuration error.\<close>

lemma domain_handler_unbased:
  assumes "rg_base r = None" and "resolve r ex = Some e" and "type_uri_for st r e = Inr (Some uri)"
    and "render_problem host_ok api (st e) ex uri = Inl err"
  shows "domain_handler host_ok api st r t ex = Misconfigured (Cfg ''type_base is required to render built-in problem'')"
  using assms
  by (simp add: domain_handler_def send_internal_def internal_error_response_def builtin_type_def config_error_def)

section \<open>JSON pointers of validation errors\<close>

fun unescape_pointer :: "string \<Rightarrow> string" where
  \<comment> \<open>the evaluation of RFC 6901: \<open>~1\<close> is a slash and \<open>~0\<close> a tilde\<close>
  "unescape_pointer (a # b # s) =
     (if a = CHR ''~'' \<and> b = CHR ''1'' then CHR ''/'' # unescape_pointer s
      else if a = CHR ''~'' \<and> b = CHR ''0'' then CHR ''~'' # unescape_pointer s
      else a # unescape_pointer (b # s))"
| "unescape_pointer s = s"

definition decode_pointer :: "string \<Rightarrow> string list" where
  \<comment> \<open>the reference tokens of a URI-fragment pointer\<close>
  "decode_pointer p = (if p = ''#'' then [] else map unescape_pointer (tl (split_on CHR ''/'' p)))"

lemma escape_pointer_simps [simp]:
  "escape_pointer [] = []"
  "escape_pointer (c # s) = (if c = CHR ''~'' then ''~0'' else if c = CHR ''/'' then ''~1'' else [c]) @ escape_pointer s"
  by (simp_all add: escape_pointer_def)

lemma unescape_other: "c \<noteq> CHR ''~'' \<Longrightarrow> unescape_pointer (c # s) = c # unescape_pointer s"
  by (cases s) auto

lemma unescape_escape: "unescape_pointer (escape_pointer s) = s"
  by (induction s) (auto simp: unescape_other)

lemma escape_no_slash: "CHR ''/'' \<notin> set (escape_pointer s)"
  by (induction s) auto

lemma escape_Nil [simp]: "escape_pointer s = [] \<longleftrightarrow> s = []"
  by (cases s) auto

lemma split_on_free: "c \<notin> set s \<Longrightarrow> split_on c s = [s]"
  by (induction s) auto

lemma split_on_append: "c \<notin> set p \<Longrightarrow> split_on c (p @ c # s) = p # split_on c s"
  by (induction p) auto

lemma split_join:
  "list_all (\<lambda>p. c \<notin> set p) ps \<Longrightarrow> ps \<noteq> [] \<Longrightarrow> split_on c (join_with [c] ps) = ps"
  by (induction "[c]" ps rule: join_with.induct) (auto simp: split_on_free split_on_append)

lemma rstrip_char_id: "s \<noteq> [] \<Longrightarrow> last s \<noteq> c \<Longrightarrow> rstrip_char c s = s"
  by (cases s rule: rev_cases) (auto simp: rstrip_char_def)

lemma last_join: "ps \<noteq> [] \<Longrightarrow> last ps \<noteq> [] \<Longrightarrow> join_with sep ps \<noteq> [] \<and> last (join_with sep ps) = last (last ps)"
  by (induction sep ps rule: join_with.induct) auto

text \<open>
  The pointer of a request-validation error decodes, by the rules of RFC 6901, to the
  location it was made from, whatever characters the keys contain, as long as the last key is
  not empty (trailing slashes are stripped).
\<close>

theorem validation_pointer_roundtrip:
  assumes "parts \<noteq> [] \<longrightarrow> str_of_value (last parts) \<noteq> []"
  shows "decode_pointer (body_pointer parts) = map str_of_value parts"
proof (cases parts)
  case Nil
  have "rstrip_char CHR ''/'' ''#/'' = ''#''" by (simp add: rstrip_char_def)
  with Nil show ?thesis by (simp add: body_pointer_def decode_pointer_def)
next
  case (Cons v vs)
  let ?es = "map (\<lambda>v. escape_pointer (str_of_value v)) parts"
  have ne: "?es \<noteq> []" "last ?es \<noteq> []" using assms Cons by (auto simp: last_map split: if_splits)
  have j: "join_with ''/'' ?es \<noteq> []" "last (join_with ''/'' ?es) = last (last ?es)"
    using last_join [OF ne] by simp_all
  have "CHR ''/'' \<notin> set (last ?es)" using Cons escape_no_slash by (simp add: last_map)
  then have "last (last ?es) \<noteq> CHR ''/''" using ne(2) last_in_set by metis
  with j have "rstrip_char CHR ''/'' (''#/'' @ join_with ''/'' ?es) = ''#/'' @ join_with ''/'' ?es"
    by (intro rstrip_char_id) simp_all
  then have p: "body_pointer parts = ''#/'' @ join_with ''/'' ?es" by (simp add: body_pointer_def Let_def)
  have "split_on CHR ''/'' (join_with ''/'' ?es) = ?es"
    using ne(1) escape_no_slash by (intro split_join) (auto simp: list_all_iff)
  then have "split_on CHR ''/'' (''#/'' @ join_with ''/'' ?es) = ''#'' # ?es" by simp
  then show ?thesis by (simp add: decode_pointer_def p unescape_escape comp_def)
qed

section \<open>Witnesses\<close>

definition sample_app :: app where
  "sample_app = \<lparr>ap_is_fastapi = True, ap_schema_cached = False, ap_started = False, ap_registry = None,
     ap_options = None, ap_handlers = [(http_exception, Default_http), (''ValueError'', User_handler 4)],
     ap_openapi = None\<rparr>"

definition sample_installed :: app where
  "sample_installed = (case install_handlers sample_store (\<lambda>_. sample_merged) 3 sample_app (PBool True) (PBool True)
     (PBool True) of Inr a \<Rightarrow> a | Inl _ \<Rightarrow> sample_app)"

lemma sample_installed_made:
  "install_handlers sample_store (\<lambda>_. sample_merged) 3 sample_app (PBool True) (PBool True) (PBool True)
     = Inr sample_installed"
  by code_simp

theorem install_preserves_handlers_witness:
  "dict_get (ap_handlers sample_installed) ''ValueError'' = Some (User_handler 4) \<and>
   dict_get (ap_handlers sample_installed) (ed_exception (sample_store 0)) = Some (Domain_handler 3)"
proof -
  have "registry_errors sample_merged = [0, 1]" by code_simp
  then show ?thesis
    using install_preserves_handlers [OF sample_installed_made]
    by (simp add: sample_app_def class_names)
qed


theorem validation_pointer_roundtrip_witness:
  "decode_pointer (body_pointer [PStr ''a/b~1'', PInt 3]) = [''a/b~1'', ''3'']"
proof -
  have "str_of_value (PInt 3) = ''3''" by code_simp
  then show ?thesis
    using validation_pointer_roundtrip [of "[PStr ''a/b~1'', PInt 3]"] by (simp add: str_of_value_def str_of_status_def)
qed

end
