(* ===== verification/Composition_Model.thy ===== *)
theory Composition_Model
  imports Error_Handlers "HOL-Library.Char_ord" "HOL-Library.List_Lexorder"
begin

text \<open>
  Composing features (\<open>fastapi_canon/feature.py\<close>): the declarations a feature and a
  composition are made of and their validation, the check reports (\<open>diagnostics.py\<close>), the
  contributions that may occur only once, provider sources and overrides, and the merged error
  catalog. Features, routers, providers and handlers are Python objects compared by identity:
  they carry a number. A Dishka container is what its registries provide, built by a parameter.
\<close>

section \<open>Reports (diagnostics.py)\<close>

datatype severity = Sev_error | Sev_warning

record issue =
  iss_code :: string
  iss_message :: string
  iss_hint :: string
  iss_severity :: severity
  iss_features :: "string list"
  iss_locations :: "string list"

definition error_issue :: "string \<Rightarrow> string \<Rightarrow> string \<Rightarrow> string list \<Rightarrow> string list \<Rightarrow> issue" where
  "error_issue code message hint features locations =
     \<lparr>iss_code = code, iss_message = message, iss_hint = hint, iss_severity = Sev_error,
      iss_features = features, iss_locations = locations\<rparr>"

datatype check_status = Passed | Failed | Incomplete | Skipped

type_synonym check_result = "string \<times> check_status"

record report =
  rp_issues :: "issue list"
  rp_checks :: "check_result list"

definition has_errors :: "report \<Rightarrow> bool" where
  "has_errors r = list_ex (\<lambda>i. iss_severity i = Sev_error) (rp_issues r)"

definition complete_report :: "report \<Rightarrow> bool" where
  "complete_report r = list_all (\<lambda>c. snd c \<notin> {Incomplete, Skipped}) (rp_checks r)"

record error_info =
  ei_code :: string
  ei_uri :: "string option"
  ei_status :: int
  ei_origin :: string
  ei_title :: string

record op_info =
  oi_feature :: string
  oi_id :: "string option"
  oi_path :: string
  oi_methods :: "string list"
  oi_dependencies :: "(string \<times> string) list"
  oi_errors :: "error_info list"
  oi_in_schema :: bool

record feature_info =
  fi_name :: string
  fi_operations :: "op_info list"
  fi_providers :: "string list"

record comp_info =
  ci_features :: "feature_info list"
  ci_operations :: "op_info list"
  ci_endpoints :: "nat list"

datatype lookup_error = Lookup_error nat | Value_error string

definition new_comp_info ::
    "feature_info list \<Rightarrow> op_info list \<Rightarrow> nat list \<Rightarrow> (lookup_error, comp_info) result" where
  "new_comp_info features ops endpoints =
     (if endpoints \<noteq> [] \<and> length endpoints \<noteq> length ops
      then Inl (Value_error ''Endpoint references must match the operation descriptions'')
      else Inr \<lparr>ci_features = features, ci_operations = ops, ci_endpoints = endpoints\<rparr>)"

definition exactly_one :: "'a list \<Rightarrow> (lookup_error, 'a) result" where
  "exactly_one matches = (case matches of [x] \<Rightarrow> Inr x | _ \<Rightarrow> Inl (Lookup_error (length matches)))"

definition find_operation :: "comp_info \<Rightarrow> nat \<Rightarrow> (lookup_error, op_info) result" where
  "find_operation c endpoint =
     exactly_one (map snd (filter (\<lambda>(e, _). e = endpoint) (zip (ci_endpoints c) (ci_operations c))))"

definition operation_by_id :: "comp_info \<Rightarrow> string \<Rightarrow> (lookup_error, op_info) result" where
  "operation_by_id c i = exactly_one (filter (\<lambda>op. oi_id op = Some i) (ci_operations c))"

section \<open>Features and compositions\<close>

definition distinct_instances :: "'a item list \<Rightarrow> string \<Rightarrow> (cfg_error, 'a list) result" where
  \<comment> \<open>\<open>_unique_instances\<close>: a repeated instance is an error here\<close>
  "distinct_instances vals param =
     rfold (\<lambda>v xs. case v of
         Foreign \<Rightarrow> Inl (Cfg_at param ''wrong instance'')
       | Instance x \<Rightarrow> if x \<in> set xs then Inl (Cfg_at param ''duplicates an earlier instance'') else Inr (xs @ [x]))
       vals []"

definition validate_feature_name :: "pyval \<Rightarrow> (cfg_error, string) result" where
  "validate_feature_name v =
     (case v of PStr s \<Rightarrow> if \<not> blank s \<and> single_line s then Inr s
                          else Inl (Cfg ''feature name must be a non-empty, single-line string'')
      | _ \<Rightarrow> Inl (Cfg ''feature name must be a non-empty, single-line string''))"

type_synonym dkey = "string \<times> string"

record provider =
  pv_id :: nat
  pv_component :: string
  pv_factories :: "dkey list"
  pv_aliases :: "dkey list"
  pv_vars :: "dkey list"

text \<open>A provider source is a provider or a callable; a call raises, or returns something.\<close>

datatype provider_source = Src_provider provider | Src_factory "provider item option"

record instrumentation =
  in_component :: string
  in_port :: string

datatype route_kind = Ws_route | Api_route | Plain_route | Mounted

datatype route_class = Injected_class | Dishka_class | Api_class bool | Other_class

datatype dependant = Dependant "string option" "dependant list"

record route =
  rt_id :: nat
  rt_kind :: route_kind
  rt_class :: route_class
  rt_path :: string
  rt_raw_path :: string
  rt_regex :: "string option"
  rt_name :: string
  rt_methods :: "string list"
  rt_operation_id :: "string option"
  rt_unique_id :: "string option"
  rt_in_schema :: bool
  rt_stream :: bool
  rt_dependencies :: "dkey list option"
  rt_dependant :: "dependant option"
  rt_rpc_roots :: "(string \<times> dkey list option) list option option"
  rt_webrtc_roots :: "dkey list option option"
  rt_registry :: "rid option"
  rt_endpoint_registries :: "rid list"

record frouter =
  fr_id :: nat
  fr_prefix :: string
  fr_routes :: "route list"
  fr_canon :: bool
  fr_registries :: "rid list"
  fr_error_registry :: "rid option"
  fr_included :: "rid list"
  fr_lifespan :: nat
  fr_default_lifespan :: bool

datatype 'r check_outcome = Check_raises | Check_returns 'r

text \<open>A feature check returns issues, or something else (a coroutine, another value), or raises.\<close>

datatype check_return = Returned_issues "issue list" | Returned_other

record fcheck =
  fc_name :: string
  fc_run :: "comp_info \<Rightarrow> feature_info \<Rightarrow> check_return check_outcome"

record feature =
  ft_id :: nat
  ft_name :: string
  ft_routers :: "frouter list"
  ft_providers :: "nat list"
  ft_instrumentation :: "instrumentation list"
  ft_handlers :: "(cls \<times> nat) list"
  ft_lifespan :: "nat option"
  ft_checks :: "fcheck list"
  ft_errors :: "err list"

definition router_registries :: "frouter \<Rightarrow> rid list" where
  \<comment> \<open>\<open>CanonRouter.error_registries\<close>: its own, the included ones, and those put on it\<close>
  "router_registries r =
     fromkeys ((case fr_error_registry r of None \<Rightarrow> [] | Some i \<Rightarrow> [i]) @ fr_included r @ fr_registries r)"

definition router_contributions :: "frouter \<Rightarrow> rid list" where
  "router_contributions r =
     fr_registries r @ (if fr_canon r then router_registries r else []) @
     concat (map (\<lambda>t. (case rt_registry t of None \<Rightarrow> [] | Some i \<Rightarrow> [i]) @ rt_endpoint_registries t)
       (filter (\<lambda>t. rt_kind t \<noteq> Mounted) (fr_routes r)))"

text \<open>
  The registries a merge makes are fresh objects: the store of registries is extended and the
  new identity returned. A merged registry of several has a name of its own.
\<close>

record heap =
  hp_registries :: "rid \<Rightarrow> registry"
  hp_next :: rid

definition alloc :: "registry \<Rightarrow> heap \<Rightarrow> rid \<times> heap" where
  "alloc r h = (hp_next h, h\<lparr>hp_registries := (hp_registries h)(hp_next h := r), hp_next := Suc (hp_next h)\<rparr>)"

definition opt_pystr :: "string option \<Rightarrow> pyval" where
  "opt_pystr v = (case v of None \<Rightarrow> PNone | Some s \<Rightarrow> PStr s)"

definition inferred_base :: "(rid \<Rightarrow> registry) \<Rightarrow> rid list \<Rightarrow> string option \<Rightarrow> string option" where
  "inferred_base regs ids base =
     (if base \<noteq> None then base
      else (case fromkeys (map (\<lambda>i. rg_base (regs i)) ids) of [b] \<Rightarrow> b | _ \<Rightarrow> None))"

fun distinct_contributions :: "rid list \<Rightarrow> (string \<times> rid) list \<Rightarrow> (string \<times> rid) list" where
  "distinct_contributions seen [] = []"
| "distinct_contributions seen ((n, i) # cs) =
     (if i \<in> set seen then distinct_contributions seen cs
      else (n, i) # distinct_contributions (i # seen) cs)"

definition merge_errors ::
    "(string \<Rightarrow> bool) \<Rightarrow> store \<Rightarrow> (rid \<Rightarrow> registry) \<Rightarrow> (string \<times> rid) list \<Rightarrow> string option \<Rightarrow> string option
      \<Rightarrow> (cfg_error, registry option) result" where
  "merge_errors host_ok st regs contributions name base =
     (if contributions = [] then Inr None
      else
        (let distinct = distinct_contributions [] contributions; ids = map snd distinct
         in case merge_registries host_ok st regs (map Instance ids) (opt_pystr name)
                   (opt_pystr (inferred_base regs ids base)) of
              Inl _ \<Rightarrow> Inl (Cfg_names ''error registries from features are incompatible'' (map fst distinct))
            | Inr r \<Rightarrow> Inr (Some r)))"

definition collect_router_errors ::
    "(string \<Rightarrow> bool) \<Rightarrow> store \<Rightarrow> (rid \<Rightarrow> registry) \<Rightarrow> frouter list \<Rightarrow> string \<Rightarrow> (cfg_error, registry option) result" where
  "collect_router_errors host_ok st regs routers feature =
     (let ids = fromkeys (concat (map router_contributions routers))
      in merge_errors host_ok st regs (map (\<lambda>i. (feature, i)) ids)
           (if length ids > 1 then Some (feature @ ''-routers'') else None) None)"

definition feature_registry ::
    "(string \<Rightarrow> bool) \<Rightarrow> store \<Rightarrow> heap \<Rightarrow> string \<Rightarrow> err list \<Rightarrow> frouter list
      \<Rightarrow> (cfg_error, registry option) result" where
  "feature_registry host_ok st h name errors routers =
     rbind (collect_router_errors host_ok st (hp_registries h) routers name) (\<lambda>from_routers.
     rbind (if errors = [] then Inr None
            else (case make_registry host_ok st (map Instance errors) PNone PNone of
                    Inl _ \<Rightarrow> Inl (Cfg ''conflicting errors'') | Inr r \<Rightarrow> Inr (Some r))) (\<lambda>listed.
     (let parts = (case listed of None \<Rightarrow> [] | Some r \<Rightarrow> [r]) @ (case from_routers of None \<Rightarrow> [] | Some r \<Rightarrow> [r]);
          (ids, h') = fold (\<lambda>r (ids, h). let (i, h') = alloc r h in (ids @ [i], h')) parts ([], h)
      in merge_errors host_ok st (hp_registries h') (map (\<lambda>i. (name, i)) ids) (Some name) None)))"

text \<open>An exception handler: callable or not; the mapping's keys are classes or anything else.\<close>

definition exception_handlers ::
    "(pyval \<times> nat option) list option option \<Rightarrow> (cfg_error, (cls \<times> nat) list) result" where
  \<comment> \<open>no argument, something that is no mapping, or a mapping whose values are callables or not\<close>
  "exception_handlers hs =
     (case hs of
        None \<Rightarrow> Inr []
      | Some None \<Rightarrow> Inl (Cfg ''exception_handlers must be a mapping of exception classes to handlers'')
      | Some (Some kvs) \<Rightarrow>
          rfold (\<lambda>(k, v) d.
            if \<not> subclass_of k ''Exception'' then Inl (Cfg ''exception_handlers keys must be Exception subclasses'')
            else (case v of None \<Rightarrow> Inl (Cfg ''exception handler must be callable'')
                  | Some h \<Rightarrow> Inr (case k of PType (c # _) \<Rightarrow> dict_set c h d | _ \<Rightarrow> d))) kvs [])"

definition unique_provider_sources :: "nat item list \<Rightarrow> (cfg_error, nat list) result" where
  \<comment> \<open>an instance is a provider or a callable\<close>
  "unique_provider_sources vals =
     rfold (\<lambda>v xs. case v of
         Foreign \<Rightarrow> Inl (Cfg ''must be a Provider instance, Provider class, or zero-argument provider factory'')
       | Instance x \<Rightarrow> if x \<in> set xs then Inl (Cfg ''duplicates an earlier provider source'') else Inr (xs @ [x]))
       vals []"

record feature_args =
  fa_name :: pyval
  fa_routers :: "frouter item list"
  fa_providers :: "nat item list"
  fa_instrumentation :: "instrumentation item list"
  fa_errors :: "err sequence_arg"
  fa_handlers :: "(pyval \<times> nat option) list option option"
  fa_lifespan :: "nat item option"
  fa_checks :: "fcheck item list"

definition new_feature ::
    "(string \<Rightarrow> bool) \<Rightarrow> store \<Rightarrow> heap \<Rightarrow> nat \<Rightarrow> feature_args \<Rightarrow> (cfg_error, feature) result" where
  "new_feature host_ok st h i a =
     rbind (ensure (Foreign \<notin> set (fa_checks a)) (Cfg ''checks must contain synchronous callable functions'')) (\<lambda>_.
     rbind (validate_feature_name (fa_name a)) (\<lambda>name.
     rbind (distinct_instances (fa_routers a) ''routers'') (\<lambda>routers.
     rbind (unique_provider_sources (fa_providers a)) (\<lambda>providers.
     rbind (distinct_instances (fa_instrumentation a) ''instrumentation'') (\<lambda>instr.
     rbind (exception_handlers (fa_handlers a)) (\<lambda>handlers.
     rbind (normalize_raises (fa_errors a) ''errors'') (\<lambda>listed.
     rbind (case fa_lifespan a of
              None \<Rightarrow> Inr None | Some (Instance l) \<Rightarrow> Inr (Some l)
            | Some Foreign \<Rightarrow> Inl (Cfg ''lifespan must be callable or None'')) (\<lambda>lifespan.
     rbind (feature_registry host_ok st h name listed routers) (\<lambda>_.
       Inr \<lparr>ft_id = i, ft_name = name, ft_routers = routers, ft_providers = providers,
            ft_instrumentation = instr, ft_handlers = handlers, ft_lifespan = lifespan,
            ft_checks = instances (fa_checks a), ft_errors = listed\<rparr>)))))))))"

record error_options =
  eo_base :: "string option"
  eo_name :: "string option"
  eo_validation :: bool
  eo_http :: bool
  eo_unhandled :: bool

definition validate_bool :: "pyval \<Rightarrow> string \<Rightarrow> (cfg_error, bool) result" where
  "validate_bool v param = (case v of PBool b \<Rightarrow> Inr b | _ \<Rightarrow> Inl (Cfg_at param ''must be a bool''))"

definition new_error_options ::
    "(string \<Rightarrow> bool) \<Rightarrow> store \<Rightarrow> pyval \<Rightarrow> pyval \<Rightarrow> pyval \<Rightarrow> pyval \<Rightarrow> pyval \<Rightarrow> (cfg_error, error_options) result" where
  "new_error_options host_ok st base name validation http unhandled =
     (case make_registry host_ok st [] name base of
        Inl (Reg_cfg e) \<Rightarrow> Inl e
      | Inl _ \<Rightarrow> Inl (Cfg ''conflicting errors'')
      | Inr r \<Rightarrow>
          rbind (validate_bool validation ''include_validation_error'') (\<lambda>v.
          rbind (validate_bool http ''include_http_exceptions'') (\<lambda>h.
          rbind (validate_bool unhandled ''include_unhandled_error'') (\<lambda>u.
            Inr \<lparr>eo_base = rg_base r, eo_name = rg_name r, eo_validation = v, eo_http = h, eo_unhandled = u\<rparr>))))"

record composition =
  cp_features :: "feature list"
  cp_errors :: error_options
  cp_router_factory :: "nat option"
  cp_telemetry :: "nat option"
  cp_request_logging :: bool
  cp_overrides :: "nat list"

definition validate_unique_feature_names :: "feature list \<Rightarrow> (cfg_error, unit) result" where
  "validate_unique_feature_names features =
     rbind (rfold (\<lambda>f seen. if ft_name f \<in> set seen then Inl (Cfg_at ''feature name is duplicated'' (ft_name f))
                            else Inr (seen @ [ft_name f])) features []) (\<lambda>_. Inr ())"

definition optional_instance :: "'a item option \<Rightarrow> string \<Rightarrow> (cfg_error, 'a option) result" where
  "optional_instance v message =
     (case v of None \<Rightarrow> Inr None | Some (Instance x) \<Rightarrow> Inr (Some x) | Some Foreign \<Rightarrow> Inl (Cfg message))"

definition default_error_options :: error_options where
  "default_error_options = \<lparr>eo_base = None, eo_name = Some ''application'', eo_validation = True,
     eo_http = True, eo_unhandled = True\<rparr>"

definition new_composition ::
    "feature item list \<Rightarrow> error_options item option \<Rightarrow> nat item option \<Rightarrow> nat item option \<Rightarrow> pyval
      \<Rightarrow> (cfg_error, composition) result" where
  "new_composition features errors router_factory telemetry request_logging =
     rbind (validate_bool request_logging ''request_logging'') (\<lambda>logging.
     rbind (optional_instance telemetry ''telemetry must be a Telemetry instance or None'') (\<lambda>t.
     rbind (distinct_instances features ''features'') (\<lambda>fs.
     rbind (validate_unique_feature_names fs) (\<lambda>_.
     rbind (optional_instance errors ''errors must be an ErrorOptions instance or None'') (\<lambda>e.
     rbind (optional_instance router_factory ''router_factory must be callable or None'') (\<lambda>rf.
       Inr \<lparr>cp_features = fs, cp_errors = (case e of Some o1 \<Rightarrow> o1 | None \<Rightarrow> default_error_options),
            cp_router_factory = rf, cp_telemetry = t, cp_request_logging = logging, cp_overrides = []\<rparr>))))))"

definition override_providers :: "composition \<Rightarrow> nat item list \<Rightarrow> (cfg_error, composition) result" where
  "override_providers c providers =
     (if providers = [] then Inl (Cfg ''override expects at least one provider'')
      else rbind (unique_provider_sources (map Instance (cp_overrides c) @ providers))
             (\<lambda>o1. Inr (c\<lparr>cp_overrides := o1\<rparr>)))"

section \<open>Contributions that occur once\<close>

fun reject_duplicates :: "string \<Rightarrow> ('a \<times> string) list \<Rightarrow> (string \<times> 'a) list \<Rightarrow> (cfg_error, unit) result" where
  \<comment> \<open>the loops with a dictionary of the owner of each identity seen so far\<close>
  "reject_duplicates message seen [] = Inr ()"
| "reject_duplicates message seen ((owner, x) # rest) =
     (case dict_get seen x of
        Some previous \<Rightarrow> Inl (Cfg_names message [previous, owner])
      | None \<Rightarrow> reject_duplicates message (dict_set x owner seen) rest)"

definition owned :: "feature list \<Rightarrow> (feature \<Rightarrow> 'a list) \<Rightarrow> (string \<times> 'a) list" where
  "owned features contribution = concat (map (\<lambda>f. map (\<lambda>x. (ft_name f, x)) (contribution f)) features)"

definition reject_duplicate_contributions ::
    "feature list \<Rightarrow> (feature \<Rightarrow> nat list) \<Rightarrow> (cfg_error, unit) result" where
  "reject_duplicate_contributions features contribution =
     reject_duplicates ''features contribute the same instance'' [] (owned features contribution)"

definition flatten_routers :: "feature list \<Rightarrow> frouter list" where
  "flatten_routers features = concat (map ft_routers features)"

definition flatten_provider_sources :: "feature list \<Rightarrow> (string \<times> nat) list" where
  "flatten_provider_sources features = owned features ft_providers"

definition flatten_handlers :: "feature list \<Rightarrow> (cls \<times> nat) list" where
  "flatten_handlers features = concat (map ft_handlers features)"

fun materialize_providers ::
    "(nat \<Rightarrow> provider_source) \<Rightarrow> (string \<times> nat) list \<Rightarrow> (cfg_error, (string \<times> provider) list) result" where
  "materialize_providers src [] = Inr []"
| "materialize_providers src ((owner, i) # rest) =
     rbind (case src i of
              Src_provider p \<Rightarrow> Inr p
            | Src_factory None \<Rightarrow> Inl (Cfg_at ''provider factory failed'' owner)
            | Src_factory (Some Foreign) \<Rightarrow> Inl (Cfg_at ''provider factory returned no Provider'' owner)
            | Src_factory (Some (Instance p)) \<Rightarrow> Inr p) (\<lambda>p.
     rbind (materialize_providers src rest) (\<lambda>ps. Inr ((owner, p) # ps)))"

definition reject_duplicate_materialized :: "(string \<times> provider) list \<Rightarrow> (cfg_error, unit) result" where
  "reject_duplicate_materialized ps =
     reject_duplicates ''provider sources produced the same Provider instance'' [] (map (\<lambda>(n, p). (n, pv_id p)) ps)"

definition provided_keys :: "provider \<Rightarrow> dkey list" where
  \<comment> \<open>the types a provider binds, in its component\<close>
  "provided_keys p = map (\<lambda>(t, _). (t, pv_component p)) (pv_factories p @ pv_aliases p @ pv_vars p)"

definition reject_unmatched_overrides :: "provider list \<Rightarrow> provider list \<Rightarrow> (cfg_error, unit) result" where
  "reject_unmatched_overrides providers overrides =
     (let provided = concat (map provided_keys providers)
      in rbind (rmap (\<lambda>p. rmap (\<lambda>k. ensure (k \<in> set provided)
                  (Cfg_at ''override provides a type which no feature provides'' (fst k))) (provided_keys p)) overrides)
           (\<lambda>_. Inr ()))"

definition telemetry_type :: string where "telemetry_type = ''Telemetry''"

definition binds_telemetry :: "provider \<Rightarrow> bool" where
  "binds_telemetry p = list_ex (\<lambda>(t, _). t = telemetry_type) (pv_factories p @ pv_aliases p @ pv_vars p)"

definition telemetry_provider :: "string \<Rightarrow> provider" where
  \<comment> \<open>\<open>options.provider(component)\<close>: a fresh provider of the telemetry options\<close>
  "telemetry_provider component =
     \<lparr>pv_id = 0, pv_component = component, pv_factories = [(telemetry_type, [])], pv_aliases = [], pv_vars = []\<rparr>"

definition make_container ::
    "(provider list \<Rightarrow> 'c option) \<Rightarrow> provider list \<Rightarrow> (cfg_error, 'c option) result" where
  \<comment> \<open>the parameter is \<open>make_async_container\<close>, which may refuse the graph\<close>
  "make_container build providers =
     (if providers = [] then Inr None
      else if list_ex binds_telemetry providers
      then Inl (Cfg ''Telemetry is reserved by Composition; remove the custom binding'')
      else (case build (providers @ map telemetry_provider (fromkeys (map pv_component providers))) of
              None \<Rightarrow> Inl (Cfg ''invalid Dishka provider graph'')
            | Some c \<Rightarrow> Inr (Some c)))"

definition instrumentation_keys :: "feature list \<Rightarrow> (string \<times> (string \<times> string)) list" where
  "instrumentation_keys features = owned features (\<lambda>f. map (\<lambda>s. (in_component s, in_port s)) (ft_instrumentation f))"

definition instrumentation_providers ::
    "((string \<times> (string \<times> string)) list \<Rightarrow> provider list) \<Rightarrow> (string \<times> (string \<times> string)) list \<Rightarrow> nat option
      \<Rightarrow> (cfg_error, provider list) result" where
  \<comment> \<open>the parameter builds the decorating providers (\<open>ports.py\<close>)\<close>
  "instrumentation_providers decorate specs telemetry =
     rbind (reject_duplicates ''port is instrumented more than once'' [] specs) (\<lambda>_.
       Inr (if telemetry = None \<or> specs = [] then [] else decorate specs))"

definition add_overrides ::
    "(nat \<Rightarrow> provider_source) \<Rightarrow> nat list \<Rightarrow> (string \<times> provider) list \<Rightarrow> provider list
      \<Rightarrow> (cfg_error, provider list) result" where
  \<comment> \<open>the overrides after the feature providers and the instrumentation\<close>
  "add_overrides src overrides ps ips =
     (if overrides = [] then Inr (map snd ps @ ips)
      else
        rbind (materialize_providers src (map (\<lambda>i. (''overrides'', i)) overrides)) (\<lambda>os.
        rbind (reject_duplicate_materialized (ps @ os)) (\<lambda>_.
        rbind (reject_unmatched_overrides (map snd ps @ ips) (map snd os)) (\<lambda>_.
          Inr (map snd ps @ ips @ map snd os)))))"

definition prepare_container ::
    "(nat \<Rightarrow> provider_source) \<Rightarrow> (provider list \<Rightarrow> 'c option)
      \<Rightarrow> ((string \<times> (string \<times> string)) list \<Rightarrow> provider list) \<Rightarrow> bool \<Rightarrow> composition
      \<Rightarrow> (cfg_error, 'c option) result" where
  "prepare_container src build decorate started c =
     rbind (reject_duplicate_contributions (cp_features c) ft_providers) (\<lambda>_.
     rbind (materialize_providers src (flatten_provider_sources (cp_features c))) (\<lambda>ps.
     rbind (reject_duplicate_materialized ps) (\<lambda>_.
     rbind (if instrumentation_keys (cp_features c) = [] then Inr []
            else instrumentation_providers decorate (instrumentation_keys (cp_features c)) (cp_telemetry c)) (\<lambda>ips.
     rbind (add_overrides src (cp_overrides c) ps ips) (\<lambda>providers.
     rbind (make_container build providers) (\<lambda>container.
       if container \<noteq> None \<and> started
       then Inl (Cfg ''features with providers must be installed before the app starts'')
       else Inr container))))))"

section \<open>Handlers and the error catalog\<close>

definition validate_handlers :: "(cls \<times> handler) list \<Rightarrow> feature list \<Rightarrow> (cfg_error, unit) result" where
  "validate_handlers existing features =
     rbind (rfold (\<lambda>(owner, c) seen.
         case dict_get seen c of
           Some previous \<Rightarrow> Inl (Cfg_names ''features define an exception handler for the same class'' [previous, owner])
         | None \<Rightarrow>
             if dict_get existing c \<noteq> None
             then Inl (Cfg_at ''the application already defines an exception handler for'' c)
             else Inr (dict_set c owner seen))
         (owned features (\<lambda>f. map fst (ft_handlers f))) []) (\<lambda>_. Inr ())"

definition default_type_base :: string where "default_type_base = ''urn:fastapi-canon:problem''"

definition contribute ::
    "(string \<Rightarrow> bool) \<Rightarrow> store \<Rightarrow> feature \<Rightarrow> (string \<times> rid) list \<times> heap \<Rightarrow> (cfg_error, (string \<times> rid) list \<times> heap) result" where
  \<comment> \<open>one feature of the comprehension of \<open>_prepare_registry\<close>\<close>
  "contribute host_ok st f acc =
     rbind (feature_registry host_ok st (snd acc) (ft_name f) (ft_errors f) (ft_routers f)) (\<lambda>r.
       Inr (case r of None \<Rightarrow> acc | Some g \<Rightarrow> (fst acc @ [(ft_name f, fst (alloc g (snd acc)))], snd (alloc g (snd acc)))))"

definition root_contribution :: "composition \<Rightarrow> frouter list \<Rightarrow> (string \<times> rid) list" where
  \<comment> \<open>the application router's own errors extend every feature\<close>
  "root_contribution c routers =
     (case (cp_router_factory c, routers) of
        (Some _, r # _) \<Rightarrow>
          if fr_canon r then (case fr_error_registry r of None \<Rightarrow> [] | Some i \<Rightarrow> [(''router_factory'', i)]) else []
      | _ \<Rightarrow> [])"

definition nonempty :: "string option \<Rightarrow> string option" where
  \<comment> \<open>a string counts in \<open>or\<close> only when it is not empty\<close>
  "nonempty v = (case v of Some s \<Rightarrow> if s = [] then None else Some s | None \<Rightarrow> None)"

definition catalog_base :: "error_options \<Rightarrow> registry option \<Rightarrow> string" where
  "catalog_base o1 merged =
     (case nonempty (eo_base o1) of
        Some b \<Rightarrow> b
      | None \<Rightarrow> (case nonempty (case merged of None \<Rightarrow> None | Some g \<Rightarrow> rg_base g) of
                   Some b \<Rightarrow> b | None \<Rightarrow> default_type_base))"

definition final_catalog ::
    "(string \<Rightarrow> bool) \<Rightarrow> store \<Rightarrow> heap \<Rightarrow> error_options \<Rightarrow> registry option \<Rightarrow> (cfg_error, rid \<times> heap) result" where
  \<comment> \<open>the merge that gives the catalog its name and a type base\<close>
  "final_catalog host_ok st h o1 merged =
     (let (ids, h2) = (case merged of None \<Rightarrow> ([], h) | Some g \<Rightarrow> ([fst (alloc g h)], snd (alloc g h)))
      in case merge_registries host_ok st (hp_registries h2) (map Instance ids)
                (opt_pystr (eo_name o1)) (PStr (catalog_base o1 merged)) of
           Inl _ \<Rightarrow> Inl (Cfg ''composed error catalog is incompatible'')
         | Inr g \<Rightarrow> Inr (alloc g h2))"

definition prepare_registry ::
    "(string \<Rightarrow> bool) \<Rightarrow> store \<Rightarrow> heap \<Rightarrow> rid option \<Rightarrow> composition \<Rightarrow> frouter list
      \<Rightarrow> (cfg_error, rid \<times> heap) result" where
  \<comment> \<open>\<open>installed\<close> is the registry of an application, \<open>routers\<close> the prepared routers\<close>
  "prepare_registry host_ok st h installed c routers =
     rbind (rfold (contribute host_ok st) (cp_features c) ([], h)) (\<lambda>(cs, h1).
     rbind (merge_errors host_ok st (hp_registries h1) (root_contribution c routers @ cs)
              (eo_name (cp_errors c)) (eo_base (cp_errors c))) (\<lambda>merged.
       case (merged, installed) of
         (None, Some i) \<Rightarrow> Inr (i, h1)
       | _ \<Rightarrow> final_catalog host_ok st h1 (cp_errors c) merged))"

section \<open>Duplicates are refused, overrides come last\<close>

lemma reject_duplicates_iff:
  "reject_duplicates m seen xs = Inr () \<longleftrightarrow> distinct (map snd xs) \<and> set (map snd xs) \<inter> fst ` set seen = {}"
proof (induction m seen xs rule: reject_duplicates.induct)
  case (2 m seen owner x rest)
  show ?case
  proof (cases "dict_get seen x")
    case None
    then have "x \<notin> fst ` set seen" by (simp add: map_of_eq_None_iff)
    with None 2 show ?thesis by (auto simp: keys_dict_set)
  next
    case (Some p)
    then have "x \<in> fst ` set seen" by (force dest: map_of_SomeD)
    with Some show ?thesis by auto
  qed
qed simp

lemma materialize_owners:
  "materialize_providers src xs = Inr ps \<Longrightarrow> map fst ps = map fst xs"
  by (induction src xs arbitrary: ps rule: materialize_providers.induct) auto

lemma reject_unmatched_iff:
  "reject_unmatched_overrides ps os = Inr () \<longleftrightarrow>
     (\<forall>p\<in>set os. \<forall>k\<in>set (provided_keys p). \<exists>q\<in>set ps. k \<in> set (provided_keys q))"
proof -
  let ?prov = "concat (map provided_keys ps)"
  have inner: "succeeds (rmap (\<lambda>k. ensure (k \<in> set ?prov) (m k)) ks) \<longleftrightarrow> set ks \<subseteq> set ?prov" for ks and m :: "_ \<Rightarrow> cfg_error"
    by (induction ks) (auto simp: succeeds_iff)
  have outer: "(\<exists>us. rmap (\<lambda>p. rmap (\<lambda>k. ensure (k \<in> set ?prov) (m k)) (provided_keys p)) qs = Inr us) \<longleftrightarrow>
      (\<forall>p\<in>set qs. set (provided_keys p) \<subseteq> set ?prov)" for qs and m :: "_ \<Rightarrow> cfg_error"
    using inner [of m] by (induction qs) (auto simp: succeeds_iff)
  show ?thesis
    using outer [of "\<lambda>k. Cfg_at ''override provides a type which no feature provides'' (fst k)" os]
    unfolding reject_unmatched_overrides_def Let_def by (auto simp: subset_iff)
qed

definition last_binding :: "provider list \<Rightarrow> dkey \<Rightarrow> provider option" where
  \<comment> \<open>the provider whose binding of a key wins: the last one\<close>
  "last_binding ps k = List.find (\<lambda>p. k \<in> set (provided_keys p)) (rev ps)"

lemma last_binding_append:
  "last_binding (ps @ qs) k = (case last_binding qs k of Some p \<Rightarrow> Some p | None \<Rightarrow> last_binding ps k)"
proof -
  have find: "List.find P (xs @ ys) = (case List.find P xs of Some x \<Rightarrow> Some x | None \<Rightarrow> List.find P ys)"
    for P and xs ys :: "provider list"
    by (induction xs) auto
  show ?thesis by (simp add: last_binding_def find cong: option.case_cong)
qed

lemma last_binding_exists: "(\<exists>p\<in>set ps. k \<in> set (provided_keys p)) \<Longrightarrow> \<exists>p\<in>set ps. last_binding ps k = Some p"
proof -
  assume a: "\<exists>p\<in>set ps. k \<in> set (provided_keys p)"
  then have "last_binding ps k \<noteq> None" by (auto simp: last_binding_def find_None_iff)
  then obtain p where p: "last_binding ps k = Some p" by blast
  then have "p \<in> set ps" by (auto simp: last_binding_def find_Some_iff) (metis in_set_conv_nth length_rev set_rev)
  with p show ?thesis by blast
qed

lemma add_overrides_parts:
  assumes "add_overrides src overrides ps ips = Inr providers" and "reject_duplicate_materialized ps = Inr ()"
  obtains os where "materialize_providers src (map (\<lambda>i. (''overrides'', i)) overrides) = Inr os"
    "reject_duplicate_materialized (ps @ os) = Inr ()"
    "reject_unmatched_overrides (map snd ps @ ips) (map snd os) = Inr ()"
    "providers = map snd ps @ ips @ map snd os"
proof (cases "overrides = []")
  case True
  with assms(1) have "providers = map snd ps @ ips" by (simp add: add_overrides_def)
  with True assms(2) show thesis by (intro that [of "[]"]) (simp_all add: reject_unmatched_iff)
next
  case False
  with assms(1) have "rbind (materialize_providers src (map (\<lambda>i. (''overrides'', i)) overrides)) (\<lambda>os.
        rbind (reject_duplicate_materialized (ps @ os)) (\<lambda>_.
        rbind (reject_unmatched_overrides (map snd ps @ ips) (map snd os)) (\<lambda>_.
          Inr (map snd ps @ ips @ map snd os)))) = Inr providers"
    by (simp only: add_overrides_def if_False)
  then obtain os u v where "materialize_providers src (map (\<lambda>i. (''overrides'', i)) overrides) = Inr os"
    "reject_duplicate_materialized (ps @ os) = Inr u"
    "reject_unmatched_overrides (map snd ps @ ips) (map snd os) = Inr v" "Inr (map snd ps @ ips @ map snd os) = (Inr providers :: (cfg_error, _) result)"
    by (simp only: rbind_eq_Inr) blast
  then show thesis by (intro that [of os]) simp_all
qed

text \<open>
  When a container is prepared from feature providers and overrides, no provider
  instance is contributed twice, every type an override binds is bound by a feature, and the
  binding that wins for such a type is an override's.
\<close>

theorem overrides_replace_bindings:
  assumes "prepare_container src build decorate started c = Inr container"
  shows "\<exists>ps ips os.
    materialize_providers src (flatten_provider_sources (cp_features c)) = Inr ps \<and>
    materialize_providers src (map (\<lambda>i. (''overrides'', i)) (cp_overrides c)) = Inr os \<and>
    make_container build (map snd ps @ ips @ map snd os) = Inr container \<and>
    distinct (map (\<lambda>p. pv_id (snd p)) (ps @ os)) \<and>
    (\<forall>o1\<in>set (map snd os). \<forall>k\<in>set (provided_keys o1).
       (\<exists>q\<in>set (map snd ps @ ips). k \<in> set (provided_keys q)) \<and>
       (\<exists>w\<in>set (map snd os). last_binding (map snd ps @ ips @ map snd os) k = Some w))"
proof -
  from assms obtain v1 v2 ps ips providers made where
    ps: "materialize_providers src (flatten_provider_sources (cp_features c)) = Inr ps"
    and dup: "reject_duplicate_materialized ps = Inr v2"
    and ov: "add_overrides src (cp_overrides c) ps ips = Inr providers"
    and mk: "make_container build providers = Inr made" "made = container"
    unfolding prepare_container_def by (simp only: rbind_eq_Inr) (auto split: if_splits)
  from dup have "reject_duplicate_materialized ps = Inr ()" by simp
  with ov obtain os where os: "materialize_providers src (map (\<lambda>i. (''overrides'', i)) (cp_overrides c)) = Inr os"
    and d: "reject_duplicate_materialized (ps @ os) = Inr ()"
    and u: "reject_unmatched_overrides (map snd ps @ ips) (map snd os) = Inr ()"
    and p: "providers = map snd ps @ ips @ map snd os"
    by (rule add_overrides_parts)
  have "distinct (map (\<lambda>p. pv_id (snd p)) (ps @ os))"
    using d by (simp add: reject_duplicate_materialized_def reject_duplicates_iff comp_def case_prod_beta)
  moreover have "(\<exists>q\<in>set (map snd ps @ ips). k \<in> set (provided_keys q)) \<and>
      (\<exists>w\<in>set (map snd os). last_binding (map snd ps @ ips @ map snd os) k = Some w)"
    if "o1 \<in> set (map snd os)" "k \<in> set (provided_keys o1)" for o1 k
  proof -
    from last_binding_exists [of "map snd os" k] that
    obtain w where "w \<in> set (map snd os)" "last_binding (map snd os) k = Some w" by blast
    then have "last_binding ((map snd ps @ ips) @ map snd os) k = Some w" by (simp add: last_binding_append)
    with u that \<open>w \<in> set (map snd os)\<close> show ?thesis unfolding reject_unmatched_iff by auto
  qed
  ultimately show ?thesis using ps os mk unfolding p by blast
qed

section \<open>The composed catalog\<close>

lemma distinct_contributions_ids: "map snd (distinct_contributions seen cs) = uniq_from seen (map snd cs)"
  by (induction seen cs rule: distinct_contributions.induct) auto

definition errors_of :: "registry option \<Rightarrow> err set" where
  "errors_of r = (case r of None \<Rightarrow> {} | Some g \<Rightarrow> set (registry_errors g))"

lemma merge_errors_of:
  assumes "merge_errors host_ok st regs cs name base = Inr out"
  shows "errors_of out = (\<Union>i\<in>set (map snd cs). set (registry_errors (regs i)))"
proof (cases "cs = []")
  case True
  with assms show ?thesis by (auto simp: merge_errors_def errors_of_def)
next
  case False
  let ?ids = "map snd (distinct_contributions [] cs)"
  from assms False obtain r b where
    r: "merge_registries host_ok st regs (map Instance ?ids) (opt_pystr name) b = Inr r" and out: "out = Some r"
    unfolding merge_errors_def Let_def by (auto simp del: map_map split: sum.splits)
  have "set (registry_errors r) = (\<Union>i\<in>set ?ids. set (registry_errors (regs i)))"
    using merge_registries_core(1) [OF r] unfolding instances_map by simp
  then show ?thesis unfolding distinct_contributions_ids by (simp add: out errors_of_def)
qed

definition declared_errors :: "(rid \<Rightarrow> registry) \<Rightarrow> err list \<Rightarrow> frouter list \<Rightarrow> err set" where
  \<comment> \<open>what a feature lists and what its routers declare\<close>
  "declared_errors regs errors routers =
     set errors \<union> (\<Union>r\<in>set routers. \<Union>i\<in>set (router_contributions r). set (registry_errors (regs i)))"

lemma collect_router_errors_of:
  "collect_router_errors host_ok st regs routers name = Inr out \<Longrightarrow>
     errors_of out = (\<Union>r\<in>set routers. \<Union>i\<in>set (router_contributions r). set (registry_errors (regs i)))"
  by (auto simp: collect_router_errors_def Let_def dest!: merge_errors_of)

lemma make_registry_errors:
  assumes "make_registry host_ok st (map Instance es) n b = Inr r"
  shows "set (registry_errors r) = set es"
proof -
  from assms obtain n' b' ys where ys: "unique_instances (map Instance es) ''errors'' = Inr ys"
    and init: "initialize st (map (\<lambda>e. \<lparr>re_error = e, re_uri = resolve_type_uri (st e) b',
                     re_source = (case n' of None \<Rightarrow> ''<anonymous>'' | Some s \<Rightarrow> s)\<rparr>) ys) n' b' = Inr r"
    by (auto simp: make_registry_def)
  from ys have "ys = fromkeys es" by (simp add: unique_instances_Inr)
  with initialize_wf [OF init] show ?thesis by (simp add: registry_errors_def comp_def)
qed

lemma feature_registry_of:
  assumes "feature_registry host_ok st h name errors routers = Inr out"
  shows "errors_of out = declared_errors (hp_registries h) errors routers"
proof -
  let ?lift = "if errors = [] then Inr None
            else (case make_registry host_ok st (map Instance errors) PNone PNone of
                    Inl _ \<Rightarrow> Inl (Cfg ''conflicting errors'') | Inr r \<Rightarrow> Inr (Some r))"
  from assms obtain from_routers listed where
    r: "collect_router_errors host_ok st (hp_registries h) routers name = Inr from_routers"
    and l: "?lift = Inr listed"
    and m: "(let parts = (case listed of None \<Rightarrow> [] | Some r \<Rightarrow> [r]) @ (case from_routers of None \<Rightarrow> [] | Some r \<Rightarrow> [r]);
          (ids, h') = fold (\<lambda>r (ids, h). let (i, h') = alloc r h in (ids @ [i], h')) parts ([], h)
      in merge_errors host_ok st (hp_registries h') (map (\<lambda>i. (name, i)) ids) (Some name) None) = Inr out"
    unfolding feature_registry_def by (simp only: rbind_eq_Inr) blast
  have listed: "errors_of listed = set errors"
    using l by (auto simp: errors_of_def make_registry_errors split: if_splits sum.splits)
  note routers = collect_router_errors_of [OF r]
  have "errors_of out = errors_of listed \<union> errors_of from_routers"
    using m by (cases listed; cases from_routers) (auto simp: alloc_def errors_of_def Let_def dest!: merge_errors_of)
  then show ?thesis using listed routers by (simp add: declared_errors_def)
qed

lemma alloc_simps [simp]:
  "fst (alloc r h) = hp_next h" "hp_next (snd (alloc r h)) = Suc (hp_next h)"
  "i < hp_next h \<Longrightarrow> hp_registries (snd (alloc r h)) i = hp_registries h i"
  "hp_registries (snd (alloc r h)) (hp_next h) = r"
  by (simp_all add: alloc_def)

definition ids_below :: "feature list \<Rightarrow> nat \<Rightarrow> bool" where
  "ids_below fs n \<longleftrightarrow> (\<forall>f\<in>set fs. \<forall>r\<in>set (ft_routers f). \<forall>i\<in>set (router_contributions r). i < n)"

definition feature_errors :: "(rid \<Rightarrow> registry) \<Rightarrow> feature \<Rightarrow> err set" where
  "feature_errors regs f = declared_errors regs (ft_errors f) (ft_routers f)"

definition catalog_errors :: "(string \<times> rid) list \<times> heap \<Rightarrow> err set" where
  "catalog_errors acc = (\<Union>i\<in>set (map snd (fst acc)). set (registry_errors (hp_registries (snd acc) i)))"

definition contributed :: "heap \<Rightarrow> (string \<times> rid) list \<times> heap \<Rightarrow> bool" where
  "contributed h acc \<longleftrightarrow> hp_next h \<le> hp_next (snd acc) \<and>
     (\<forall>i<hp_next h. hp_registries (snd acc) i = hp_registries h i) \<and>
     (\<forall>i\<in>set (map snd (fst acc)). i < hp_next (snd acc))"

lemma declared_errors_cong:
  "(\<And>r i. r \<in> set routers \<Longrightarrow> i \<in> set (router_contributions r) \<Longrightarrow> regs i = regs' i) \<Longrightarrow>
     declared_errors regs es routers = declared_errors regs' es routers"
  by (simp add: declared_errors_def)

lemma contribute_step:
  assumes "contribute host_ok st f acc = Inr acc'" and "contributed h acc" and "ids_below [f] (hp_next h)"
  shows "contributed h acc' \<and> catalog_errors acc' = catalog_errors acc \<union> feature_errors (hp_registries h) f"
proof -
  from assms(1) obtain r where r: "feature_registry host_ok st (snd acc) (ft_name f) (ft_errors f) (ft_routers f) = Inr r"
    and acc': "acc' = (case r of None \<Rightarrow> acc
      | Some g \<Rightarrow> (fst acc @ [(ft_name f, fst (alloc g (snd acc)))], snd (alloc g (snd acc))))"
    by (auto simp: contribute_def)
  have "declared_errors (hp_registries (snd acc)) (ft_errors f) (ft_routers f) = feature_errors (hp_registries h) f"
    unfolding feature_errors_def
    by (rule declared_errors_cong) (use assms(2,3) in \<open>auto simp: contributed_def ids_below_def\<close>)
  with feature_registry_of [OF r] have eq: "errors_of r = feature_errors (hp_registries h) f" by simp
  show ?thesis
  proof (cases r)
    case None
    with eq assms(2) show ?thesis by (auto simp: acc' errors_of_def)
  next
    case (Some g)
    have old: "(\<Union>i\<in>set (map snd (fst acc)). set (registry_errors (hp_registries (snd (alloc g (snd acc))) i))) = catalog_errors acc"
      unfolding catalog_errors_def using assms(2) by (intro SUP_cong) (auto simp: contributed_def)
    have "contributed h acc'"
      using assms(2) by (auto simp: acc' Some contributed_def dest: less_SucI)
    moreover have "catalog_errors acc' = catalog_errors acc \<union> set (registry_errors g)"
      using old by (simp add: acc' Some catalog_errors_def Un_commute)
    ultimately show ?thesis using eq by (simp add: Some errors_of_def)
  qed
qed

lemma contribute_fold:
  assumes "rfold (contribute host_ok st) fs acc = Inr acc'" and "contributed h acc" and "ids_below fs (hp_next h)"
  shows "contributed h acc' \<and> catalog_errors acc' = catalog_errors acc \<union> (\<Union>f\<in>set fs. feature_errors (hp_registries h) f)"
  using assms
proof (induction fs arbitrary: acc)
  case (Cons f fs)
  from Cons.prems(1) obtain a where a: "contribute host_ok st f acc = Inr a"
    and r: "rfold (contribute host_ok st) fs a = Inr acc'" by auto
  have b: "ids_below [f] (hp_next h)" "ids_below fs (hp_next h)" using Cons.prems(3) by (auto simp: ids_below_def)
  from contribute_step [OF a Cons.prems(2) b(1)] Cons.IH [OF r _ b(2)] show ?case by auto
qed simp

lemma final_catalog_sound:
  assumes "final_catalog host_ok st h o1 merged = Inr (i, h')"
  shows "set (registry_errors (hp_registries h' i)) = errors_of merged \<and> registry_wf st (hp_registries h' i) \<and>
    require_resolved st (hp_registries h' i) = Inr () \<and> rg_base (hp_registries h' i) \<noteq> None"
proof -
  obtain ids h2 where ids: "(case merged of None \<Rightarrow> ([], h) | Some g \<Rightarrow> ([fst (alloc g h)], snd (alloc g h))) = (ids, h2)"
    by (meson surj_pair)
  with assms obtain g where
    g: "merge_registries host_ok st (hp_registries h2) (map Instance ids)
                        (opt_pystr (eo_name o1)) (PStr (catalog_base o1 merged)) = Inr g"
    and out: "alloc g h2 = (i, h')"
    by (auto simp: final_catalog_def split: sum.splits)
  have errs: "set (registry_errors g) = errors_of merged"
    using merge_registries_core(1) [OF g] ids by (cases merged) (auto simp: errors_of_def)
  have reg: "hp_registries h' i = g" using out by (auto simp: alloc_def)
  have base: "rg_base g \<noteq> None"
    using merge_registries_core(4) [OF g] by (auto simp: validate_type_base_def split: if_splits option.splits) metis
  show ?thesis using errs base merge_registries_core(2,3) [OF g] by (simp add: reg)
qed

lemma prepare_registry_complete:
  assumes "prepare_registry host_ok st h None c routers = Inr (i, h')"
    and "ids_below (cp_features c) (hp_next h)"
  shows "(\<Union>f\<in>set (cp_features c). feature_errors (hp_registries h) f) \<subseteq> set (registry_errors (hp_registries h' i)) \<and>
    registry_wf st (hp_registries h' i) \<and> require_resolved st (hp_registries h' i) = Inr () \<and>
    rg_base (hp_registries h' i) \<noteq> None"
proof -
  from assms(1) obtain acc merged where
    fold: "rfold (contribute host_ok st) (cp_features c) ([], h) = Inr acc"
    and m: "merge_errors host_ok st (hp_registries (snd acc)) (root_contribution c routers @ fst acc)
              (eo_name (cp_errors c)) (eo_base (cp_errors c)) = Inr merged"
    and out: "final_catalog host_ok st (snd acc) (cp_errors c) merged = Inr (i, h')"
    unfolding prepare_registry_def by (auto split: option.splits)
  have "contributed h ([], h)" by (simp add: contributed_def)
  from contribute_fold [OF fold this assms(2)]
  have "catalog_errors acc = (\<Union>f\<in>set (cp_features c). feature_errors (hp_registries h) f)"
    by (simp add: catalog_errors_def)
  moreover have "catalog_errors acc \<subseteq> errors_of merged"
    using merge_errors_of [OF m] by (auto simp: catalog_errors_def)
  ultimately show ?thesis using final_catalog_sound [OF out] by simp
qed

text \<open>
  Claim C26. The catalog composed for an application contains every error a feature lists or its
  routers declare, satisfies the registry invariant, and every type URI in it is resolved, so
  it can be installed: the default type base applies when neither the options nor the features
  give one.
\<close>

theorem composed_catalog_complete:
  assumes "prepare_registry host_ok st h None c routers = Inr (i, h')"
    and "ids_below (cp_features c) (hp_next h)"
  shows "(\<Union>f\<in>set (cp_features c). feature_errors (hp_registries h) f) \<subseteq> set (registry_errors (hp_registries h' i)) \<and>
    registry_wf st (hp_registries h' i) \<and> require_resolved st (hp_registries h' i) = Inr () \<and>
    rg_base (hp_registries h' i) \<noteq> None"
  using assms by (rule prepare_registry_complete)

section \<open>Witnesses\<close>

definition sample_router_decl :: frouter where
  "sample_router_decl = \<lparr>fr_id = 7, fr_prefix = [], fr_routes = [], fr_canon = True, fr_registries = [],
     fr_error_registry = Some 0, fr_included = [], fr_lifespan = 0, fr_default_lifespan = True\<rparr>"

definition sample_feature :: feature where
  "sample_feature = \<lparr>ft_id = 1, ft_name = ''items'', ft_routers = [sample_router_decl], ft_providers = [0],
     ft_instrumentation = [], ft_handlers = [], ft_lifespan = None, ft_checks = [], ft_errors = [0]\<rparr>"

definition sample_composition :: composition where
  "sample_composition = \<lparr>cp_features = [sample_feature], cp_errors = default_error_options, cp_router_factory = None,
     cp_telemetry = None, cp_request_logging = False, cp_overrides = [1]\<rparr>"

definition sample_provider :: "nat \<Rightarrow> provider" where
  "sample_provider i = \<lparr>pv_id = i, pv_component = [], pv_factories = [(''Items'', [])], pv_aliases = [], pv_vars = []\<rparr>"

definition sample_sources :: "nat \<Rightarrow> provider_source" where
  "sample_sources i = (if i = 0 then Src_provider (sample_provider 5) else Src_factory (Some (Instance (sample_provider 6))))"

definition sample_heap :: heap where
  "sample_heap = \<lparr>hp_registries = (\<lambda>_. sample_registry), hp_next = 1\<rparr>"

definition sample_catalog :: "rid \<times> heap" where
  "sample_catalog = (case prepare_registry (\<lambda>_. True) sample_store sample_heap None sample_composition [] of
     Inr x \<Rightarrow> x | Inl _ \<Rightarrow> (0, sample_heap))"

lemma sample_catalog_made:
  "prepare_registry (\<lambda>_. True) sample_store sample_heap None sample_composition [] =
     Inr (fst sample_catalog, snd sample_catalog)"
proof -
  have "succeeds (prepare_registry (\<lambda>_. True) sample_store sample_heap None sample_composition [])" by code_simp
  then obtain x where "prepare_registry (\<lambda>_. True) sample_store sample_heap None sample_composition [] = Inr x"
    by (auto simp: succeeds_iff)
  then show ?thesis by (simp add: sample_catalog_def)
qed

theorem composed_catalog_complete_witness:
  "1 \<in> set (registry_errors (hp_registries (snd sample_catalog) (fst sample_catalog)))"
proof -
  have "ids_below (cp_features sample_composition) (hp_next sample_heap)" by code_simp
  moreover have "1 \<in> feature_errors (hp_registries sample_heap) sample_feature"
  proof -
    have "0 \<in> set (router_contributions sample_router_decl)" by code_simp
    then show ?thesis
      by (auto simp: feature_errors_def declared_errors_def sample_heap_def sample_errors sample_feature_def)
  qed
  ultimately show ?thesis
    using composed_catalog_complete [OF sample_catalog_made] by (force simp: sample_composition_def)
qed

theorem overrides_replace_bindings_witness:
  "\<exists>ps os. materialize_providers sample_sources (flatten_provider_sources (cp_features sample_composition)) = Inr ps \<and>
     materialize_providers sample_sources (map (\<lambda>i. (''overrides'', i)) (cp_overrides sample_composition)) = Inr os \<and>
     distinct (map (\<lambda>p. pv_id (snd p)) (ps @ os))"
proof -
  have "prepare_container sample_sources (\<lambda>ps. Some (length ps)) (\<lambda>_. []) False sample_composition = Inr (Some 3)"
    by code_simp
  from overrides_replace_bindings [OF this] show ?thesis by blast
qed

end
