(* ===== verification/Composition_Checks.thy ===== *)
theory Composition_Checks
  imports Composition_Model
begin

text \<open>
  The system checks of a composition (\<open>fastapi_canon/feature.py\<close>): operation identifiers and
  effective HTTP and WebSocket paths must be unambiguous, every injected service must have a
  binding in a scope its endpoint can reach, and the features' own check functions run isolated
  from each other. A check adds issues and results; it never raises. Starlette's path compiler
  and FastAPI's \<open>include_router\<close> are parameters: the pattern of a path, and the routes of a
  router that includes the prepared ones.
\<close>

type_synonym findings = "issue list \<times> check_result list"

definition no_findings :: findings where "no_findings = ([], [])"

definition add_findings :: "findings \<Rightarrow> findings \<Rightarrow> findings" where
  "add_findings a b = (fst a @ fst b, snd a @ snd b)"

definition join_findings :: "findings list \<Rightarrow> findings" where
  "join_findings fs = (concat (map fst fs), concat (map snd fs))"

definition status_of :: "bool \<Rightarrow> check_status" where
  "status_of failed = (if failed then Failed else Passed)"

section \<open>Ambiguous operations and paths\<close>

definition op_verbs :: "op_info list \<Rightarrow> (op_info \<times> string) list" where
  "op_verbs ops = concat (map (\<lambda>op. map (\<lambda>verb. (op, verb)) (oi_methods op)) ops)"

fun scan_operations :: "(op_info \<times> string) list \<Rightarrow> (string \<times> (op_info \<times> string)) list \<Rightarrow> issue list" where
  "scan_operations [] seen = []"
| "scan_operations ((op, verb) # rest) seen =
     (if \<not> oi_in_schema op \<or> oi_id op = None then scan_operations rest seen
      else
        (let i = the (oi_id op); seen' = dict_set i (op, verb) seen
         in case dict_get seen i of
              None \<Rightarrow> scan_operations rest seen'
            | Some (op0, verb0) \<Rightarrow>
                error_issue ''canon.routing.E002'' (''Duplicate operation ID '' @ i)
                  ''Set distinct operation_id values on these operations.''
                  (fromkeys [oi_feature op0, oi_feature op])
                  [verb0 @ '' '' @ oi_path op0, verb @ '' '' @ oi_path op] # scan_operations rest seen'))"

definition check_operations :: "op_info list \<Rightarrow> findings" where
  "check_operations ops =
     (let found = scan_operations (op_verbs ops) []
      in (found, [(''http.operation_ids'', status_of (found \<noteq> []))]))"

lemma length_after_name: "length (tl (dropWhile P (drop n s))) \<le> length s"
  using length_dropWhile_le [of P "drop n s"] by simp

function erase_names :: "string \<Rightarrow> string" where
  \<comment> \<open>every group name of a pattern erased, the groups kept\<close>
  "erase_names [] = []"
| "erase_names (c # s) =
     (if starts_with ''(?P<'' (c # s)
      then (let body = drop 3 s; name = takeWhile (\<lambda>x. x \<noteq> CHR ''>'') body;
                rest = dropWhile (\<lambda>x. x \<noteq> CHR ''>'') body
            in if name \<noteq> [] \<and> rest \<noteq> [] then ''(?:'' @ erase_names (tl rest) else c # erase_names s)
      else c # erase_names s)"
  by pat_completeness auto

termination
  by (relation "measure length") (use length_after_name in \<open>auto simp: less_Suc_eq_le simp del: length_tl\<close>)

record http_entry =
  he_owner :: string
  he_path :: string
  he_methods :: "string list"
  he_pattern :: string

fun scan_paths :: "(http_entry \<times> string) list \<Rightarrow> ((string \<times> string) \<times> (string \<times> string)) list \<Rightarrow> issue list" where
  "scan_paths [] seen = []"
| "scan_paths ((e, m) # rest) seen =
     (case dict_get seen (m, he_pattern e) of
        None \<Rightarrow> scan_paths rest (dict_set (m, he_pattern e) (he_owner e, he_path e) seen)
      | Some (owner, path) \<Rightarrow>
          error_issue ''canon.routing.E003'' (''Ambiguous HTTP route '' @ m @ '' '' @ he_path e)
            ''Use distinct effective paths or HTTP methods; operation IDs do not change dispatch.''
            (fromkeys [owner, he_owner e]) [m @ '' '' @ path, m @ '' '' @ he_path e] # scan_paths rest seen)"

definition entry_verbs :: "http_entry list \<Rightarrow> (http_entry \<times> string) list" where
  "entry_verbs es = concat (map (\<lambda>e. map (\<lambda>m. (e, m)) (he_methods e)) es)"

text \<open>A strict \<open>zip\<close>: lists of different lengths raise.\<close>

definition strict_zip :: "'a list \<Rightarrow> 'b list \<Rightarrow> (string, ('a \<times> 'b) list) result" where
  "strict_zip xs ys = (if length xs = length ys then Inr (zip xs ys) else Inl ''zip() arguments differ in length'')"

definition contract_routes :: "frouter \<Rightarrow> route list" where
  \<comment> \<open>\<open>iter_contract_routes\<close> without mounts\<close>
  "contract_routes r = filter (\<lambda>t. rt_kind t \<noteq> Mounted) (fr_routes r)"

definition routes_of_kind :: "route_kind \<Rightarrow> frouter \<Rightarrow> route list" where
  "routes_of_kind k r = filter (\<lambda>t. rt_kind t = k) (contract_routes r)"

definition owned_routes :: "(route \<Rightarrow> bool) \<Rightarrow> feature list \<Rightarrow> string list" where
  "owned_routes P features =
     concat (map (\<lambda>f. concat (map (\<lambda>r. map (\<lambda>_. ft_name f) (filter P (contract_routes r))) (ft_routers f))) features)"

definition route_identity :: "route \<Rightarrow> string option" where
  "route_identity t = (case nonempty (rt_operation_id t) of Some i \<Rightarrow> Some i | None \<Rightarrow> rt_unique_id t)"

definition sorted_methods :: "route \<Rightarrow> string list" where
  "sorted_methods t = sort (rt_methods t)"

definition http_entry_of ::
    "(string \<Rightarrow> string) \<Rightarrow> op_info list \<Rightarrow> string \<Rightarrow> route \<Rightarrow> http_entry" where
  "http_entry_of compile_path known owner t =
     (let installed = map (\<lambda>op. ((oi_id op, oi_path op, oi_methods op), oi_feature op)) known
      in \<lparr>he_owner = (case dict_get (rev installed) (route_identity t, rt_path t, sorted_methods t) of
                        Some n \<Rightarrow> n | None \<Rightarrow> owner),
          he_path = rt_path t, he_methods = sorted_methods t,
          he_pattern = erase_names (case rt_regex t of Some p \<Rightarrow> p | None \<Rightarrow> compile_path (rt_raw_path t))\<rparr>)"

definition http_entries ::
    "(string \<Rightarrow> string) \<Rightarrow> (frouter list \<Rightarrow> route list) \<Rightarrow> frouter \<Rightarrow> frouter list \<Rightarrow> feature list \<Rightarrow> op_info list
      \<Rightarrow> (string, http_entry list) result" where
  \<comment> \<open>the effective HTTP routes of the application and of the features\<close>
  "http_entries compile_path included application routers features known =
     (let http = (\<lambda>t. rt_kind t \<in> {Api_route, Plain_route});
          own = map (\<lambda>t. (''<application>'', t)) (filter http (contract_routes application))
      in rbind (if routers = [] then Inr []
                else strict_zip (owned_routes http features) (filter http (included routers))) (\<lambda>theirs.
           Inr (map (\<lambda>(owner, t). http_entry_of compile_path known owner t) (own @ theirs))))"

definition check_http_paths ::
    "(string \<Rightarrow> string) \<Rightarrow> (frouter list \<Rightarrow> route list) \<Rightarrow> frouter \<Rightarrow> frouter list \<Rightarrow> feature list \<Rightarrow> op_info list
      \<Rightarrow> (string, findings) result" where
  "check_http_paths compile_path included application routers features known =
     rbind (http_entries compile_path included application routers features known) (\<lambda>entries.
     (let found = scan_paths (entry_verbs entries) []
      in Inr (found, [(''http.paths'', status_of (found \<noteq> []))])))"

record ws_entry =
  we_owner :: string
  we_path :: string
  we_key :: string
  we_name :: string

fun scan_websockets :: "ws_entry list \<Rightarrow> (string \<times> (string \<times> string \<times> string)) list \<Rightarrow> (issue, unit) result" where
  "scan_websockets [] seen = Inr ()"
| "scan_websockets (e # rest) seen =
     (let location = ''WEBSOCKET '' @ we_path e @ '' ('' @ we_name e @ '')''
      in case dict_get seen (we_key e) of
           Some (owner, loc, name) \<Rightarrow>
             Inl (error_issue ''canon.routing.E004'' (''Duplicate WebSocket path '' @ we_path e)
               ''Use distinct effective WebSocket paths or remove the duplicate contribution.''
               (fromkeys [owner, we_owner e]) [loc, location])
         | None \<Rightarrow> scan_websockets rest (dict_set (we_key e) (we_owner e, location, we_name e) seen))"

definition ws_entries_of ::
    "(string \<Rightarrow> string) \<Rightarrow> string \<Rightarrow> string \<Rightarrow> frouter \<Rightarrow> ws_entry list" where
  "ws_entries_of compile_path owner prefix r =
     map (\<lambda>t. \<lparr>we_owner = owner, we_path = prefix @ rt_path t, we_key = erase_names (compile_path (prefix @ rt_raw_path t)),
               we_name = rt_name t\<rparr>) (routes_of_kind Ws_route r)"

definition websocket_entries ::
    "(string \<Rightarrow> string) \<Rightarrow> frouter \<Rightarrow> feature list \<Rightarrow> string \<Rightarrow> ws_entry list" where
  "websocket_entries compile_path application features prefix =
     ws_entries_of compile_path ''<application>'' [] application @
     concat (map (\<lambda>f. concat (map (ws_entries_of compile_path (ft_name f) (fr_prefix application @ prefix)) (ft_routers f)))
       features)"

definition validate_websocket_paths ::
    "(string \<Rightarrow> string) \<Rightarrow> frouter \<Rightarrow> feature list \<Rightarrow> string \<Rightarrow> (issue, unit) result" where
  "validate_websocket_paths compile_path application features prefix =
     scan_websockets (websocket_entries compile_path application features prefix) []"

section \<open>Bindings\<close>

text \<open>A container: the registries of it and its parents, and the registries below it with their scopes.\<close>

record dcontainer =
  dc_scope :: nat
  dc_chain :: "dkey list list"
  dc_below :: "(nat \<times> dkey list) list"

fun available_below :: "dkey \<Rightarrow> nat \<Rightarrow> (nat \<times> dkey list) list \<Rightarrow> bool" where
  "available_below key through [] = False"
| "available_below key through ((scope, keys) # rest) =
     (if key \<in> set keys then True else if scope = through then False else available_below key through rest)"

definition dependency_available :: "dcontainer option \<Rightarrow> dkey \<Rightarrow> nat \<Rightarrow> bool" where
  "dependency_available container key through =
     (case container of
        None \<Rightarrow> False
      | Some c \<Rightarrow>
          if list_ex (\<lambda>keys. key \<in> set keys) (dc_chain c) then True
          else if dc_scope c = through then False
          else available_below key through (dc_below c))"

fun dependant_size :: "dependant \<Rightarrow> nat" where
  "dependant_size (Dependant call deps) = Suc (sum_list (map dependant_size deps))"

definition service_of :: "dependant \<Rightarrow> string option" where
  \<comment> \<open>the service of an \<open>Inject[T]\<close> resolver\<close>
  "service_of d = (case d of Dependant call _ \<Rightarrow> call)"

definition children :: "dependant \<Rightarrow> dependant list" where
  "children d = (case d of Dependant _ deps \<Rightarrow> deps)"

lemma dependant_size_children: "sum_list (map dependant_size (children d)) < dependant_size d"
  by (cases d) (simp add: children_def)

function collect_services :: "dependant list \<Rightarrow> string list" where
  "collect_services [] = []"
| "collect_services (d # pending) =
     (case service_of d of None \<Rightarrow> [] | Some s \<Rightarrow> [s]) @ collect_services (pending @ children d)"
  by pat_completeness auto

termination
  by (relation "measure (\<lambda>ds. sum_list (map dependant_size ds))")
     (use dependant_size_children in \<open>auto simp: add.commute\<close>)

definition nested_injections :: "dependant option \<Rightarrow> dkey list" where
  "nested_injections d =
     fromkeys (map (\<lambda>s. (s, [])) (collect_services (case d of None \<Rightarrow> [] | Some x \<Rightarrow> children x)))"

record scopes =
  sc_app :: nat
  sc_session :: nat
  sc_request :: nat

definition missing_keys :: "dcontainer option \<Rightarrow> nat \<Rightarrow> dkey list \<Rightarrow> dkey list" where
  "missing_keys container through keys = filter (\<lambda>k. \<not> dependency_available container k through) keys"

definition check_rpc_endpoint ::
    "scopes \<Rightarrow> dcontainer option \<Rightarrow> bool \<Rightarrow> string \<times> route \<Rightarrow> findings" where
  "check_rpc_endpoint sc container external e =
     (let (owner, t) = e; path = rt_path t; prefix = ''rpc.method_dependencies:'' @ owner @ '':'' @ path
      in case rt_rpc_roots t of
           None \<Rightarrow> no_findings
         | Some None \<Rightarrow>
             ([error_issue ''canon.providers.E002'' (''RPC dependencies at '' @ path @ '' could not be inspected'')
                 ''Check the mounted channel declarations and handler signatures.'' [owner] [''WEBSOCKET '' @ path]],
              [(prefix, Incomplete)])
         | Some (Some requirements) \<Rightarrow>
             join_findings (map (\<lambda>(mname, deps).
               (let name = prefix @ '':'' @ mname
                in case deps of
                     None \<Rightarrow> ([], [(name, Skipped)])
                   | Some ds \<Rightarrow>
                       if ds \<noteq> [] \<and> external then ([], [(name, Skipped)])
                       else
                         (let missing = missing_keys container (sc_request sc) (map (\<lambda>d. (fst d, [])) ds)
                          in (map (\<lambda>k. error_issue ''canon.providers.E002''
                                 (''RPC method '' @ mname @ '' injects '' @ fst k @ '' without an APP/SESSION/REQUEST binding'')
                                 ''Register the default-component service in a feature provider, or configure an explicit resolver that owns it.''
                                 [owner] [''WEBSOCKET '' @ path @ '' ('' @ mname @ '')'', fst k]) missing,
                              [(name, status_of (missing \<noteq> []))])))) requirements))"

definition check_webrtc_endpoint ::
    "scopes \<Rightarrow> dcontainer option \<Rightarrow> bool \<Rightarrow> string \<times> route \<Rightarrow> findings" where
  "check_webrtc_endpoint sc container external e =
     (let (owner, t) = e; path = rt_path t; name = ''webrtc.factory_dependencies:'' @ owner @ '':'' @ path
      in case rt_webrtc_roots t of
           None \<Rightarrow> no_findings
         | Some None \<Rightarrow> ([], [(name, Skipped)])
         | Some (Some roots) \<Rightarrow>
             if roots \<noteq> [] \<and> external then ([], [(name, Skipped)])
             else
               (let missing = missing_keys container (sc_session sc) roots
                in (map (\<lambda>k. error_issue ''canon.providers.E004''
                       (''WebRTC factory '' @ path @ '' injects '' @ fst k @ '' without an APP/SESSION binding'')
                       ''Register the factory service at APP or SESSION scope; use a child REQUEST scope for per-message work.''
                       [owner] [''WEBSOCKET '' @ path, fst k]) missing,
                    [(name, status_of (missing \<noteq> []))])))"

definition owned_entries ::
    "(route \<Rightarrow> bool) \<Rightarrow> (frouter list \<Rightarrow> route list) \<Rightarrow> frouter \<Rightarrow> frouter list \<Rightarrow> feature list
      \<Rightarrow> (string, (string \<times> route) list) result" where
  \<comment> \<open>the application's routes and the effective ones of the features, with their owners\<close>
  "owned_entries P included application routers features =
     rbind (strict_zip (owned_routes P features) (filter P (included routers))) (\<lambda>theirs.
       Inr (map (\<lambda>t. (''<application>'', t)) (filter P (contract_routes application)) @ theirs))"

definition check_rpc_dependencies ::
    "scopes \<Rightarrow> (frouter list \<Rightarrow> route list) \<Rightarrow> frouter \<Rightarrow> bool \<Rightarrow> feature list \<Rightarrow> frouter list \<Rightarrow> dcontainer option
      \<Rightarrow> (string, findings) result" where
  \<comment> \<open>the flag says that the application already has a container of its own\<close>
  "check_rpc_dependencies sc included application foreign features routers container =
     rbind (owned_entries (\<lambda>t. rt_rpc_roots t \<noteq> None) included application routers features) (\<lambda>entries.
       Inr (join_findings (map (check_rpc_endpoint sc container (container = None \<and> foreign)) entries)))"

definition check_webrtc_dependencies ::
    "scopes \<Rightarrow> (frouter list \<Rightarrow> route list) \<Rightarrow> frouter \<Rightarrow> bool \<Rightarrow> feature list \<Rightarrow> frouter list \<Rightarrow> dcontainer option
      \<Rightarrow> (string, findings) result" where
  "check_webrtc_dependencies sc included application foreign features routers container =
     rbind (owned_entries (\<lambda>t. rt_webrtc_roots t \<noteq> None) included application routers features) (\<lambda>entries.
       Inr (join_findings (map (check_webrtc_endpoint sc container (container = None \<and> foreign)) entries)))"

definition http_missing :: "scopes \<Rightarrow> dcontainer option \<Rightarrow> route \<Rightarrow> dkey list \<Rightarrow> dkey list" where
  \<comment> \<open>a stream resolves from the APP scope, its dependencies in the request scope before it starts\<close>
  "http_missing sc container t deps =
     (let nested = nested_injections (rt_dependant t)
      in missing_keys container (if rt_stream t then sc_app sc else sc_request sc) deps @
         missing_keys container (sc_request sc) (filter (\<lambda>k. k \<notin> set deps) nested))"

definition check_http_endpoint ::
    "scopes \<Rightarrow> dcontainer option \<Rightarrow> bool \<Rightarrow> string \<times> route \<Rightarrow> findings" where
  "check_http_endpoint sc container external e =
     (let (owner, t) = e; path = rt_path t; verbs = join_with ''|'' (sorted_methods t);
          name = ''http.endpoint_dependencies:'' @ owner @ '':'' @ verbs @ '':'' @ path
      in case rt_class t of
           Other_class \<Rightarrow> ([], [(name, Skipped)])
         | Api_class False \<Rightarrow> no_findings
         | _ \<Rightarrow>
             (case rt_dependencies t of
                None \<Rightarrow>
                  ([error_issue ''canon.providers.E003'' (''HTTP endpoint dependencies at '' @ path @ '' could not be inspected'')
                      ''Check endpoint injection annotations and wrapper metadata.'' [owner] [verbs @ '' '' @ path]],
                   [(name, Incomplete)])
              | Some deps \<Rightarrow>
                  if (deps \<noteq> [] \<or> nested_injections (rt_dependant t) \<noteq> []) \<and> external then ([], [(name, Skipped)])
                  else
                    (let missing = http_missing sc container t deps
                     in (map (\<lambda>k. error_issue ''canon.providers.E003''
                            ((if rt_stream t then ''SSE'' else ''HTTP'') @ '' endpoint '' @ path @ '' injects '' @ fst k)
                            (if rt_stream t
                             then ''Use APP services or an APP-scoped ServiceScope factory for stream work; HTTP REQUEST resources close before streaming.''
                             else ''Register this endpoint service and component in a feature provider at APP/SESSION/REQUEST scope.'')
                            [owner] [verbs @ '' '' @ path, fst k]) missing,
                         [(name, status_of (missing \<noteq> []))]))))"

definition check_http_dependencies ::
    "scopes \<Rightarrow> frouter \<Rightarrow> bool \<Rightarrow> feature list \<Rightarrow> comp_info \<Rightarrow> dcontainer option \<Rightarrow> (string, findings) result" where
  "check_http_dependencies sc application foreign features description container =
     (let api = (\<lambda>t. rt_kind t = Api_route);
          own = map (\<lambda>t. (''<application>'', t)) (filter api (contract_routes application));
          sources = concat (map (\<lambda>f. concat (map (\<lambda>r. map (\<lambda>t. (ft_name f, t)) (filter api (contract_routes r)))
                      (ft_routers f))) features)
      in rbind (strict_zip sources (ci_operations description)) (\<lambda>theirs.
           Inr (join_findings (map (check_http_endpoint sc container (container = None \<and> foreign))
             (own @ map (\<lambda>((owner, t), op). (owner, t\<lparr>rt_path := oi_path op\<rparr>)) theirs)))))"

section \<open>Feature checks\<close>

definition attribute_issue :: "string \<Rightarrow> issue \<Rightarrow> issue" where
  \<comment> \<open>an issue that names no feature names the one whose check found it\<close>
  "attribute_issue name i = (if iss_features i = [] then i\<lparr>iss_features := [name]\<rparr> else i)"

definition run_feature_check :: "comp_info \<Rightarrow> feature \<Rightarrow> feature_info \<Rightarrow> fcheck \<Rightarrow> findings" where
  "run_feature_check description f info check =
     (let name = ft_name f @ '':'' @ fc_name check;
          incomplete = ([error_issue ''canon.checks.E001'' (''Feature check '' @ name @ '' did not complete'')
              ''Fix the check function; it must return a finite sequence of CheckIssue objects.'' [ft_name f] []],
            [(name, Incomplete)])
      in case fc_run check description info of
           Check_raises \<Rightarrow> incomplete
         | Check_returns Returned_other \<Rightarrow> incomplete
         | Check_returns (Returned_issues found) \<Rightarrow>
             (map (attribute_issue (ft_name f)) found,
              [(name, status_of (list_ex (\<lambda>i. iss_severity i = Sev_error) found))]))"

definition run_feature_checks :: "feature list \<Rightarrow> comp_info \<Rightarrow> (string, findings) result" where
  "run_feature_checks features description =
     rbind (strict_zip features (ci_features description)) (\<lambda>pairs.
       Inr (join_findings (concat (map (\<lambda>(f, info). map (run_feature_check description f info) (ft_checks f)) pairs))))"

section \<open>What the checks decide\<close>

definition op_key :: "op_info \<times> string \<Rightarrow> string option" where
  "op_key p = (if oi_in_schema (fst p) then oi_id (fst p) else None)"

definition documented_ids :: "op_info list \<Rightarrow> string list" where
  "documented_ids ops = List.map_filter op_key (op_verbs ops)"

lemma map_filter_Cons:
  "List.map_filter f (x # xs) = (case f x of None \<Rightarrow> List.map_filter f xs | Some y \<Rightarrow> y # List.map_filter f xs)"
  by (simp add: List.map_filter_simps split: option.split)

lemma dict_get_None_iff: "dict_get d k = None \<longleftrightarrow> k \<notin> fst ` set d"
  by (rule map_of_eq_None_iff)

lemma dict_get_Some_key: "dict_get d k = Some v \<Longrightarrow> k \<in> fst ` set d"
  by (force dest: map_of_SomeD)

lemma scan_skip: "op_key p = None \<Longrightarrow> scan_operations (p # xs) seen = scan_operations xs seen"
  by (cases p) (auto simp: op_key_def split: if_splits)

lemma scan_fresh:
  "op_key p = Some i \<Longrightarrow> dict_get seen i = None \<Longrightarrow> scan_operations (p # xs) seen = scan_operations xs (dict_set i p seen)"
  by (cases p) (simp add: op_key_def Let_def split: if_splits)

lemma scan_duplicate: "op_key p = Some i \<Longrightarrow> dict_get seen i = Some q \<Longrightarrow> scan_operations (p # xs) seen \<noteq> []"
  by (cases p; cases q) (simp add: op_key_def Let_def split: if_splits)

lemma scan_operations_Nil_iff:
  "scan_operations xs seen = [] \<longleftrightarrow>
     distinct (List.map_filter op_key xs) \<and> set (List.map_filter op_key xs) \<inter> fst ` set seen = {}"
proof (induction xs arbitrary: seen)
  case Nil
  then show ?case by (simp add: List.map_filter_simps)
next
  case (Cons p xs)
  show ?case
  proof (cases "op_key p")
    case None
    then show ?thesis using Cons by (simp add: scan_skip map_filter_Cons del: scan_operations.simps)
  next
    case (Some i)
    show ?thesis
    proof (cases "dict_get seen i")
      case None
      then have "i \<notin> fst ` set seen" by (simp add: dict_get_None_iff)
      with Some None Cons [of "dict_set i p seen"] show ?thesis
        by (auto simp: scan_fresh map_filter_Cons keys_dict_set simp del: scan_operations.simps)
    next
      case (Some q)
      then have "i \<in> fst ` set seen" by (rule dict_get_Some_key)
      moreover have "scan_operations (p # xs) seen \<noteq> []" using scan_duplicate [OF \<open>op_key p = Some i\<close> Some] .
      ultimately show ?thesis using \<open>op_key p = Some i\<close> by (simp add: map_filter_Cons del: scan_operations.simps)
    qed
  qed
qed

lemma scan_paths_Nil_iff:
  "scan_paths xs seen = [] \<longleftrightarrow>
     distinct (map (\<lambda>(e, m). (m, he_pattern e)) xs) \<and>
     set (map (\<lambda>(e, m). (m, he_pattern e)) xs) \<inter> fst ` set seen = {}"
proof (induction xs seen rule: scan_paths.induct)
  case (2 e m rest seen)
  show ?case
  proof (cases "dict_get seen (m, he_pattern e)")
    case None
    then have "(m, he_pattern e) \<notin> fst ` set seen" by (simp add: dict_get_None_iff)
    with 2(1) [OF None] None show ?thesis by (auto simp: keys_dict_set)
  next
    case (Some p)
    then have "(m, he_pattern e) \<in> fst ` set seen" by (rule dict_get_Some_key)
    with Some show ?thesis by (cases p) auto
  qed
qed simp

lemma scan_websockets_iff:
  "scan_websockets xs seen = Inr () \<longleftrightarrow> distinct (map we_key xs) \<and> set (map we_key xs) \<inter> fst ` set seen = {}"
proof (induction xs seen rule: scan_websockets.induct)
  case (2 e rest seen)
  show ?case
  proof (cases "dict_get seen (we_key e)")
    case None
    then have "we_key e \<notin> fst ` set seen" by (simp add: dict_get_None_iff)
    with 2(1) [OF refl None] None show ?thesis by (auto simp: keys_dict_set)
  next
    case (Some p)
    then have "we_key e \<in> fst ` set seen" by (rule dict_get_Some_key)
    with Some show ?thesis by (cases p) auto
  qed
qed simp

text \<open>
  Claim C27. The routing checks decide ambiguity exactly: operation identifiers pass when no
  identifier is documented twice (an operation counts once per HTTP verb), HTTP paths pass when
  no verb and pattern, with the names of path parameters erased, occur twice among the routes of
  the application and of the features, and the WebSocket paths are accepted exactly when their
  erased patterns differ.
\<close>

theorem routing_checks_exact:
  assumes "http_entries compile_path included application routers features known = Inr entries"
  shows "(check_http_paths compile_path included application routers features known = Inr ([], [(''http.paths'', Passed)])
      \<longleftrightarrow> distinct (map (\<lambda>(e, m). (m, he_pattern e)) (entry_verbs entries))) \<and>
    (check_operations ops = ([], [(''http.operation_ids'', Passed)]) \<longleftrightarrow> distinct (documented_ids ops)) \<and>
    (validate_websocket_paths compile_path application features prefix = Inr () \<longleftrightarrow>
      distinct (map we_key (websocket_entries compile_path application features prefix)))"
  using assms
  by (simp add: check_http_paths_def check_operations_def Let_def scan_paths_Nil_iff scan_operations_Nil_iff
      documented_ids_def status_of_def validate_websocket_paths_def scan_websockets_iff)

section \<open>Injected services\<close>

fun services :: "dependant \<Rightarrow> string set" where
  \<comment> \<open>the services resolved anywhere in a tree of dependencies\<close>
  "services (Dependant call deps) = set_option call \<union> \<Union>(set (map services deps))"

lemma services_split: "services d = set_option (service_of d) \<union> \<Union>(services ` set (children d))"
  by (cases d) (simp add: service_of_def children_def)

lemma set_collect_services: "set (collect_services ds) = \<Union>(services ` set ds)"
proof (induction ds rule: collect_services.induct)
  case (2 d pending)
  have "set (collect_services (d # pending)) = set_option (service_of d) \<union> \<Union>(services ` set (pending @ children d))"
    by (cases "service_of d") (simp_all add: 2)
  then show ?case by (auto simp: services_split [of d])
qed simp

definition unbound :: "dcontainer option \<Rightarrow> nat \<Rightarrow> dkey list \<Rightarrow> bool" where
  "unbound container through keys = (\<exists>k\<in>set keys. \<not> dependency_available container k through)"

lemma missing_keys_Nil: "missing_keys container through keys = [] \<longleftrightarrow> \<not> unbound container through keys"
  by (auto simp: missing_keys_def unbound_def filter_empty_conv)

definition injectable :: "route \<Rightarrow> bool" where
  \<comment> \<open>the endpoints the check inspects\<close>
  "injectable t = (rt_class t \<in> {Injected_class, Dishka_class, Api_class True})"

lemma check_http_endpoint_clean:
  assumes "fst (check_http_endpoint sc container False (owner, t)) = []" and "injectable t"
  shows "\<exists>deps. rt_dependencies t = Some deps \<and>
    (\<forall>k\<in>set deps. dependency_available container k (if rt_stream t then sc_app sc else sc_request sc)) \<and>
    (\<forall>k\<in>set (nested_injections (rt_dependant t)). k \<in> set deps \<or> dependency_available container k (sc_request sc))"
proof (cases "rt_dependencies t")
  case None
  with assms show ?thesis by (auto simp: check_http_endpoint_def Let_def injectable_def)
next
  case (Some deps)
  with assms have "http_missing sc container t deps = []"
    by (auto simp: check_http_endpoint_def Let_def injectable_def)
  then have "missing_keys container (if rt_stream t then sc_app sc else sc_request sc) deps = []"
    "missing_keys container (sc_request sc) (filter (\<lambda>k. k \<notin> set deps) (nested_injections (rt_dependant t))) = []"
    by (simp_all add: http_missing_def Let_def)
  with Some show ?thesis by (auto simp: missing_keys_Nil unbound_def)
qed

definition api_entries :: "frouter \<Rightarrow> feature list \<Rightarrow> comp_info \<Rightarrow> (string, (string \<times> route) list) result" where
  "api_entries application features description =
     (let api = (\<lambda>t. rt_kind t = Api_route);
          own = map (\<lambda>t. (''<application>'', t)) (filter api (contract_routes application));
          sources = concat (map (\<lambda>f. concat (map (\<lambda>r. map (\<lambda>t. (ft_name f, t)) (filter api (contract_routes r)))
                      (ft_routers f))) features)
      in rbind (strict_zip sources (ci_operations description)) (\<lambda>theirs.
           Inr (own @ map (\<lambda>((owner, t), op). (owner, t\<lparr>rt_path := oi_path op\<rparr>)) theirs)))"

lemma join_findings_clean: "fst (join_findings (map f xs)) = [] \<longleftrightarrow> (\<forall>x\<in>set xs. fst (f x) = [])"
  by (simp add: join_findings_def)

text \<open>
  When the HTTP dependency check of a composition reports no issue (and the
  application brings no container of its own), every service an inspected endpoint injects has
  a binding it can reach: a direct one up to the request scope, or the APP scope for a stream;
  one resolved in its FastAPI dependencies, at any depth, up to the request scope.
\<close>

theorem checked_endpoints_bound:
  assumes "check_http_dependencies sc application False features description container = Inr ([], checks)"
    and "api_entries application features description = Inr entries"
    and "(owner, t) \<in> set entries" and "injectable t"
  shows "\<exists>deps. rt_dependencies t = Some deps \<and>
    (\<forall>k\<in>set deps. dependency_available container k (if rt_stream t then sc_app sc else sc_request sc)) \<and>
    (\<forall>d s. rt_dependant t = Some d \<longrightarrow> s \<in> \<Union>(services ` set (children d)) \<longrightarrow>
       (s, []) \<in> set deps \<or> dependency_available container (s, []) (sc_request sc))"
proof -
  have "fst (join_findings (map (check_http_endpoint sc container False) entries)) = []"
    using assms(1,2) by (auto simp: check_http_dependencies_def api_entries_def Let_def)
  with assms(3) have "fst (check_http_endpoint sc container False (owner, t)) = []"
    by (simp add: join_findings_clean)
  from check_http_endpoint_clean [OF this assms(4)] obtain deps where
    deps: "rt_dependencies t = Some deps"
    "\<forall>k\<in>set deps. dependency_available container k (if rt_stream t then sc_app sc else sc_request sc)"
    "\<forall>k\<in>set (nested_injections (rt_dependant t)). k \<in> set deps \<or> dependency_available container k (sc_request sc)"
    by blast
  have "(s, []) \<in> set (nested_injections (rt_dependant t))"
    if "rt_dependant t = Some d" "s \<in> \<Union>(services ` set (children d))" for d s
    using that by (auto simp: nested_injections_def set_collect_services)
  with deps show ?thesis by blast
qed

section \<open>Feature checks are isolated\<close>

lemma attribute_issue_simps [simp]:
  "iss_severity (attribute_issue n i) = iss_severity i" "iss_features (attribute_issue n i) \<noteq> []"
  by (simp_all add: attribute_issue_def)

lemma run_feature_check_result:
  "\<exists>s. snd (run_feature_check d f info c) = [(ft_name f @ '':'' @ fc_name c, s)] \<and>
   (\<forall>i\<in>set (fst (run_feature_check d f info c)). iss_features i \<noteq> []) \<and>
   (s = Passed \<longleftrightarrow> (\<forall>i\<in>set (fst (run_feature_check d f info c)). iss_severity i \<noteq> Sev_error))"
  by (auto simp: run_feature_check_def Let_def error_issue_def status_of_def list_ex_iff
      split: check_outcome.split check_return.split)

lemma zip_map_snd_names:
  "length fs = length infos \<Longrightarrow>
    concat (map (\<lambda>(f, info). map (\<lambda>c. ft_name f @ '':'' @ fc_name c) (ft_checks f)) (zip fs infos)) =
    concat (map (\<lambda>f. map (\<lambda>c. ft_name f @ '':'' @ fc_name c) (ft_checks f)) fs)"
  by (induction fs infos rule: list_induct2) auto

text \<open>
  However the check functions of the features behave, each is run and gets exactly one
  result under its feature's name, in order; every issue names a feature; and the results are
  all passed exactly when no issue is an error. A check that raises or returns something else
  adds one issue of its own and stops no other check.
\<close>

theorem feature_checks_isolated:
  assumes "run_feature_checks features description = Inr found"
  shows "map fst (snd found) =
      concat (map (\<lambda>f. map (\<lambda>c. ft_name f @ '':'' @ fc_name c) (ft_checks f)) features) \<and>
    (\<forall>i\<in>set (fst found). iss_features i \<noteq> []) \<and>
    ((\<forall>r\<in>set (snd found). snd r = Passed) \<longleftrightarrow> (\<forall>i\<in>set (fst found). iss_severity i \<noteq> Sev_error))"
proof -
  let ?one = "\<lambda>(f, info). map (run_feature_check description f info) (ft_checks f)"
  from assms have len: "length features = length (ci_features description)"
    and found: "found = join_findings (concat (map ?one (zip features (ci_features description))))"
    by (auto simp: run_feature_checks_def strict_zip_def split: if_splits)
  let ?all = "concat (map ?one (zip features (ci_features description)))"
  have "map fst (concat (map snd (concat (map ?one ps)))) =
      concat (map (\<lambda>(f, info). map (\<lambda>c. ft_name f @ '':'' @ fc_name c) (ft_checks f)) ps)" for ps
  proof (induction ps)
    case (Cons p ps)
    have "map fst (concat (map (\<lambda>c. snd (run_feature_check description (fst p) (snd p) c)) cs)) =
        map (\<lambda>c. ft_name (fst p) @ '':'' @ fc_name c) cs" for cs
    proof (induction cs)
      case (Cons c cs)
      from run_feature_check_result [of description "fst p" "snd p" c]
      obtain s where "snd (run_feature_check description (fst p) (snd p) c) = [(ft_name (fst p) @ '':'' @ fc_name c, s)]"
        by blast
      with Cons show ?case by simp
    qed simp
    with Cons show ?case by (simp add: case_prod_beta comp_def)
  qed simp
  then have names: "map fst (snd found) =
      concat (map (\<lambda>f. map (\<lambda>c. ft_name f @ '':'' @ fc_name c) (ft_checks f)) features)"
    using zip_map_snd_names [OF len] by (simp add: found join_findings_def)
  have each: "(\<forall>i\<in>set (fst x). iss_features i \<noteq> []) \<and>
      ((\<forall>r\<in>set (snd x). snd r = Passed) \<longleftrightarrow> (\<forall>i\<in>set (fst x). iss_severity i \<noteq> Sev_error))"
    if "x \<in> set ?all" for x
  proof -
    from that obtain f info c where x: "x = run_feature_check description f info c" by auto
    from run_feature_check_result [of description f info c] show ?thesis by (auto simp: x)
  qed
  have "fst found = concat (map fst ?all)" "snd found = concat (map snd ?all)"
    by (simp_all add: found join_findings_def)
  with each have "(\<forall>i\<in>set (fst found). iss_features i \<noteq> [])"
    "(\<forall>r\<in>set (snd found). snd r = Passed) \<longleftrightarrow> (\<forall>i\<in>set (fst found). iss_severity i \<noteq> Sev_error)"
    by (simp_all only: set_concat set_map UN_iff bex_simps ball_UN ball_simps image_iff) blast+
  with names show ?thesis by blast
qed

section \<open>Witnesses\<close>

definition sample_endpoint :: route where
  "sample_endpoint = \<lparr>rt_id = 1, rt_kind = Api_route, rt_class = Injected_class, rt_path = ''/items/{id}'',
     rt_raw_path = ''/items/{id}'', rt_regex = Some ''^/items/(?P<id>[^/]+)$'', rt_name = ''item'', rt_methods = [''GET''],
     rt_operation_id = None, rt_unique_id = Some ''item'', rt_in_schema = True, rt_stream = False,
     rt_dependencies = Some [(''Items'', [])],
     rt_dependant = Some (Dependant None [Dependant None [Dependant (Some ''Clock'') []]]),
     rt_rpc_roots = None, rt_webrtc_roots = None, rt_registry = None, rt_endpoint_registries = []\<rparr>"

definition sample_root :: frouter where
  "sample_root = sample_router_decl\<lparr>fr_routes := [sample_endpoint], fr_canon := False\<rparr>"

definition sample_container :: dcontainer where
  "sample_container = \<lparr>dc_scope = 0, dc_chain = [[(''Clock'', [])]], dc_below = [(1, []), (2, [(''Items'', [])])]\<rparr>"

definition sample_scopes :: scopes where
  "sample_scopes = \<lparr>sc_app = 0, sc_session = 1, sc_request = 2\<rparr>"

definition empty_info :: comp_info where
  "empty_info = \<lparr>ci_features = [], ci_operations = [], ci_endpoints = []\<rparr>"

lemma sample_nested: "collect_services [Dependant None [Dependant (Some ''Clock'') []]] = [''Clock'']"
  by (simp add: service_of_def children_def)

theorem checked_endpoints_bound_witness:
  "dependency_available (Some sample_container) (''Clock'', []) 2"
proof -
  have entries: "api_entries sample_root [] empty_info = Inr [(''<application>'', sample_endpoint)]"
    by (simp add: api_entries_def sample_root_def sample_endpoint_def contract_routes_def strict_zip_def empty_info_def)
  have nested: "nested_injections (rt_dependant sample_endpoint) = [(''Clock'', [])]"
    by (simp add: nested_injections_def sample_endpoint_def children_def service_of_def)
  have missing: "http_missing sample_scopes (Some sample_container) sample_endpoint [(''Items'', [])] = []"
    unfolding http_missing_def nested Let_def
    by (simp add: missing_keys_def dependency_available_def sample_container_def sample_scopes_def sample_endpoint_def)
  have "rt_dependencies sample_endpoint = Some [(''Items'', [])]" "rt_class sample_endpoint = Injected_class"
    by (simp_all add: sample_endpoint_def)
  with missing have "fst (check_http_endpoint sample_scopes (Some sample_container) False (''<application>'', sample_endpoint)) = []"
    by (simp add: check_http_endpoint_def Let_def)
  then obtain checks where
    c: "check_http_endpoint sample_scopes (Some sample_container) False (''<application>'', sample_endpoint) = ([], checks)"
    by (metis prod.collapse)
  have "rt_kind sample_endpoint = Api_route" by (simp add: sample_endpoint_def)
  then have "check_http_dependencies sample_scopes sample_root False [] empty_info (Some sample_container) = Inr ([], checks)"
    by (simp add: check_http_dependencies_def sample_root_def contract_routes_def strict_zip_def empty_info_def
        join_findings_def c)
  from checked_endpoints_bound [OF this entries, of "''<application>''" sample_endpoint]
  show ?thesis
    by (auto simp: injectable_def sample_endpoint_def sample_scopes_def children_def)
qed

theorem routing_checks_exact_witness:
  "check_http_paths id (\<lambda>_. []) sample_root [] [] [] = Inr ([], [(''http.paths'', Passed)])"
proof -
  have entries: "http_entries id (\<lambda>_. []) sample_root [] [] [] = Inr [http_entry_of id [] ''<application>'' sample_endpoint]"
    by (simp add: http_entries_def sample_root_def sample_endpoint_def contract_routes_def)
  have "distinct (map (\<lambda>(e, m). (m, he_pattern e)) (entry_verbs [http_entry_of id [] ''<application>'' sample_endpoint]))"
    by (simp add: entry_verbs_def http_entry_of_def sorted_methods_def sample_endpoint_def)
  then show ?thesis using routing_checks_exact [OF entries] by blast
qed

definition failing_check :: fcheck where
  "failing_check = \<lparr>fc_name = ''c'', fc_run = (\<lambda>_ _. Check_raises)\<rparr>"

theorem feature_checks_isolated_witness:
  "\<exists>found. run_feature_checks [sample_feature\<lparr>ft_checks := [failing_check, failing_check]\<rparr>]
     (empty_info\<lparr>ci_features := [\<lparr>fi_name = ''items'', fi_operations = [], fi_providers = []\<rparr>]\<rparr>) = Inr found \<and>
     map fst (snd found) = [''items:c'', ''items:c'']"
proof -
  obtain found where f: "run_feature_checks [sample_feature\<lparr>ft_checks := [failing_check, failing_check]\<rparr>]
     (empty_info\<lparr>ci_features := [\<lparr>fi_name = ''items'', fi_operations = [], fi_providers = []\<rparr>]\<rparr>) = Inr found"
    by (simp add: run_feature_checks_def strict_zip_def empty_info_def)
  from feature_checks_isolated [OF f] f show ?thesis
    by (simp add: sample_feature_def failing_check_def)
qed

end
