(* ===== verification/Composition_Build.thy ===== *)
theory Composition_Build
  imports Composition_Checks "HOL-Library.Sublist"
begin

text \<open>
  Building a composition into an application (\<open>fastapi_canon/feature.py\<close>): the preparation that
  collects a report from attempts, its application, the check of an installed application and
  the composed lifespan. The application is a record of what these read and write. FastAPI,
  Dishka and the telemetry adapter are parameters (\<open>externals\<close>): a router that includes others,
  the container of a provider list, the OpenAPI document's generation. MCP mounts are left out:
  the model is of compositions without them. \<open>_describe\<close> is a parameter as well.
\<close>

section \<open>Installations\<close>

record installation =
  il_feature_ids :: "nat list"
  il_errors :: error_options
  il_router_factory :: "nat option"
  il_telemetry :: "nat option"
  il_request_logging :: bool
  il_overrides :: "nat list"

datatype install_state = Foreign_installation | Installed installation "comp_info option"

definition requested_installation :: "composition \<Rightarrow> installation" where
  \<comment> \<open>the fields an installation is compared by\<close>
  "requested_installation c =
     \<lparr>il_feature_ids = map ft_id (cp_features c), il_errors = cp_errors c, il_router_factory = cp_router_factory c,
      il_telemetry = cp_telemetry c, il_request_logging = cp_request_logging c, il_overrides = cp_overrides c\<rparr>"

text \<open>A lifespan is one of the program (with whether it is the framework's default) or composed.\<close>

datatype lifespan = Own_lifespan nat bool | Composed_lifespan lifespan "lifespan list" "dcontainer option"

record canon_app =
  ca_core :: app
  ca_router :: frouter
  ca_installation :: "install_state option"
  ca_foreign_container :: bool
  ca_container :: "dcontainer option"
  ca_lifespan :: lifespan
  ca_logging :: bool
  ca_telemetry :: "nat option"

section \<open>Preparation\<close>

datatype prep_failure = Fail_cfg cfg_error | Fail_issue issue | Fail_module string | Fail_crash string

datatype telemetry_failure = Telemetry_cfg cfg_error | Telemetry_missing string

record externals =
  ex_host_ok :: "string \<Rightarrow> bool"
  ex_store :: store
  ex_sources :: "nat \<Rightarrow> provider_source"
  ex_build :: "provider list \<Rightarrow> dcontainer option"
  ex_decorate :: "(string \<times> (string \<times> string)) list \<Rightarrow> provider list"
  ex_telemetry_prepare :: "nat \<Rightarrow> (telemetry_failure, unit) result"
  ex_factory :: "nat \<Rightarrow> frouter item option"
  ex_include :: "frouter \<Rightarrow> frouter list \<Rightarrow> frouter option"
  ex_included :: "frouter list \<Rightarrow> route list"
  ex_merge_lifespan :: "lifespan \<Rightarrow> frouter \<Rightarrow> lifespan"
  ex_source_name :: "nat \<Rightarrow> string"
  ex_compile_path :: "string \<Rightarrow> string"
  ex_scopes :: scopes
  ex_default_handlers :: "(cls \<times> handler) list"
  ex_describe :: "feature list \<Rightarrow> frouter list \<Rightarrow> registry \<Rightarrow> (cfg_error, comp_info) result"
  ex_openapi :: "app \<Rightarrow> frouter \<Rightarrow> frouter list \<Rightarrow> (cfg_error, unit) result"

definition lift_prep :: "(cfg_error, 'a) result \<Rightarrow> (prep_failure, 'a) result" where
  "lift_prep m = (case m of Inl e \<Rightarrow> Inl (Fail_cfg e) | Inr x \<Rightarrow> Inr x)"

lemma lift_prep_Inr [simp]: "lift_prep m = Inr x \<longleftrightarrow> m = Inr x"
  by (cases m) (auto simp: lift_prep_def)

record prep_acc =
  pa_issues :: "issue list"
  pa_checks :: "check_result list"
  pa_missing :: "string list"

definition add_check :: "string \<Rightarrow> check_status \<Rightarrow> prep_acc \<Rightarrow> prep_acc" where
  "add_check name s a = a\<lparr>pa_checks := pa_checks a @ [(name, s)]\<rparr>"

definition add_found :: "findings \<Rightarrow> prep_acc \<Rightarrow> prep_acc" where
  "add_found f a = a\<lparr>pa_issues := pa_issues a @ fst f, pa_checks := pa_checks a @ snd f\<rparr>"

definition failed_attempt :: "string \<Rightarrow> issue \<Rightarrow> prep_acc \<Rightarrow> prep_acc" where
  "failed_attempt name i a = add_check name Failed (a\<lparr>pa_issues := pa_issues a @ [i]\<rparr>)"

definition message_of :: "cfg_error \<Rightarrow> string" where
  "message_of e = (case e of Cfg m \<Rightarrow> m | Cfg_at m x \<Rightarrow> m @ '' '' @ x | Cfg_names m xs \<Rightarrow> m @ '' '' @ join_with '', '' xs)"

definition attempt ::
    "string \<Rightarrow> string \<Rightarrow> string \<Rightarrow> string list \<Rightarrow> string list \<Rightarrow> (prep_failure, 'a) result \<Rightarrow> prep_acc
      \<Rightarrow> (string, 'a option \<times> prep_acc) result" where
  \<comment> \<open>one attempt: a configuration error or a missing module is an issue, anything else propagates\<close>
  "attempt name code hint participants locations action a =
     (let plain = (\<lambda>m. error_issue code m hint participants locations)
      in case action of
           Inr x \<Rightarrow> Inr (Some x, add_check name Passed a)
         | Inl (Fail_crash m) \<Rightarrow> Inl m
         | Inl (Fail_issue i) \<Rightarrow> Inr (None, failed_attempt name i a)
         | Inl (Fail_cfg e) \<Rightarrow> Inr (None, failed_attempt name (plain (message_of e)) a)
         | Inl (Fail_module m) \<Rightarrow>
             Inr (None, failed_attempt name (plain m) (a\<lparr>pa_missing := pa_missing a @ [m]\<rparr>)))"

definition validate_runtime_options :: "externals \<Rightarrow> canon_app \<Rightarrow> composition \<Rightarrow> (prep_failure, unit) result" where
  "validate_runtime_options ex a c =
     (if ap_started (ca_core a) then Inl (Fail_cfg (Cfg ''install features before the app starts''))
      else if ap_schema_cached (ca_core a)
      then Inl (Fail_cfg (Cfg ''install features before generating or caching OpenAPI''))
      else (case cp_telemetry c of
              None \<Rightarrow> Inr ()
            | Some t \<Rightarrow>
                (case ex_telemetry_prepare ex t of
                   Inl (Telemetry_cfg e) \<Rightarrow> Inl (Fail_cfg e)
                 | Inl (Telemetry_missing m) \<Rightarrow> Inl (Fail_module m)
                 | Inr _ \<Rightarrow> Inr ())))"

definition lift_ws :: "(issue, unit) result \<Rightarrow> (prep_failure, unit) result" where
  "lift_ws m = (case m of Inl i \<Rightarrow> Inl (Fail_issue i) | Inr x \<Rightarrow> Inr x)"

definition prepare_routers ::
    "externals \<Rightarrow> frouter list \<Rightarrow> nat option \<Rightarrow> (string \<Rightarrow> (issue, unit) result) \<Rightarrow> (prep_failure, frouter list) result" where
  "prepare_routers ex routers factory validate_paths =
     (case factory of
        None \<Rightarrow> rbind (lift_ws (validate_paths [])) (\<lambda>_. Inr routers)
      | Some f \<Rightarrow>
          (case ex_factory ex f of
             None \<Rightarrow> Inl (Fail_cfg (Cfg ''router_factory failed''))
           | Some Foreign \<Rightarrow> Inl (Fail_cfg (Cfg ''router_factory returned no APIRouter''))
           | Some (Instance wrapper) \<Rightarrow>
               if fr_routes wrapper \<noteq> []
               then Inl (Fail_cfg (Cfg ''router_factory must return a fresh APIRouter without routes''))
               else rbind (lift_ws (validate_paths (fr_prefix wrapper))) (\<lambda>_.
                      case ex_include ex wrapper routers of
                        None \<Rightarrow> Inl (Fail_cfg (Cfg ''composition router failed to include feature routers''))
                      | Some w \<Rightarrow> Inr [w])))"

definition prepare_feature_routers :: "externals \<Rightarrow> canon_app \<Rightarrow> composition \<Rightarrow> (prep_failure, frouter list) result" where
  "prepare_feature_routers ex a c =
     rbind (lift_prep (reject_duplicate_contributions (cp_features c) (\<lambda>f. map fr_id (ft_routers f)))) (\<lambda>_.
       prepare_routers ex (flatten_routers (cp_features c)) (cp_router_factory c)
         (validate_websocket_paths (ex_compile_path ex) (ca_router a) (cp_features c)))"

definition fresh_core :: "externals \<Rightarrow> app" where
  \<comment> \<open>\<open>FastAPI()\<close>\<close>
  "fresh_core ex = \<lparr>ap_is_fastapi = True, ap_schema_cached = False, ap_started = False, ap_registry = None,
     ap_options = None, ap_handlers = ex_default_handlers ex, ap_openapi = None\<rparr>"

definition dict_update :: "('k \<times> 'v) list \<Rightarrow> ('k \<times> 'v) list \<Rightarrow> ('k \<times> 'v) list" where
  \<comment> \<open>\<open>d.update(other)\<close>\<close>
  "dict_update other d = fold (\<lambda>(k, v). dict_set k v) other d"

definition add_feature_handlers :: "(cls \<times> nat) list \<Rightarrow> app \<Rightarrow> app" where
  "add_feature_handlers handlers a =
     a\<lparr>ap_handlers := dict_update (map (\<lambda>(k, h). (k, User_handler h)) handlers) (ap_handlers a)\<rparr>"

definition install_registry :: "externals \<Rightarrow> heap \<Rightarrow> rid \<Rightarrow> error_options \<Rightarrow> app \<Rightarrow> (cfg_error, app) result" where
  "install_registry ex h i o1 a =
     install_handlers (ex_store ex) (hp_registries h) i a (PBool (eo_validation o1)) (PBool (eo_http o1))
       (PBool (eo_unhandled o1))"

definition validate_error_installation ::
    "externals \<Rightarrow> heap \<Rightarrow> app \<Rightarrow> frouter \<Rightarrow> frouter list \<Rightarrow> (cls \<times> nat) list \<Rightarrow> rid \<Rightarrow> error_options \<Rightarrow> (cfg_error, unit) result" where
  "validate_error_installation ex h core application routers handlers i o1 =
     (if ap_schema_cached core then Inl (Cfg ''install features before generating or caching OpenAPI'')
      else
        rbind (if ap_registry core = Some i
               then rbind (install_registry ex h i o1 core) (\<lambda>_. install_registry ex h i o1 (fresh_core ex))
               else Inr (fresh_core ex)) (\<lambda>v0.
        (let v1 = add_feature_handlers handlers (v0\<lparr>ap_handlers := dict_update (ap_handlers core) (ap_handlers v0)\<rparr>)
         in rbind (install_registry ex h i o1 v1) (\<lambda>v2. ex_openapi ex v2 application routers))))"

record preparation =
  pr_report :: report
  pr_routers :: "frouter list"
  pr_registry :: "rid option"
  pr_heap :: heap
  pr_container :: "dcontainer option"
  pr_description :: "comp_info option"
  pr_missing :: "string option"

definition operation_headers :: "frouter \<Rightarrow> op_info list \<Rightarrow> op_info list" where
  "operation_headers r known =
     (let owners = map (\<lambda>op. ((oi_id op, oi_path op, oi_methods op), oi_feature op)) known
      in map (\<lambda>t. \<lparr>oi_feature = (case dict_get (rev owners) (route_identity t, rt_path t, sorted_methods t) of
                                   Some n \<Rightarrow> n | None \<Rightarrow> ''<application>''),
                   oi_id = route_identity t, oi_path = rt_path t, oi_methods = sorted_methods t,
                   oi_dependencies = [], oi_errors = [], oi_in_schema = rt_in_schema t\<rparr>)
           (routes_of_kind Api_route r))"

definition participants :: "composition \<Rightarrow> (feature \<Rightarrow> bool) \<Rightarrow> string list" where
  "participants c P = map ft_name (filter P (cp_features c))"

definition prepare_dependencies ::
    "externals \<Rightarrow> canon_app \<Rightarrow> composition \<Rightarrow> frouter list option \<Rightarrow> dcontainer option option \<Rightarrow> prep_acc
      \<Rightarrow> (string, prep_acc) result" where
  \<comment> \<open>the RPC and WebRTC dependency checks\<close>
  "prepare_dependencies ex a c routers container acc =
     (case (routers, container) of
        (Some rs, Some ct) \<Rightarrow>
          rbind (check_rpc_dependencies (ex_scopes ex) (ex_included ex) (ca_router a) (ca_foreign_container a)
                   (cp_features c) rs ct) (\<lambda>f1.
          rbind (check_webrtc_dependencies (ex_scopes ex) (ex_included ex) (ca_router a) (ca_foreign_container a)
                   (cp_features c) rs ct) (\<lambda>f2. Inr (add_found f2 (add_found f1 acc))))
      | _ \<Rightarrow> Inr (add_check ''webrtc.factory_dependencies'' Skipped (add_check ''rpc.method_dependencies'' Skipped acc)))"

definition check_described ::
    "externals \<Rightarrow> canon_app \<Rightarrow> composition \<Rightarrow> frouter list \<Rightarrow> dcontainer option option \<Rightarrow> comp_info option \<Rightarrow> prep_acc
      \<Rightarrow> (string, prep_acc) result" where
  \<comment> \<open>the checks of the described operations\<close>
  "check_described ex a c routers container description acc =
     (case description of
        None \<Rightarrow> Inr acc
      | Some d \<Rightarrow>
          (let acc2 = add_found (check_operations (operation_headers (ca_router a) [] @ ci_operations d)) acc
           in rbind (check_http_paths (ex_compile_path ex) (ex_included ex) (ca_router a) routers (cp_features c) []) (\<lambda>f.
              (let acc3 = add_found f acc2
               in case container of
                    None \<Rightarrow> Inr (add_check ''http.endpoint_dependencies'' Skipped acc3)
                  | Some ct \<Rightarrow>
                      rbind (check_http_dependencies (ex_scopes ex) (ca_router a) (ca_foreign_container a)
                               (cp_features c) d ct) (\<lambda>f2. Inr (add_found f2 acc3))))))"

definition try_contracts ::
    "externals \<Rightarrow> canon_app \<Rightarrow> composition \<Rightarrow> heap \<Rightarrow> rid \<Rightarrow> frouter list \<Rightarrow> prep_acc \<Rightarrow> (string, prep_acc) result" where
  \<comment> \<open>the trial installation, unless routes are ambiguous\<close>
  "try_contracts ex a c h i routers acc =
     (if list_ex (\<lambda>x. iss_code x \<in> {''canon.routing.E002'', ''canon.routing.E003''}) (pa_issues acc)
      then Inr (add_check ''http.contracts'' Skipped acc)
      else rbind (attempt ''http.contracts'' ''canon.contracts.E001''
               ''Match route response contracts to the composed error catalog.'' (participants c (\<lambda>_. True)) []
               (lift_prep (validate_error_installation ex h (ca_core a) (ca_router a) routers
                  (flatten_handlers (cp_features c)) i (cp_errors c))) acc) (\<lambda>r. Inr (snd r)))"

definition prepare_contracts ::
    "externals \<Rightarrow> canon_app \<Rightarrow> composition \<Rightarrow> heap \<Rightarrow> rid \<Rightarrow> frouter list \<Rightarrow> dcontainer option option \<Rightarrow> prep_acc
      \<Rightarrow> (string, comp_info option \<times> prep_acc) result" where
  "prepare_contracts ex a c h i routers container acc =
     rbind (attempt ''http.description'' ''canon.description.E001''
              ''Ensure declared HTTP errors are present in the composed catalog.'' (participants c (\<lambda>_. True)) []
              (lift_prep (ex_describe ex (cp_features c) routers (hp_registries h i))) acc) (\<lambda>(description, acc1).
     rbind (check_described ex a c routers container description acc1) (\<lambda>acc2.
     rbind (try_contracts ex a c h i routers acc2) (\<lambda>acc3. Inr (description, acc3))))"

text \<open>The attempts of \<open>_prepare_composition\<close>, with the name, hint and participants of each.\<close>

definition attempt_installation :: "externals \<Rightarrow> canon_app \<Rightarrow> composition \<Rightarrow> prep_acc \<Rightarrow> (string, unit option \<times> prep_acc) result" where
  "attempt_installation ex a c =
     attempt ''installation'' ''canon.composition.E001''
       ''Install before startup and OpenAPI generation; check integration options.'' (participants c (\<lambda>_. True)) []
       (validate_runtime_options ex a c)"

definition attempt_routers ::
    "externals \<Rightarrow> canon_app \<Rightarrow> composition \<Rightarrow> prep_acc \<Rightarrow> (string, frouter list option \<times> prep_acc) result" where
  "attempt_routers ex a c =
     attempt ''http.routers'' ''canon.routing.E001''
       ''Contribute each router once and return a fresh empty application router.'' (participants c (\<lambda>f. ft_routers f \<noteq> [])) []
       (prepare_feature_routers ex a c)"

definition attempt_handlers :: "canon_app \<Rightarrow> composition \<Rightarrow> prep_acc \<Rightarrow> (string, unit option \<times> prep_acc) result" where
  "attempt_handlers a c =
     attempt ''handlers'' ''canon.handlers.E001''
       ''Keep one handler per exception across the application and its features.'' (participants c (\<lambda>f. ft_handlers f \<noteq> [])) []
       (lift_prep (validate_handlers (ap_handlers (ca_core a)) (cp_features c)))"

definition has_registry_errors :: "externals \<Rightarrow> heap \<Rightarrow> feature \<Rightarrow> bool" where
  \<comment> \<open>\<open>feature.errors\<close> is not empty\<close>
  "has_registry_errors ex h f =
     (case feature_registry (ex_host_ok ex) (ex_store ex) h (ft_name f) (ft_errors f) (ft_routers f) of
        Inr (Some r) \<Rightarrow> registry_errors r \<noteq> []
      | _ \<Rightarrow> False)"

definition attempt_errors ::
    "externals \<Rightarrow> heap \<Rightarrow> canon_app \<Rightarrow> composition \<Rightarrow> frouter list option \<Rightarrow> prep_acc
      \<Rightarrow> (string, (rid \<times> heap) option \<times> prep_acc) result" where
  "attempt_errors ex h a c routers =
     attempt ''errors'' ''canon.errors.E001''
       ''Use compatible error definitions and one explicit application type base.'' (participants c (has_registry_errors ex h)) []
       (lift_prep (prepare_registry (ex_host_ok ex) (ex_store ex) h (ap_registry (ca_core a)) c
          (case routers of None \<Rightarrow> [] | Some rs \<Rightarrow> rs)))"

definition attempt_providers ::
    "externals \<Rightarrow> canon_app \<Rightarrow> composition \<Rightarrow> prep_acc \<Rightarrow> (string, dcontainer option option \<times> prep_acc) result" where
  "attempt_providers ex a c =
     attempt ''providers'' ''canon.providers.E001''
       ''Check the named provider sources and supply the missing Dishka bindings.''
       (participants c (\<lambda>f. ft_providers f \<noteq> [] \<or> ft_instrumentation f \<noteq> []))
       (concat (map (\<lambda>f. map (ex_source_name ex) (ft_providers f)) (cp_features c)))
       (lift_prep (prepare_container (ex_sources ex) (ex_build ex) (ex_decorate ex) (ap_started (ca_core a)) c))"

definition contracts_stage ::
    "externals \<Rightarrow> canon_app \<Rightarrow> composition \<Rightarrow> frouter list option \<Rightarrow> unit option \<Rightarrow> (rid \<times> heap) option
      \<Rightarrow> dcontainer option option \<Rightarrow> prep_acc \<Rightarrow> (string, comp_info option \<times> prep_acc) result" where
  "contracts_stage ex a c routers handlers registry container acc =
     (case (routers, registry, handlers) of
        (Some rs, Some (i, h'), Some _) \<Rightarrow> prepare_contracts ex a c h' i rs container acc
      | _ \<Rightarrow> Inr (None, add_check ''http.description'' Skipped (add_check ''http.contracts'' Skipped acc)))"

definition feature_stage :: "composition \<Rightarrow> comp_info option \<Rightarrow> prep_acc \<Rightarrow> (string, prep_acc) result" where
  "feature_stage c description acc =
     (case description of
        Some d \<Rightarrow> rbind (run_feature_checks (cp_features c) d) (\<lambda>f. Inr (add_found f acc))
      | None \<Rightarrow> Inr (if list_ex (\<lambda>f. ft_checks f \<noteq> []) (cp_features c)
                     then add_check ''feature.checks'' Skipped acc else acc))"

definition preparation_of ::
    "heap \<Rightarrow> frouter list option \<Rightarrow> (rid \<times> heap) option \<Rightarrow> dcontainer option option \<Rightarrow> comp_info option \<Rightarrow> prep_acc
      \<Rightarrow> preparation" where
  "preparation_of h routers registry container description acc =
     \<lparr>pr_report = \<lparr>rp_issues = pa_issues acc, rp_checks = pa_checks acc\<rparr>,
      pr_routers = (case routers of None \<Rightarrow> [] | Some rs \<Rightarrow> rs),
      pr_registry = map_option fst registry, pr_heap = (case registry of None \<Rightarrow> h | Some (_, h') \<Rightarrow> h'),
      pr_container = (case container of None \<Rightarrow> None | Some ct \<Rightarrow> ct), pr_description = description,
      pr_missing = (case pa_missing acc of [] \<Rightarrow> None | m # _ \<Rightarrow> Some m)\<rparr>"

definition prepare_composition :: "externals \<Rightarrow> heap \<Rightarrow> canon_app \<Rightarrow> composition \<Rightarrow> (string, preparation) result" where
  "prepare_composition ex h a c =
     rbind (attempt_installation ex a c \<lparr>pa_issues = [], pa_checks = [], pa_missing = []\<rparr>) (\<lambda>(_, a1).
     rbind (attempt_routers ex a c a1) (\<lambda>(routers, a2).
     rbind (attempt_handlers a c a2) (\<lambda>(handlers, a3).
     rbind (attempt_errors ex h a c routers a3) (\<lambda>(registry, a4).
     rbind (attempt_providers ex a c a4) (\<lambda>(container, a5).
     rbind (prepare_dependencies ex a c routers container a5) (\<lambda>a6.
     rbind (contracts_stage ex a c routers handlers registry container a6) (\<lambda>(description, a7).
     rbind (feature_stage c description a7) (\<lambda>a8.
       Inr (preparation_of h routers registry container description a8)))))))))"

section \<open>Applying a composition\<close>

datatype build_error = Build_cfg cfg_error | Build_issues "issue list" | Build_missing string | Build_crash string

definition raise_check_errors :: "report \<Rightarrow> (build_error, unit) result" where
  \<comment> \<open>the issues whose text the raised error has\<close>
  "raise_check_errors r =
     (if has_errors r then Inl (Build_issues (filter (\<lambda>i. iss_severity i = Sev_error) (rp_issues r))) else Inr ())"

definition router_lifespan :: "frouter \<Rightarrow> lifespan" where
  "router_lifespan r = Own_lifespan (fr_lifespan r) (fr_default_lifespan r)"

definition default_lifespan :: "lifespan \<Rightarrow> bool" where
  "default_lifespan l = (case l of Own_lifespan _ d \<Rightarrow> d | Composed_lifespan _ _ _ \<Rightarrow> False)"

definition router_lifespans :: "lifespan \<Rightarrow> frouter list \<Rightarrow> lifespan list" where
  "router_lifespans original routers =
     map router_lifespan (filter (\<lambda>r. \<not> (default_lifespan original \<and> default_lifespan (router_lifespan r))) routers)"

definition feature_lifespans :: "feature list \<Rightarrow> lifespan list" where
  "feature_lifespans fs = List.map_filter (\<lambda>f. map_option (\<lambda>l. Own_lifespan l False) (ft_lifespan f)) fs"

fun include_routers :: "externals \<Rightarrow> frouter list \<Rightarrow> canon_app \<Rightarrow> bool \<times> canon_app" where
  \<comment> \<open>\<open>app.include_router\<close> for every router, until one fails; it also merges the router's lifespan\<close>
  "include_routers ex [] a = (True, a)"
| "include_routers ex (r # rs) a =
     (case ex_include ex (ca_router a) [r] of
        None \<Rightarrow> (False, a)
      | Some joined \<Rightarrow> include_routers ex rs
          (a\<lparr>ca_router := joined, ca_lifespan := ex_merge_lifespan ex (ca_lifespan a) r\<rparr>))"

definition install_scopes :: "dcontainer option \<Rightarrow> canon_app \<Rightarrow> canon_app" where
  "install_scopes ct a = (case ct of None \<Rightarrow> a | Some _ \<Rightarrow> a\<lparr>ca_container := ct\<rparr>)"

definition install_telemetry :: "nat option \<Rightarrow> canon_app \<Rightarrow> canon_app" where
  "install_telemetry t a = (case t of None \<Rightarrow> a | Some _ \<Rightarrow> a\<lparr>ca_telemetry := t\<rparr>)"

definition finish_installation ::
    "composition \<Rightarrow> preparation \<Rightarrow> comp_info \<Rightarrow> lifespan \<Rightarrow> app \<Rightarrow> canon_app \<Rightarrow> canon_app" where
  \<comment> \<open>from the installed registry to the recorded installation\<close>
  "finish_installation c p d original core a =
     a\<lparr>ca_core := core,
       ca_lifespan := Composed_lifespan original
         (feature_lifespans (cp_features c) @ router_lifespans original (pr_routers p)) (pr_container p),
       ca_logging := (cp_request_logging c \<or> ca_logging a),
       ca_installation := Some (Installed (requested_installation c) (Some d))\<rparr>"

definition commit_composition ::
    "externals \<Rightarrow> canon_app \<Rightarrow> composition \<Rightarrow> preparation \<Rightarrow> comp_info \<Rightarrow> rid \<Rightarrow> build_error option \<times> canon_app" where
  \<comment> \<open>the part of \<open>_apply_composition\<close> that changes the application, in its order\<close>
  "commit_composition ex a c p d i =
     (let (included, a1) = include_routers ex (pr_routers p)
            (install_scopes (pr_container p) (install_telemetry (cp_telemetry c) a))
      in if \<not> included then (Some (Build_crash ''include_router failed''), a1)
         else
           (let a2 = a1\<lparr>ca_core := add_feature_handlers (flatten_handlers (cp_features c)) (ca_core a1)\<rparr>
            in case install_registry ex (pr_heap p) i (cp_errors c) (ca_core a2) of
                 Inl e \<Rightarrow> (Some (Build_cfg e), a2)
               | Inr core \<Rightarrow> (None, finish_installation c p d (ca_lifespan a) core a2)))"

definition apply_composition ::
    "externals \<Rightarrow> heap \<Rightarrow> canon_app \<Rightarrow> composition \<Rightarrow> build_error option \<times> heap \<times> canon_app" where
  "apply_composition ex h a c =
     (if \<not> ap_is_fastapi (ca_core a) then (Some (Build_cfg (Cfg ''app must be a FastAPI instance'')), h, a)
      else case ca_installation a of
        Some s \<Rightarrow>
          ((case s of
              Foreign_installation \<Rightarrow> Some (Build_cfg (Cfg ''a different composition is already applied to this application''))
            | Installed il _ \<Rightarrow>
                if il = requested_installation c then None
                else Some (Build_cfg (Cfg ''a different composition is already applied to this application''))), h, a)
      | None \<Rightarrow>
          (case prepare_composition ex h a c of
             Inl m \<Rightarrow> (Some (Build_crash m), h, a)
           | Inr p \<Rightarrow>
               (case pr_missing p of
                  Some m \<Rightarrow> (Some (Build_missing m), h, a)
                | None \<Rightarrow>
                    (case raise_check_errors (pr_report p) of
                       Inl e \<Rightarrow> (Some e, h, a)
                     | Inr _ \<Rightarrow>
                         (case (pr_description p, pr_registry p) of
                            (None, _) \<Rightarrow> (Some (Build_cfg (Cfg ''Composition description is unavailable'')), h, a)
                          | (Some _, None) \<Rightarrow> (Some (Build_cfg (Cfg ''Composed error catalog is unavailable'')), h, a)
                          | (Some d, Some i) \<Rightarrow>
                              (let (e, a') = commit_composition ex a c p d i in (e, pr_heap p, a')))))))"

section \<open>Checking and building\<close>

definition validate_applied_composition :: "canon_app \<Rightarrow> composition \<Rightarrow> (build_error, unit) result" where
  "validate_applied_composition a c =
     (if \<not> ap_is_fastapi (ca_core a) then Inl (Build_cfg (Cfg ''app must be a FastAPI instance''))
      else case ca_installation a of
        Some (Installed il _) \<Rightarrow>
          if il = requested_installation c then Inr ()
          else Inl (Build_cfg (Cfg ''composition must be applied to the application before validation''))
      | _ \<Rightarrow> Inl (Build_cfg (Cfg ''composition must be applied to the application before validation'')))"

definition generate_openapi :: "externals \<Rightarrow> canon_app \<Rightarrow> (cfg_error, canon_app) result" where
  \<comment> \<open>\<open>app.openapi()\<close>: a cached document is returned as it is, a generated one is cached\<close>
  "generate_openapi ex a =
     (if ap_schema_cached (ca_core a) then Inr a
      else rbind (ex_openapi ex (ca_core a) (ca_router a) []) (\<lambda>_.
        Inr (a\<lparr>ca_core := (ca_core a)\<lparr>ap_schema_cached := True\<rparr>\<rparr>)))"

definition check_contracts :: "externals \<Rightarrow> canon_app \<Rightarrow> issue list \<Rightarrow> findings" where
  \<comment> \<open>the contracts of an installed application; the cached document is restored\<close>
  "check_contracts ex a found =
     (if list_ex (\<lambda>x. iss_code x \<in> {''canon.routing.E002'', ''canon.routing.E003''}) found
      then ([], [(''http.contracts'', Skipped)])
      else case generate_openapi ex a of
        Inl e \<Rightarrow>
          ([error_issue ''canon.contracts.E001'' (message_of e)
              ''Match route response contracts to the composed error catalog.'' [] []],
           [(''http.contracts'', Failed)])
      | Inr _ \<Rightarrow> ([], [(''http.contracts'', Passed)]))"

definition check_installed ::
    "externals \<Rightarrow> canon_app \<Rightarrow> comp_info option \<Rightarrow> feature list \<Rightarrow> (build_error, report) result" where
  "check_installed ex a description features =
     (case description of
        None \<Rightarrow> Inl (Build_cfg (Cfg ''Composition description is unavailable''))
      | Some d \<Rightarrow>
          (let ops = check_operations (operation_headers (ca_router a) (ci_operations d))
           in case check_http_paths (ex_compile_path ex) (ex_included ex) (ca_router a) [] [] (ci_operations d) of
                Inl m \<Rightarrow> Inl (Build_crash m)
              | Inr paths \<Rightarrow>
                  (let routing = add_findings ops paths;
                       all = add_findings routing (check_contracts ex a (fst routing))
                   in case run_feature_checks features d of
                        Inl m \<Rightarrow> Inl (Build_crash m)
                      | Inr f \<Rightarrow>
                          (let found = add_findings all f
                           in Inr \<lparr>rp_issues = fst found, rp_checks = snd found\<rparr>))))"

definition check_composition :: "externals \<Rightarrow> heap \<Rightarrow> canon_app \<Rightarrow> composition \<Rightarrow> (build_error, report) result" where
  \<comment> \<open>\<open>Composition.check\<close>\<close>
  "check_composition ex h a c =
     (if \<not> ap_is_fastapi (ca_core a) then Inl (Build_cfg (Cfg ''app must be a FastAPI instance''))
      else case ca_installation a of
        None \<Rightarrow> (case prepare_composition ex h a c of Inl m \<Rightarrow> Inl (Build_crash m) | Inr p \<Rightarrow> Inr (pr_report p))
      | Some s \<Rightarrow>
          (case (validate_applied_composition a c, s) of
             (Inr _, Installed _ description) \<Rightarrow> check_installed ex a description (cp_features c)
           | _ \<Rightarrow>
               Inr \<lparr>rp_issues = [error_issue ''canon.composition.E001''
                      ''composition must be applied to the application before validation''
                      ''Use the composition installed on this application.'' [] []],
                    rp_checks = [(''installation'', Failed)]\<rparr>))"

definition build_composition ::
    "externals \<Rightarrow> heap \<Rightarrow> canon_app \<Rightarrow> composition \<Rightarrow> build_error option \<times> heap \<times> canon_app" where
  \<comment> \<open>\<open>Composition.build\<close>\<close>
  "build_composition ex h a c =
     (case apply_composition ex h a c of
        (Some e, h', a') \<Rightarrow> (Some e, h', a')
      | (None, h', a') \<Rightarrow>
          (case check_composition ex h' a' c of
             Inl e \<Rightarrow> (Some e, h', a')
           | Inr r \<Rightarrow>
               (case raise_check_errors r of
                  Inl e \<Rightarrow> (Some e, h', a')
                | Inr _ \<Rightarrow>
                    (let a2 = a'\<lparr>ca_core := (ca_core a')\<lparr>ap_schema_cached := False\<rparr>\<rparr>
                     in case generate_openapi ex a2 of
                          Inl e \<Rightarrow> (Some (Build_cfg e), h', a2)
                        | Inr a3 \<Rightarrow> (None, h', a3)))))"

definition inspect_app :: "canon_app \<Rightarrow> (build_error, comp_info) result" where
  "inspect_app a =
     (if \<not> ap_is_fastapi (ca_core a) then Inl (Build_cfg (Cfg ''app must be a FastAPI instance''))
      else case ca_installation a of
        Some (Installed _ (Some d)) \<Rightarrow> Inr d
      | _ \<Rightarrow> Inl (Build_cfg (Cfg ''Apply a Composition before inspecting the application'')))"

section \<open>A report without errors\<close>

definition all_errors :: "issue list \<Rightarrow> bool" where
  "all_errors is \<longleftrightarrow> (\<forall>i\<in>set is. iss_severity i = Sev_error)"

lemma all_errors_simps [simp]:
  "all_errors []" "all_errors (xs @ ys) \<longleftrightarrow> all_errors xs \<and> all_errors ys"
  "all_errors (error_issue c m h f l # xs) \<longleftrightarrow> all_errors xs" "all_errors (map (\<lambda>k. error_issue (c' k) (m' k) (h' k) (f' k) (l' k)) ks)"
  by (auto simp: all_errors_def error_issue_def)

lemma all_errors_join: "(\<And>x. x \<in> set xs \<Longrightarrow> all_errors (fst (f x))) \<Longrightarrow> all_errors (fst (join_findings (map f xs)))"
  by (auto simp: all_errors_def join_findings_def)

lemma all_errors_operations: "all_errors (fst (check_operations ops))"
proof -
  have "all_errors (scan_operations xs seen)" for xs seen
    by (induction xs seen rule: scan_operations.induct) (auto simp: Let_def split: option.split)
  then show ?thesis by (simp add: check_operations_def Let_def)
qed

lemma all_errors_paths: "check_http_paths cp inc a rs fs known = Inr f \<Longrightarrow> all_errors (fst f)"
proof -
  have "all_errors (scan_paths xs seen)" for xs seen
    by (induction xs seen rule: scan_paths.induct) (auto split: option.split)
  then show "check_http_paths cp inc a rs fs known = Inr f \<Longrightarrow> all_errors (fst f)"
    by (auto simp: check_http_paths_def Let_def)
qed

lemma all_errors_websockets: "scan_websockets es seen = Inl i \<Longrightarrow> iss_severity i = Sev_error"
  by (induction es seen rule: scan_websockets.induct) (auto simp: Let_def error_issue_def split: option.splits)

lemma all_errors_rpc: "all_errors (fst (check_rpc_endpoint sc ct ext e))"
  unfolding check_rpc_endpoint_def
  by (auto simp: Let_def no_findings_def split: prod.split option.split intro!: all_errors_join)

lemma all_errors_webrtc: "all_errors (fst (check_webrtc_endpoint sc ct ext e))"
  unfolding check_webrtc_endpoint_def by (auto simp: Let_def no_findings_def split: prod.split option.split)

lemma all_errors_http: "all_errors (fst (check_http_endpoint sc ct ext e))"
  unfolding check_http_endpoint_def
  by (auto simp: Let_def no_findings_def split: prod.split option.split route_class.split bool.split)

lemmas endpoint_errors = all_errors_rpc all_errors_webrtc all_errors_http

lemma all_errors_dependencies:
  "check_rpc_dependencies sc inc a foreign fs rs ct = Inr f \<Longrightarrow> all_errors (fst f)"
  "check_webrtc_dependencies sc inc a foreign fs rs ct = Inr f \<Longrightarrow> all_errors (fst f)"
  "check_http_dependencies sc a foreign fs d ct = Inr f \<Longrightarrow> all_errors (fst f)"
  unfolding check_rpc_dependencies_def check_webrtc_dependencies_def check_http_dependencies_def Let_def
  by (auto intro!: all_errors_join endpoint_errors simp del: map_append map_map)

definition reported :: "prep_acc \<Rightarrow> bool" where
  "reported a = all_errors (pa_issues a)"

definition reports_errors :: "(prep_failure, 'a) result \<Rightarrow> bool" where
  \<comment> \<open>an issue it fails with is an error\<close>
  "reports_errors m \<longleftrightarrow> (\<forall>i. m = Inl (Fail_issue i) \<longrightarrow> iss_severity i = Sev_error)"

lemma reports_lift [simp]: "reports_errors (lift_prep m)"
  by (cases m) (auto simp: reports_errors_def lift_prep_def)

lemma reports_runtime: "reports_errors (validate_runtime_options ex a c)"
  by (auto simp: reports_errors_def validate_runtime_options_def
      split: option.splits sum.splits telemetry_failure.splits if_splits)

lemma reports_ws: "reports_errors (lift_ws (scan_websockets es seen))"
  using all_errors_websockets by (auto simp: reports_errors_def lift_ws_def split: sum.splits)

lemma reports_rbind: "reports_errors m \<Longrightarrow> (\<And>x. reports_errors (f x)) \<Longrightarrow> reports_errors (rbind m f)"
  by (auto simp: reports_errors_def rbind_eq_Inl)

lemma reports_simps [simp]: "reports_errors (Inr x)" "reports_errors (Inl (Fail_cfg e))"
  by (simp_all add: reports_errors_def)

lemma reports_routers: "reports_errors (prepare_feature_routers ex a c)"
  unfolding prepare_feature_routers_def prepare_routers_def validate_websocket_paths_def
  by (auto intro!: reports_rbind reports_ws split: option.split item.split)

lemma attempt_cases:
  assumes "attempt name code hint fs ls m a = Inr (r, a')" and "reports_errors m" and "reported a"
  shows "reported a' \<and> (pa_issues a' = [] \<longrightarrow> pa_issues a = [] \<and> (\<exists>x. m = Inr x \<and> r = Some x))"
  using assms unfolding attempt_def reported_def reports_errors_def failed_attempt_def add_check_def
  by (auto simp: Let_def all_errors_def error_issue_def split: sum.splits prep_failure.splits)

lemma attempt_missing:
  assumes "attempt name code hint fs ls m a = Inr (r, a')"
  shows "pa_missing a' = [] \<longrightarrow> pa_missing a = []"
  using assms unfolding attempt_def failed_attempt_def add_check_def
  by (auto simp: Let_def split: sum.splits prep_failure.splits)

lemma reported_simps [simp]:
  "reported (add_check n s a) = reported a" "pa_issues (add_check n s a) = pa_issues a"
  "reported (add_found f a) \<longleftrightarrow> reported a \<and> all_errors (fst f)" "pa_issues (add_found f a) = pa_issues a @ fst f"
  by (simp_all add: reported_def add_check_def add_found_def)

lemma prepare_dependencies_cases:
  assumes "prepare_dependencies ex a c routers container acc = Inr acc'" and "reported acc"
  shows "reported acc' \<and> (pa_issues acc' = [] \<longrightarrow> pa_issues acc = [])"
  using assms unfolding prepare_dependencies_def
  by (auto dest!: all_errors_dependencies split: option.splits)

lemma check_described_cases:
  assumes "check_described ex a c routers container description acc = Inr acc'" and "reported acc"
  shows "reported acc' \<and> (pa_issues acc' = [] \<longrightarrow> pa_issues acc = [])"
  using assms all_errors_operations unfolding check_described_def
  by (auto simp: Let_def dest!: all_errors_dependencies all_errors_paths split: option.splits)

lemma try_contracts_cases:
  assumes "try_contracts ex a c h i routers acc = Inr acc'" and "reported acc"
  shows "reported acc' \<and> (pa_issues acc' = [] \<longrightarrow> pa_issues acc = [] \<and>
    validate_error_installation ex h (ca_core a) (ca_router a) routers (flatten_handlers (cp_features c)) i (cp_errors c) = Inr ())"
  using assms unfolding try_contracts_def
  by (auto simp del: list_ex_iff dest!: attempt_cases split: if_splits)

lemma prepare_contracts_cases:
  assumes "prepare_contracts ex a c h i routers container acc = Inr (description, acc')" and "reported acc"
  shows "reported acc' \<and> (pa_issues acc' = [] \<longrightarrow> pa_issues acc = [] \<and> description \<noteq> None \<and>
    validate_error_installation ex h (ca_core a) (ca_router a) routers (flatten_handlers (cp_features c)) i (cp_errors c) = Inr ())"
proof -
  from assms(1) obtain acc1 acc2 where
    describe: "attempt ''http.description'' ''canon.description.E001''
              ''Ensure declared HTTP errors are present in the composed catalog.'' (participants c (\<lambda>_. True)) []
              (lift_prep (ex_describe ex (cp_features c) routers (hp_registries h i))) acc = Inr (description, acc1)"
    and check: "check_described ex a c routers container description acc1 = Inr acc2"
    and trial: "try_contracts ex a c h i routers acc2 = Inr acc'"
    unfolding prepare_contracts_def by (auto simp only: rbind_pair_eq_Inr rbind_eq_Inr sum.inject prod.inject)
  from attempt_cases [OF describe reports_lift assms(2)]
  show ?thesis using check_described_cases [OF check] try_contracts_cases [OF trial] by auto
qed
lemma prepare_composition_cases:
  assumes "prepare_composition ex h a c = Inr p" and "\<not> has_errors (pr_report p)"
  shows "validate_runtime_options ex a c = Inr () \<and> prepare_feature_routers ex a c = Inr (pr_routers p) \<and>
    succeeds (validate_handlers (ap_handlers (ca_core a)) (cp_features c)) \<and>
    prepare_container (ex_sources ex) (ex_build ex) (ex_decorate ex) (ap_started (ca_core a)) c = Inr (pr_container p) \<and>
    pr_description p \<noteq> None \<and>
    (\<exists>i. pr_registry p = Some i \<and>
       prepare_registry (ex_host_ok ex) (ex_store ex) h (ap_registry (ca_core a)) c (pr_routers p) = Inr (i, pr_heap p) \<and>
       validate_error_installation ex (pr_heap p) (ca_core a) (ca_router a) (pr_routers p)
         (flatten_handlers (cp_features c)) i (cp_errors c) = Inr ())"
proof -
  from assms(1) obtain r1 a1 routers a2 handlers a3 registry a4 container a5 a6 description a7 a8 where
    s1: "attempt_installation ex a c \<lparr>pa_issues = [], pa_checks = [], pa_missing = []\<rparr> = Inr (r1, a1)"
    and s2: "attempt_routers ex a c a1 = Inr (routers, a2)"
    and s3: "attempt_handlers a c a2 = Inr (handlers, a3)"
    and s4: "attempt_errors ex h a c routers a3 = Inr (registry, a4)"
    and s5: "attempt_providers ex a c a4 = Inr (container, a5)"
    and s6: "prepare_dependencies ex a c routers container a5 = Inr a6"
    and s7: "contracts_stage ex a c routers handlers registry container a6 = Inr (description, a7)"
    and s8: "feature_stage c description a7 = Inr a8"
    and p: "p = preparation_of h routers registry container description a8"
    unfolding prepare_composition_def
    by (simp only: rbind_eq_Inr split_paired_Ex prod.case sum.inject) blast
  have c1: "reported a1 \<and> (pa_issues a1 = [] \<longrightarrow> validate_runtime_options ex a c = Inr ())"
    using attempt_cases [OF s1 [unfolded attempt_installation_def] reports_runtime] by (auto simp: reported_def)
  have c2: "reported a2 \<and> (pa_issues a2 = [] \<longrightarrow> pa_issues a1 = [] \<and> (\<exists>x. prepare_feature_routers ex a c = Inr x \<and> routers = Some x))"
    using attempt_cases [OF s2 [unfolded attempt_routers_def] reports_routers] c1 by blast
  have c3: "reported a3 \<and> (pa_issues a3 = [] \<longrightarrow> pa_issues a2 = [] \<and> handlers \<noteq> None \<and>
      succeeds (validate_handlers (ap_handlers (ca_core a)) (cp_features c)))"
    using attempt_cases [OF s3 [unfolded attempt_handlers_def] reports_lift] c2 by auto
  have c4: "reported a4 \<and> (pa_issues a4 = [] \<longrightarrow> pa_issues a3 = [] \<and> (\<exists>x. registry = Some x \<and>
      prepare_registry (ex_host_ok ex) (ex_store ex) h (ap_registry (ca_core a)) c
                 (case routers of None \<Rightarrow> [] | Some rs \<Rightarrow> rs) = Inr x))"
    using attempt_cases [OF s4 [unfolded attempt_errors_def] reports_lift] c3 by auto
  have c5: "reported a5 \<and> (pa_issues a5 = [] \<longrightarrow> pa_issues a4 = [] \<and> (\<exists>x. container = Some x \<and>
      prepare_container (ex_sources ex) (ex_build ex) (ex_decorate ex) (ap_started (ca_core a)) c = Inr x))"
    using attempt_cases [OF s5 [unfolded attempt_providers_def] reports_lift] c4 by auto
  have c6: "reported a6 \<and> (pa_issues a6 = [] \<longrightarrow> pa_issues a5 = [])"
    using prepare_dependencies_cases [OF s6] c5 by blast
  have c7: "reported a7 \<and> (pa_issues a7 = [] \<longrightarrow> pa_issues a6 = [])"
    using s7 c6 unfolding contracts_stage_def
    by (auto split: option.splits prod.splits dest!: prepare_contracts_cases)
  have clean: "pa_issues a7 = []"
  proof -
    have "set (pa_issues a7) \<subseteq> set (pa_issues a8)"
      using s8 by (auto simp: feature_stage_def simp del: list_ex_iff split: option.splits if_splits)
    moreover have "\<forall>x\<in>set (pa_issues a8). iss_severity x \<noteq> Sev_error"
      using assms(2) by (auto simp: p preparation_of_def has_errors_def list_ex_iff)
    ultimately show ?thesis using c7 by (cases "pa_issues a7") (auto simp: reported_def all_errors_def)
  qed
  have all: "pa_issues a6 = []" "pa_issues a5 = []" "pa_issues a4 = []" "pa_issues a3 = []" "pa_issues a2 = []" "pa_issues a1 = []"
    using clean c7 c6 c5 c4 c3 c2 by blast+
  obtain rs where rs: "routers = Some rs" "prepare_feature_routers ex a c = Inr rs" using c2 all by blast
  obtain i h' where reg: "registry = Some (i, h')"
      "prepare_registry (ex_host_ok ex) (ex_store ex) h (ap_registry (ca_core a)) c rs = Inr (i, h')"
    using c4 all rs by auto
  obtain hs where hs: "handlers = Some hs" using c3 all by auto
  have "prepare_contracts ex a c h' i rs container a6 = Inr (description, a7)"
    using s7 by (simp add: contracts_stage_def rs reg hs)
  from prepare_contracts_cases [OF this] c6 clean have "description \<noteq> None"
    "validate_error_installation ex h' (ca_core a) (ca_router a) rs (flatten_handlers (cp_features c)) i (cp_errors c) = Inr ()"
    by blast+
  moreover obtain ct where "container = Some ct"
      "prepare_container (ex_sources ex) (ex_build ex) (ex_decorate ex) (ap_started (ca_core a)) c = Inr ct"
    using c5 all by blast
  ultimately show ?thesis using c1 c3 all rs reg by (simp add: p preparation_of_def)
qed

section \<open>The trial installation predicts the installation\<close>

lemma rmap_ensure_iff: "(\<exists>us. rmap (\<lambda>x. ensure (P x) (m x)) xs = Inr us) \<longleftrightarrow> (\<forall>x\<in>set xs. P x)"
  by (induction xs) auto

lemma check_install_transfer:
  assumes "check_install st r v validation http unhandled = Inr u" and "\<not> ap_schema_cached a" and "\<not> ap_started a"
    and keep: "\<And>c h. dict_get (ap_handlers a) c = Some h \<Longrightarrow> dict_get (ap_handlers v) c = Some h"
  shows "check_install st r a validation http unhandled = Inr ()"
proof -
  from assms(1) obtain v0 us v1 v2 v3 where
    res: "(case require_resolved st r of Inl _ \<Rightarrow> config_error ''registry cannot be installed with unresolved problem type URIs''
            | Inr _ \<Rightarrow> Inr ()) = Inr v0"
    and base: "\<not> ((validation \<or> unhandled) \<and> rg_base r = None)"
    and dom: "rmap (ensure_handler_available v) (domain_classes st r) = Inr us"
    and h: "(if http then ensure_default_or_available v http_exception Default_http else Inr ()) = Inr v1"
    and val: "(if validation
            then rbind (ensure_default_or_available v request_validation Default_validation)
                   (\<lambda>_. ensure_handler_available v response_validation)
            else Inr ()) = Inr v2"
    and unh: "(if unhandled then ensure_handler_available v ''Exception'' else Inr ()) = Inr v3"
    and overlap: "filter (\<lambda>c. c \<in> set (reserved_classes validation http unhandled)) (domain_classes st r) = []"
    and codes: "\<forall>e\<in>set (registry_errors r). ed_code (st e) \<notin> set (builtin_codes validation unhandled)"
    unfolding check_install_def Let_def by (simp only: rbind_eq_Inr ensure_eq_Inr) blast
  have free: "ensure_handler_available v c = Inr () \<Longrightarrow> ensure_handler_available a c = Inr ()" for c
    using keep [of c] by (cases "dict_get (ap_handlers a) c") (auto simp: ensure_handler_available_def)
  have default: "ensure_default_or_available v c k = Inr () \<Longrightarrow> ensure_default_or_available a c k = Inr ()" for c k
    using keep [of c] by (auto simp: ensure_default_or_available_def split: option.splits)
  have "\<forall>c\<in>set (domain_classes st r). dict_get (ap_handlers v) c = None"
    using dom unfolding ensure_handler_available_def by (rule rmap_ensure)
  then have "\<forall>c\<in>set (domain_classes st r). dict_get (ap_handlers a) c = None"
    using keep by (metis option.exhaust)
  then have "\<exists>us. rmap (ensure_handler_available a) (domain_classes st r) = Inr us"
    unfolding ensure_handler_available_def by (subst rmap_ensure_iff)
  then obtain us' where dom': "rmap (ensure_handler_available a) (domain_classes st r) = Inr us'" ..
  have h': "(if http then ensure_default_or_available a http_exception Default_http else Inr ()) = Inr ()"
    using h default [of http_exception Default_http] by (cases http) simp_all
  have val': "(if validation
            then rbind (ensure_default_or_available a request_validation Default_validation)
                   (\<lambda>_. ensure_handler_available a response_validation)
            else Inr ()) = Inr ()"
  proof (cases validation)
    case True
    with val have "ensure_default_or_available v request_validation Default_validation = Inr ()"
      and "ensure_handler_available v response_validation = Inr ()" by simp_all
    with True show ?thesis by (simp only: default free if_True rbind_Inr)
  qed simp
  have unh': "(if unhandled then ensure_handler_available a ''Exception'' else Inr ()) = Inr ()"
    using unh free [of "''Exception''"] by (cases unhandled) simp_all
  have [simp]: "ensure True (e :: cfg_error) = Inr ()" for e by (simp add: ensure_def)
  show ?thesis
    unfolding check_install_def Let_def
    using assms(2,3) res base dom' h' val' unh' overlap
    by (simp only: rbind_Inr HOL.simp_thms not_False_eq_True \<open>\<And>e. ensure True e = Inr ()\<close>)
      (simp only: ensure_eq_Inr, rule codes)
qed

lemma dict_get_update:
  "wf_dict d' \<Longrightarrow> dict_get (dict_update d' d) k = (case dict_get d' k of Some v \<Rightarrow> Some v | None \<Rightarrow> dict_get d k)"
proof (induction d' arbitrary: d)
  case (Cons p d')
  obtain j v where p: "p = (j, v)" by (cases p)
  have "dict_get d' j = None" "wf_dict d'" using Cons.prems by (auto simp: p wf_dict_def map_of_eq_None_iff)
  then show ?case using Cons.IH [of "dict_set j v d"] by (auto simp: p dict_update_def dict_get_set split: option.split)
qed (simp add: dict_update_def)

lemma dict_update_rest:
  "dict_get d k = dict_get e k \<Longrightarrow> dict_get (dict_update d' d) k = dict_get (dict_update d' e) k"
proof (induction d' arbitrary: d e)
  case (Cons p d')
  show ?case unfolding dict_update_def fold_Cons comp_def
    by (rule Cons.IH [unfolded dict_update_def]) (use Cons.prems in \<open>simp add: dict_get_set split: prod.split\<close>)
qed (simp add: dict_update_def)

lemma dict_update_absent:
  "dict_get d k = None \<Longrightarrow> dict_get (dict_update d' d) k = Some v \<Longrightarrow> dict_get (dict_update d' e) k = Some v"
proof (induction d' arbitrary: d e)
  case (Cons p d')
  obtain j w where p: "p = (j, w)" by (cases p)
  show ?case
  proof (cases "j = k")
    case True
    then have "dict_get (dict_set j w d) k = dict_get (dict_set j w e) k" by (simp add: dict_get_set)
    from dict_update_rest [OF this, of d'] Cons.prems(2) show ?thesis by (simp add: p dict_update_def)
  next
    case False
    with Cons.IH [of "dict_set j w d" "dict_set j w e"] Cons.prems show ?thesis
      by (simp add: p dict_update_def dict_get_set)
  qed
qed (simp add: dict_update_def)

lemma dict_update_kept:
  "dict_get d k = Some v \<Longrightarrow> k \<notin> fst ` set d' \<Longrightarrow> dict_get (dict_update d' d) k = Some v"
  by (induction d' arbitrary: d) (auto simp: dict_update_def dict_get_set)

definition adoptable :: "app \<Rightarrow> bool" where
  \<comment> \<open>no registry's compiler is on the application\<close>
  "adoptable a =
     (case ap_openapi a of
        None \<Rightarrow> True
      | Some (Compiler old) \<Rightarrow> oc_registry old = None
      | Some Foreign_state \<Rightarrow> False)"

lemma trial_handlers_cover:
  assumes "wf_dict core" and "dict_get (dict_update fs core) k = Some h"
  shows "dict_get (dict_update fs (dict_update core base)) k = Some h"
proof (cases "dict_get core k")
  case None
  from dict_update_absent [OF this assms(2)] show ?thesis .
next
  case (Some v)
  have "dict_get (dict_update core base) k = dict_get core k" using Some by (simp add: dict_get_update assms(1))
  from dict_update_rest [OF this, of fs] assms(2) show ?thesis by simp
qed

lemma trial_predicts_installation:
  assumes trial: "validate_error_installation ex h core app0 routers hs i o1 = Inr ()"
    and "ap_is_fastapi core" and "\<not> ap_started core" and "wf_dict (ap_handlers core)"
    and "ap_registry core = None" and "adoptable core"
  shows "succeeds (install_registry ex h i o1 (add_feature_handlers hs core))"
proof -
  let ?r = "hp_registries h i" and ?real = "add_feature_handlers hs core"
  let ?v = "add_feature_handlers hs ((fresh_core ex)\<lparr>ap_handlers := dict_update (ap_handlers core) (ap_handlers (fresh_core ex))\<rparr>)"
  have cached: "\<not> ap_schema_cached core" using trial by (auto simp: validate_error_installation_def split: if_splits)
  obtain v2 where v2: "install_registry ex h i o1 ?v = Inr v2"
    using trial assms(5) by (auto simp: validate_error_installation_def Let_def cached)
  have "ap_registry ?v = None" by (simp add: add_feature_handlers_def fresh_core_def)
  with v2 obtain u where "check_install (ex_store ex) ?r ?v (eo_validation o1) (eo_http o1) (eo_unhandled o1) = Inr u"
    unfolding install_registry_def by (elim install_handlers_cases) auto
  then have check: "check_install (ex_store ex) ?r ?real (eo_validation o1) (eo_http o1) (eo_unhandled o1) = Inr ()"
    by (rule check_install_transfer)
      (use cached assms(3) trial_handlers_cover [OF assms(4)] in \<open>simp_all add: add_feature_handlers_def\<close>)
  have "succeeds (install_openapi c ?real)" for c
    using assms(6) cached by (auto simp: install_openapi_def adoptable_def add_feature_handlers_def
        split: option.splits openapi_state.splits)
  then obtain a1 where "install_openapi \<lparr>oc_registry = Some i, oc_validation = eo_validation o1, oc_http = eo_http o1,
      oc_internal = (eo_validation o1 \<or> eo_unhandled o1)\<rparr> ?real = Inr a1"
    by (auto simp: succeeds_iff)
  with check assms(2,5) show ?thesis
    by (simp add: install_registry_def install_handlers_def add_feature_handlers_def)
qed

section \<open>Atomic and idempotent application\<close>

lemma include_routers_total:
  assumes "\<forall>r x. ex_include ex r [x] \<noteq> None"
  shows "fst (include_routers ex rs a)"
proof (induction rs arbitrary: a)
  case (Cons r rs)
  obtain j where "ex_include ex (ca_router a) [r] = Some j" using assms by blast
  with Cons show ?case by simp
qed simp

lemma include_routers_frame:
  "ca_core (snd (include_routers ex rs a)) = ca_core a \<and> ca_installation (snd (include_routers ex rs a)) = ca_installation a"
  by (induction rs arbitrary: a) (auto split: option.split)

lemma install_stage_frame [simp]:
  "ca_core (install_scopes ct (install_telemetry t a)) = ca_core a"
  "ca_installation (install_scopes ct (install_telemetry t a)) = ca_installation a"
  by (simp_all add: install_scopes_def install_telemetry_def split: option.split)

lemma commit_cases:
  assumes "commit_composition ex a c p d i = (e, a')"
    and "\<forall>r x. ex_include ex r [x] \<noteq> None"
  obtains (failed) m where "e = Some (Build_cfg m)"
      "install_registry ex (pr_heap p) i (cp_errors c) (add_feature_handlers (flatten_handlers (cp_features c)) (ca_core a)) = Inl m"
  | (installed) core a1 where "e = None" "a' = finish_installation c p d (ca_lifespan a) core a1"
      "install_registry ex (pr_heap p) i (cp_errors c) (add_feature_handlers (flatten_handlers (cp_features c)) (ca_core a)) = Inr core"
proof -
  let ?s = "install_scopes (pr_container p) (install_telemetry (cp_telemetry c) a)"
  obtain a1 where inc: "include_routers ex (pr_routers p) ?s = (True, a1)"
    using include_routers_total [OF assms(2), of "pr_routers p" ?s] by (cases "include_routers ex (pr_routers p) ?s") auto
  have core: "ca_core a1 = ca_core a" using include_routers_frame [of ex "pr_routers p" ?s] by (simp add: inc)
  show thesis
  proof (cases "install_registry ex (pr_heap p) i (cp_errors c) (add_feature_handlers (flatten_handlers (cp_features c)) (ca_core a))")
    case (Inl m)
    with assms(1) show ?thesis by (intro failed [of m]) (auto simp: commit_composition_def inc core)
  next
    case (Inr b)
    with assms(1) show ?thesis
      by (intro installed [of b "a1\<lparr>ca_core := add_feature_handlers (flatten_handlers (cp_features c)) (ca_core a1)\<rparr>"])
        (auto simp: commit_composition_def inc core)
  qed
qed

lemma apply_fresh:
  assumes "apply_composition ex h a c = (e, h', a')" and "ca_installation a = None" and "ap_is_fastapi (ca_core a)"
  shows "a' = a \<and> e \<noteq> None \<or>
    (\<exists>p d i. prepare_composition ex h a c = Inr p \<and> \<not> has_errors (pr_report p) \<and> pr_description p = Some d \<and>
       pr_registry p = Some i \<and> h' = pr_heap p \<and> commit_composition ex a c p d i = (e, a'))"
proof (cases "prepare_composition ex h a c")
  case (Inl m)
  with assms show ?thesis by (auto simp: apply_composition_def)
next
  case (Inr p)
  show ?thesis
  proof (cases "pr_missing p = None \<and> \<not> has_errors (pr_report p) \<and> pr_description p \<noteq> None \<and> pr_registry p \<noteq> None")
    case True
    then obtain d i where "pr_description p = Some d" "pr_registry p = Some i" by auto
    with True assms Inr show ?thesis by (simp add: apply_composition_def raise_check_errors_def split: prod.splits)
  next
    case False
    with assms Inr have "a' = a \<and> e \<noteq> None"
      by (auto simp: apply_composition_def raise_check_errors_def simp del: not_None_eq not_Some_eq
          split: option.splits if_splits)
    then show ?thesis ..
  qed
qed


lemma validate_handlers_ok:
  assumes "validate_handlers existing features = Inr u"
  shows "distinct (map fst (flatten_handlers features)) \<and> (\<forall>p\<in>set (flatten_handlers features). dict_get existing (fst p) = None)"
proof -
  let ?step = "\<lambda>(owner, c) seen. case dict_get seen c of
           Some previous \<Rightarrow> Inl (Cfg_names ''features define an exception handler for the same class'' [previous, owner])
         | None \<Rightarrow>
             if dict_get existing c \<noteq> None
             then Inl (Cfg_at ''the application already defines an exception handler for'' c)
             else Inr (dict_set c owner seen)"
  have scan: "rfold ?step xs seen = Inr seen' \<Longrightarrow> distinct (map snd xs) \<and> set (map snd xs) \<inter> fst ` set seen = {} \<and>
      (\<forall>x\<in>set (map snd xs). dict_get existing x = None)" for xs :: "(string \<times> cls) list" and seen seen'
  proof (induction xs arbitrary: seen)
    case (Cons x xs)
    obtain owner c where x: "x = (owner, c)" by (cases x)
    from Cons.prems have none: "dict_get seen c = None" "dict_get existing c = None"
      and rest: "rfold ?step xs (dict_set c owner seen) = Inr seen'"
      by (auto simp: x simp del: not_None_eq split: option.splits if_splits)
    from none have "c \<notin> fst ` set seen" by (simp add: map_of_eq_None_iff)
    with Cons.IH [OF rest] none show ?case by (auto simp: x keys_dict_set)
  qed simp
  have names: "map snd (owned features (\<lambda>f. map fst (ft_handlers f))) = map fst (flatten_handlers features)"
    by (induction features) (auto simp: owned_def flatten_handlers_def comp_def)
  from assms obtain s where "rfold ?step (owned features (\<lambda>f. map fst (ft_handlers f))) [] = Inr s"
    by (auto simp: validate_handlers_def)
  from scan [OF this] show ?thesis by (simp add: names)
qed

lemma dict_update_value:
  "distinct (map fst d') \<Longrightarrow> (k, v) \<in> set d' \<Longrightarrow> dict_get (dict_update d' d) k = Some v"
  by (simp add: dict_get_update wf_dict_def)

lemma install_keeps:
  assumes "install_registry ex h i o1 core = Inr core'"
    and "dict_get (ap_handlers core) k = Some v" and "v \<notin> {Default_http, Default_validation}"
  shows "dict_get (ap_handlers core') k = Some v"
proof -
  from assms(1) show ?thesis unfolding install_registry_def
  proof (cases rule: install_handlers_cases)
    case present
    with assms(2) show ?thesis by simp
  next
    case (fresh a1 u)
    note ok = check_install_ok [OF fresh(2)]
    show ?thesis using assms(2,3) ok(1-4) by (auto simp: fresh(6) add_handlers_get)
  qed
qed

lemma install_handles:
  assumes "install_registry ex h i o1 core = Inr core'" and "ap_registry core = None" and "e \<in> set (registry_errors (hp_registries h i))"
  shows "dict_get (ap_handlers core') (ed_exception (ex_store ex e)) = Some (Domain_handler i)"
proof -
  from assms(1) show ?thesis unfolding install_registry_def
  proof (cases rule: install_handlers_cases)
    case present
    with assms(2) show ?thesis by simp
  next
    case (fresh a1 u)
    note ok = check_install_ok [OF fresh(2)]
    have "ed_exception (ex_store ex e) \<in> set (domain_classes (ex_store ex) (hp_registries h i))"
      using assms(3) by (simp add: domain_classes_def)
    moreover from this have "ed_exception (ex_store ex e) \<notin> set (reserved_classes (eo_validation o1) (eo_http o1) (eo_unhandled o1))"
      using ok(5) by blast
    ultimately show ?thesis by (auto simp: fresh(6) add_handlers_get reserved_classes_def split: if_splits)
  qed
qed

lemma install_registry_set:
  "install_registry ex h i o1 core = Inr core' \<Longrightarrow> ap_registry core' = Some i"
  unfolding install_registry_def by (elim install_handlers_cases) auto

text \<open>
  Claim C11. An applied composition is complete: afterwards one registry is installed, every error
  a feature lists or its routers declare is answered by that registry's handler, every exception
  handler of a feature is the application's handler for its class, the application's own
  handlers are kept, and the recorded installation is the one requested. The components meet
  here: declaration, catalog, preparation and installation.
\<close>

theorem applied_composition_complete:
  assumes "apply_composition ex h a c = (None, h', a')" and "ca_installation a = None"
    and "ap_registry (ca_core a) = None" and "ids_below (cp_features c) (hp_next h)"
    and "\<forall>r x. ex_include ex r [x] \<noteq> None"
  shows "\<exists>i d. ap_registry (ca_core a') = Some i \<and>
     ca_installation a' = Some (Installed (requested_installation c) (Some d)) \<and>
     (\<forall>f\<in>set (cp_features c). \<forall>e\<in>feature_errors (hp_registries h) f.
        dict_get (ap_handlers (ca_core a')) (ed_exception (ex_store ex e)) = Some (Domain_handler i)) \<and>
     (\<forall>(k, u)\<in>set (flatten_handlers (cp_features c)). dict_get (ap_handlers (ca_core a')) k = Some (User_handler u)) \<and>
     (\<forall>k u. dict_get (ap_handlers (ca_core a)) k = Some (User_handler u) \<longrightarrow>
        dict_get (ap_handlers (ca_core a')) k = Some (User_handler u))"
proof -
  have app: "ap_is_fastapi (ca_core a)" using assms(1) by (auto simp: apply_composition_def split: if_splits)
  from apply_fresh [OF assms(1,2) app] obtain p d i where p: "prepare_composition ex h a c = Inr p" "\<not> has_errors (pr_report p)"
    "pr_registry p = Some i" and commit: "commit_composition ex a c p d i = (None, a')"
    by (elim disjE conjE exE) simp_all
  note ok = prepare_composition_cases [OF p(1,2)]
  from ok p(3) have reg: "prepare_registry (ex_host_ok ex) (ex_store ex) h None c (pr_routers p) = Inr (i, pr_heap p)"
    by (auto simp: assms(3))
  from ok obtain u where u: "validate_handlers (ap_handlers (ca_core a)) (cp_features c) = Inr u" by (auto simp: succeeds_iff)
  let ?hs = "flatten_handlers (cp_features c)"
  from commit assms(5) obtain core a1 where a': "a' = finish_installation c p d (ca_lifespan a) core a1"
    and inst: "install_registry ex (pr_heap p) i (cp_errors c) (add_feature_handlers ?hs (ca_core a)) = Inr core"
    by (auto elim!: commit_cases)
  have core: "ca_core a' = core" by (simp add: a' finish_installation_def)
  have none: "ap_registry (add_feature_handlers ?hs (ca_core a)) = None" by (simp add: add_feature_handlers_def assms(3))
  have "dict_get (ap_handlers core) (ed_exception (ex_store ex e)) = Some (Domain_handler i)"
    if "f \<in> set (cp_features c)" "e \<in> feature_errors (hp_registries h) f" for f e
    using install_handles [OF inst none] prepare_registry_complete [OF reg assms(4)] that by blast
  moreover have "dict_get (ap_handlers core) k = Some (User_handler v)" if "(k, v) \<in> set ?hs" for k v
  proof (rule install_keeps [OF inst])
    show "dict_get (ap_handlers (add_feature_handlers ?hs (ca_core a))) k = Some (User_handler v)"
      unfolding add_feature_handlers_def using that validate_handlers_ok [OF u]
      by (auto intro!: dict_update_value rev_image_eqI [of "(k, v)"] simp: comp_def case_prod_beta)
  qed simp
  moreover have "dict_get (ap_handlers core) k = Some (User_handler v)"
    if "dict_get (ap_handlers (ca_core a)) k = Some (User_handler v)" for k v
  proof (rule install_keeps [OF inst])
    have "k \<notin> fst ` set ?hs" using validate_handlers_ok [OF u] that by auto
    with that show "dict_get (ap_handlers (add_feature_handlers ?hs (ca_core a))) k = Some (User_handler v)"
      unfolding add_feature_handlers_def by (force intro!: dict_update_kept)
  qed simp
  ultimately show ?thesis using install_registry_set [OF inst]
    by (auto simp: core a' finish_installation_def)
qed

text \<open>
  A composition is applied at most once: an application that has an installation is
  never changed by applying again, whatever the outcome, and the outcome is success exactly
  for a composition with the same features, options, factory, telemetry, logging and
  overrides.
\<close>

theorem reapplied_composition:
  assumes "ap_is_fastapi (ca_core a)" and "ca_installation a = Some s"
  shows "snd (snd (apply_composition ex h a c)) = a \<and>
    (fst (apply_composition ex h a c) = None \<longleftrightarrow> (\<exists>d. s = Installed (requested_installation c) d)) \<and>
    (fst (apply_composition ex h a c) = None \<longleftrightarrow> succeeds (validate_applied_composition a c))"
  using assms by (auto simp: apply_composition_def validate_applied_composition_def split: install_state.split)

section \<open>Running the composed lifespan\<close>

text \<open>
  \<open>_compose_lifespan\<close> as a program over an exit stack: the container's \<open>close\<close> is pushed
  first, then every entered lifespan. A lifespan's entry yields a state, nothing or an
  exception; on exit it may let the pending exception pass, suppress it or raise its own, as
  \<open>AsyncExitStack\<close> allows; a callback cannot suppress. The application runs where the context
  yields.
\<close>

datatype exit_entry = Close_container | Exit_lifespan lifespan

datatype exit_outcome = Exit_passes | Exit_suppresses | Exit_raises string

datatype ls_event = Entered lifespan | Serving "(string \<times> nat) list" | Left exit_entry

record lifespan_env =
  le_contracts :: "string option"
  le_enter :: "lifespan \<Rightarrow> (string, (string \<times> nat) list option) result"
  le_exit :: "exit_entry \<Rightarrow> exit_outcome"
  le_body :: "string option"

fun unwind :: "(exit_entry \<Rightarrow> exit_outcome) \<Rightarrow> exit_entry list \<Rightarrow> string option \<Rightarrow> ls_event list \<times> string option" where
  \<comment> \<open>the exit stack, last entry first, with the pending exception\<close>
  "unwind leave [] pending = ([], pending)"
| "unwind leave (x # xs) pending =
     (let pending' = (case leave x of
            Exit_passes \<Rightarrow> pending
          | Exit_suppresses \<Rightarrow> (if x = Close_container then pending else None)
          | Exit_raises m \<Rightarrow> Some m);
          (events, final) = unwind leave xs pending'
      in (Left x # events, final))"

fun enter_all ::
    "(lifespan \<Rightarrow> (string, (string \<times> nat) list option) result) \<Rightarrow> lifespan list \<Rightarrow> exit_entry list \<Rightarrow> (string \<times> nat) list
      \<Rightarrow> ls_event list \<times> exit_entry list \<times> (string, (string \<times> nat) list) result" where
  \<comment> \<open>enters in order; the states merge, later keys win\<close>
  "enter_all enter [] stack state = ([], stack, Inr state)"
| "enter_all enter (l # ls) stack state =
     (case enter l of
        Inl m \<Rightarrow> ([], stack, Inl m)
      | Inr s \<Rightarrow>
          (let (events, stack', r) = enter_all enter ls (Exit_lifespan l # stack)
                 (case s of None \<Rightarrow> state | Some d \<Rightarrow> dict_update d state)
           in (Entered l # events, stack', r)))"

datatype lifespan_end = Startup_failed string | Shut_down "string option"

definition startup_end :: "string option \<Rightarrow> lifespan_end" where
  \<comment> \<open>a context manager that swallows its exception before yielding is an error of its own\<close>
  "startup_end final = Startup_failed (case final of Some m \<Rightarrow> m | None \<Rightarrow> ''generator didn't yield'')"

definition run_composed ::
    "lifespan_env \<Rightarrow> lifespan \<Rightarrow> lifespan list \<Rightarrow> dcontainer option \<Rightarrow> ls_event list \<times> lifespan_end" where
  "run_composed env original features container =
     (let stack0 = (if container = None then [] else [Close_container])
      in case le_contracts env of
           Some m \<Rightarrow> (let (out, final) = unwind (le_exit env) stack0 (Some m) in (out, startup_end final))
         | None \<Rightarrow>
             (let (entered, stack, r) = enter_all (le_enter env) (original # features) stack0 []
              in case r of
                   Inl m \<Rightarrow> (let (out, final) = unwind (le_exit env) stack (Some m) in (entered @ out, startup_end final))
                 | Inr state \<Rightarrow>
                     (let (out, final) = unwind (le_exit env) stack (le_body env)
                      in (entered @ Serving state # out, Shut_down final))))"

lemma unwind_events: "fst (unwind leave xs pending) = map Left xs"
proof (induction xs arbitrary: pending)
  case (Cons x xs)
  then show ?case by (simp add: Let_def case_prod_beta)
qed simp

lemma enter_all_events:
  "enter_all enter ls stack state = (events, stack', r) \<Longrightarrow>
    \<exists>entered. prefix entered ls \<and> events = map Entered entered \<and> stack' = map Exit_lifespan (rev entered) @ stack \<and>
      (succeeds r \<longleftrightarrow> entered = ls) \<and> (\<forall>l\<in>set entered. succeeds (enter l)) \<and>
      (\<not> succeeds r \<longrightarrow> \<not> succeeds (enter (ls ! length entered)))"
proof (induction enter ls stack state arbitrary: events stack' r rule: enter_all.induct)
  case (2 enter l ls stack state)
  show ?case
  proof (cases "enter l")
    case (Inl m)
    with 2 show ?thesis by auto
  next
    case (Inr s)
    obtain ev st' r' where e: "enter_all enter ls (Exit_lifespan l # stack)
        (case s of None \<Rightarrow> state | Some d \<Rightarrow> dict_update d state) = (ev, st', r')" by (metis prod_cases3)
    from "2.IH" [OF Inr e] obtain entered where "prefix entered ls" "ev = map Entered entered"
      "st' = map Exit_lifespan (rev entered) @ Exit_lifespan l # stack" "succeeds r' \<longleftrightarrow> entered = ls"
      "\<forall>l\<in>set entered. succeeds (enter l)" "\<not> succeeds r' \<longrightarrow> \<not> succeeds (enter (ls ! length entered))" by blast
    with "2.prems" Inr e show ?thesis by (intro exI [of _ "l # entered"]) auto
  qed
qed simp

text \<open>
  Claim C12. The composed lifespan is a bracket: it enters an initial segment of the original and
  the feature lifespans in order, serves only if all of them were entered and the contracts
  validated, leaves exactly the entered ones in reverse order, and closes the container last,
  whatever any entry, the application or any exit raises.
\<close>

theorem composed_lifespan_brackets:
  "\<exists>entered served. prefix entered (original # features) \<and>
     fst (run_composed env original features container) =
       map Entered entered @ served @ map (\<lambda>l. Left (Exit_lifespan l)) (rev entered) @
       (if container = None then [] else [Left Close_container]) \<and>
     (case snd (run_composed env original features container) of
        Startup_failed _ \<Rightarrow> served = [] \<and>
          (le_contracts env \<noteq> None \<and> entered = [] \<or> (\<exists>l\<in>set (original # features). \<not> succeeds (le_enter env l)))
      | Shut_down _ \<Rightarrow> (\<exists>s. served = [Serving s]) \<and> entered = original # features \<and> le_contracts env = None)"
proof (cases "le_contracts env")
  case (Some m)
  let ?stack = "if container = None then [] else [Close_container]"
  obtain out final where u: "unwind (le_exit env) ?stack (Some m) = (out, final)" by (cases "unwind (le_exit env) ?stack (Some m)")
  have "out = map Left ?stack" using unwind_events [of "le_exit env" ?stack "Some m"] by (simp add: u)
  then show ?thesis using Some
    by (intro exI [of _ "[]"]) (auto simp: run_composed_def Let_def u startup_end_def)
next
  case None
  let ?stack = "if container = None then [] else [Close_container]" and ?ls = "original # features"
  obtain events stack r where e: "enter_all (le_enter env) ?ls ?stack [] = (events, stack, r)" by (metis prod_cases3)
  from enter_all_events [OF e] obtain entered where entered: "prefix entered ?ls" "events = map Entered entered"
    "stack = map Exit_lifespan (rev entered) @ ?stack" "succeeds r \<longleftrightarrow> entered = ?ls"
    "\<not> succeeds r \<longrightarrow> \<not> succeeds (le_enter env (?ls ! length entered))" by blast
  have out: "fst (unwind (le_exit env) stack pending) = map (\<lambda>l. Left (Exit_lifespan l)) (rev entered) @ map Left ?stack" for pending
    by (simp add: unwind_events entered(3))
  show ?thesis
  proof (cases r)
    case (Inl m)
    then have "entered \<noteq> ?ls" and fail: "\<not> succeeds (le_enter env (?ls ! length entered))" using entered by auto
    then have "length entered < length ?ls" using entered(1)
      by (metis linorder_not_le not_equal_is_parallel parallel_def prefix_length_le prefix_order.antisym prefix_length_prefix prefix_order.refl)
    then have "?ls ! length entered \<in> set ?ls" by (rule nth_mem)
    with fail have "\<exists>l\<in>set ?ls. \<not> succeeds (le_enter env l)" by blast
    then show ?thesis using None Inl e out [of "Some m"] entered(1)
      by (intro exI [of _ entered] exI [of _ "[]"])
        (simp add: run_composed_def Let_def entered(2) startup_end_def case_prod_beta)
  next
    case (Inr state)
    with entered have "entered = ?ls" by simp
    then show ?thesis using None Inr e out [of "le_body env"]
      by (intro exI [of _ entered] exI [of _ "[Serving state]"])
        (simp add: run_composed_def Let_def entered(2) case_prod_beta)
  qed
qed

section \<open>Witnesses\<close>

definition sample_externals :: externals where
  "sample_externals = \<lparr>ex_host_ok = (\<lambda>_. True), ex_store = sample_store, ex_sources = sample_sources,
     ex_build = (\<lambda>_. Some sample_container), ex_decorate = (\<lambda>_. []), ex_telemetry_prepare = (\<lambda>_. Inr ()),
     ex_factory = (\<lambda>_. None), ex_include = (\<lambda>r rs. Some (r\<lparr>fr_routes := fr_routes r @ concat (map fr_routes rs)\<rparr>)),
     ex_included = (\<lambda>rs. concat (map fr_routes rs)), ex_merge_lifespan = (\<lambda>l _. l), ex_source_name = (\<lambda>_. ''Items''),
     ex_compile_path = (\<lambda>p. p), ex_scopes = sample_scopes,
     ex_default_handlers = [(http_exception, Default_http), (request_validation, Default_validation)],
     ex_describe = (\<lambda>fs _ _. Inr \<lparr>ci_features = map (\<lambda>f. \<lparr>fi_name = ft_name f, fi_operations = [], fi_providers = []\<rparr>) fs,
       ci_operations = [], ci_endpoints = []\<rparr>),
     ex_openapi = (\<lambda>_ _ _. Inr ())\<rparr>"

definition sample_canon_app :: canon_app where
  "sample_canon_app = \<lparr>ca_core = \<lparr>ap_is_fastapi = True, ap_schema_cached = False, ap_started = False, ap_registry = None,
       ap_options = None, ap_handlers = [(http_exception, Default_http), (request_validation, Default_validation),
         (''ZeroDivisionError'', User_handler 9)], ap_openapi = None\<rparr>,
     ca_router = sample_router_decl\<lparr>fr_error_registry := None\<rparr>, ca_installation = None, ca_foreign_container = False,
     ca_container = None, ca_lifespan = Own_lifespan 0 True, ca_logging = False, ca_telemetry = None\<rparr>"

lemma sample_applied: "fst (apply_composition sample_externals sample_heap sample_canon_app sample_composition) = None"
  by code_simp

definition cached_app :: canon_app where
  "cached_app = sample_canon_app\<lparr>ca_core := (ca_core sample_canon_app)\<lparr>ap_schema_cached := True\<rparr>\<rparr>"

lemma cached_refused: "fst (apply_composition sample_externals sample_heap cached_app sample_composition) \<noteq> None"
  by code_simp

lemma sample_fresh:
  "ca_installation sample_canon_app = None" "ap_registry (ca_core sample_canon_app) = None"
  "ap_is_fastapi (ca_core sample_canon_app)"
  by (simp_all add: sample_canon_app_def)

lemma sample_includes: "\<forall>r x. ex_include sample_externals r [x] \<noteq> None"
  by (simp add: sample_externals_def)


theorem applied_composition_complete_witness:
  "\<exists>h' a' i. apply_composition sample_externals sample_heap sample_canon_app sample_composition = (None, h', a') \<and>
     dict_get (ap_handlers (ca_core a')) ''KeyError'' = Some (Domain_handler i) \<and>
     dict_get (ap_handlers (ca_core a')) ''ZeroDivisionError'' = Some (User_handler 9)"
proof -
  obtain h' a' where r: "apply_composition sample_externals sample_heap sample_canon_app sample_composition = (None, h', a')"
    using sample_applied by (metis prod.collapse)
  have below: "ids_below (cp_features sample_composition) (hp_next sample_heap)" by code_simp
  have one: "1 \<in> feature_errors (hp_registries sample_heap) sample_feature"
  proof -
    have "0 \<in> set (router_contributions sample_router_decl)" by code_simp
    then show ?thesis
      by (auto simp: feature_errors_def declared_errors_def sample_heap_def sample_errors sample_feature_def)
  qed
  have cls: "ed_exception (ex_store sample_externals 1) = ''KeyError''" by code_simp
  have own: "dict_get (ap_handlers (ca_core sample_canon_app)) ''ZeroDivisionError'' = Some (User_handler 9)" by code_simp
  have "sample_feature \<in> set (cp_features sample_composition)" by (simp add: sample_composition_def)
  note mem = this
  from applied_composition_complete [OF r sample_fresh(1,2) below sample_includes] obtain i where
    all: "\<forall>f\<in>set (cp_features sample_composition). \<forall>e\<in>feature_errors (hp_registries sample_heap) f.
        dict_get (ap_handlers (ca_core a')) (ed_exception (ex_store sample_externals e)) = Some (Domain_handler i)"
    and kept: "\<forall>k u. dict_get (ap_handlers (ca_core sample_canon_app)) k = Some (User_handler u) \<longrightarrow>
        dict_get (ap_handlers (ca_core a')) k = Some (User_handler u)" by (elim exE conjE) blast
  from bspec [OF bspec [OF all mem] one] have "dict_get (ap_handlers (ca_core a')) ''KeyError'' = Some (Domain_handler i)"
    by (simp only: cls)
  with r kept own show ?thesis by blast
qed

theorem reapplied_composition_witness:
  "snd (snd (apply_composition sample_externals sample_heap
     (sample_canon_app\<lparr>ca_installation := Some Foreign_installation\<rparr>) sample_composition)) =
     sample_canon_app\<lparr>ca_installation := Some Foreign_installation\<rparr>"
  using reapplied_composition [of "sample_canon_app\<lparr>ca_installation := Some Foreign_installation\<rparr>" Foreign_installation
      sample_externals sample_heap sample_composition]
  by (simp add: sample_canon_app_def)

theorem composed_lifespan_brackets_witness:
  "\<exists>entered. prefix entered [Own_lifespan 0 True, Own_lifespan 1 False] \<and>
     Left Close_container \<in> set (fst (run_composed
       \<lparr>le_contracts = None, le_enter = (\<lambda>l. if l = Own_lifespan 1 False then Inl ''boom'' else Inr None),
        le_exit = (\<lambda>_. Exit_passes), le_body = None\<rparr> (Own_lifespan 0 True) [Own_lifespan 1 False] (Some sample_container)))"
  using composed_lifespan_brackets [of "Own_lifespan 0 True" "[Own_lifespan 1 False]"
      "\<lparr>le_contracts = None, le_enter = (\<lambda>l. if l = Own_lifespan 1 False then Inl ''boom'' else Inr None),
        le_exit = (\<lambda>_. Exit_passes), le_body = None\<rparr>" "Some sample_container"] by auto

text \<open>
  The hypothesis on the application's registry in \<open>failed_composition_keeps_app\<close> is needed: the
  trial runs on a fresh application, so a different registry that is already installed goes
  unnoticed until the real installation refuses it, after the routers and the container went in.
\<close>

definition quiet_composition :: composition where
  "quiet_composition = sample_composition\<lparr>cp_errors := \<lparr>eo_base = None, eo_name = None, eo_validation = False,
     eo_http = False, eo_unhandled = False\<rparr>\<rparr>"

definition occupied_app :: canon_app where
  "occupied_app = sample_canon_app\<lparr>ca_core := (ca_core sample_canon_app)\<lparr>ap_registry := Some 7,
     ap_options := Some (False, False, False)\<rparr>\<rparr>"

lemma occupied_app_changed:
  "fst (apply_composition sample_externals sample_heap occupied_app quiet_composition) =
     Some (Build_cfg (Cfg ''a different ErrorRegistry is already installed on this application'')) \<and>
   ca_container occupied_app = None \<and>
   ca_container (snd (snd (apply_composition sample_externals sample_heap occupied_app quiet_composition))) \<noteq> None"
proof -
  have "fst (apply_composition sample_externals sample_heap occupied_app quiet_composition) =
     Some (Build_cfg (Cfg ''a different ErrorRegistry is already installed on this application''))" by code_simp
  moreover have "ca_container occupied_app = None" by code_simp
  moreover have "ca_container (snd (snd (apply_composition sample_externals sample_heap occupied_app quiet_composition))) \<noteq> None"
    by code_simp
  ultimately show ?thesis by blast
qed

end
