(* ===== verification/Rtc_Declarations.thy ===== *)
theory Rtc_Declarations
  imports Error_Model
begin

text \<open>
  WebRTC declarations (\<open>fastapi_canon/integrations/webrtc\<close>): the error categories and their
  close codes (\<open>errors.py\<close>), media policies, data channels, limits, sessions and declarations
  (\<open>declarations.py\<close>), the inspection of session descriptions (\<open>sdp.py\<close>) and the media check
  of \<open>runtime.py\<close>. A description is ASCII text. Message models are classes that pydantic
  validates; only which format they select matters here.
\<close>

section \<open>Error categories (errors.py)\<close>

datatype error_code =
    Closed | Shutdown | Protocol_error | Unsupported_protocol | Session_limit | Negotiation_failed
  | Negotiation_timeout | Media_timeout | Media_rejected | Transport_lost | Signaling_lost
  | Engine_failure | Handler_failure | Queue_exhausted | Slow_consumer | Message_too_large
  | Invalid_message | Channel_rejected | Channel_closed

definition code_value :: "error_code \<Rightarrow> string" where
  "code_value c = (case c of
      Closed \<Rightarrow> ''closed'' | Shutdown \<Rightarrow> ''shutdown'' | Protocol_error \<Rightarrow> ''protocol_error''
    | Unsupported_protocol \<Rightarrow> ''unsupported_protocol'' | Session_limit \<Rightarrow> ''session_limit''
    | Negotiation_failed \<Rightarrow> ''negotiation_failed'' | Negotiation_timeout \<Rightarrow> ''negotiation_timeout''
    | Media_timeout \<Rightarrow> ''media_timeout'' | Media_rejected \<Rightarrow> ''media_rejected'' | Transport_lost \<Rightarrow> ''transport_lost''
    | Signaling_lost \<Rightarrow> ''signaling_lost'' | Engine_failure \<Rightarrow> ''engine_failure'' | Handler_failure \<Rightarrow> ''handler_failure''
    | Queue_exhausted \<Rightarrow> ''queue_exhausted'' | Slow_consumer \<Rightarrow> ''slow_consumer'' | Message_too_large \<Rightarrow> ''message_too_large''
    | Invalid_message \<Rightarrow> ''invalid_message'' | Channel_rejected \<Rightarrow> ''channel_rejected'' | Channel_closed \<Rightarrow> ''channel_closed'')"

definition close_codes :: "(error_code \<times> int) list" where
  "close_codes = [(Closed, 1000), (Shutdown, 1001), (Unsupported_protocol, 1002), (Protocol_error, 1008),
     (Media_rejected, 1008), (Channel_rejected, 1008), (Message_too_large, 1009), (Engine_failure, 1011),
     (Handler_failure, 1011), (Session_limit, 1013)]"

definition close_code :: "error_code \<Rightarrow> int" where
  "close_code c = (case dict_get close_codes c of Some n \<Rightarrow> n | None \<Rightarrow> 4000)"

definition default_message :: "error_code \<Rightarrow> string" where
  "default_message c = (case c of
      Closed \<Rightarrow> ''The session was closed.'' | Shutdown \<Rightarrow> ''The server is shutting down.''
    | Protocol_error \<Rightarrow> ''The signaling message was invalid.''
    | Unsupported_protocol \<Rightarrow> ''The signaling protocol version is unsupported.''
    | Session_limit \<Rightarrow> ''Too many concurrent sessions.'' | Negotiation_failed \<Rightarrow> ''WebRTC negotiation failed.''
    | Negotiation_timeout \<Rightarrow> ''WebRTC negotiation timed out.'' | Media_timeout \<Rightarrow> ''Expected media did not arrive in time.''
    | Media_rejected \<Rightarrow> ''The media does not match the session policy.'' | Transport_lost \<Rightarrow> ''The WebRTC transport was lost.''
    | Signaling_lost \<Rightarrow> ''The signaling connection was lost.'' | Engine_failure \<Rightarrow> ''The WebRTC engine failed.''
    | Handler_failure \<Rightarrow> ''The session handler failed.'' | Queue_exhausted \<Rightarrow> ''A bounded session queue overflowed.''
    | Slow_consumer \<Rightarrow> ''The remote peer did not consume messages in time.''
    | Message_too_large \<Rightarrow> ''The message exceeds the size limit.'' | Invalid_message \<Rightarrow> ''The message is invalid.''
    | Channel_rejected \<Rightarrow> ''The data channel is not declared by the session.''
    | Channel_closed \<Rightarrow> ''The data channel is not open.'')"

datatype rtc_error = Rtc_error error_code string | Session_closed error_code

definition new_rtc_error :: "error_code \<Rightarrow> string option \<Rightarrow> rtc_error" where
  \<comment> \<open>\<open>message or default_message(code)\<close>\<close>
  "new_rtc_error c m = Rtc_error c (case m of Some s \<Rightarrow> if s = [] then default_message c else s | None \<Rightarrow> default_message c)"

abbreviation rtc_fail :: "error_code \<Rightarrow> (rtc_error, 'a) result" where
  "rtc_fail c \<equiv> Inl (new_rtc_error c None)"

definition error_code_of :: "rtc_error \<Rightarrow> error_code" where
  "error_code_of e = (case e of Rtc_error c _ \<Rightarrow> c | Session_closed c \<Rightarrow> c)"

section \<open>Media policy (declarations.py)\<close>

datatype direction = Dir_send | Dir_receive | Dir_both

definition sends :: "direction \<Rightarrow> bool" where "sends d \<longleftrightarrow> d \<noteq> Dir_receive"
definition receives :: "direction \<Rightarrow> bool" where "receives d \<longleftrightarrow> d \<noteq> Dir_send"

datatype role = Answerer | Offerer

record media_policy =
  mp_audio :: "direction option"
  mp_video :: "direction option"
  mp_max_tracks :: int

definition media_policy_ok :: "media_policy \<Rightarrow> (string, unit) result" where
  "media_policy_ok m = ensure (\<not> mp_max_tracks m < 0) ''max_incoming_tracks cannot be negative''"

definition media_direction :: "media_policy \<Rightarrow> string \<Rightarrow> direction option" where
  "media_direction m kind =
     (if kind = ''audio'' then mp_audio m else if kind = ''video'' then mp_video m else None)"

section \<open>Data channels\<close>

datatype model = No_model | Str_model | Bytes_model | Never_model | Json_model nat

datatype msg_format = Raw | Text | Binary | Json | No_messages

definition format_of :: "model \<Rightarrow> msg_format" where
  "format_of m = (case m of
     Never_model \<Rightarrow> No_messages | No_model \<Rightarrow> Raw | Str_model \<Rightarrow> Text | Bytes_model \<Rightarrow> Binary | Json_model _ \<Rightarrow> Json)"

record channel_spec =
  cs_name :: string
  cs_receive :: model
  cs_send :: model
  cs_ordered :: bool
  cs_retransmits :: "pyval option"
  cs_life_time :: "pyval option"
  cs_max_bytes :: "int option"
  cs_negotiated :: bool
  cs_id :: "int option"

definition receive_format :: "channel_spec \<Rightarrow> msg_format" where "receive_format s = format_of (cs_receive s)"
definition send_format :: "channel_spec \<Rightarrow> msg_format" where "send_format s = format_of (cs_send s)"

definition is_channel_name :: "string \<Rightarrow> bool" where
  "is_channel_name s = (case s of
      [] \<Rightarrow> False
    | c # cs \<Rightarrow> (is_alpha c \<or> c = CHR ''_'') \<and> length cs \<le> 62 \<and> list_all (\<lambda>x. is_alpha x \<or> is_digit x \<or> x = CHR ''_'') cs)"

definition reliability_ok :: "pyval option \<Rightarrow> bool" where
  \<comment> \<open>\<open>type(value) is int\<close>, so a bool is refused\<close>
  "reliability_ok v = (case v of None \<Rightarrow> True | Some (PInt n) \<Rightarrow> 0 \<le> n \<and> n \<le> 65535 | _ \<Rightarrow> False)"

definition validate_channel :: "channel_spec \<Rightarrow> (string, unit) result" where
  "validate_channel s =
     rbind (ensure (is_channel_name (cs_name s)) ''Data channel name must be an identifier of at most 63 characters'') (\<lambda>_.
     rbind (ensure (\<not> (receive_format s = No_messages \<and> send_format s = No_messages)) ''Data channel neither receives nor sends'') (\<lambda>_.
     rbind (ensure (\<not> (cs_retransmits s \<noteq> None \<and> cs_life_time s \<noteq> None))
              ''max_retransmits and max_packet_life_time_ms are mutually exclusive'') (\<lambda>_.
     rbind (ensure (reliability_ok (cs_retransmits s)) ''max_retransmits must be an integer between 0 and 65535'') (\<lambda>_.
     rbind (ensure (reliability_ok (cs_life_time s)) ''max_packet_life_time_ms must be an integer between 0 and 65535'') (\<lambda>_.
     rbind (ensure (case cs_max_bytes s of None \<Rightarrow> True | Some n \<Rightarrow> \<not> n \<le> 0) ''max_message_bytes must be positive'') (\<lambda>_.
       ensure (case cs_id s of None \<Rightarrow> True | Some n \<Rightarrow> 0 \<le> n \<and> n \<le> 65534) ''Data channel IDs must be between 0 and 65534''))))))"

section \<open>Limits\<close>

definition not_positive :: "pyfloat \<Rightarrow> bool" where
  \<comment> \<open>\<open>value <= 0\<close>; a comparison with NaN is false\<close>
  "not_positive f = (case f of Fin q \<Rightarrow> q \<le> 0 | NegInf \<Rightarrow> True | Inf \<Rightarrow> False | NaN \<Rightarrow> False)"

definition negative :: "pyfloat \<Rightarrow> bool" where
  "negative f = (case f of Fin q \<Rightarrow> q < 0 | NegInf \<Rightarrow> True | Inf \<Rightarrow> False | NaN \<Rightarrow> False)"

record session_limits =
  sl_negotiation :: pyfloat
  sl_media :: "pyfloat option"
  sl_signaling_grace :: pyfloat
  sl_transport_grace :: pyfloat
  sl_shutdown :: pyfloat
  sl_pending_candidates :: int
  sl_signal_bytes :: int
  sl_outbound :: int
  sl_message_bytes :: int
  sl_queued :: int
  sl_buffer_high :: int
  sl_send_timeout :: pyfloat

definition default_limits :: session_limits where
  "default_limits = \<lparr>sl_negotiation = Fin 15, sl_media = None, sl_signaling_grace = Fin 0, sl_transport_grace = Fin 5,
     sl_shutdown = Fin 5, sl_pending_candidates = 128, sl_signal_bytes = 256 * 1024, sl_outbound = 256,
     sl_message_bytes = 64 * 1024, sl_queued = 64, sl_buffer_high = 1024 * 1024, sl_send_timeout = Fin 10\<rparr>"

definition validate_limits :: "session_limits \<Rightarrow> (string, unit) result" where
  "validate_limits l =
     rbind (ensure (\<not> not_positive (sl_negotiation l) \<and> \<not> not_positive (sl_shutdown l) \<and> \<not> sl_signal_bytes l \<le> 0 \<and>
              \<not> sl_outbound l \<le> 0 \<and> \<not> sl_message_bytes l \<le> 0 \<and> \<not> sl_queued l \<le> 0 \<and> \<not> sl_buffer_high l \<le> 0 \<and>
              \<not> not_positive (sl_send_timeout l)) ''must be positive'') (\<lambda>_.
     rbind (ensure (\<not> negative (sl_signaling_grace l) \<and> \<not> negative (sl_transport_grace l) \<and> \<not> sl_pending_candidates l < 0)
              ''cannot be negative'') (\<lambda>_.
       ensure (case sl_media l of None \<Rightarrow> True | Some f \<Rightarrow> \<not> not_positive f) ''media_timeout_seconds must be positive''))"

section \<open>Declarations and sessions\<close>

record session_decl =
  dl_name :: string
  dl_path :: string
  dl_role :: role
  dl_media :: media_policy
  dl_channels :: "channel_spec list"
  dl_limits :: session_limits
  dl_max_sessions :: "int option"
  dl_admission :: "nat item option"

definition channel_ids :: "session_decl \<Rightarrow> (string \<times> int option) list" where
  \<comment> \<open>a dict: a later channel of the same name replaces the id of an earlier one\<close>
  "channel_ids d =
     fold (\<lambda>(index, s). dict_set (cs_name s)
             (if cs_negotiated s then Some (case cs_id s of None \<Rightarrow> int index | Some i \<Rightarrow> i) else None))
       (enumerate 0 (dl_channels d)) []"

definition used_ids :: "session_decl \<Rightarrow> int list" where
  "used_ids d = List.map_filter snd (channel_ids d)"

definition validate_declaration :: "session_decl \<Rightarrow> (string, unit) result" where
  "validate_declaration d =
     rbind (ensure (dl_admission d \<noteq> Some Foreign) ''admission_errors must be a contract provider'') (\<lambda>_.
     rbind (ensure (is_channel_name (dl_name d)) ''Session name must be an identifier of at most 63 characters'') (\<lambda>_.
     rbind (ensure (case dl_max_sessions d of None \<Rightarrow> True | Some n \<Rightarrow> \<not> n \<le> 0) ''max_sessions must be positive'') (\<lambda>_.
     rbind (ensure (distinct (map cs_name (dl_channels d))) ''Session declares duplicate channels'') (\<lambda>_.
       ensure (distinct (used_ids d)) ''Session declares duplicate channel IDs''))))"

definition find_channel :: "session_decl \<Rightarrow> string \<Rightarrow> (string, channel_spec) result" where
  "find_channel d n = (case List.find (\<lambda>s. cs_name s = n) (dl_channels d) of Some s \<Rightarrow> Inr s | None \<Rightarrow> Inl n)"

definition max_message_bytes :: "session_decl \<Rightarrow> channel_spec \<Rightarrow> int" where
  "max_message_bytes d s = (case cs_max_bytes s of Some n \<Rightarrow> n | None \<Rightarrow> sl_message_bytes (dl_limits d))"

definition server_creates :: "session_decl \<Rightarrow> channel_spec \<Rightarrow> bool" where
  "server_creates d s \<longleftrightarrow> cs_negotiated s \<or> dl_role d = Offerer"

text \<open>The keys of \<open>on_message\<close>: names, specs or something else; handlers are identified by numbers.\<close>

datatype handler_key = Key_name string | Key_spec channel_spec | Key_other

definition handler_name :: "handler_key \<Rightarrow> (string, string) result" where
  "handler_name k = (case k of Key_spec s \<Rightarrow> Inr (cs_name s) | Key_name n \<Rightarrow> Inr n
     | Key_other \<Rightarrow> Inl ''on_message keys must be channel names or DataChannelSpecs'')"

definition message_handlers :: "(handler_key \<times> nat) list \<Rightarrow> (string, (string \<times> nat) list) result" where
  "message_handlers on_message =
     rfold (\<lambda>(k, h) d. rbind (handler_name k) (\<lambda>n.
         if dict_get d n \<noteq> None then Inl ''Channel has more than one message handler'' else Inr (dict_set n h d)))
       on_message []"

definition receiving_channels :: "session_decl \<Rightarrow> (string \<times> channel_spec) list" where
  "receiving_channels d =
     fold (\<lambda>s. dict_set (cs_name s) s) (filter (\<lambda>s. receive_format s \<noteq> No_messages) (dl_channels d)) []"

definition invalid_handlers :: "session_decl \<Rightarrow> (handler_key \<times> nat) list \<Rightarrow> (string \<times> nat) list \<Rightarrow> string list" where
  \<comment> \<open>handler names that name no receiving channel, or a different spec of that name\<close>
  "invalid_handlers d on_message handlers =
     filter (\<lambda>n. dict_get (receiving_channels d) n = None) (map fst handlers) @
     List.map_filter (\<lambda>(k, _). case k of
         Key_spec s \<Rightarrow> if dict_get (receiving_channels d) (cs_name s) \<noteq> Some s then Some (cs_name s) else None
       | _ \<Rightarrow> None) on_message"

section \<open>Browser origins (router.py)\<close>

fun partition_at :: "string \<Rightarrow> string \<Rightarrow> (string \<times> string) option" where
  \<comment> \<open>\<open>value.partition(separator)\<close>, None when the separator does not occur\<close>
  "partition_at sep [] = (if sep = [] then Some ([], []) else None)"
| "partition_at sep (c # s) =
     (if starts_with sep (c # s) then Some ([], drop (length sep) (c # s))
      else map_option (\<lambda>(a, b). (c # a, b)) (partition_at sep s))"

definition strip_space :: "string \<Rightarrow> string" where
  "strip_space s = rev (dropWhile is_space (rev (dropWhile is_space s)))"

definition normal_origin :: "string \<Rightarrow> string" where
  "normal_origin s = rstrip_char CHR ''/'' (str_lower (strip_space s))"

definition parse_origin :: "string \<Rightarrow> (string, string) result" where
  "parse_origin s =
     (let v = normal_origin s
      in case partition_at ''://'' v of
           None \<Rightarrow> Inl ''Invalid origin''
         | Some (scheme, host) \<Rightarrow>
             if scheme = [] \<or> host = [] \<or> CHR ''/'' \<in> set host then Inl ''Invalid origin'' else Inr v)"

definition parse_origins :: "pyval option \<Rightarrow> (string, string list option) result" where
  \<comment> \<open>None, a str (refused) or a sequence of strings\<close>
  "parse_origins v =
     (case v of
        None \<Rightarrow> Inr None
      | Some (PList os) \<Rightarrow>
          rbind (rmap (\<lambda>p. case p of PStr s \<Rightarrow> parse_origin s | _ \<Rightarrow> Inl ''no string'') os) (\<lambda>xs. Inr (Some (fromkeys xs)))
      | Some _ \<Rightarrow> Inl ''allowed_origins must be a sequence of origins, not a str'')"

definition origin_allowed :: "string list option \<Rightarrow> string option \<Rightarrow> bool" where
  \<comment> \<open>\<open>_check_origin\<close> refuses with 403 exactly when this is false\<close>
  "origin_allowed allowed origin =
     (case (allowed, origin) of
        (Some os, Some o1) \<Rightarrow> rstrip_char CHR ''/'' (str_lower o1) \<in> set os
      | _ \<Rightarrow> True)"

section \<open>Session descriptions (sdp.py)\<close>

datatype transceiver = Sendrecv | Sendonly | Recvonly | Inactive

definition parse_transceiver :: "string \<Rightarrow> transceiver option" where
  "parse_transceiver s =
     (if s = ''sendrecv'' then Some Sendrecv else if s = ''sendonly'' then Some Sendonly
      else if s = ''recvonly'' then Some Recvonly else if s = ''inactive'' then Some Inactive else None)"

record media_section =
  ms_kind :: string
  ms_mid :: "string option"
  ms_direction :: transceiver
  ms_port :: nat
  ms_ufrag :: "string option"

definition rejected :: "media_section \<Rightarrow> bool" where "rejected s \<longleftrightarrow> ms_port s = 0"

definition author_sends :: "media_section \<Rightarrow> bool" where
  "author_sends s \<longleftrightarrow> \<not> rejected s \<and> ms_direction s \<in> {Sendrecv, Sendonly}"

definition author_receives :: "media_section \<Rightarrow> bool" where
  "author_receives s \<longleftrightarrow> \<not> rejected s \<and> ms_direction s \<in> {Sendrecv, Recvonly}"

definition ufrags :: "media_section list \<Rightarrow> string list" where
  "ufrags ss = fromkeys (List.map_filter ms_ufrag ss)"

definition sending :: "media_section list \<Rightarrow> string \<Rightarrow> nat" where
  "sending ss kind = length (filter (\<lambda>s. ms_kind s = kind \<and> author_sends s) ss)"

definition is_break :: "char \<Rightarrow> bool" where
  "is_break c = (let n = ord_of c in (10 \<le> n \<and> n \<le> 13) \<or> (28 \<le> n \<and> n \<le> 30))"

fun split_lines :: "string \<Rightarrow> string \<Rightarrow> string list" where
  \<comment> \<open>\<open>splitlines\<close> with the current line reversed; CR LF is one break\<close>
  "split_lines cur [] = (if cur = [] then [] else [rev cur])"
| "split_lines cur (c # s) =
     (if is_break c
      then rev cur # (case s of d # s' \<Rightarrow> if c = CHR 0x0D \<and> d = CHR 0x0A then split_lines [] s' else split_lines [] s
                      | [] \<Rightarrow> [])
      else split_lines (c # cur) s)"

fun split_space :: "string \<Rightarrow> string \<Rightarrow> string list" where
  \<comment> \<open>\<open>split()\<close> with the current word reversed\<close>
  "split_space cur [] = (if cur = [] then [] else [rev cur])"
| "split_space cur (c # s) =
     (if is_space c then (if cur = [] then split_space [] s else rev cur # split_space [] s)
      else split_space (c # cur) s)"

record raw_section =
  rw_kind :: string
  rw_port :: nat
  rw_mid :: "string option"
  rw_direction :: "transceiver option"
  rw_ufrag :: "string option"

record sdp_state =
  sd_direction :: transceiver
  sd_ufrag :: "string option"
  sd_raw :: "raw_section list"

definition update_last :: "(raw_section \<Rightarrow> raw_section) \<Rightarrow> sdp_state \<Rightarrow> sdp_state" where
  "update_last f s = s\<lparr>sd_raw := butlast (sd_raw s) @ [f (last (sd_raw s))]\<rparr>"

definition media_line :: "string \<Rightarrow> raw_section" where
  "media_line rest =
     (let parts = split_space [] rest
      in \<lparr>rw_kind = (case parts of p # _ \<Rightarrow> p | [] \<Rightarrow> []),
          rw_port = (case parts of _ # p # _ \<Rightarrow> (if p \<noteq> [] \<and> list_all is_digit p then nat_of_str p else 0) | _ \<Rightarrow> 0),
          rw_mid = None, rw_direction = None, rw_ufrag = None\<rparr>)"

definition attribute_line :: "string \<Rightarrow> sdp_state \<Rightarrow> sdp_state" where
  "attribute_line rest s =
     (let (name, val) = (case partition_at '':'' rest of Some p \<Rightarrow> p | None \<Rightarrow> (rest, []))
      in case parse_transceiver name of
           Some t \<Rightarrow> if sd_raw s = [] then s\<lparr>sd_direction := t\<rparr> else update_last (\<lambda>r. r\<lparr>rw_direction := Some t\<rparr>) s
         | None \<Rightarrow>
             if name = ''ice-ufrag''
             then (if sd_raw s = [] then s\<lparr>sd_ufrag := Some val\<rparr> else update_last (\<lambda>r. r\<lparr>rw_ufrag := Some val\<rparr>) s)
             else if name = ''mid'' \<and> sd_raw s \<noteq> [] then update_last (\<lambda>r. r\<lparr>rw_mid := Some val\<rparr>) s
             else s)"

definition sdp_line :: "string \<Rightarrow> sdp_state \<Rightarrow> sdp_state" where
  "sdp_line line0 s =
     (let line = strip_space line0
      in if starts_with ''m='' line then s\<lparr>sd_raw := sd_raw s @ [media_line (drop 2 line)]\<rparr>
         else if \<not> starts_with ''a='' line then s
         else attribute_line (drop 2 line) s)"

definition finish_section :: "sdp_state \<Rightarrow> raw_section \<Rightarrow> media_section" where
  "finish_section s r =
     \<lparr>ms_kind = rw_kind r, ms_mid = rw_mid r,
      ms_direction = (case rw_direction r of Some t \<Rightarrow> t | None \<Rightarrow> sd_direction s), ms_port = rw_port r,
      ms_ufrag = (case rw_ufrag r of None \<Rightarrow> sd_ufrag s | u \<Rightarrow> u)\<rparr>"

definition summarize :: "string \<Rightarrow> media_section list" where
  "summarize sdp =
     (let s = fold sdp_line (split_lines [] sdp) \<lparr>sd_direction = Sendrecv, sd_ufrag = None, sd_raw = []\<rparr>
      in map (finish_section s) (sd_raw s))"

section \<open>The media check (runtime.py)\<close>

definition check_section :: "media_policy \<Rightarrow> media_section \<Rightarrow> (rtc_error, unit) result" where
  "check_section m s =
     (if ms_kind s = ''application'' \<or> rejected s then Inr ()
      else case media_direction m (ms_kind s) of
        None \<Rightarrow>
          if ms_direction s = Inactive then Inr ()
          else Inl (new_rtc_error Media_rejected (Some (''The session does not accept '' @ ms_kind s @ '' media.'')))
      | Some d \<Rightarrow>
          if author_sends s \<and> \<not> receives d
          then Inl (new_rtc_error Media_rejected (Some (''The session does not receive '' @ ms_kind s @ '' media.'')))
          else Inr ())"

definition check_media :: "media_policy \<Rightarrow> media_section list \<Rightarrow> (rtc_error, unit) result" where
  "check_media m ss =
     rbind (rmap (check_section m) ss) (\<lambda>_.
     rbind (rmap (\<lambda>kind. if int (sending ss kind) > mp_max_tracks m
              then Inl (new_rtc_error Media_rejected (Some (''Too many incoming '' @ kind @ '' tracks.'')))
              else Inr ()) [''audio'', ''video'']) (\<lambda>_. Inr ()))"

section \<open>What the checks decide\<close>

lemma rmap_unit_iff: "succeeds (rmap f xs) \<longleftrightarrow> (\<forall>x\<in>set xs. succeeds (f x))"
  by (induction xs) (auto simp: succeeds_iff)

definition section_allowed :: "media_policy \<Rightarrow> media_section \<Rightarrow> bool" where
  \<comment> \<open>a section the policy admits: nothing flows, or the kind is declared and flows the right way\<close>
  "section_allowed m s \<longleftrightarrow> ms_kind s = ''application'' \<or> ms_port s = 0 \<or>
     (case media_direction m (ms_kind s) of
        None \<Rightarrow> ms_direction s = Inactive
      | Some d \<Rightarrow> ms_direction s \<in> {Sendrecv, Sendonly} \<longrightarrow> d \<noteq> Dir_send)"

lemma check_section_iff: "succeeds (check_section m s) \<longleftrightarrow> section_allowed m s"
  by (auto simp: check_section_def section_allowed_def rejected_def author_sends_def receives_def split: option.split)

text \<open>
  The media check passes exactly the descriptions in which every section is an
  application or rejected one, inactive media of an undeclared kind, or media of a declared kind
  that the remote peer sends only where the policy receives, with at most the allowed number of
  sending sections of each kind.
\<close>

theorem media_check_exact:
  "check_media m ss = Inr () \<longleftrightarrow>
     list_all (section_allowed m) ss \<and>
     int (sending ss ''audio'') \<le> mp_max_tracks m \<and> int (sending ss ''video'') \<le> mp_max_tracks m"
proof -
  have "check_media m ss = Inr () \<longleftrightarrow> succeeds (check_media m ss)" by (auto simp: succeeds_iff)
  moreover have "succeeds (check_media m ss) \<longleftrightarrow> succeeds (rmap (check_section m) ss) \<and>
      int (sending ss ''audio'') \<le> mp_max_tracks m \<and> int (sending ss ''video'') \<le> mp_max_tracks m"
    by (auto simp: check_media_def succeeds_iff)
  ultimately show ?thesis by (simp add: rmap_unit_iff check_section_iff list_all_iff)
qed

lemma channel_ids_keys: "distinct (map cs_name cs) \<Longrightarrow> set (map cs_name cs) \<inter> fst ` set d = {} \<Longrightarrow>
   fold (\<lambda>(index, s). dict_set (cs_name s) (g index s)) (enumerate n cs) d =
     d @ map (\<lambda>(index, s). (cs_name s, g index s)) (enumerate n cs)"
proof (induction cs arbitrary: n d)
  case (Cons c cs)
  then have "dict_set (cs_name c) (g n c) d = d @ [(cs_name c, g n c)]" by (intro dict_set_fresh) auto
  moreover have "set (map cs_name cs) \<inter> fst ` set (d @ [(cs_name c, g n c)]) = {}" using Cons.prems by auto
  ultimately show ?case using Cons.IH [of "d @ [(cs_name c, g n c)]" "Suc n"] Cons.prems by simp
qed simp

lemma validate_channel_id: "validate_channel s = Inr u \<Longrightarrow> cs_id s = Some i \<Longrightarrow> 0 \<le> i \<and> i \<le> 65534"
  by (auto simp: validate_channel_def)

text \<open>
  In a valid declaration of valid channels (at most 65535 of them) every channel has an
  entry, the pre-negotiated ones have pairwise different stream ids in the range SCTP allows, the
  explicit id where one is given, and the in-band ones have none.
\<close>

theorem channel_ids_sound:
  assumes "validate_declaration d = Inr u" and "\<forall>s\<in>set (dl_channels d). succeeds (validate_channel s)"
    and "length (dl_channels d) \<le> 65535"
  shows "map fst (channel_ids d) = map cs_name (dl_channels d) \<and>
    (\<forall>s\<in>set (dl_channels d). \<exists>i. dict_get (channel_ids d) (cs_name s) = Some i \<and>
       (case i of None \<Rightarrow> \<not> cs_negotiated s
        | Some n \<Rightarrow> cs_negotiated s \<and> 0 \<le> n \<and> n \<le> 65534 \<and> (\<forall>x. cs_id s = Some x \<longrightarrow> n = x))) \<and>
    distinct (used_ids d)"
proof -
  let ?g = "\<lambda>index s. if cs_negotiated s then Some (case cs_id s of None \<Rightarrow> int index | Some i \<Rightarrow> i) else None"
  from assms(1) have names: "distinct (map cs_name (dl_channels d))" and ids: "distinct (used_ids d)"
    by (simp_all add: validate_declaration_def)
  have eq: "channel_ids d = map (\<lambda>(index, s). (cs_name s, ?g index s)) (enumerate 0 (dl_channels d))"
    unfolding channel_ids_def using channel_ids_keys [OF names, of "[]" ?g 0] by simp
  have fsts: "map fst (channel_ids d) = map cs_name (dl_channels d)"
    by (rule nth_equalityI) (auto simp: eq nth_enumerate_eq)
  have "\<exists>i. dict_get (channel_ids d) (cs_name s) = Some i \<and>
       (case i of None \<Rightarrow> \<not> cs_negotiated s
        | Some n \<Rightarrow> cs_negotiated s \<and> 0 \<le> n \<and> n \<le> 65534 \<and> (\<forall>x. cs_id s = Some x \<longrightarrow> n = x))"
    if s: "s \<in> set (dl_channels d)" for s
  proof -
    from s obtain k where k: "k < length (dl_channels d)" "dl_channels d ! k = s" by (auto simp: in_set_conv_nth)
    then have "(k, s) \<in> set (enumerate 0 (dl_channels d))" by (simp add: in_set_enumerate_eq)
    then have "(cs_name s, ?g k s) \<in> set (channel_ids d)" by (force simp: eq)
    then have get: "dict_get (channel_ids d) (cs_name s) = Some (?g k s)" using names by (simp add: fsts)
    have "0 \<le> i \<and> i \<le> 65534" if "cs_id s = Some i" for i
      using assms(2) s that validate_channel_id by (auto simp: succeeds_iff)
    with k(1) assms(3) get show ?thesis by (cases "cs_id s") auto
  qed
  with fsts ids show ?thesis by blast
qed

theorem channel_ids_sound_witness:
  "\<exists>d. validate_declaration d = Inr () \<and> map cs_name (dl_channels d) = [''ctrl'', ''data''] \<and>
    map fst (channel_ids d) = [''ctrl'', ''data''] \<and> distinct (used_ids d)"
proof -
  let ?c = "\<lambda>n i. \<lparr>cs_name = n, cs_receive = Str_model, cs_send = Str_model, cs_ordered = True, cs_retransmits = None,
    cs_life_time = None, cs_max_bytes = None, cs_negotiated = True, cs_id = i\<rparr>"
  let ?d = "\<lparr>dl_name = ''chat'', dl_path = ''/rtc'', dl_role = Answerer,
    dl_media = \<lparr>mp_audio = None, mp_video = None, mp_max_tracks = 1\<rparr>, dl_channels = [?c ''ctrl'' (Some 7), ?c ''data'' None],
    dl_limits = default_limits, dl_max_sessions = None, dl_admission = None\<rparr>"
  have v: "validate_declaration ?d = Inr ()" by code_simp
  have c: "\<forall>s\<in>set (dl_channels ?d). succeeds (validate_channel s)" by code_simp
  from channel_ids_sound [OF v c] v show ?thesis by (intro exI [of _ ?d]) simp
qed

lemma dropWhile_rev_id: "s \<noteq> [] \<Longrightarrow> \<not> P (last s) \<Longrightarrow> rev (dropWhile P (rev s)) = s"
  by (cases s rule: rev_cases) auto

lemma strip_space_id: "s \<noteq> [] \<Longrightarrow> \<not> is_space (hd s) \<Longrightarrow> \<not> is_space (last s) \<Longrightarrow> strip_space s = s"
proof -
  assume s: "s \<noteq> []" "\<not> is_space (hd s)" "\<not> is_space (last s)"
  then have "dropWhile is_space s = s" by (cases s) auto
  with s show ?thesis by (simp add: strip_space_def dropWhile_rev_id)
qed

lemma strip_space_Nil [simp]: "strip_space [] = []"
  by (simp add: strip_space_def)

text \<open>
  The configured origins and the check agree: a handshake whose Origin header is a
  configured origin, without surrounding whitespace and in whatever case and with or without a
  trailing slash, is accepted; and an accepted origin is the normal form of a configured one.
\<close>

theorem origins_accepted:
  assumes "parse_origins (Some (PList (map PStr os))) = Inr (Some allowed)"
  shows "(\<forall>o1\<in>set os. \<not> is_space (hd o1) \<and> \<not> is_space (last o1) \<longrightarrow> origin_allowed (Some allowed) (Some o1)) \<and>
    (\<forall>o1. origin_allowed (Some allowed) (Some o1) \<longrightarrow>
       (\<exists>o2\<in>set os. rstrip_char CHR ''/'' (str_lower o1) = normal_origin o2))"
proof -
  from assms obtain xs where xs: "rmap (\<lambda>p. case p of PStr s \<Rightarrow> parse_origin s | _ \<Rightarrow> Inl ''no string'') (map PStr os) = Inr xs"
    and allowed: "allowed = fromkeys xs" by (auto simp: parse_origins_def)
  have "set xs = normal_origin ` set os"
  proof -
    have "list_all2 (\<lambda>p x. (case p of PStr s \<Rightarrow> parse_origin s | _ \<Rightarrow> Inl ''no string'') = Inr x) (map PStr os) xs"
      using xs by (simp add: rmap_Inr_iff)
    then have "list_all2 (\<lambda>s x. parse_origin s = Inr x) os xs" by (simp add: list_all2_map1)
    then have "list_all2 (\<lambda>s x. x = normal_origin s) os xs"
      by (rule list_all2_mono) (auto simp: parse_origin_def Let_def split: option.splits if_splits)
    then have "xs = map normal_origin os" by (induction rule: list_all2_induct) auto
    then show ?thesis by simp
  qed
  moreover have "normal_origin o1 = rstrip_char CHR ''/'' (str_lower o1)" if "\<not> is_space (hd o1)" "\<not> is_space (last o1)" for o1
    using that by (cases "o1 = []") (simp_all add: normal_origin_def strip_space_id)
  ultimately show ?thesis
    by (auto simp: origin_allowed_def allowed) (metis image_eqI)
qed

theorem origins_accepted_witness:
  "\<exists>allowed. parse_origins (Some (PList [PStr ''https://App.example/''])) = Inr (Some allowed) \<and>
    origin_allowed (Some allowed) (Some ''https://App.example/'')"
proof -
  have p: "parse_origins (Some (PList (map PStr [''https://App.example/'']))) = Inr (Some [''https://app.example''])"
    by code_simp
  have s: "\<not> is_space CHR ''h''" "\<not> is_space CHR ''/''" by code_simp+
  from origins_accepted [OF p] p s show ?thesis by (intro exI [of _ "[''https://app.example'']"]) simp
qed

section \<open>Descriptions read back\<close>

text \<open>A reference printer of the lines the inspection reads, as engines write them.\<close>

definition transceiver_name :: "transceiver \<Rightarrow> string" where
  "transceiver_name t = (case t of
     Sendrecv \<Rightarrow> ''sendrecv'' | Sendonly \<Rightarrow> ''sendonly'' | Recvonly \<Rightarrow> ''recvonly'' | Inactive \<Rightarrow> ''inactive'')"

definition section_lines :: "media_section \<Rightarrow> string list" where
  "section_lines s =
     [''m='' @ ms_kind s @ '' '' @ str_of_nat (ms_port s)] @
     (case ms_mid s of None \<Rightarrow> [] | Some m \<Rightarrow> [''a=mid:'' @ m]) @
     [''a='' @ transceiver_name (ms_direction s)] @
     (case ms_ufrag s of None \<Rightarrow> [] | Some u \<Rightarrow> [''a=ice-ufrag:'' @ u])"

definition print_sdp :: "media_section list \<Rightarrow> string" where
  "print_sdp ss = concat (map (\<lambda>l. l @ [CHR 0x0D, CHR 0x0A]) (concat (map section_lines ss)))"

definition plain_text :: "string \<Rightarrow> bool" where
  \<comment> \<open>not empty, no line break, no trailing space\<close>
  "plain_text s \<longleftrightarrow> s \<noteq> [] \<and> \<not> is_space (last s) \<and> (\<forall>c\<in>set s. \<not> is_break c)"

definition printable_section :: "media_section \<Rightarrow> bool" where
  "printable_section s \<longleftrightarrow> ms_kind s \<noteq> [] \<and> (\<forall>c\<in>set (ms_kind s). \<not> is_space c) \<and>
     (\<forall>m\<in>set_option (ms_mid s) \<union> set_option (ms_ufrag s). plain_text m)"

lemma break_space: "is_break c \<Longrightarrow> is_space c"
  by (auto simp: is_break_def is_space_def Let_def)

lemma digit_no_space: "is_digit c \<Longrightarrow> \<not> is_space c"
  by (auto simp: is_digit_def is_space_def Let_def)

lemma split_lines_free: "\<forall>c\<in>set l. \<not> is_break c \<Longrightarrow> split_lines cur (l @ s) = split_lines (rev l @ cur) s"
  by (induction l arbitrary: cur) auto

lemma split_lines_crlf: "split_lines cur (CHR 0x0D # CHR 0x0A # s) = rev cur # split_lines [] s"
  by (simp add: is_break_def ord_of_def)

lemma split_printed:
  "\<forall>l\<in>set ls. \<forall>c\<in>set l. \<not> is_break c \<Longrightarrow> split_lines [] (concat (map (\<lambda>l. l @ [CHR 0x0D, CHR 0x0A]) ls)) = ls"
proof (induction ls)
  case (Cons l ls)
  then have "split_lines [] (l @ CHR 0x0D # CHR 0x0A # concat (map (\<lambda>l. l @ [CHR 0x0D, CHR 0x0A]) ls)) = l # ls"
    by (subst split_lines_free) (simp_all add: split_lines_crlf del: split_lines.simps)
  then show ?case by simp
qed simp

lemma split_space_free: "\<forall>c\<in>set l. \<not> is_space c \<Longrightarrow> split_space cur (l @ s) = split_space (rev l @ cur) s"
  by (induction l arbitrary: cur) auto

lemma strip_line: "l \<noteq> [] \<Longrightarrow> \<not> is_space c \<Longrightarrow> \<not> is_space (last l) \<Longrightarrow> strip_space (c # d # l) = c # d # l"
  by (rule strip_space_id) auto

lemma a_no_space: "\<not> is_space CHR ''m''" "\<not> is_space CHR ''a''"
  by (simp_all add: is_space_def ord_of_def)

lemma last_digits: "\<not> is_space (last (str_of_nat n))"
  using str_of_nat_digits [of n] digit_no_space by (auto simp: list_all_iff)

lemma split_media:
  assumes "k \<noteq> []" and "\<forall>c\<in>set k. \<not> is_space c"
  shows "split_space [] (k @ '' '' @ str_of_nat n) = [k, str_of_nat n]"
proof -
  have sp: "is_space CHR '' ''" by (simp add: is_space_def ord_of_def)
  have d: "\<forall>c\<in>set (str_of_nat n). \<not> is_space c" using str_of_nat_digits [of n] digit_no_space by (auto simp: list_all_iff)
  have "split_space [] (str_of_nat n) = [str_of_nat n]"
    using split_space_free [OF d, of "[]" "[]"] by simp
  then show ?thesis using assms sp by (simp add: split_space_free)
qed

lemma media_line_printed:
  assumes "k \<noteq> []" and "\<forall>c\<in>set k. \<not> is_space c"
  shows "media_line (k @ '' '' @ str_of_nat n) =
    \<lparr>rw_kind = k, rw_port = n, rw_mid = None, rw_direction = None, rw_ufrag = None\<rparr>"
  unfolding media_line_def split_media [OF assms] by (simp add: str_of_nat_digits)

lemma starts_lines [simp]:
  "starts_with ''m='' (CHR ''m'' # CHR ''='' # l)" "\<not> starts_with ''m='' (CHR ''a'' # CHR ''='' # l)"
  "starts_with ''a='' (CHR ''a'' # CHR ''='' # l)"
  by (simp_all add: starts_with_def)

lemma sdp_media_line:
  assumes "k \<noteq> []" and "\<forall>c\<in>set k. \<not> is_space c"
  shows "sdp_line (''m='' @ k @ '' '' @ str_of_nat n) s =
    s\<lparr>sd_raw := sd_raw s @ [\<lparr>rw_kind = k, rw_port = n, rw_mid = None, rw_direction = None, rw_ufrag = None\<rparr>]\<rparr>"
proof -
  have "strip_space (''m='' @ k @ '' '' @ str_of_nat n) = ''m='' @ k @ '' '' @ str_of_nat n"
    using a_no_space last_digits by (intro strip_space_id) simp_all
  then show ?thesis using media_line_printed [OF assms, of n] by (simp add: sdp_line_def Let_def)
qed

lemma sdp_attribute_line:
  assumes "l \<noteq> []" and "\<not> is_space (last l)"
  shows "sdp_line (''a='' @ l) s = attribute_line l s"
proof -
  have "strip_space (''a='' @ l) = ''a='' @ l" using assms a_no_space by (intro strip_space_id) simp_all
  then show ?thesis by (simp add: sdp_line_def Let_def)
qed

lemma partition_simps [simp]:
  "partition_at '':'' (''mid:'' @ m) = Some (''mid'', m)" "partition_at '':'' (''ice-ufrag:'' @ m) = Some (''ice-ufrag'', m)"
  by (simp_all add: starts_with_def)

lemma transceiver_partition: "partition_at '':'' (transceiver_name t) = None"
  by (cases t) (simp_all add: transceiver_name_def starts_with_def)

lemma parse_names [simp]: "parse_transceiver (transceiver_name t) = Some t"
  "parse_transceiver ''mid'' = None" "parse_transceiver ''ice-ufrag'' = None"
  by (cases t) (simp_all add: transceiver_name_def parse_transceiver_def)

lemma attribute_printed:
  assumes "sd_raw s \<noteq> []"
  shows "attribute_line (''mid:'' @ m) s = update_last (\<lambda>r. r\<lparr>rw_mid := Some m\<rparr>) s"
    and "attribute_line (''ice-ufrag:'' @ m) s = update_last (\<lambda>r. r\<lparr>rw_ufrag := Some m\<rparr>) s"
    and "attribute_line (transceiver_name t) s = update_last (\<lambda>r. r\<lparr>rw_direction := Some t\<rparr>) s"
  using assms unfolding attribute_line_def partition_simps transceiver_partition by simp_all

lemma transceiver_name_end: "transceiver_name t \<noteq> [] \<and> \<not> is_space (last (transceiver_name t)) \<and> (\<forall>c\<in>set (transceiver_name t). \<not> is_break c)"
  by (cases t) (simp_all add: transceiver_name_def is_space_def is_break_def ord_of_def)

lemma update_last_snoc [simp]: "update_last f (s\<lparr>sd_raw := rs @ [r]\<rparr>) = s\<lparr>sd_raw := rs @ [f r]\<rparr>"
  by (simp add: update_last_def)

lemma sdp_steps:
  "plain_text x \<Longrightarrow> sdp_line (''a=mid:'' @ x) (s\<lparr>sd_raw := rs @ [r]\<rparr>) = s\<lparr>sd_raw := rs @ [r\<lparr>rw_mid := Some x\<rparr>]\<rparr>"
  "plain_text x \<Longrightarrow> sdp_line (''a=ice-ufrag:'' @ x) (s\<lparr>sd_raw := rs @ [r]\<rparr>) = s\<lparr>sd_raw := rs @ [r\<lparr>rw_ufrag := Some x\<rparr>]\<rparr>"
  "sdp_line (''a='' @ transceiver_name t) (s\<lparr>sd_raw := rs @ [r]\<rparr>) = s\<lparr>sd_raw := rs @ [r\<lparr>rw_direction := Some t\<rparr>]\<rparr>"
proof -
  let ?z = "s\<lparr>sd_raw := rs @ [r]\<rparr>"
  show "sdp_line (''a=mid:'' @ x) ?z = s\<lparr>sd_raw := rs @ [r\<lparr>rw_mid := Some x\<rparr>]\<rparr>" if "plain_text x"
    using sdp_attribute_line [of "''mid:'' @ x" ?z] attribute_printed(1) [of ?z x] that by (simp add: plain_text_def)
  show "sdp_line (''a=ice-ufrag:'' @ x) ?z = s\<lparr>sd_raw := rs @ [r\<lparr>rw_ufrag := Some x\<rparr>]\<rparr>" if "plain_text x"
    using sdp_attribute_line [of "''ice-ufrag:'' @ x" ?z] attribute_printed(2) [of ?z x] that by (simp add: plain_text_def)
  show "sdp_line (''a='' @ transceiver_name t) ?z = s\<lparr>sd_raw := rs @ [r\<lparr>rw_direction := Some t\<rparr>]\<rparr>"
    using sdp_attribute_line [of "transceiver_name t" ?z] attribute_printed(3) [of ?z t] transceiver_name_end by simp
qed

lemma fold_section:
  assumes "printable_section m"
  shows "fold sdp_line (section_lines m) s = s\<lparr>sd_raw := sd_raw s @
    [\<lparr>rw_kind = ms_kind m, rw_port = ms_port m, rw_mid = ms_mid m, rw_direction = Some (ms_direction m), rw_ufrag = ms_ufrag m\<rparr>]\<rparr>"
proof -
  have k: "ms_kind m \<noteq> []" "\<forall>c\<in>set (ms_kind m). \<not> is_space c"
    and t: "\<And>x. ms_mid m = Some x \<Longrightarrow> plain_text x" "\<And>x. ms_ufrag m = Some x \<Longrightarrow> plain_text x"
    using assms by (auto simp: printable_section_def)
  show ?thesis
    unfolding section_lines_def fold_append comp_def
    by (cases "ms_mid m"; cases "ms_ufrag m")
      (simp_all only: option.case fold_simps id_apply sdp_media_line [OF k] sdp_steps t raw_section.update_convs)
qed

lemma fold_sections:
  "\<forall>m\<in>set ms. printable_section m \<Longrightarrow> fold sdp_line (concat (map section_lines ms)) s = s\<lparr>sd_raw := sd_raw s @
    map (\<lambda>m. \<lparr>rw_kind = ms_kind m, rw_port = ms_port m, rw_mid = ms_mid m, rw_direction = Some (ms_direction m), rw_ufrag = ms_ufrag m\<rparr>) ms\<rparr>"
  by (induction ms arbitrary: s) (simp_all add: fold_section)

lemma printed_no_break:
  assumes "printable_section m" and "l \<in> set (section_lines m)" and "c \<in> set l"
  shows "\<not> is_break c"
proof -
  have lit: "\<forall>c\<in>set ''m='' \<union> set '' '' \<union> set ''a=mid:'' \<union> set ''a='' \<union> set ''a=ice-ufrag:''. \<not> is_break c"
    by (simp add: is_break_def ord_of_def)
  have k: "\<forall>c\<in>set (ms_kind m). \<not> is_break c" and t: "\<And>x. ms_mid m = Some x \<Longrightarrow> \<forall>c\<in>set x. \<not> is_break c" "\<And>x. ms_ufrag m = Some x \<Longrightarrow> \<forall>c\<in>set x. \<not> is_break c"
    using assms(1) break_space by (auto simp: printable_section_def plain_text_def)
  have n: "\<forall>c\<in>set (str_of_nat n). \<not> is_break c" for n
    using str_of_nat_digits [of n] digit_no_space break_space by (auto simp: list_all_iff)
  have "\<forall>l\<in>set (section_lines m). \<forall>c\<in>set l. \<not> is_break c"
    using lit k t n [of "ms_port m"] transceiver_name_end unfolding section_lines_def
    by (cases "ms_mid m"; cases "ms_ufrag m") auto
  with assms show ?thesis by blast
qed

text \<open>
  Reading a description back: the inspection of a printed list of media sections
  returns exactly those sections, in order, each with its own kind, port, mid, direction and
  ICE user fragment.
\<close>

theorem sdp_roundtrip:
  assumes "\<forall>m\<in>set ms. printable_section m"
  shows "summarize (print_sdp ms) = ms"
proof -
  let ?raw = "\<lambda>m. \<lparr>rw_kind = ms_kind m, rw_port = ms_port m, rw_mid = ms_mid m, rw_direction = Some (ms_direction m), rw_ufrag = ms_ufrag m\<rparr>"
  have lines: "split_lines [] (print_sdp ms) = concat (map section_lines ms)"
    unfolding print_sdp_def using assms printed_no_break by (intro split_printed) auto
  have "finish_section s (?raw m) = m" if "sd_ufrag s = None" for s m
    using that by (cases m) (auto simp: finish_section_def split: option.split)
  then show ?thesis using assms by (simp add: summarize_def Let_def lines fold_sections comp_def)
qed

theorem sdp_roundtrip_witness:
  "summarize (print_sdp [\<lparr>ms_kind = ''audio'', ms_mid = Some ''0'', ms_direction = Sendonly, ms_port = 9, ms_ufrag = Some ''aB''\<rparr>]) =
    [\<lparr>ms_kind = ''audio'', ms_mid = Some ''0'', ms_direction = Sendonly, ms_port = 9, ms_ufrag = Some ''aB''\<rparr>]"
  by (rule sdp_roundtrip) (simp add: printable_section_def plain_text_def is_space_def is_break_def ord_of_def)

end
