(* ===== verification/Rtc_State.thy ===== *)
theory Rtc_State
  imports Rtc_Declarations Interfaces
begin

text \<open>
  The state of one admitted WebRTC session and its basic operations
  (\<open>fastapi_canon/integrations/webrtc/runtime.py\<close>, \<open>SessionRuntime\<close>): termination, timers, task
  outcomes, the bounded queue of signaling messages, held candidates and lifecycle events. The
  engine and the application are parameters: what they return or raise reaches an operation as
  an argument. Code between two awaits is one operation.
\<close>

section \<open>Engine values and messages (engine.py, protocol.py, events.py)\<close>

datatype connection_state = Conn_new | Connecting | Connected | Disconnected | Conn_failed | Conn_closed
datatype signaling_state = Stable | Have_local_offer | Have_remote_offer | Signaling_closed

record capabilities =
  ec_trickle :: bool
  ec_ice_restart :: bool
  ec_renegotiation :: bool

record candidate =
  ic_text :: string
  ic_mid :: "string option"
  ic_line :: "nat option"
  ic_ufrag :: "string option"

record channel_descriptor =
  cd_name :: string
  cd_id :: "int option"
  cd_negotiated :: bool
  cd_ordered :: bool
  cd_retransmits :: "pyval option"
  cd_life_time :: "pyval option"
  cd_max_bytes :: int
  cd_receive :: msg_format
  cd_send :: msg_format

record session_hello =
  hl_session :: string
  hl_name :: string
  hl_role :: role
  hl_ice :: "string list"
  hl_media :: media_policy
  hl_channels :: "channel_descriptor list"
  hl_timeout_ms :: int
  hl_signal_bytes :: int
  hl_pending :: int
  hl_capabilities :: capabilities

datatype server_message =
    Session_message session_hello
  | Description_message string nat
  | Candidate_message "candidate option"
  | Ready_message
  | Error_message error_code string "string option"

datatype event_kind =
    Ev_admitted | Ev_rejected | Ev_connected | Ev_ready | Ev_media_ready | Ev_track | Ev_renegotiated | Ev_closed

record session_event =
  ev_kind :: event_kind
  ev_code :: "error_code option"
  ev_media :: "string option"

section \<open>The session\<close>

text \<open>What the factory returned: which handlers it has, its tracks (native objects by identity).\<close>

record session_spec =
  ss_on_start :: bool
  ss_run :: bool
  ss_on_track :: bool
  ss_handlers :: "(string \<times> nat) list"
  ss_on_close :: bool
  ss_tracks :: "nat list"

datatype payload = Msg_text string | Msg_bytes string | Msg_array string | Msg_object nat

record chan =
  ch_spec :: channel_spec
  ch_max :: int
  ch_queue :: "payload list"
  ch_engine :: bool
  ch_opened :: bool
  ch_closed :: bool
  ch_drained :: bool
  ch_consumer :: bool
  ch_stopped :: bool

record in_track =
  it_kind :: string
  it_counted :: bool
  it_stopped :: bool

record out_track =
  ot_native :: nat
  ot_owned :: bool
  ot_removed :: bool

text \<open>
  The section under the negotiation lock, up to the engine call it awaits: applying a remote
  offer (its summary, its number, whether it renegotiates), making the answer, adding buffered
  candidates, applying an answer, making an offer (its number, whether it is the first), adding
  one candidate, detaching an outgoing track.
\<close>

datatype phase =
    Setting_offer "media_section list" nat bool
  | Answering nat bool
  | Flushing "candidate option list" bool
  | Setting_answer "media_section list" bool
  | Offering nat bool
  | Adding "candidate option"
  | Removing nat

text \<open>How far \<open>_cleanup\<close> is: what it awaits next.\<close>

datatype stage = Serving | Closing_signaling | Calling_close | Closing_peer | Finished

record runtime =
  rt_decl :: session_decl
  rt_caps :: capabilities
  rt_session :: session_spec
  rt_id :: string
  rt_hook :: bool
  rt_code :: "error_code option"
  rt_accepted :: bool
  rt_signaling_open :: bool
  rt_signaling_lost :: bool
  rt_app_connected :: bool
  rt_client_connected :: bool
  rt_close_frame :: "(int \<times> string) option"
  rt_peer :: bool
  rt_conn :: connection_state
  rt_ever_connected :: bool
  rt_established :: bool
  rt_started :: bool
  rt_outbound :: "server_message list"
  rt_wire :: "server_message list"
  rt_phase :: "phase option"
  rt_held :: "candidate option list option"
  rt_pending :: "candidate option list"
  rt_remote_applied :: bool
  rt_ufrags :: "string list"
  rt_ignored_offer :: bool
  rt_negotiations :: nat
  rt_local_offer :: "nat option"
  rt_offer_settled :: "nat option"
  rt_settled :: "nat list"
  rt_attached :: bool
  rt_timers :: "(string \<times> error_code) list"
  rt_tasks :: "(string \<times> error_code) list"
  rt_handlers :: "string list"
  rt_incoming :: "in_track list"
  rt_counts :: "string \<Rightarrow> int"
  rt_queued_tracks :: "nat list"
  rt_outgoing :: "out_track list"
  rt_owned :: "nat list"
  rt_stopped :: "nat list"
  rt_channels :: "(string \<times> chan) list"
  rt_events :: "session_event list"
  rt_slots_held :: bool
  rt_on_close_calls :: "error_code list"
  rt_peer_closed :: bool
  rt_stage :: stage

abbreviation rt_limits :: "runtime \<Rightarrow> session_limits" where
  "rt_limits s \<equiv> dl_limits (rt_decl s)"

abbreviation rt_media :: "runtime \<Rightarrow> media_policy" where
  "rt_media s \<equiv> dl_media (rt_decl s)"

definition new_channel :: "session_decl \<Rightarrow> channel_spec \<Rightarrow> chan" where
  "new_channel d c = \<lparr>ch_spec = c, ch_max = max_message_bytes d c, ch_queue = [], ch_engine = False, ch_opened = False,
     ch_closed = False, ch_drained = False, ch_consumer = False, ch_stopped = False\<rparr>"

definition new_runtime :: "session_decl \<Rightarrow> capabilities \<Rightarrow> session_spec \<Rightarrow> string \<Rightarrow> bool \<Rightarrow> runtime" where
  "new_runtime d caps session session_id hook =
     \<lparr>rt_decl = d, rt_caps = caps, rt_session = session, rt_id = session_id, rt_hook = hook,
      rt_code = None, rt_accepted = False, rt_signaling_open = False, rt_signaling_lost = False,
      rt_app_connected = False, rt_client_connected = False, rt_close_frame = None,
      rt_peer = False, rt_conn = Conn_new, rt_ever_connected = False, rt_established = False, rt_started = False,
      rt_outbound = [], rt_wire = [], rt_phase = None, rt_held = None, rt_pending = [], rt_remote_applied = False,
      rt_ufrags = [], rt_ignored_offer = False, rt_negotiations = 0, rt_local_offer = None, rt_offer_settled = None,
      rt_settled = [], rt_attached = False, rt_timers = [], rt_tasks = [], rt_handlers = [], rt_incoming = [],
      rt_counts = (\<lambda>_. 0), rt_queued_tracks = [], rt_outgoing = [], rt_owned = fromkeys (ss_tracks session), rt_stopped = [],
      rt_channels = fold (\<lambda>c. dict_set (cs_name c) (new_channel d c)) (dl_channels d) [],
      rt_events = [], rt_slots_held = True, rt_on_close_calls = [], rt_peer_closed = False, rt_stage = Serving\<rparr>"

section \<open>Termination, timers and tasks\<close>

definition terminate :: "error_code \<Rightarrow> runtime \<Rightarrow> runtime" where
  "terminate c s = (if rt_code s = None then s\<lparr>rt_code := Some c\<rparr> else s)"

definition set_timer :: "string \<Rightarrow> error_code \<Rightarrow> runtime \<Rightarrow> runtime" where
  "set_timer n c s = s\<lparr>rt_timers := dict_set n c (dict_pop n (rt_timers s))\<rparr>"

definition cancel_timer :: "string \<Rightarrow> runtime \<Rightarrow> runtime" where
  "cancel_timer n s = s\<lparr>rt_timers := dict_pop n (rt_timers s)\<rparr>"

definition expire_timer :: "string \<Rightarrow> runtime \<Rightarrow> runtime" where
  \<comment> \<open>the deadline of a timer that was not cancelled\<close>
  "expire_timer n s = (case dict_get (rt_timers s) n of
     None \<Rightarrow> s
   | Some c \<Rightarrow> terminate c (s\<lparr>rt_timers := dict_pop n (rt_timers s)\<rparr>))"

definition spawn :: "string \<Rightarrow> error_code \<Rightarrow> runtime \<Rightarrow> runtime" where
  "spawn n failure s = s\<lparr>rt_tasks := rt_tasks s @ [(n, failure)]\<rparr>"

definition spawn_handler :: "string \<Rightarrow> runtime \<Rightarrow> runtime" where
  "spawn_handler n s = s\<lparr>rt_handlers := rt_handlers s @ [n]\<rparr>"

datatype outcome = Returned | Was_cancelled | Raised rtc_error | Crashed

definition guard :: "error_code \<Rightarrow> outcome \<Rightarrow> runtime \<Rightarrow> runtime" where
  "guard failure out s = (case out of
     Returned \<Rightarrow> s
   | Was_cancelled \<Rightarrow> s
   | Raised (Session_closed _) \<Rightarrow> s
   | Raised (Rtc_error c _) \<Rightarrow> terminate (if failure = Handler_failure then Handler_failure else c) s
   | Crashed \<Rightarrow> terminate failure s)"

definition task_ends :: "string \<Rightarrow> outcome \<Rightarrow> runtime \<Rightarrow> runtime" where
  "task_ends n out s = (case dict_get (rt_tasks s) n of
     None \<Rightarrow> s
   | Some failure \<Rightarrow> (guard failure out s)\<lparr>rt_tasks := remove1 (n, failure) (rt_tasks s)\<rparr>)"

definition handler_ends :: "string \<Rightarrow> outcome \<Rightarrow> runtime \<Rightarrow> runtime" where
  \<comment> \<open>returning from \<open>run\<close> closes the session\<close>
  "handler_ends n out s =
     (if n \<in> set (rt_handlers s)
      then (let s = (if n = ''run'' \<and> out = Returned then terminate Closed s else guard Handler_failure out s)
            in s\<lparr>rt_handlers := remove1 n (rt_handlers s)\<rparr>)
      else s)"

definition ensure_active :: "runtime \<Rightarrow> (rtc_error, unit) result" where
  "ensure_active s = (case rt_code s of None \<Rightarrow> Inr () | Some c \<Rightarrow> Inl (Session_closed c))"

definition require_peer :: "runtime \<Rightarrow> (rtc_error, unit) result" where
  "require_peer s = (if rt_peer s then Inr ()
     else Inl (Session_closed (case rt_code s of Some c \<Rightarrow> c | None \<Rightarrow> Closed)))"

definition wrap_error :: "error_code \<Rightarrow> rtc_error option \<Rightarrow> rtc_error" where
  \<comment> \<open>\<open>_engine_call\<close> and \<open>_negotiate_call\<close>: a WebRtcError passes (None is any other exception)\<close>
  "wrap_error c e = (case e of Some e \<Rightarrow> e | None \<Rightarrow> new_rtc_error c None)"

text \<open>What an awaited or synchronous engine call came to; None is an exception other than WebRtcError.\<close>

datatype 'a awaited = Awaited 'a | Await_raises "rtc_error option" | Await_cancelled

interpretation rt_latch: first_wins terminate rt_code "\<lambda>c. c"
  by unfold_locales (auto simp: terminate_def)

section \<open>Signaling messages and events\<close>

definition send_signal :: "server_message \<Rightarrow> runtime \<Rightarrow> runtime" where
  "send_signal m s =
     (if rt_signaling_lost s \<or> \<not> rt_signaling_open s \<or> rt_code s \<noteq> None then s
      else if 0 < sl_outbound (rt_limits s) \<and> sl_outbound (rt_limits s) \<le> int (length (rt_outbound s))
      then terminate Queue_exhausted s
      else s\<lparr>rt_outbound := rt_outbound s @ [m]\<rparr>)"

definition report :: "error_code \<Rightarrow> string option \<Rightarrow> runtime \<Rightarrow> runtime" where
  "report c channel s = send_signal (Error_message c (default_message c) channel) s"

datatype write_result = Written | Write_failed bool

definition write_next :: "write_result \<Rightarrow> runtime \<Rightarrow> runtime" where
  \<comment> \<open>one turn of \<open>_write\<close>; a failed send may also end the application side of the socket\<close>
  "write_next r s = (case rt_outbound s of
     [] \<Rightarrow> s
   | m # ms \<Rightarrow>
       (let s' = s\<lparr>rt_outbound := ms\<rparr>
        in if rt_signaling_lost s \<or> \<not> rt_signaling_open s then s'
           else (case r of Written \<Rightarrow> s'\<lparr>rt_wire := rt_wire s @ [m]\<rparr>
                 | Write_failed still \<Rightarrow> s'\<lparr>rt_signaling_open := False, rt_app_connected := rt_app_connected s \<and> still\<rparr>)))"

definition emit :: "event_kind \<Rightarrow> error_code option \<Rightarrow> string option \<Rightarrow> runtime \<Rightarrow> runtime" where
  \<comment> \<open>what the hook raises is only logged\<close>
  "emit k c m s = (if rt_hook s then s\<lparr>rt_events := rt_events s @ [\<lparr>ev_kind = k, ev_code = c, ev_media = m\<rparr>]\<rparr> else s)"

section \<open>Local candidates\<close>

definition send_candidate :: "candidate option \<Rightarrow> runtime \<Rightarrow> runtime" where
  "send_candidate c s = (case rt_held s of
     Some held \<Rightarrow> s\<lparr>rt_held := Some (held @ [c])\<rparr>
   | None \<Rightarrow> send_signal (Candidate_message c) s)"

definition release_candidates :: "runtime \<Rightarrow> runtime" where
  "release_candidates s =
     fold send_candidate (case rt_held s of Some held \<Rightarrow> held | None \<Rightarrow> []) (s\<lparr>rt_held := None\<rparr>)"

definition on_local_candidate :: "candidate option \<Rightarrow> runtime \<Rightarrow> runtime" where
  "on_local_candidate c s = (if rt_code s = None then send_candidate c s else s)"

definition on_signaling_closed :: "int \<Rightarrow> runtime \<Rightarrow> runtime" where
  "on_signaling_closed code s =
     (if code \<in> {1000, 1001} then terminate Closed s
      else if code = 1012 then terminate Shutdown s
      else if \<not> rt_established s \<or> not_positive (sl_signaling_grace (rt_limits s)) then terminate Signaling_lost s
      else set_timer ''signaling'' Signaling_lost (s\<lparr>rt_signaling_lost := True\<rparr>))"

definition on_disconnect :: "int option \<Rightarrow> runtime \<Rightarrow> runtime" where
  \<comment> \<open>the disconnect message of \<open>_read\<close>; \<open>int(code or 1005)\<close>\<close>
  "on_disconnect code s =
     on_signaling_closed (case code of Some n \<Rightarrow> if n = 0 then 1005 else n | None \<Rightarrow> 1005)
       (s\<lparr>rt_signaling_open := False, rt_client_connected := False\<rparr>)"

end
