(* ===== verification/Rtc_Channels.thy ===== *)
theory Rtc_Channels
  imports Rtc_State
begin

text \<open>
  Data channels of a WebRTC session (\<open>runtime.py\<close>): encoding and decoding of messages, the
  bounded receive queue, sending with back-pressure, readers, binding of engine channels and the
  moment the session is established. Model adapters (pydantic) are the parameters \<open>dump\<close> and
  \<open>load\<close>. A string is a list of code points below 256; its size is that of its UTF-8 form.
\<close>

section \<open>Encoding and decoding\<close>

definition utf8_size :: "string \<Rightarrow> nat" where
  "utf8_size t = sum_list (map (\<lambda>c. if ord_of c < 128 then 1 else 2) t)"

definition wire_size :: "payload \<Rightarrow> nat" where
  \<comment> \<open>\<open>len(data.encode())\<close> or \<open>len(data)\<close>\<close>
  "wire_size p = (case p of Msg_text t \<Rightarrow> utf8_size t | Msg_bytes b \<Rightarrow> length b | _ \<Rightarrow> 0)"

abbreviation invalid :: "string \<Rightarrow> (rtc_error, 'a) result" where
  "invalid m \<equiv> Inl (new_rtc_error Invalid_message (Some m))"

definition encode :: "(nat \<Rightarrow> payload \<Rightarrow> string option) \<Rightarrow> channel_spec \<Rightarrow> payload \<Rightarrow> (rtc_error, payload) result" where
  "encode dump c m = (case cs_send c of
     Never_model \<Rightarrow> invalid (''Channel does not send messages.'')
   | No_model \<Rightarrow> (case m of
       Msg_text t \<Rightarrow> Inr (Msg_text t) | Msg_bytes b \<Rightarrow> Inr (Msg_bytes b) | Msg_array b \<Rightarrow> Inr (Msg_bytes b)
     | Msg_object _ \<Rightarrow> invalid ''Raw channels send str or bytes values.'')
   | Str_model \<Rightarrow> (case m of Msg_text t \<Rightarrow> Inr (Msg_text t) | _ \<Rightarrow> invalid ''Text channels send str values.'')
   | Bytes_model \<Rightarrow> (case m of
       Msg_bytes b \<Rightarrow> Inr (Msg_bytes b) | Msg_array b \<Rightarrow> Inr (Msg_bytes b)
     | _ \<Rightarrow> invalid ''Binary channels send bytes values.'')
   | Json_model a \<Rightarrow> (case dump a m of Some t \<Rightarrow> Inr (Msg_text t) | None \<Rightarrow> rtc_fail Invalid_message))"

definition decode :: "(nat \<Rightarrow> string \<Rightarrow> payload option) \<Rightarrow> channel_spec \<Rightarrow> payload \<Rightarrow> (rtc_error, payload) result" where
  "decode load c d = (case cs_receive c of
     Never_model \<Rightarrow> rtc_fail Invalid_message
   | No_model \<Rightarrow> Inr d
   | Str_model \<Rightarrow> (case d of Msg_text _ \<Rightarrow> Inr d | _ \<Rightarrow> rtc_fail Invalid_message)
   | Bytes_model \<Rightarrow> (case d of Msg_bytes _ \<Rightarrow> Inr d | _ \<Rightarrow> rtc_fail Invalid_message)
   | Json_model a \<Rightarrow> (case d of
       Msg_text t \<Rightarrow> (case load a t of Some v \<Rightarrow> Inr v | None \<Rightarrow> rtc_fail Invalid_message)
     | _ \<Rightarrow> rtc_fail Invalid_message))"

section \<open>Establishment\<close>

definition check_established :: "runtime \<Rightarrow> runtime" where
  "check_established s =
     (if rt_established s \<or> rt_code s \<noteq> None then s
      else if rt_conn s \<noteq> Connected then s
      else if \<not> list_all (\<lambda>(_, c). ch_opened c) (rt_channels s) then s
      else spawn ''start'' Handler_failure
        (emit Ev_connected None None (cancel_timer ''negotiation'' (s\<lparr>rt_established := True\<rparr>))))"

section \<open>Channel callbacks\<close>

definition update_channel :: "string \<Rightarrow> (chan \<Rightarrow> chan) \<Rightarrow> runtime \<Rightarrow> runtime" where
  "update_channel n f s = s\<lparr>rt_channels := map (\<lambda>(m, c). (m, if m = n then f c else c)) (rt_channels s)\<rparr>"

definition channel_opened :: "string \<Rightarrow> runtime \<Rightarrow> runtime" where
  "channel_opened n s = check_established (update_channel n (\<lambda>c. c\<lparr>ch_opened := True\<rparr>) s)"

definition channel_closed :: "string \<Rightarrow> runtime \<Rightarrow> runtime" where
  "channel_closed n s = update_channel n (\<lambda>c. c\<lparr>ch_closed := True, ch_drained := True\<rparr>) s"

definition channel_drained :: "string \<Rightarrow> runtime \<Rightarrow> runtime" where
  "channel_drained n s = update_channel n (\<lambda>c. c\<lparr>ch_drained := True\<rparr>) s"

definition bind_channel :: "string \<Rightarrow> bool \<Rightarrow> runtime \<Rightarrow> runtime" where
  \<comment> \<open>the flag: the engine channel is already open\<close>
  "bind_channel n ready s =
     (let s = update_channel n (\<lambda>c. c\<lparr>ch_engine := True\<rparr>) s in if ready then channel_opened n s else s)"

definition on_remote_channel :: "string \<Rightarrow> bool \<Rightarrow> runtime \<Rightarrow> runtime" where
  \<comment> \<open>a refused engine channel is closed\<close>
  "on_remote_channel label ready s = (case dict_get (rt_channels s) label of
     Some c \<Rightarrow>
       if rt_code s \<noteq> None \<or> ch_engine c \<or> server_creates (rt_decl s) (ch_spec c)
       then (if rt_code s = None then report Channel_rejected (Some (take 63 label)) s else s)
       else bind_channel label ready s
   | None \<Rightarrow> if rt_code s = None then report Channel_rejected (Some (take 63 label)) s else s)"

definition on_channel_message :: "(nat \<Rightarrow> string \<Rightarrow> payload option) \<Rightarrow> string \<Rightarrow> payload \<Rightarrow> runtime \<Rightarrow> runtime" where
  "on_channel_message load n d s = (case dict_get (rt_channels s) n of
     None \<Rightarrow> s
   | Some c \<Rightarrow>
       if rt_code s \<noteq> None then s
       else if ch_max c < int (wire_size d) then report Message_too_large (Some n) s
       else (case decode load (ch_spec c) d of
           Inl e \<Rightarrow> report (error_code_of e) (Some n) s
         | Inr m \<Rightarrow>
             if 0 < sl_queued (rt_limits s) \<and> sl_queued (rt_limits s) \<le> int (length (ch_queue c))
             then terminate Queue_exhausted s
             else update_channel n (\<lambda>c. c\<lparr>ch_queue := ch_queue c @ [m]\<rparr>) s))"

section \<open>Sending\<close>

datatype target = By_name string | By_spec channel_spec

definition channel_state :: "target \<Rightarrow> runtime \<Rightarrow> (string, string \<times> chan) result" where
  "channel_state t s =
     (let n = (case t of By_name n \<Rightarrow> n | By_spec c \<Rightarrow> cs_name c)
      in case dict_get (rt_channels s) n of
           None \<Rightarrow> Inl ''Session has no channel''
         | Some c \<Rightarrow> (case t of By_spec d \<Rightarrow> if d \<noteq> ch_spec c then Inl ''declared with a different DataChannelSpec'' else Inr (n, c)
             | By_name _ \<Rightarrow> Inr (n, c)))"

datatype send_result = Send_waits | Sent payload | Send_fails rtc_error

text \<open>
  \<open>send_message\<close> from its last await on: what the caller does when it runs, given the buffered
  amount of the engine channel, whether its deadline has passed, and whether \<open>send\<close> raises.
\<close>

definition transmit :: "string \<Rightarrow> payload \<Rightarrow> int \<Rightarrow> bool \<Rightarrow> bool \<Rightarrow> runtime \<Rightarrow> send_result \<times> runtime" where
  "transmit n d buffered late raises s = (case dict_get (rt_channels s) n of
     None \<Rightarrow> (Send_fails (new_rtc_error Channel_closed None), s)
   | Some c \<Rightarrow>
       (case rt_code s of
          Some code \<Rightarrow> (Send_fails (Session_closed code), s)
        | None \<Rightarrow>
            if \<not> ch_opened c then (Send_waits, s)
            else if ch_closed c \<or> \<not> ch_engine c then (Send_fails (new_rtc_error Channel_closed None), s)
            else if buffered > sl_buffer_high (rt_limits s)
            then (if late then (Send_fails (Session_closed Slow_consumer), terminate Slow_consumer s)
                  else (Send_waits, update_channel n (\<lambda>c. c\<lparr>ch_drained := False\<rparr>) s))
            else if raises then (Send_fails (new_rtc_error Engine_failure None), s)
            else (Sent d, s)))"

definition send_message ::
  "(nat \<Rightarrow> payload \<Rightarrow> string option) \<Rightarrow> target \<Rightarrow> payload \<Rightarrow> int \<Rightarrow> bool \<Rightarrow> bool \<Rightarrow> runtime \<Rightarrow> (string, send_result \<times> runtime) result" where
  "send_message dump t m buffered late raises s =
     rbind (channel_state t s) (\<lambda>(n, c).
       case encode dump (ch_spec c) m of
         Inl e \<Rightarrow> Inr (Send_fails e, s)
       | Inr d \<Rightarrow>
           if ch_max c < int (wire_size d) then Inr (Send_fails (new_rtc_error Message_too_large None), s)
           else Inr (transmit n d buffered late raises s))"

section \<open>Receiving\<close>

datatype next_result = Next_message payload | Next_stops | Next_waits | Next_error string

definition next_poll :: "string \<Rightarrow> runtime \<Rightarrow> next_result \<times> runtime" where
  \<comment> \<open>one turn of the loop of \<open>next_message\<close>, for the task that is the consumer\<close>
  "next_poll n s = (case dict_get (rt_channels s) n of
     None \<Rightarrow> (Next_error ''no channel'', s)
   | Some c \<Rightarrow> (case ch_queue c of
       m # ms \<Rightarrow> (Next_message m, update_channel n (\<lambda>c. c\<lparr>ch_queue := ms, ch_consumer := False\<rparr>) s)
     | [] \<Rightarrow> if rt_code s \<noteq> None \<or> ch_closed c
             then (Next_stops, update_channel n (\<lambda>c. c\<lparr>ch_consumer := False\<rparr>) s)
             else (Next_waits, s)))"

definition next_message :: "string \<Rightarrow> runtime \<Rightarrow> next_result \<times> runtime" where
  "next_message n s = (case dict_get (rt_channels s) n of
     None \<Rightarrow> (Next_error ''no channel'', s)
   | Some c \<Rightarrow>
       if dict_get (ss_handlers (rt_session s)) n \<noteq> None then (Next_error ''consumed by its on_message handler'', s)
       else if receive_format (ch_spec c) = No_messages then (Next_error ''does not receive messages'', s)
       else if ch_consumer c then (Next_error ''already has a reader'', s)
       else next_poll n (update_channel n (\<lambda>c. c\<lparr>ch_consumer := True\<rparr>) s))"

definition consume_next :: "string \<Rightarrow> runtime \<Rightarrow> payload option \<times> runtime" where
  \<comment> \<open>a message handler's task takes its next message\<close>
  "consume_next n s = (case dict_get (rt_channels s) n of
     None \<Rightarrow> (None, s)
   | Some c \<Rightarrow> (case ch_queue c of
       [] \<Rightarrow> (None, s)
     | m # ms \<Rightarrow> (Some m, update_channel n (\<lambda>c. c\<lparr>ch_queue := ms\<rparr>) s)))"

section \<open>What channels deliver\<close>

definition as_received :: "payload \<Rightarrow> payload" where
  \<comment> \<open>a bytearray or memoryview travels as bytes\<close>
  "as_received m = (case m of Msg_array b \<Rightarrow> Msg_bytes b | _ \<Rightarrow> m)"

text \<open>
  Encoding and decoding agree: what one side encodes for a channel, a side that receives
  the same format decodes to the message sent (a bytearray as bytes), given that the model's
  adapter reads back what it dumps; and a channel that sends nothing encodes nothing.
\<close>

theorem message_roundtrip:
  assumes "\<forall>a m t. dump a m = Some t \<longrightarrow> load a t = Some m" and "cs_receive d = cs_send c" and "encode dump c m = Inr w"
  shows "decode load d w = Inr (if \<exists>a. cs_send c = Json_model a then m else as_received m) \<and> send_format c \<noteq> No_messages"
  using assms(1,2,3)
  by (cases "cs_send c"; cases m)
    (auto simp: encode_def decode_def as_received_def send_format_def format_of_def split: option.splits)

theorem message_roundtrip_witness:
  "decode (\<lambda>_ t. if t = ''7'' then Some (Msg_object 7) else None)
     \<lparr>cs_name = ''x'', cs_receive = Json_model 0, cs_send = Never_model, cs_ordered = True, cs_retransmits = None,
       cs_life_time = None, cs_max_bytes = None, cs_negotiated = False, cs_id = None\<rparr> (Msg_text ''7'') = Inr (Msg_object 7)"
proof -
  let ?c = "\<lambda>r w. \<lparr>cs_name = ''x'', cs_receive = r, cs_send = w, cs_ordered = True, cs_retransmits = None,
       cs_life_time = None, cs_max_bytes = None, cs_negotiated = False, cs_id = None\<rparr>"
  let ?dump = "\<lambda>(_ :: nat) m. if m = Msg_object 7 then Some ''7'' else None"
  let ?load = "\<lambda>(_ :: nat) t. if t = ''7'' then Some (Msg_object 7) else None"
  have law: "\<forall>a m t. ?dump a m = Some t \<longrightarrow> ?load a t = Some m" by simp
  have enc: "encode ?dump (?c Never_model (Json_model 0)) (Msg_object 7) = Inr (Msg_text ''7'')" by (simp add: encode_def)
  from message_roundtrip [OF law _ enc, of "?c (Json_model 0) Never_model"] show ?thesis by simp
qed

definition deliverable :: "(nat \<Rightarrow> string \<Rightarrow> payload option) \<Rightarrow> chan \<Rightarrow> payload \<Rightarrow> payload option" where
  \<comment> \<open>the specification: what an arriving message is for the reader, if anything\<close>
  "deliverable load c d = (if ch_max c < int (wire_size d) then None
     else case decode load (ch_spec c) d of Inr m \<Rightarrow> Some m | Inl _ \<Rightarrow> None)"

lemma get_update: "dict_get (rt_channels (update_channel n f s)) m = map_option (if m = n then f else (\<lambda>c. c)) (dict_get (rt_channels s) m)"
proof -
  have "dict_get (map (\<lambda>(k, c). (k, if k = n then f c else c)) cs) m = map_option (if m = n then f else (\<lambda>c. c)) (dict_get cs m)" for cs
    by (induction cs) auto
  then show ?thesis by (simp add: update_channel_def)
qed

lemma channels_report [simp]: "rt_channels (report c n s) = rt_channels s" "rt_channels (terminate c s) = rt_channels s"
  by (auto simp: report_def send_signal_def terminate_def)

lemma message_step:
  assumes "dict_get (rt_channels s) n = Some c" and "rt_code (on_channel_message load n d s) = None"
  shows "\<exists>c'. dict_get (rt_channels (on_channel_message load n d s)) n = Some c' \<and> ch_spec c' = ch_spec c \<and> ch_max c' = ch_max c \<and>
    ch_queue c' = ch_queue c @ List.map_filter (deliverable load c) [d]"
proof -
  have "rt_code s = None" using assms by (auto simp: on_channel_message_def split: if_splits)
  then show ?thesis using assms
    by (auto simp: on_channel_message_def deliverable_def get_update terminate_def map_filter_simps split: sum.splits if_splits)
qed

lemma code_back: "rt_code (fold (on_channel_message load n) ds s) = None \<Longrightarrow> rt_code s = None"
proof (induction ds arbitrary: s)
  case (Cons d ds)
  then have "rt_code (on_channel_message load n d s) = None" by simp
  then show ?case by (auto simp: on_channel_message_def split: option.splits if_splits)
qed simp

lemma deliverable_cong: "ch_spec c' = ch_spec c \<Longrightarrow> ch_max c' = ch_max c \<Longrightarrow> deliverable load c' = deliverable load c"
  by (simp add: deliverable_def fun_eq_iff)



end
