(* ===== verification/Rtc_Negotiation.thy ===== *)
theory Rtc_Negotiation
  imports Rtc_Channels
begin

text \<open>
  Offer/answer negotiation of a WebRTC session (\<open>runtime.py\<close>): offers, answers and candidates of
  the browser, offers of the server, and tracks that need one. Each function is the code between
  two awaits under the negotiation lock; \<open>rt_phase\<close> says which engine call the holder of the lock
  awaits. Arguments give the engine's answers: \<open>sg\<close> its signaling state, \<open>needs\<close> its
  \<open>needs_negotiation()\<close>, \<open>kind\<close> the kind of a native track (None: it raises TypeError) and
  \<open>add\<close> what \<open>add_track\<close> does.
\<close>

section \<open>Tracks of the session\<close>

definition release_track :: "nat \<Rightarrow> runtime \<Rightarrow> runtime" where
  "release_track native s =
     (if native \<in> set (rt_owned s)
      then s\<lparr>rt_owned := removeAll native (rt_owned s), rt_stopped := rt_stopped s @ [native]\<rparr> else s)"

definition track_allowed :: "(nat \<Rightarrow> string option) \<Rightarrow> nat \<Rightarrow> runtime \<Rightarrow> (rtc_error, unit) result" where
  "track_allowed kind native s = (case kind native of
     None \<Rightarrow> Inl (new_rtc_error Media_rejected (Some ''The engine does not accept this track.''))
   | Some k \<Rightarrow> (case media_direction (rt_media s) k of
       None \<Rightarrow> Inl (new_rtc_error Media_rejected (Some (''The session does not send '' @ k @ '' media.'')))
     | Some d \<Rightarrow>
         if \<not> sends d then Inl (new_rtc_error Media_rejected (Some (''The session does not send '' @ k @ '' media.'')))
         else Inr ()))"

fun attach_tracks ::
  "(nat \<Rightarrow> string option) \<Rightarrow> (nat \<Rightarrow> unit awaited) \<Rightarrow> nat list \<Rightarrow> runtime \<Rightarrow> outcome \<times> runtime" where
  "attach_tracks kind add [] s = (Returned, s)"
| "attach_tracks kind add (t # ts) s = (case track_allowed kind t s of
     Inl e \<Rightarrow> (Raised (if kind t = None then new_rtc_error Media_rejected None else e), s)
   | Inr _ \<Rightarrow> (case add t of
       Awaited _ \<Rightarrow> attach_tracks kind add ts
         (s\<lparr>rt_outgoing := rt_outgoing s @ [\<lparr>ot_native = t, ot_owned = True, ot_removed = False\<rparr>]\<rparr>)
     | Await_raises e \<Rightarrow> (Raised (wrap_error Engine_failure e), s)
     | Await_cancelled \<Rightarrow> (Was_cancelled, s)))"

definition attach_initial_tracks :: "(nat \<Rightarrow> string option) \<Rightarrow> (nat \<Rightarrow> unit awaited) \<Rightarrow> runtime \<Rightarrow> outcome \<times> runtime" where
  "attach_initial_tracks kind add s =
     (if rt_attached s then (Returned, s)
      else attach_tracks kind add (ss_tracks (rt_session s)) (s\<lparr>rt_attached := True\<rparr>))"

section \<open>Under the lock\<close>

definition enter :: "runtime \<Rightarrow> (rtc_error, unit) result" where
  "enter s = rbind (ensure_active s) (\<lambda>_. require_peer s)"

definition leave_lock :: "outcome \<Rightarrow> runtime \<Rightarrow> outcome \<times> runtime" where
  "leave_lock out s = (out, s\<lparr>rt_phase := None\<rparr>)"

definition await_error :: "error_code \<Rightarrow> 'a awaited \<Rightarrow> outcome" where
  "await_error c r = (case r of
     Awaited _ \<Rightarrow> Returned | Await_raises e \<Rightarrow> Raised (wrap_error c e) | Await_cancelled \<Rightarrow> Was_cancelled)"

definition begin_describe :: "phase \<Rightarrow> runtime \<Rightarrow> runtime" where
  \<comment> \<open>\<open>_describe\<close> up to its await: local candidates are held back\<close>
  "begin_describe p s = s\<lparr>rt_held := Some [], rt_phase := Some p\<rparr>"

definition stale_candidate :: "runtime \<Rightarrow> candidate option \<Rightarrow> bool" where
  "stale_candidate s c = (case c of
     None \<Rightarrow> False
   | Some k \<Rightarrow> (case ic_ufrag k of None \<Rightarrow> False | Some u \<Rightarrow> rt_ufrags s \<noteq> [] \<and> u \<notin> set (rt_ufrags s)))"

definition flush_rest :: "candidate option list \<Rightarrow> bool \<Rightarrow> runtime \<Rightarrow> runtime" where
  \<comment> \<open>the loop of \<open>_flush_pending_candidates\<close> to its next engine call, then the end of the section\<close>
  "flush_rest cs renegotiation s = (case dropWhile (stale_candidate s) cs of
     [] \<Rightarrow> (let s = s\<lparr>rt_phase := None\<rparr> in if renegotiation then emit Ev_renegotiated None None s else s)
   | cs' \<Rightarrow> s\<lparr>rt_phase := Some (Flushing cs' renegotiation)\<rparr>)"

definition flush_pending :: "bool \<Rightarrow> runtime \<Rightarrow> runtime" where
  "flush_pending renegotiation s = flush_rest (rt_pending s) renegotiation (s\<lparr>rt_pending := []\<rparr>)"

definition remote_description_applied :: "media_section list \<Rightarrow> runtime \<Rightarrow> runtime" where
  "remote_description_applied summary s = s\<lparr>rt_remote_applied := True, rt_ufrags := ufrags summary\<rparr>"

section \<open>Offers of the browser\<close>

definition on_offer :: "string \<Rightarrow> nat \<Rightarrow> signaling_state \<Rightarrow> runtime \<Rightarrow> outcome \<times> runtime" where
  "on_offer sdp n sg s = (case enter s of
     Inl e \<Rightarrow> (Raised e, s)
   | Inr _ \<Rightarrow>
       if sg \<noteq> Stable then (Returned, s\<lparr>rt_ignored_offer := True\<rparr>)
       else (let s = s\<lparr>rt_ignored_offer := False\<rparr>; summary = summarize sdp
             in case check_media (rt_media s) summary of
                  Inl e \<Rightarrow> (Raised e, s)
                | Inr _ \<Rightarrow> (Returned, s\<lparr>rt_phase := Some (Setting_offer summary n (rt_remote_applied s))\<rparr>)))"

definition offer_applied ::
  "(nat \<Rightarrow> string option) \<Rightarrow> (nat \<Rightarrow> unit awaited) \<Rightarrow> media_section list \<Rightarrow> nat \<Rightarrow> bool \<Rightarrow> unit awaited \<Rightarrow> runtime \<Rightarrow> outcome \<times> runtime" where
  "offer_applied kind add summary n renegotiation r s = (case r of
     Awaited _ \<Rightarrow>
       (let s = remote_description_applied summary s
        in case (if dl_role (rt_decl s) = Answerer then attach_initial_tracks kind add s else (Returned, s)) of
             (Returned, s) \<Rightarrow> (Returned, begin_describe (Answering n renegotiation) s)
           | (out, s) \<Rightarrow> leave_lock out s)
   | _ \<Rightarrow> leave_lock (await_error Negotiation_failed r) s)"

definition answer_made :: "nat \<Rightarrow> bool \<Rightarrow> string awaited \<Rightarrow> runtime \<Rightarrow> outcome \<times> runtime" where
  "answer_made n renegotiation r s = (case r of
     Awaited sdp \<Rightarrow>
       (Returned, flush_pending renegotiation (release_candidates (send_signal (Description_message sdp n) s)))
   | _ \<Rightarrow> leave_lock (await_error Negotiation_failed r) (release_candidates s))"

section \<open>Answers of the browser\<close>

definition on_answer :: "string \<Rightarrow> nat \<Rightarrow> signaling_state \<Rightarrow> runtime \<Rightarrow> outcome \<times> runtime" where
  "on_answer sdp n sg s = (case enter s of
     Inl e \<Rightarrow> (Raised e, s)
   | Inr _ \<Rightarrow>
       if sg \<noteq> Have_local_offer \<or> rt_local_offer s \<noteq> Some n then (Returned, s)
       else (let summary = summarize sdp
             in case check_media (rt_media s) summary of
                  Inl e \<Rightarrow> (Raised e, s)
                | Inr _ \<Rightarrow> (Returned, s\<lparr>rt_phase := Some (Setting_answer summary (rt_remote_applied s))\<rparr>)))"

definition settle_offer :: "runtime \<Rightarrow> runtime" where
  \<comment> \<open>wakes whoever waits for the pending offer\<close>
  "settle_offer s = s\<lparr>rt_settled := rt_settled s @ (case rt_offer_settled s of Some n \<Rightarrow> [n] | None \<Rightarrow> [])\<rparr>"

definition answer_applied :: "media_section list \<Rightarrow> bool \<Rightarrow> unit awaited \<Rightarrow> runtime \<Rightarrow> outcome \<times> runtime" where
  "answer_applied summary renegotiation r s = (case r of
     Awaited _ \<Rightarrow>
       (Returned, flush_pending renegotiation
          ((settle_offer (cancel_timer ''answer'' ((remote_description_applied summary s)\<lparr>rt_local_offer := None\<rparr>)))
             \<lparr>rt_offer_settled := None\<rparr>))
   | _ \<Rightarrow> leave_lock (await_error Negotiation_failed r) s)"

section \<open>Candidates of the browser\<close>

definition normal_candidate :: "candidate option \<Rightarrow> candidate option" where
  "normal_candidate c = (case c of Some k \<Rightarrow> if ic_text k = [] then None else Some k | None \<Rightarrow> None)"

definition on_candidate :: "candidate option \<Rightarrow> runtime \<Rightarrow> outcome \<times> runtime" where
  "on_candidate c0 s =
     (let c = normal_candidate c0
      in case ensure_active s of
           Inl e \<Rightarrow> (Raised e, s)
         | Inr _ \<Rightarrow>
             if \<not> rt_remote_applied s
             then (if sl_pending_candidates (rt_limits s) \<le> int (length (rt_pending s))
                   then (Raised (new_rtc_error Queue_exhausted None), s)
                   else (Returned, s\<lparr>rt_pending := rt_pending s @ [c]\<rparr>))
             else if stale_candidate s c then (Returned, s)
             else (case require_peer s of Inl e \<Rightarrow> (Raised e, s) | Inr _ \<Rightarrow> (Returned, s\<lparr>rt_phase := Some (Adding c)\<rparr>)))"

definition candidate_result :: "unit awaited \<Rightarrow> runtime \<Rightarrow> runtime" where
  "candidate_result r s = (case r of
     Await_raises _ \<Rightarrow> if rt_ignored_offer s then s else report Negotiation_failed None s
   | _ \<Rightarrow> s)"

definition candidate_added :: "unit awaited \<Rightarrow> runtime \<Rightarrow> outcome \<times> runtime" where
  \<comment> \<open>the engine call of a single candidate returns\<close>
  "candidate_added r s = (if r = Await_cancelled then leave_lock Was_cancelled s else leave_lock Returned (candidate_result r s))"

definition candidate_flushed :: "candidate option list \<Rightarrow> bool \<Rightarrow> unit awaited \<Rightarrow> runtime \<Rightarrow> outcome \<times> runtime" where
  \<comment> \<open>the engine call of the first of the buffered candidates returns\<close>
  "candidate_flushed cs renegotiation r s =
     (if r = Await_cancelled then leave_lock Was_cancelled s
      else (Returned, flush_rest (tl cs) renegotiation (candidate_result r s)))"

section \<open>Offers of the server\<close>

definition renegotiate :: "signaling_state \<Rightarrow> bool \<Rightarrow> runtime \<Rightarrow> outcome \<times> nat option \<times> runtime" where
  \<comment> \<open>also the offer whose settling a waiting caller awaits\<close>
  "renegotiate sg needs s = (case enter s of
     Inl e \<Rightarrow> (Raised e, None, s)
   | Inr _ \<Rightarrow>
       let initial = (\<not> rt_remote_applied s \<and> rt_local_offer s = None)
       in if rt_signaling_lost s \<or> \<not> rt_signaling_open s then (Raised (new_rtc_error Signaling_lost None), None, s)
          else if sg = Have_local_offer then (Returned, rt_offer_settled s, s)
          else if sg \<noteq> Stable then (Returned, None, s)
          else if initial \<or> needs
          then (if \<not> initial \<and> \<not> ec_renegotiation (rt_caps s)
                then (Raised (new_rtc_error Negotiation_failed (Some ''The engine does not support renegotiation.'')), None, s)
                else (let n = rt_negotiations s + 1
                      in (Returned, Some n, begin_describe (Offering n initial) (s\<lparr>rt_negotiations := n\<rparr>))))
          else (Returned, None, s))"

definition offer_made :: "nat \<Rightarrow> bool \<Rightarrow> string awaited \<Rightarrow> runtime \<Rightarrow> outcome \<times> runtime" where
  "offer_made n initial r s = (case r of
     Awaited sdp \<Rightarrow>
       (let s = release_candidates (send_signal (Description_message sdp n) (s\<lparr>rt_local_offer := Some n, rt_offer_settled := Some n\<rparr>))
        in leave_lock Returned (if initial then s else set_timer ''answer'' Negotiation_timeout s))
   | _ \<Rightarrow> leave_lock (await_error Negotiation_failed r) (release_candidates s))"

definition renegotiate_if_needed :: "signaling_state \<Rightarrow> bool \<Rightarrow> runtime \<Rightarrow> outcome \<times> nat option \<times> runtime" where
  "renegotiate_if_needed sg needs s =
     (if \<not> rt_peer s \<or> rt_code s \<noteq> None \<or> sg \<noteq> Stable \<or> \<not> rt_remote_applied s \<or> \<not> needs then (Returned, None, s)
      else renegotiate sg needs s)"

section \<open>Tracks of the handlers\<close>

definition send_track ::
  "(nat \<Rightarrow> string option) \<Rightarrow> (nat \<Rightarrow> unit awaited) \<Rightarrow> nat \<Rightarrow> bool \<Rightarrow> runtime \<Rightarrow> outcome \<times> runtime" where
  \<comment> \<open>up to the renegotiation\<close>
  "send_track kind add native owned s = (case rbind (ensure_active s) (\<lambda>_. track_allowed kind native s) of
     Inl e \<Rightarrow> (Raised e, s)
   | Inr _ \<Rightarrow> (case enter s of
       Inl e \<Rightarrow> (Raised e, s)
     | Inr _ \<Rightarrow>
         (let s = (if owned then s\<lparr>rt_owned := (if native \<in> set (rt_owned s) then rt_owned s else rt_owned s @ [native])\<rparr> else s)
          in case add native of
               Awaited _ \<Rightarrow> (Returned,
                 s\<lparr>rt_outgoing := rt_outgoing s @ [\<lparr>ot_native = native, ot_owned = owned, ot_removed = False\<rparr>]\<rparr>)
             | r \<Rightarrow> (await_error Engine_failure r, s))))"

definition mark_removed :: "nat \<Rightarrow> runtime \<Rightarrow> runtime" where
  "mark_removed i s = s\<lparr>rt_outgoing := (rt_outgoing s)[i := (rt_outgoing s ! i)\<lparr>ot_removed := True\<rparr>]\<rparr>"

definition release_outgoing :: "nat \<Rightarrow> runtime \<Rightarrow> runtime" where
  "release_outgoing i s = (if ot_owned (rt_outgoing s ! i) then release_track (ot_native (rt_outgoing s ! i)) s else s)"

definition remove_track :: "nat \<Rightarrow> runtime \<Rightarrow> runtime" where
  \<comment> \<open>the handle's position; with a live peer the track is detached next, under the lock\<close>
  "remove_track i s =
     (if length (rt_outgoing s) \<le> i \<or> ot_removed (rt_outgoing s ! i) then s
      else (let s = mark_removed i s
            in if rt_peer s \<and> rt_code s = None then s else release_outgoing i s))"

definition detach_track :: "nat \<Rightarrow> runtime \<Rightarrow> runtime" where
  "detach_track i s = s\<lparr>rt_phase := Some (Removing i)\<rparr>"

definition track_removed :: "nat \<Rightarrow> unit awaited \<Rightarrow> runtime \<Rightarrow> outcome \<times> runtime" where
  "track_removed i r s = (case r of
     Awaited _ \<Rightarrow> leave_lock Returned (release_outgoing i s)
   | _ \<Rightarrow> leave_lock (case r of Await_cancelled \<Rightarrow> Was_cancelled | _ \<Rightarrow> Raised (new_rtc_error Engine_failure None)) s)"

section \<open>The reader\<close>

datatype client_message = Client_offer string nat | Client_answer string nat | Client_candidate "candidate option"

datatype frame = Frame_disconnect "int option" | Frame_binary | Frame_text string

definition read_frame ::
  "(string \<Rightarrow> client_message option) \<Rightarrow> signaling_state \<Rightarrow> frame \<Rightarrow> runtime \<Rightarrow> outcome \<times> runtime" where
  \<comment> \<open>one turn of \<open>_read\<close>; \<open>parse\<close> validates a message\<close>
  "read_frame parse sg f s = (case f of
     Frame_disconnect code \<Rightarrow> (Returned, on_disconnect code s)
   | Frame_binary \<Rightarrow> (Raised (new_rtc_error Protocol_error None), s)
   | Frame_text t \<Rightarrow>
       if sl_signal_bytes (rt_limits s) < int (length t) \<or> sl_signal_bytes (rt_limits s) < int (utf8_size t)
       then (Raised (new_rtc_error Message_too_large None), s)
       else (case parse t of
           None \<Rightarrow> (Raised (new_rtc_error Protocol_error None), s)
         | Some (Client_offer sdp n) \<Rightarrow> on_offer sdp n sg s
         | Some (Client_answer sdp n) \<Rightarrow> on_answer sdp n sg s
         | Some (Client_candidate c) \<Rightarrow> on_candidate c s))"

definition needs_lock :: "(string \<Rightarrow> client_message option) \<Rightarrow> frame \<Rightarrow> bool" where
  "needs_lock parse f = (case f of Frame_text t \<Rightarrow> parse t \<noteq> None | _ \<Rightarrow> False)"

end
