(* ===== verification/Rtc_Session.thy ===== *)
theory Rtc_Session
  imports Rtc_Negotiation
begin

text \<open>
  The life of a WebRTC session (\<open>runtime.py\<close>): accepting, starting up, transport state, incoming
  tracks, the start of the handlers, and cleanup. \<open>session_step\<close> lists what may happen next:
  engine callbacks, timers, results of awaited calls and calls of the handlers, in any order the
  lock and the running tasks allow.
\<close>

section \<open>Startup\<close>

definition subprotocol :: string where
  "subprotocol = ''fastapi-webrtc.v1''"

definition accept :: "string list \<Rightarrow> runtime \<Rightarrow> runtime" where
  \<comment> \<open>\<open>_accept\<close> and the synchronous part of \<open>_run\<close>\<close>
  "accept offered s =
     (let s = s\<lparr>rt_app_connected := True, rt_client_connected := True, rt_signaling_open := True\<rparr>
      in if offered \<noteq> [] \<and> subprotocol \<notin> set offered then terminate Unsupported_protocol s
         else spawn ''startup'' Engine_failure
           (set_timer ''negotiation'' Negotiation_timeout (emit Ev_admitted None None (s\<lparr>rt_accepted := True\<rparr>))))"

definition round_half_even :: "rat \<Rightarrow> int" where
  "round_half_even q =
     (let n = floor q; r = q - of_int n
      in if r < 1 / 2 then n else if r > 1 / 2 then n + 1 else if even n then n else n + 1)"

definition hello :: "string list \<Rightarrow> runtime \<Rightarrow> session_hello option" where
  \<comment> \<open>None: \<open>round\<close> refuses an infinite timeout or NaN\<close>
  "hello ice s =
     (let d = rt_decl s
      in case sl_negotiation (dl_limits d) of
           Fin q \<Rightarrow> Some \<lparr>hl_session = rt_id s, hl_name = dl_name d, hl_role = dl_role d, hl_ice = ice, hl_media = dl_media d,
             hl_channels = map (\<lambda>c. \<lparr>cd_name = cs_name c, cd_id = (case dict_get (channel_ids d) (cs_name c) of Some i \<Rightarrow> i | None \<Rightarrow> None),
                 cd_negotiated = cs_negotiated c, cd_ordered = cs_ordered c, cd_retransmits = cs_retransmits c,
                 cd_life_time = cs_life_time c, cd_max_bytes = max_message_bytes d c,
                 cd_receive = receive_format c, cd_send = send_format c\<rparr>) (dl_channels d),
             hl_timeout_ms = round_half_even (q * 1000), hl_signal_bytes = sl_signal_bytes (dl_limits d),
             hl_pending = sl_pending_candidates (dl_limits d), hl_capabilities = rt_caps s\<rparr>
         | _ \<Rightarrow> None)"

definition ice_resolved :: "bool \<Rightarrow> runtime \<Rightarrow> outcome" where
  "ice_resolved ok s =
     (if \<not> ok then Raised (new_rtc_error Handler_failure None)
      else case ensure_active s of Inl e \<Rightarrow> Raised e | Inr _ \<Rightarrow> Returned)"

fun create_channels :: "(channel_spec \<Rightarrow> bool awaited) \<Rightarrow> channel_spec list \<Rightarrow> runtime \<Rightarrow> outcome \<times> runtime" where
  \<comment> \<open>the engine's answer says whether the new channel is already open\<close>
  "create_channels create [] s = (Returned, s)"
| "create_channels create (c # cs) s =
     (if \<not> server_creates (rt_decl s) c then create_channels create cs s
      else case create c of
        Awaited ready \<Rightarrow> create_channels create cs (bind_channel (cs_name c) ready s)
      | r \<Rightarrow> (await_error Engine_failure r, s))"

definition receive_only_kinds :: "(nat \<Rightarrow> string option) \<Rightarrow> runtime \<Rightarrow> string list" where
  "receive_only_kinds kind s = filter (\<lambda>k. case media_direction (rt_media s) k of
       None \<Rightarrow> False
     | Some d \<Rightarrow> receives d \<and> \<not> (list_ex (\<lambda>t. kind (ot_native t) = Some k) (rt_outgoing s) \<and> d = Dir_both)) [''audio'', ''video'']"

fun add_transceivers :: "(string \<Rightarrow> unit awaited) \<Rightarrow> string list \<Rightarrow> outcome" where
  "add_transceivers transceiver [] = Returned"
| "add_transceivers transceiver (k # ks) = (case transceiver k of
     Awaited _ \<Rightarrow> add_transceivers transceiver ks | r \<Rightarrow> await_error Engine_failure r)"

definition prepare_peer ::
  "(channel_spec \<Rightarrow> bool awaited) \<Rightarrow> (nat \<Rightarrow> string option) \<Rightarrow> (nat \<Rightarrow> unit awaited) \<Rightarrow> (string \<Rightarrow> unit awaited) \<Rightarrow> runtime \<Rightarrow> outcome \<times> runtime" where
  "prepare_peer create kind add transceiver s = (case create_channels create (dl_channels (rt_decl s)) s of
     (Returned, s) \<Rightarrow>
       if dl_role (rt_decl s) = Offerer
       then (case attach_initial_tracks kind add s of
           (Returned, s) \<Rightarrow> (add_transceivers transceiver (receive_only_kinds kind s), s)
         | r \<Rightarrow> r)
       else (Returned, s)
   | r \<Rightarrow> r)"

definition peer_created ::
  "(channel_spec \<Rightarrow> bool awaited) \<Rightarrow> (nat \<Rightarrow> string option) \<Rightarrow> (nat \<Rightarrow> unit awaited) \<Rightarrow> (string \<Rightarrow> unit awaited) \<Rightarrow>
     unit awaited \<Rightarrow> runtime \<Rightarrow> outcome \<times> runtime" where
  \<comment> \<open>a peer that arrives after termination is closed at once\<close>
  "peer_created create kind add transceiver r s = (case r of
     Awaited _ \<Rightarrow>
       (let s = s\<lparr>rt_peer := True\<rparr>
        in case rt_code s of
             Some c \<Rightarrow> (Raised (Session_closed c), s\<lparr>rt_peer_closed := True\<rparr>)
           | None \<Rightarrow> prepare_peer create kind add transceiver s)
   | _ \<Rightarrow> (await_error Engine_failure r, s))"

definition hello_sent :: "string list \<Rightarrow> bool \<Rightarrow> runtime \<Rightarrow> outcome \<times> runtime" where
  "hello_sent ice ok s = (case hello ice s of
     None \<Rightarrow> (Raised (new_rtc_error Signaling_lost None), s)
   | Some h \<Rightarrow>
       if \<not> ok then (Raised (new_rtc_error Signaling_lost None), s)
       else (let s = spawn ''signaling-write'' Signaling_lost (spawn ''signaling-read'' Protocol_error
                       (s\<lparr>rt_wire := rt_wire s @ [Session_message h]\<rparr>))
             in (Returned, if dl_role (rt_decl s) = Offerer then spawn ''offer'' Negotiation_failed s else s)))"

section \<open>Transport and tracks\<close>

definition on_connection_state :: "connection_state \<Rightarrow> runtime \<Rightarrow> runtime" where
  "on_connection_state st s0 =
     (if rt_code s0 \<noteq> None then s0
      else (let s = s0\<lparr>rt_conn := st\<rparr>
            in case st of
                 Connected \<Rightarrow> check_established (cancel_timer ''transport'' (s\<lparr>rt_ever_connected := True\<rparr>))
               | Disconnected \<Rightarrow> set_timer ''transport'' Transport_lost s
               | Conn_failed \<Rightarrow>
                   if \<not> rt_ever_connected s then terminate Negotiation_failed s
                   else if ec_ice_restart (rt_caps s) then set_timer ''transport'' Transport_lost s
                   else terminate Transport_lost s
               | Conn_closed \<Rightarrow> terminate Transport_lost s
               | _ \<Rightarrow> s))"

definition dispatch_track :: "nat \<Rightarrow> runtime \<Rightarrow> runtime" where
  "dispatch_track i s =
     (if ss_on_track (rt_session s) then spawn_handler ''track'' s else spawn ''drain'' Engine_failure s)"

definition on_track :: "string \<Rightarrow> runtime \<Rightarrow> runtime" where
  \<comment> \<open>a refused track is stopped and never recorded\<close>
  "on_track k s =
     (if rt_code s \<noteq> None then s
      else case media_direction (rt_media s) k of
        None \<Rightarrow> terminate Media_rejected s
      | Some d \<Rightarrow>
          if \<not> receives d then terminate Media_rejected s
          else if mp_max_tracks (rt_media s) \<le> rt_counts s k then terminate Media_rejected s
          else (let i = length (rt_incoming s);
                    s = emit Ev_track None (Some k)
                      (s\<lparr>rt_counts := (rt_counts s)(k := rt_counts s k + 1),
                         rt_incoming := rt_incoming s @ [\<lparr>it_kind = k, it_counted = True, it_stopped = False\<rparr>]\<rparr>)
                in if rt_started s then dispatch_track i s else s\<lparr>rt_queued_tracks := rt_queued_tracks s @ [i]\<rparr>))"

definition track_ended :: "nat \<Rightarrow> runtime \<Rightarrow> runtime" where
  "track_ended i s =
     (if i < length (rt_incoming s) \<and> it_counted (rt_incoming s ! i)
      then s\<lparr>rt_counts := (rt_counts s)(it_kind (rt_incoming s ! i) := rt_counts s (it_kind (rt_incoming s ! i)) - 1),
             rt_incoming := (rt_incoming s)[i := (rt_incoming s ! i)\<lparr>it_counted := False\<rparr>]\<rparr>
      else s)"

section \<open>The start of the handlers\<close>

definition started_with :: "runtime \<Rightarrow> runtime" where
  \<comment> \<open>\<open>_begin\<close> after \<open>on_start\<close> returned\<close>
  "started_with s0 =
     (let s = emit Ev_ready None None (send_signal Ready_message (s0\<lparr>rt_started := True\<rparr>));
          s = fold (\<lambda>p. spawn_handler (''message:'' @ fst p)) (ss_handlers (rt_session s)) s;
          s = fold dispatch_track (rt_queued_tracks s) (s\<lparr>rt_queued_tracks := []\<rparr>);
          s = (if sl_media (rt_limits s) \<noteq> None then spawn ''media'' Engine_failure s else s)
      in if ss_run (rt_session s) then spawn_handler ''run'' s else s)"

definition start_done :: "outcome \<Rightarrow> runtime \<Rightarrow> runtime" where
  \<comment> \<open>\<open>_begin\<close> with what \<open>on_start\<close> came to, and the end of its task\<close>
  "start_done out s = (let s = task_ends ''start'' out s in if out = Returned then started_with s else s)"

definition expected_kinds :: "runtime \<Rightarrow> string list" where
  "expected_kinds s = filter (\<lambda>k. case media_direction (rt_media s) k of None \<Rightarrow> False | Some d \<Rightarrow> receives d) [''audio'', ''video'']"

definition watch_media :: "bool \<Rightarrow> (string \<Rightarrow> int) awaited \<Rightarrow> runtime \<Rightarrow> outcome option \<times> runtime" where
  \<comment> \<open>one poll of the statistics, or the deadline; None: it sleeps and polls again\<close>
  "watch_media late stats s =
     (if expected_kinds s = [] then (Some Returned, s)
      else if late then (Some Returned, terminate Media_timeout s)
      else case stats of
        Awaited received \<Rightarrow>
          if list_all (\<lambda>k. received k > 0) (expected_kinds s) then (Some Returned, emit Ev_media_ready None None s) else (None, s)
      | Await_raises _ \<Rightarrow> (Some (Raised (new_rtc_error Engine_failure None)), s)
      | Await_cancelled \<Rightarrow> (Some Was_cancelled, s))"

section \<open>Cleanup\<close>

definition close_signaling :: "error_code \<Rightarrow> runtime \<Rightarrow> runtime" where
  "close_signaling c s =
     (let s = s\<lparr>rt_signaling_open := False\<rparr>
      in if rt_app_connected s \<and> rt_client_connected s
         then s\<lparr>rt_close_frame := Some (close_code c, code_value c), rt_app_connected := False\<rparr> else s)"

definition final_code :: "runtime \<Rightarrow> error_code" where
  "final_code s = (case rt_code s of Some c \<Rightarrow> c | None \<Rightarrow> Closed)"

definition cleanup_begin :: "runtime \<Rightarrow> runtime" where
  "cleanup_begin s =
     (close_signaling (final_code s) (settle_offer (s\<lparr>rt_code := Some (final_code s), rt_timers := []\<rparr>)))
       \<lparr>rt_stage := Closing_signaling\<rparr>"

definition cancel_tasks :: "(string \<times> error_code) list \<Rightarrow> string list \<Rightarrow> runtime \<Rightarrow> runtime" where
  \<comment> \<open>the tasks that end are those not named; then \<open>on_close\<close> is called\<close>
  "cancel_tasks stuck stuck_handlers s =
     (let s = s\<lparr>rt_tasks := filter (\<lambda>t. t \<in> set stuck) (rt_tasks s), rt_handlers := filter (\<lambda>h. h \<in> set stuck_handlers) (rt_handlers s)\<rparr>;
          s = (if rt_tasks s = [] \<and> rt_handlers s = [] then s\<lparr>rt_phase := None, rt_held := None\<rparr> else s)
      in s\<lparr>rt_stage := Calling_close,
           rt_on_close_calls := rt_on_close_calls s @ (if ss_on_close (rt_session s) \<and> rt_accepted s then [final_code s] else [])\<rparr>)"

definition release_resources :: "runtime \<Rightarrow> runtime" where
  \<comment> \<open>whatever \<open>on_close\<close> came to: tracks, channels and the peer\<close>
  "release_resources s =
     (let s = s\<lparr>rt_incoming := map (\<lambda>t. t\<lparr>it_stopped := True\<rparr>) (rt_incoming s),
                rt_outgoing := map (\<lambda>t. t\<lparr>ot_removed := True\<rparr>) (rt_outgoing s)\<rparr>;
          s = fold release_track (rt_owned s) s
      in s\<lparr>rt_channels := map (\<lambda>(n, c). (n, c\<lparr>ch_closed := True, ch_drained := True, ch_stopped := ch_stopped c \<or> ch_engine c\<rparr>)) (rt_channels s),
           rt_peer_closed := rt_peer_closed s \<or> rt_peer s, rt_stage := Closing_peer\<rparr>)"

definition cleanup_end :: "runtime \<Rightarrow> runtime" where
  "cleanup_end s = (emit Ev_closed (Some (final_code s)) None (s\<lparr>rt_slots_held := False\<rparr>))\<lparr>rt_stage := Finished\<rparr>"

text \<open>How \<open>serve\<close> ended before its \<open>finally\<close>: \<open>_run\<close> returns once the session has terminated.\<close>

definition serve_ended :: "outcome \<Rightarrow> runtime \<Rightarrow> runtime" where
  "serve_ended out s = (case out of
     Returned \<Rightarrow> s
   | Was_cancelled \<Rightarrow> terminate Shutdown s
   | Raised e \<Rightarrow> terminate (error_code_of e) s
   | Crashed \<Rightarrow> terminate Engine_failure s)"

section \<open>Steps\<close>

definition task_result :: "string \<Rightarrow> outcome \<times> runtime \<Rightarrow> runtime" where
  \<comment> \<open>the task goes on, or it ended with what it raised\<close>
  "task_result n r = (case r of (Returned, s) \<Rightarrow> s | (out, s) \<Rightarrow> task_ends n out s)"

definition runs :: "string \<Rightarrow> runtime \<Rightarrow> bool" where
  "runs n s \<longleftrightarrow> dict_get (rt_tasks s) n \<noteq> None"

definition observed :: "runtime \<Rightarrow> bool" where
  \<comment> \<open>the engine has the observer: its peer is being created or exists\<close>
  "observed s \<longleftrightarrow> runs ''startup'' s \<or> rt_peer s"

abbreviation free :: "runtime \<Rightarrow> bool" where
  "free s \<equiv> rt_phase s = None"

text \<open>
  The steps of a session. A step of a task needs the task; a section under the lock starts only
  when the lock is free, and continues when its engine call is done. Engine answers, frames and
  what the application does are arbitrary. An error under the lock reaches the task that holds it
  (\<open>who\<close>) or, when a handler made the call, the handler.
\<close>

inductive session_step :: "runtime \<Rightarrow> runtime \<Rightarrow> bool" where
  step_accept: "\<not> rt_accepted s \<Longrightarrow> rt_code s = None \<Longrightarrow> session_step s (accept offered s)"
| step_ice: "runs ''startup'' s \<Longrightarrow> \<not> rt_peer s \<Longrightarrow> session_step s (task_result ''startup'' (ice_resolved ok s, s))"
| step_peer: "runs ''startup'' s \<Longrightarrow> \<not> rt_peer s \<Longrightarrow>
    session_step s (task_result ''startup'' (peer_created create kind add transceiver r s))"
| step_hello: "runs ''startup'' s \<Longrightarrow> rt_peer s \<Longrightarrow> hello_sent ice ok s = (out, s') \<Longrightarrow>
    session_step s (task_ends ''startup'' out s')"
| step_write: "runs ''signaling-write'' s \<Longrightarrow> session_step s (write_next w s)"
| step_read: "runs ''signaling-read'' s \<Longrightarrow> rt_client_connected s \<Longrightarrow> (needs_lock parse f \<longrightarrow> free s) \<Longrightarrow>
    session_step s (task_result ''signaling-read'' (read_frame parse sg f s))"
| step_offer: "rt_phase s = Some (Setting_offer sm n re) \<Longrightarrow>
    session_step s (task_result ''signaling-read'' (offer_applied kind add sm n re r s))"
| step_answer: "rt_phase s = Some (Answering n re) \<Longrightarrow>
    session_step s (task_result ''signaling-read'' (answer_made n re r2 s))"
| step_flush: "rt_phase s = Some (Flushing cs re) \<Longrightarrow>
    session_step s (task_result ''signaling-read'' (candidate_flushed cs re r s))"
| step_remote_answer: "rt_phase s = Some (Setting_answer sm re) \<Longrightarrow>
    session_step s (task_result ''signaling-read'' (answer_applied sm re r s))"
| step_candidate: "rt_phase s = Some (Adding c) \<Longrightarrow>
    session_step s (task_result ''signaling-read'' (candidate_added r s))"
| step_check: "runs ''signaling-read'' s \<Longrightarrow> free s \<Longrightarrow> renegotiate_if_needed sg needs s = (out, w2, s') \<Longrightarrow>
    session_step s (task_result ''signaling-read'' (out, s'))"
| step_renegotiate: "free s \<Longrightarrow> renegotiate sg needs s = (out, w2, s') \<Longrightarrow>
    session_step s (case who of Some n \<Rightarrow> task_result n (out, s') | None \<Rightarrow> s')"
| step_offering: "rt_phase s = Some (Offering n initial) \<Longrightarrow> offer_made n initial r2 s = (out, s') \<Longrightarrow>
    session_step s (case who of Some m \<Rightarrow> task_result m (out, s') | None \<Rightarrow> s')"
| step_send_track: "free s \<Longrightarrow> session_step s (snd (send_track kind add native owned s))"
| step_remove_track: "session_step s (remove_track i s)"
| step_detach: "free s \<Longrightarrow> rt_peer s \<Longrightarrow> i < length (rt_outgoing s) \<Longrightarrow> session_step s (detach_track i s)"
| step_detached: "rt_phase s = Some (Removing i) \<Longrightarrow> session_step s (snd (track_removed i r s))"
| step_local_candidate: "observed s \<Longrightarrow> session_step s (on_local_candidate c s)"
| step_connection: "observed s \<Longrightarrow> session_step s (on_connection_state st s)"
| step_track: "observed s \<Longrightarrow> session_step s (on_track k s)"
| step_track_ended: "observed s \<Longrightarrow> session_step s (track_ended i s)"
| step_channel: "observed s \<Longrightarrow> session_step s (on_remote_channel label ready s)"
| step_opened: "observed s \<Longrightarrow> session_step s (channel_opened n s)"
| step_closed: "observed s \<Longrightarrow> session_step s (channel_closed n s)"
| step_drained: "observed s \<Longrightarrow> session_step s (channel_drained n s)"
| step_message: "observed s \<Longrightarrow> session_step s (on_channel_message load n d s)"
| step_send: "send_message dump t m buffered late raises s = Inr (res, s') \<Longrightarrow> session_step s s'"
| step_next: "session_step s (snd (next_message n s))"
| step_poll: "session_step s (snd (next_poll n s))"
| step_consume: "session_step s (snd (consume_next n s))"
| step_started: "runs ''start'' s \<Longrightarrow> session_step s (start_done out s)"
| step_media: "runs ''media'' s \<Longrightarrow> watch_media late stats s = (res, s') \<Longrightarrow>
    session_step s (case res of None \<Rightarrow> s' | Some out \<Rightarrow> task_ends ''media'' out s')"
| step_task: "n \<noteq> ''start'' \<Longrightarrow> session_step s (task_ends n out s)"
| step_handler: "session_step s (handler_ends n out s)"
| step_timer: "session_step s (expire_timer n s)"
| step_close: "session_step s (terminate c s)"
| step_serve: "rt_stage s = Serving \<Longrightarrow> out \<noteq> Returned \<Longrightarrow> session_step s (serve_ended out s)"
| step_cleanup: "rt_stage s = Serving \<Longrightarrow> rt_code s \<noteq> None \<Longrightarrow> session_step s (cleanup_begin s)"
| step_cancel: "rt_stage s = Closing_signaling \<Longrightarrow> session_step s (cancel_tasks stuck stuck_handlers s)"
| step_release: "rt_stage s = Calling_close \<Longrightarrow> session_step s (release_resources s)"
| step_finish: "rt_stage s = Closing_peer \<Longrightarrow> session_step s (cleanup_end s)"

inductive session_reaches :: "runtime \<Rightarrow> runtime \<Rightarrow> bool" where
  reach_start: "session_reaches s s"
| reach_step: "session_reaches s t \<Longrightarrow> session_step t u \<Longrightarrow> session_reaches s u"

end
