(* ===== verification/Rtc_Safety.thy ===== *)
theory Rtc_Safety
  imports Rtc_Session
begin

text \<open>
  What every reachable state of a WebRTC session satisfies: bounded queues, held candidates,
  pending deadlines, counted tracks, the order of lifecycle events and the stages of cleanup.
  Every operation preserves the conjunction \<open>session_ok\<close>; the properties are read off it.
\<close>

section \<open>The invariant\<close>

named_theorems ok_parts

definition bounded :: "runtime \<Rightarrow> bool" where [ok_parts]:
  "bounded s \<longleftrightarrow>
     wf_dict (rt_channels s) \<and>
     (0 < sl_outbound (rt_limits s) \<longrightarrow> int (length (rt_outbound s)) \<le> sl_outbound (rt_limits s)) \<and>
     (0 \<le> sl_pending_candidates (rt_limits s) \<longrightarrow> int (length (rt_pending s)) \<le> sl_pending_candidates (rt_limits s)) \<and>
     (0 < sl_queued (rt_limits s) \<longrightarrow> (\<forall>(n, c)\<in>set (rt_channels s). int (length (ch_queue c)) \<le> sl_queued (rt_limits s)))"

definition describing :: "phase option \<Rightarrow> bool" where
  "describing p = (case p of Some (Answering _ _) \<Rightarrow> True | Some (Offering _ _) \<Rightarrow> True | _ \<Rightarrow> False)"

definition held_while_describing :: "runtime \<Rightarrow> bool" where [ok_parts]:
  "held_while_describing s \<longleftrightarrow> (rt_held s \<noteq> None \<longleftrightarrow> describing (rt_phase s))"

definition deadlines :: "runtime \<Rightarrow> bool" where [ok_parts]:
  "deadlines s \<longleftrightarrow> (rt_code s = None \<longrightarrow>
     (rt_accepted s \<longrightarrow> rt_established s \<or> dict_get (rt_timers s) ''negotiation'' = Some Negotiation_timeout) \<and>
     (rt_conn s = Disconnected \<longrightarrow> dict_get (rt_timers s) ''transport'' = Some Transport_lost) \<and>
     (rt_signaling_lost s \<longrightarrow> dict_get (rt_timers s) ''signaling'' = Some Signaling_lost))"

definition live_tracks :: "string \<Rightarrow> in_track list \<Rightarrow> int" where
  "live_tracks k ts = int (length (filter (\<lambda>t. it_kind t = k \<and> it_counted t) ts))"

definition tracks_counted :: "runtime \<Rightarrow> bool" where [ok_parts]:
  "tracks_counted s \<longleftrightarrow>
     (\<forall>k. live_tracks k (rt_incoming s) = rt_counts s k \<and>
          (0 \<le> mp_max_tracks (rt_media s) \<longrightarrow> rt_counts s k \<le> mp_max_tracks (rt_media s)))"

definition life_events :: "runtime \<Rightarrow> event_kind list" where
  "life_events s = filter (\<lambda>k. k \<in> {Ev_admitted, Ev_connected, Ev_ready}) (map ev_kind (rt_events s))"

definition closed_events :: "runtime \<Rightarrow> error_code option list" where
  "closed_events s = map ev_code (filter (\<lambda>e. ev_kind e = Ev_closed) (rt_events s))"

definition starts_once :: "runtime \<Rightarrow> bool" where [ok_parts]:
  "starts_once s \<longleftrightarrow>
     length (filter (\<lambda>t. fst t = ''start'') (rt_tasks s)) + (if rt_started s then 1 else 0) \<le> (if rt_established s then 1 else (0::nat)) \<and>
     (rt_established s \<or> rt_peer s \<or> runs ''startup'' s \<longrightarrow> rt_accepted s)"

definition events_ordered :: "runtime \<Rightarrow> bool" where [ok_parts]:
  "events_ordered s \<longleftrightarrow> (rt_hook s \<longrightarrow>
     life_events s = (if rt_accepted s then [Ev_admitted] else []) @ (if rt_established s then [Ev_connected] else []) @
       (if rt_started s then [Ev_ready] else []) \<and>
     closed_events s = (if rt_stage s = Finished then [rt_code s] else []))"

definition closing :: "runtime \<Rightarrow> bool" where [ok_parts]:
  "closing s \<longleftrightarrow>
     (rt_stage s \<noteq> Serving \<longrightarrow> rt_code s \<noteq> None \<and> \<not> rt_signaling_open s) \<and>
     (rt_slots_held s \<longleftrightarrow> rt_stage s \<noteq> Finished) \<and>
     rt_on_close_calls s = (if rt_stage s \<in> {Calling_close, Closing_peer, Finished} \<and> ss_on_close (rt_session s) \<and> rt_accepted s
       then [final_code s] else []) \<and>
     (rt_close_frame s \<noteq> None \<longrightarrow> rt_stage s \<noteq> Serving \<and> rt_close_frame s = Some (close_code (final_code s), code_value (final_code s)))"

definition released :: "runtime \<Rightarrow> bool" where [ok_parts]:
  "released s \<longleftrightarrow>
     set (ss_tracks (rt_session s)) \<subseteq> set (rt_owned s) \<union> set (rt_stopped s) \<and>
     (rt_stage s \<in> {Closing_peer, Finished} \<longrightarrow>
       rt_owned s = [] \<and> (\<forall>t\<in>set (rt_incoming s). it_stopped t) \<and> (\<forall>(n, c)\<in>set (rt_channels s). ch_closed c) \<and>
       (rt_peer s \<longrightarrow> rt_peer_closed s))"

definition core_ok :: "runtime \<Rightarrow> bool" where
  "core_ok s \<longleftrightarrow> bounded s \<and> deadlines s \<and> tracks_counted s \<and> starts_once s \<and> events_ordered s \<and> closing s \<and> released s"

definition session_ok :: "runtime \<Rightarrow> bool" where
  "session_ok s \<longleftrightarrow> core_ok s \<and> held_while_describing s"

text \<open>Each part depends on few fields.\<close>

lemma bounded_frame [simp]:
  "bounded (rt_code_update f5 s) = bounded s" "bounded (rt_accepted_update f6 s) = bounded s"
  "bounded (rt_signaling_open_update f7 s) = bounded s" "bounded (rt_signaling_lost_update f8 s) = bounded s"
  "bounded (rt_app_connected_update f9 s) = bounded s" "bounded (rt_client_connected_update f10 s) = bounded s"
  "bounded (rt_close_frame_update f11 s) = bounded s" "bounded (rt_peer_update f12 s) = bounded s"
  "bounded (rt_conn_update f13 s) = bounded s" "bounded (rt_established_update f15 s) = bounded s"
  "bounded (rt_started_update f16 s) = bounded s" "bounded (rt_wire_update f18 s) = bounded s"
  "bounded (rt_phase_update f19 s) = bounded s" "bounded (rt_held_update f20 s) = bounded s"
  "bounded (rt_remote_applied_update f22 s) = bounded s" "bounded (rt_ufrags_update f23 s) = bounded s"
  "bounded (rt_ignored_offer_update f24 s) = bounded s" "bounded (rt_negotiations_update f25 s) = bounded s"
  "bounded (rt_local_offer_update f26 s) = bounded s" "bounded (rt_offer_settled_update f27 s) = bounded s"
  "bounded (rt_settled_update f28 s) = bounded s" "bounded (rt_attached_update f29 s) = bounded s"
  "bounded (rt_timers_update f30 s) = bounded s" "bounded (rt_tasks_update f31 s) = bounded s"
  "bounded (rt_handlers_update f32 s) = bounded s" "bounded (rt_incoming_update f33 s) = bounded s"
  "bounded (rt_counts_update f34 s) = bounded s" "bounded (rt_queued_tracks_update f35 s) = bounded s"
  "bounded (rt_outgoing_update f36 s) = bounded s" "bounded (rt_owned_update f37 s) = bounded s"
  "bounded (rt_stopped_update f38 s) = bounded s" "bounded (rt_events_update f40 s) = bounded s"
  "bounded (rt_slots_held_update f41 s) = bounded s" "bounded (rt_on_close_calls_update f42 s) = bounded s"
  "bounded (rt_peer_closed_update f43 s) = bounded s" "bounded (rt_stage_update f44 s) = bounded s"
  "bounded (rt_ever_connected_update f s) = bounded s"
  by (simp_all add: bounded_def cong: if_cong split del: if_split)

lemma held_while_describing_frame [simp]:
  "held_while_describing (rt_code_update f5 s) = held_while_describing s"
  "held_while_describing (rt_accepted_update f6 s) = held_while_describing s"
  "held_while_describing (rt_signaling_open_update f7 s) = held_while_describing s"
  "held_while_describing (rt_signaling_lost_update f8 s) = held_while_describing s"
  "held_while_describing (rt_app_connected_update f9 s) = held_while_describing s"
  "held_while_describing (rt_client_connected_update f10 s) = held_while_describing s"
  "held_while_describing (rt_close_frame_update f11 s) = held_while_describing s"
  "held_while_describing (rt_peer_update f12 s) = held_while_describing s"
  "held_while_describing (rt_conn_update f13 s) = held_while_describing s"
  "held_while_describing (rt_established_update f15 s) = held_while_describing s"
  "held_while_describing (rt_started_update f16 s) = held_while_describing s"
  "held_while_describing (rt_outbound_update f17 s) = held_while_describing s"
  "held_while_describing (rt_wire_update f18 s) = held_while_describing s"
  "held_while_describing (rt_pending_update f21 s) = held_while_describing s"
  "held_while_describing (rt_remote_applied_update f22 s) = held_while_describing s"
  "held_while_describing (rt_ufrags_update f23 s) = held_while_describing s"
  "held_while_describing (rt_ignored_offer_update f24 s) = held_while_describing s"
  "held_while_describing (rt_negotiations_update f25 s) = held_while_describing s"
  "held_while_describing (rt_local_offer_update f26 s) = held_while_describing s"
  "held_while_describing (rt_offer_settled_update f27 s) = held_while_describing s"
  "held_while_describing (rt_settled_update f28 s) = held_while_describing s"
  "held_while_describing (rt_attached_update f29 s) = held_while_describing s"
  "held_while_describing (rt_timers_update f30 s) = held_while_describing s"
  "held_while_describing (rt_tasks_update f31 s) = held_while_describing s"
  "held_while_describing (rt_handlers_update f32 s) = held_while_describing s"
  "held_while_describing (rt_incoming_update f33 s) = held_while_describing s"
  "held_while_describing (rt_counts_update f34 s) = held_while_describing s"
  "held_while_describing (rt_queued_tracks_update f35 s) = held_while_describing s"
  "held_while_describing (rt_outgoing_update f36 s) = held_while_describing s"
  "held_while_describing (rt_owned_update f37 s) = held_while_describing s"
  "held_while_describing (rt_stopped_update f38 s) = held_while_describing s"
  "held_while_describing (rt_channels_update f39 s) = held_while_describing s"
  "held_while_describing (rt_events_update f40 s) = held_while_describing s"
  "held_while_describing (rt_slots_held_update f41 s) = held_while_describing s"
  "held_while_describing (rt_on_close_calls_update f42 s) = held_while_describing s"
  "held_while_describing (rt_peer_closed_update f43 s) = held_while_describing s"
  "held_while_describing (rt_stage_update f44 s) = held_while_describing s"
  "held_while_describing (rt_ever_connected_update f s) = held_while_describing s"
  by (simp_all add: held_while_describing_def cong: if_cong split del: if_split)

lemma deadlines_frame [simp]:
  "deadlines (rt_signaling_open_update f7 s) = deadlines s" "deadlines (rt_app_connected_update f9 s) = deadlines s"
  "deadlines (rt_client_connected_update f10 s) = deadlines s" "deadlines (rt_close_frame_update f11 s) = deadlines s"
  "deadlines (rt_peer_update f12 s) = deadlines s" "deadlines (rt_started_update f16 s) = deadlines s"
  "deadlines (rt_outbound_update f17 s) = deadlines s" "deadlines (rt_wire_update f18 s) = deadlines s"
  "deadlines (rt_phase_update f19 s) = deadlines s" "deadlines (rt_held_update f20 s) = deadlines s"
  "deadlines (rt_pending_update f21 s) = deadlines s" "deadlines (rt_remote_applied_update f22 s) = deadlines s"
  "deadlines (rt_ufrags_update f23 s) = deadlines s" "deadlines (rt_ignored_offer_update f24 s) = deadlines s"
  "deadlines (rt_negotiations_update f25 s) = deadlines s" "deadlines (rt_local_offer_update f26 s) = deadlines s"
  "deadlines (rt_offer_settled_update f27 s) = deadlines s" "deadlines (rt_settled_update f28 s) = deadlines s"
  "deadlines (rt_attached_update f29 s) = deadlines s" "deadlines (rt_tasks_update f31 s) = deadlines s"
  "deadlines (rt_handlers_update f32 s) = deadlines s" "deadlines (rt_incoming_update f33 s) = deadlines s"
  "deadlines (rt_counts_update f34 s) = deadlines s" "deadlines (rt_queued_tracks_update f35 s) = deadlines s"
  "deadlines (rt_outgoing_update f36 s) = deadlines s" "deadlines (rt_owned_update f37 s) = deadlines s"
  "deadlines (rt_stopped_update f38 s) = deadlines s" "deadlines (rt_channels_update f39 s) = deadlines s"
  "deadlines (rt_events_update f40 s) = deadlines s" "deadlines (rt_slots_held_update f41 s) = deadlines s"
  "deadlines (rt_on_close_calls_update f42 s) = deadlines s" "deadlines (rt_peer_closed_update f43 s) = deadlines s"
  "deadlines (rt_stage_update f44 s) = deadlines s" "deadlines (rt_ever_connected_update f s) = deadlines s"
  by (simp_all add: deadlines_def cong: if_cong split del: if_split)

lemma tracks_counted_frame [simp]:
  "tracks_counted (rt_code_update f5 s) = tracks_counted s" "tracks_counted (rt_accepted_update f6 s) = tracks_counted s"
  "tracks_counted (rt_signaling_open_update f7 s) = tracks_counted s"
  "tracks_counted (rt_signaling_lost_update f8 s) = tracks_counted s"
  "tracks_counted (rt_app_connected_update f9 s) = tracks_counted s"
  "tracks_counted (rt_client_connected_update f10 s) = tracks_counted s"
  "tracks_counted (rt_close_frame_update f11 s) = tracks_counted s" "tracks_counted (rt_peer_update f12 s) = tracks_counted s"
  "tracks_counted (rt_conn_update f13 s) = tracks_counted s" "tracks_counted (rt_established_update f15 s) = tracks_counted s"
  "tracks_counted (rt_started_update f16 s) = tracks_counted s" "tracks_counted (rt_outbound_update f17 s) = tracks_counted s"
  "tracks_counted (rt_wire_update f18 s) = tracks_counted s" "tracks_counted (rt_phase_update f19 s) = tracks_counted s"
  "tracks_counted (rt_held_update f20 s) = tracks_counted s" "tracks_counted (rt_pending_update f21 s) = tracks_counted s"
  "tracks_counted (rt_remote_applied_update f22 s) = tracks_counted s"
  "tracks_counted (rt_ufrags_update f23 s) = tracks_counted s"
  "tracks_counted (rt_ignored_offer_update f24 s) = tracks_counted s"
  "tracks_counted (rt_negotiations_update f25 s) = tracks_counted s"
  "tracks_counted (rt_local_offer_update f26 s) = tracks_counted s"
  "tracks_counted (rt_offer_settled_update f27 s) = tracks_counted s"
  "tracks_counted (rt_settled_update f28 s) = tracks_counted s" "tracks_counted (rt_attached_update f29 s) = tracks_counted s"
  "tracks_counted (rt_timers_update f30 s) = tracks_counted s" "tracks_counted (rt_tasks_update f31 s) = tracks_counted s"
  "tracks_counted (rt_handlers_update f32 s) = tracks_counted s"
  "tracks_counted (rt_queued_tracks_update f35 s) = tracks_counted s"
  "tracks_counted (rt_outgoing_update f36 s) = tracks_counted s" "tracks_counted (rt_owned_update f37 s) = tracks_counted s"
  "tracks_counted (rt_stopped_update f38 s) = tracks_counted s" "tracks_counted (rt_channels_update f39 s) = tracks_counted s"
  "tracks_counted (rt_events_update f40 s) = tracks_counted s" "tracks_counted (rt_slots_held_update f41 s) = tracks_counted s"
  "tracks_counted (rt_on_close_calls_update f42 s) = tracks_counted s"
  "tracks_counted (rt_peer_closed_update f43 s) = tracks_counted s" "tracks_counted (rt_stage_update f44 s) = tracks_counted s"
  "tracks_counted (rt_ever_connected_update f s) = tracks_counted s"
  by (simp_all add: tracks_counted_def cong: if_cong split del: if_split)

lemma starts_once_frame [simp]:
  "starts_once (rt_code_update f5 s) = starts_once s" "starts_once (rt_signaling_open_update f7 s) = starts_once s"
  "starts_once (rt_signaling_lost_update f8 s) = starts_once s" "starts_once (rt_app_connected_update f9 s) = starts_once s"
  "starts_once (rt_client_connected_update f10 s) = starts_once s" "starts_once (rt_close_frame_update f11 s) = starts_once s"
  "starts_once (rt_conn_update f13 s) = starts_once s" "starts_once (rt_outbound_update f17 s) = starts_once s"
  "starts_once (rt_wire_update f18 s) = starts_once s" "starts_once (rt_phase_update f19 s) = starts_once s"
  "starts_once (rt_held_update f20 s) = starts_once s" "starts_once (rt_pending_update f21 s) = starts_once s"
  "starts_once (rt_remote_applied_update f22 s) = starts_once s" "starts_once (rt_ufrags_update f23 s) = starts_once s"
  "starts_once (rt_ignored_offer_update f24 s) = starts_once s" "starts_once (rt_negotiations_update f25 s) = starts_once s"
  "starts_once (rt_local_offer_update f26 s) = starts_once s" "starts_once (rt_offer_settled_update f27 s) = starts_once s"
  "starts_once (rt_settled_update f28 s) = starts_once s" "starts_once (rt_attached_update f29 s) = starts_once s"
  "starts_once (rt_timers_update f30 s) = starts_once s" "starts_once (rt_handlers_update f32 s) = starts_once s"
  "starts_once (rt_incoming_update f33 s) = starts_once s" "starts_once (rt_counts_update f34 s) = starts_once s"
  "starts_once (rt_queued_tracks_update f35 s) = starts_once s" "starts_once (rt_outgoing_update f36 s) = starts_once s"
  "starts_once (rt_owned_update f37 s) = starts_once s" "starts_once (rt_stopped_update f38 s) = starts_once s"
  "starts_once (rt_channels_update f39 s) = starts_once s" "starts_once (rt_events_update f40 s) = starts_once s"
  "starts_once (rt_slots_held_update f41 s) = starts_once s" "starts_once (rt_on_close_calls_update f42 s) = starts_once s"
  "starts_once (rt_peer_closed_update f43 s) = starts_once s" "starts_once (rt_stage_update f44 s) = starts_once s"
  "starts_once (rt_ever_connected_update f s) = starts_once s"
  by (simp_all add: starts_once_def runs_def cong: if_cong split del: if_split)

lemma events_ordered_frame [simp]:
  "events_ordered (rt_signaling_open_update f7 s) = events_ordered s"
  "events_ordered (rt_signaling_lost_update f8 s) = events_ordered s"
  "events_ordered (rt_app_connected_update f9 s) = events_ordered s"
  "events_ordered (rt_client_connected_update f10 s) = events_ordered s"
  "events_ordered (rt_close_frame_update f11 s) = events_ordered s" "events_ordered (rt_peer_update f12 s) = events_ordered s"
  "events_ordered (rt_conn_update f13 s) = events_ordered s" "events_ordered (rt_outbound_update f17 s) = events_ordered s"
  "events_ordered (rt_wire_update f18 s) = events_ordered s" "events_ordered (rt_phase_update f19 s) = events_ordered s"
  "events_ordered (rt_held_update f20 s) = events_ordered s" "events_ordered (rt_pending_update f21 s) = events_ordered s"
  "events_ordered (rt_remote_applied_update f22 s) = events_ordered s"
  "events_ordered (rt_ufrags_update f23 s) = events_ordered s"
  "events_ordered (rt_ignored_offer_update f24 s) = events_ordered s"
  "events_ordered (rt_negotiations_update f25 s) = events_ordered s"
  "events_ordered (rt_local_offer_update f26 s) = events_ordered s"
  "events_ordered (rt_offer_settled_update f27 s) = events_ordered s"
  "events_ordered (rt_settled_update f28 s) = events_ordered s" "events_ordered (rt_attached_update f29 s) = events_ordered s"
  "events_ordered (rt_timers_update f30 s) = events_ordered s" "events_ordered (rt_tasks_update f31 s) = events_ordered s"
  "events_ordered (rt_handlers_update f32 s) = events_ordered s" "events_ordered (rt_incoming_update f33 s) = events_ordered s"
  "events_ordered (rt_counts_update f34 s) = events_ordered s"
  "events_ordered (rt_queued_tracks_update f35 s) = events_ordered s"
  "events_ordered (rt_outgoing_update f36 s) = events_ordered s" "events_ordered (rt_owned_update f37 s) = events_ordered s"
  "events_ordered (rt_stopped_update f38 s) = events_ordered s" "events_ordered (rt_channels_update f39 s) = events_ordered s"
  "events_ordered (rt_slots_held_update f41 s) = events_ordered s"
  "events_ordered (rt_on_close_calls_update f42 s) = events_ordered s"
  "events_ordered (rt_peer_closed_update f43 s) = events_ordered s"
  "events_ordered (rt_ever_connected_update f s) = events_ordered s"
  by (simp_all add: events_ordered_def life_events_def closed_events_def cong: if_cong split del: if_split)

lemma closing_frame [simp]:
  "closing (rt_signaling_lost_update f8 s) = closing s" "closing (rt_app_connected_update f9 s) = closing s"
  "closing (rt_client_connected_update f10 s) = closing s" "closing (rt_peer_update f12 s) = closing s"
  "closing (rt_conn_update f13 s) = closing s" "closing (rt_established_update f15 s) = closing s"
  "closing (rt_started_update f16 s) = closing s" "closing (rt_outbound_update f17 s) = closing s"
  "closing (rt_wire_update f18 s) = closing s" "closing (rt_phase_update f19 s) = closing s"
  "closing (rt_held_update f20 s) = closing s" "closing (rt_pending_update f21 s) = closing s"
  "closing (rt_remote_applied_update f22 s) = closing s" "closing (rt_ufrags_update f23 s) = closing s"
  "closing (rt_ignored_offer_update f24 s) = closing s" "closing (rt_negotiations_update f25 s) = closing s"
  "closing (rt_local_offer_update f26 s) = closing s" "closing (rt_offer_settled_update f27 s) = closing s"
  "closing (rt_settled_update f28 s) = closing s" "closing (rt_attached_update f29 s) = closing s"
  "closing (rt_timers_update f30 s) = closing s" "closing (rt_tasks_update f31 s) = closing s"
  "closing (rt_handlers_update f32 s) = closing s" "closing (rt_incoming_update f33 s) = closing s"
  "closing (rt_counts_update f34 s) = closing s" "closing (rt_queued_tracks_update f35 s) = closing s"
  "closing (rt_outgoing_update f36 s) = closing s" "closing (rt_owned_update f37 s) = closing s"
  "closing (rt_stopped_update f38 s) = closing s" "closing (rt_channels_update f39 s) = closing s"
  "closing (rt_events_update f40 s) = closing s" "closing (rt_peer_closed_update f43 s) = closing s"
  "closing (rt_ever_connected_update f s) = closing s"
  by (simp_all add: closing_def final_code_def cong: if_cong split del: if_split)

lemma released_frame [simp]:
  "released (rt_code_update f5 s) = released s" "released (rt_accepted_update f6 s) = released s"
  "released (rt_signaling_open_update f7 s) = released s" "released (rt_signaling_lost_update f8 s) = released s"
  "released (rt_app_connected_update f9 s) = released s" "released (rt_client_connected_update f10 s) = released s"
  "released (rt_close_frame_update f11 s) = released s" "released (rt_conn_update f13 s) = released s"
  "released (rt_established_update f15 s) = released s" "released (rt_started_update f16 s) = released s"
  "released (rt_outbound_update f17 s) = released s" "released (rt_wire_update f18 s) = released s"
  "released (rt_phase_update f19 s) = released s" "released (rt_held_update f20 s) = released s"
  "released (rt_pending_update f21 s) = released s" "released (rt_remote_applied_update f22 s) = released s"
  "released (rt_ufrags_update f23 s) = released s" "released (rt_ignored_offer_update f24 s) = released s"
  "released (rt_negotiations_update f25 s) = released s" "released (rt_local_offer_update f26 s) = released s"
  "released (rt_offer_settled_update f27 s) = released s" "released (rt_settled_update f28 s) = released s"
  "released (rt_attached_update f29 s) = released s" "released (rt_timers_update f30 s) = released s"
  "released (rt_tasks_update f31 s) = released s" "released (rt_handlers_update f32 s) = released s"
  "released (rt_counts_update f34 s) = released s" "released (rt_queued_tracks_update f35 s) = released s"
  "released (rt_outgoing_update f36 s) = released s" "released (rt_events_update f40 s) = released s"
  "released (rt_slots_held_update f41 s) = released s" "released (rt_on_close_calls_update f42 s) = released s"
  "released (rt_ever_connected_update f s) = released s"
  by (simp_all add: released_def cong: if_cong split del: if_split)

section \<open>Basic operations\<close>

lemma core_code: "core_ok s \<Longrightarrow> rt_code s = None \<Longrightarrow> core_ok (s\<lparr>rt_code := Some c\<rparr>)"
  by (auto simp: core_ok_def deadlines_def events_ordered_def closing_def final_code_def life_events_def closed_events_def)

lemma core_terminate [intro]: "core_ok s \<Longrightarrow> core_ok (terminate c s)"
  by (simp add: terminate_def core_code)

lemma core_outbound: "core_ok s \<Longrightarrow>
    (0 < sl_outbound (rt_limits s) \<longrightarrow> int (length ms) \<le> sl_outbound (rt_limits s)) \<Longrightarrow> core_ok (s\<lparr>rt_outbound := ms\<rparr>)"
  by (simp add: core_ok_def) (simp add: bounded_def)

lemma core_send [intro]: "core_ok s \<Longrightarrow> core_ok (send_signal m s)"
  by (auto simp: send_signal_def intro!: core_outbound)

lemma core_report [intro]: "core_ok s \<Longrightarrow> core_ok (report c n s)"
  by (auto simp: report_def)

lemma core_emit: "core_ok s \<Longrightarrow> k \<notin> {Ev_admitted, Ev_connected, Ev_ready, Ev_closed} \<Longrightarrow> core_ok (emit k c m s)"
  by (auto simp: emit_def core_ok_def) (auto simp: events_ordered_def life_events_def closed_events_def)

lemma core_timer: "core_ok s \<Longrightarrow> (n, c) \<in> {(''negotiation'', Negotiation_timeout), (''answer'', Negotiation_timeout),
    (''transport'', Transport_lost), (''signaling'', Signaling_lost)} \<Longrightarrow> core_ok (set_timer n c s)"
  by (auto simp: set_timer_def core_ok_def) (auto simp: deadlines_def dict_simps)

lemma core_cancel: "core_ok s \<Longrightarrow> n = ''answer'' \<or> n = ''transport'' \<and> rt_conn s \<noteq> Disconnected \<Longrightarrow> core_ok (cancel_timer n s)"
  by (auto simp: cancel_timer_def core_ok_def) (auto simp: deadlines_def dict_simps)

lemma core_expire [intro]: "core_ok s \<Longrightarrow> core_ok (expire_timer n s)"
proof (cases "rt_code s")
  case None
  assume s: "core_ok s"
  have "core_ok (s\<lparr>rt_code := Some c, rt_timers := ts\<rparr>)" for c ts
    using core_code [OF s None, of c] by (simp add: core_ok_def) (simp add: deadlines_def)
  moreover have "s\<lparr>rt_timers := ts, rt_code := c\<rparr> = s\<lparr>rt_code := c, rt_timers := ts\<rparr>" for c ts by simp
  ultimately have "core_ok (s\<lparr>rt_timers := ts, rt_code := Some c\<rparr>)" for c ts by metis
  then show ?thesis using s None by (simp add: expire_timer_def terminate_def split: option.split)
next
  case (Some c)
  assume "core_ok s"
  then show ?thesis using Some
    by (auto simp: expire_timer_def terminate_def core_ok_def deadlines_def split: option.split)
qed

lemma core_tasks: "core_ok s \<Longrightarrow> length (filter (\<lambda>t. fst t = ''start'') ts) \<le> length (filter (\<lambda>t. fst t = ''start'') (rt_tasks s)) \<Longrightarrow>
    (dict_get ts ''startup'' \<noteq> None \<Longrightarrow> rt_accepted s) \<Longrightarrow> core_ok (s\<lparr>rt_tasks := ts\<rparr>)"
  by (simp add: core_ok_def) (auto simp: starts_once_def runs_def split: if_splits)

lemma core_spawn: "core_ok s \<Longrightarrow> n \<noteq> ''start'' \<Longrightarrow> n \<noteq> ''startup'' \<Longrightarrow> core_ok (spawn n c s)"
  unfolding spawn_def
  by (rule core_tasks) (auto simp: core_ok_def starts_once_def runs_def map_add_def split: option.splits)

lemma core_handler [simp]: "core_ok (spawn_handler n s) = core_ok s"
  by (simp add: core_ok_def spawn_handler_def)

lemma core_guard [intro]: "core_ok s \<Longrightarrow> core_ok (guard f out s)"
  by (auto simp: guard_def split: outcome.split rtc_error.split)

lemma guard_tasks [simp]: "rt_tasks (guard f out s) = rt_tasks s" "rt_accepted (guard f out s) = rt_accepted s"
  by (auto simp: guard_def terminate_def split: outcome.split rtc_error.split)

lemma map_of_remove1: "map_of (remove1 (n, c) ts) m = Some d \<Longrightarrow> \<exists>d. map_of ts m = Some d"
  by (metis map_of_SomeD not_None_eq notin_set_remove1 weak_map_of_SomeI)

lemma core_task_ends [intro]: "core_ok s \<Longrightarrow> core_ok (task_ends n out s)"
proof -
  assume s: "core_ok s"
  have "core_ok ((guard f out s)\<lparr>rt_tasks := remove1 (n, f) (rt_tasks s)\<rparr>)" for f
  proof (rule core_tasks)
    show "length (filter (\<lambda>t. fst t = ''start'') (remove1 (n, f) (rt_tasks s))) \<le>
        length (filter (\<lambda>t. fst t = ''start'') (rt_tasks (guard f out s)))"
      by (simp add: filter_remove1 length_remove1)
    show "rt_accepted (guard f out s)" if "dict_get (remove1 (n, f) (rt_tasks s)) ''startup'' \<noteq> None"
      using that s map_of_remove1 by (fastforce simp: core_ok_def starts_once_def runs_def)
  qed (use s in blast)
  with s show ?thesis by (simp add: task_ends_def split: option.split)
qed

lemma core_handler_ends [intro]: "core_ok s \<Longrightarrow> core_ok (handler_ends n out s)"
proof -
  assume "core_ok s"
  then have "core_ok (if n = ''run'' \<and> out = Returned then terminate Closed s else guard Handler_failure out s)" by auto
  then show ?thesis using \<open>core_ok s\<close> by (simp add: handler_ends_def Let_def core_ok_def)
qed

lemma core_task_result [intro]: "core_ok (snd r) \<Longrightarrow> core_ok (task_result n r)"
  by (auto simp: task_result_def split: prod.split outcome.split)

lemma core_frame [simp]:
  "core_ok (rt_held_update f1 s) = core_ok s" "core_ok (rt_phase_update f2 s) = core_ok s"
  "core_ok (rt_app_connected_update f3 s) = core_ok s" "core_ok (rt_client_connected_update f3 s) = core_ok s"
  "core_ok (rt_wire_update f4 s) = core_ok s" "core_ok (rt_remote_applied_update f3 s) = core_ok s"
  "core_ok (rt_ufrags_update f5 s) = core_ok s" "core_ok (rt_ignored_offer_update f3 s) = core_ok s"
  "core_ok (rt_negotiations_update f6 s) = core_ok s" "core_ok (rt_local_offer_update f7 s) = core_ok s"
  "core_ok (rt_offer_settled_update f7 s) = core_ok s" "core_ok (rt_settled_update f8 s) = core_ok s"
  "core_ok (rt_attached_update f3 s) = core_ok s" "core_ok (rt_handlers_update f9 s) = core_ok s"
  "core_ok (rt_queued_tracks_update f8 s) = core_ok s" "core_ok (rt_outgoing_update f10 s) = core_ok s"
  by (simp_all add: core_ok_def)

lemma core_candidate [intro]: "core_ok s \<Longrightarrow> core_ok (send_candidate c s)"
  by (auto simp: send_candidate_def split: option.split)

lemma core_release_candidates [intro]: "core_ok s \<Longrightarrow> core_ok (release_candidates s)"
proof -
  have "core_ok s \<Longrightarrow> core_ok (fold send_candidate cs s)" for cs s
    by (induction cs arbitrary: s) auto
  then show "core_ok s \<Longrightarrow> core_ok (release_candidates s)" by (simp add: release_candidates_def)
qed

section \<open>Channels, tracks and the transport\<close>

lemma core_channels: "core_ok s \<Longrightarrow> map fst cs = map fst (rt_channels s) \<Longrightarrow>
    (\<And>n c. (n, c) \<in> set cs \<Longrightarrow> \<exists>c0. (n, c0) \<in> set (rt_channels s) \<and> (length (ch_queue c) \<le> length (ch_queue c0) \<or>
       (0 < sl_queued (rt_limits s) \<longrightarrow> int (length (ch_queue c)) \<le> sl_queued (rt_limits s))) \<and> (ch_closed c0 \<longrightarrow> ch_closed c)) \<Longrightarrow>
    core_ok (s\<lparr>rt_channels := cs\<rparr>)"
  by (simp add: core_ok_def) (fastforce simp: bounded_def released_def wf_dict_def)

lemma core_update_channel: "core_ok s \<Longrightarrow>
    (\<And>c. (n, c) \<in> set (rt_channels s) \<Longrightarrow> length (ch_queue (f c)) \<le> length (ch_queue c)) \<Longrightarrow>
    (\<And>c. ch_closed c \<Longrightarrow> ch_closed (f c)) \<Longrightarrow> core_ok (update_channel n f s)"
  unfolding update_channel_def by (rule core_channels) (auto simp: comp_def case_prod_unfold split: if_splits intro: order_refl)

lemma channel_unique: "core_ok s \<Longrightarrow> dict_get (rt_channels s) n = Some c \<Longrightarrow> (n, c') \<in> set (rt_channels s) \<Longrightarrow> c' = c"
  using dict_get_in [of "rt_channels s" n c'] by (simp add: core_ok_def bounded_def)

lemma core_established: "core_ok s \<Longrightarrow> rt_accepted s \<Longrightarrow> core_ok (check_established s)"
proof -
  assume s: "core_ok s" "rt_accepted s"
  let ?t = "spawn ''start'' Handler_failure
        (emit Ev_connected None None (cancel_timer ''negotiation'' (s\<lparr>rt_established := True\<rparr>)))"
  have "core_ok ?t" if "\<not> rt_established s"
  proof -
    have "deadlines ?t" using s that
      by (auto simp: spawn_def emit_def cancel_timer_def core_ok_def) (auto simp: deadlines_def dict_simps)
    moreover have "starts_once ?t" using s that
      by (auto simp: spawn_def emit_def cancel_timer_def core_ok_def) (auto simp: starts_once_def runs_def split: if_splits)
    moreover have "events_ordered ?t" using s that
      by (auto simp: spawn_def emit_def cancel_timer_def core_ok_def starts_once_def)
        (auto simp: events_ordered_def life_events_def closed_events_def split: if_splits)
    ultimately show ?thesis using s by (auto simp: spawn_def emit_def cancel_timer_def core_ok_def)
  qed
  then show ?thesis using s by (simp add: check_established_def)
qed

lemma core_opened: "core_ok s \<Longrightarrow> rt_accepted s \<Longrightarrow> core_ok (channel_opened n s)"
  unfolding channel_opened_def by (intro core_established core_update_channel) (simp_all add: update_channel_def)

lemma core_bind: "core_ok s \<Longrightarrow> rt_accepted s \<Longrightarrow> core_ok (bind_channel n ready s)"
  by (auto simp: bind_channel_def Let_def update_channel_def [of n _ s] intro!: core_opened)
    (auto simp: update_channel_def [symmetric] intro!: core_update_channel)

lemma core_message [intro]: "core_ok s \<Longrightarrow> core_ok (on_channel_message load n d s)"
proof (cases "dict_get (rt_channels s) n")
  case (Some c)
  assume s: "core_ok s"
  show ?thesis
  proof (cases "0 < sl_queued (rt_limits s) \<and> sl_queued (rt_limits s) \<le> int (length (ch_queue c))")
    case True
    with s Some show ?thesis by (auto simp: on_channel_message_def split: sum.split)
  next
    case False
    note same = channel_unique [OF s Some]
    have "\<exists>c0. (k, c0) \<in> set (rt_channels s) \<and> (length (ch_queue c2) \<le> length (ch_queue c0) \<or>
       (0 < sl_queued (rt_limits s) \<longrightarrow> int (length (ch_queue c2)) \<le> sl_queued (rt_limits s))) \<and> (ch_closed c0 \<longrightarrow> ch_closed c2)"
      if "(k, c2) \<in> set (rt_channels (update_channel n (\<lambda>c. c\<lparr>ch_queue := ch_queue c @ [m]\<rparr>) s))" for k c2 m
    proof -
      from that obtain c0 where c0: "(k, c0) \<in> set (rt_channels s)" "c2 = (if k = n then c0\<lparr>ch_queue := ch_queue c0 @ [m]\<rparr> else c0)"
        by (auto simp: update_channel_def)
      with same False show ?thesis by (intro exI [of _ c0]) auto
    qed
    then have "core_ok (update_channel n (\<lambda>c. c\<lparr>ch_queue := ch_queue c @ [m]\<rparr>) s)" for m
      using core_channels [OF s, of "rt_channels (update_channel n (\<lambda>c. c\<lparr>ch_queue := ch_queue c @ [m]\<rparr>) s)"]
      by (simp add: update_channel_def comp_def case_prod_unfold)
    with s Some False show ?thesis unfolding on_channel_message_def
      by (simp del: not_None_eq split: sum.split) (simp add: core_report core_terminate)
  qed
qed (simp add: on_channel_message_def)

lemma core_remote_channel: "core_ok s \<Longrightarrow> rt_accepted s \<Longrightarrow> core_ok (on_remote_channel label ready s)"
  by (auto simp: on_remote_channel_def core_bind split: option.split)

lemma core_closed [intro]: "core_ok s \<Longrightarrow> core_ok (channel_closed n s)"
  and core_drained [intro]: "core_ok s \<Longrightarrow> core_ok (channel_drained n s)"
  unfolding channel_closed_def channel_drained_def by (auto intro: core_update_channel)

lemma core_transmit [intro]: "core_ok s \<Longrightarrow> core_ok (snd (transmit n d b late raises s))"
  by (auto simp: transmit_def split: option.split intro: core_update_channel)

lemma core_send_message: "core_ok s \<Longrightarrow> send_message dump t m b late raises s = Inr (res, s') \<Longrightarrow> core_ok s'"
proof -
  assume s: "core_ok s" and sent: "send_message dump t m b late raises s = Inr (res, s')"
  from sent obtain n c where "channel_state t s = Inr (n, c)" by (auto simp: send_message_def)
  with sent have "s' = s \<or> (\<exists>d. transmit n d b late raises s = (res, s'))"
    by (auto simp: send_message_def split: sum.splits if_splits)
  then show "core_ok s'" using s core_transmit [OF s] by (metis snd_conv)
qed

lemma core_dequeue: "core_ok s \<Longrightarrow> dict_get (rt_channels s) n = Some c \<Longrightarrow> ch_queue c = m # ms \<Longrightarrow>
    (\<And>c. ch_queue (f c) = ms \<and> ch_closed (f c) = ch_closed c) \<Longrightarrow> core_ok (update_channel n f s)"
  using channel_unique [of s n c] by (intro core_update_channel) fastforce+

lemma core_next [intro]: "core_ok s \<Longrightarrow> core_ok (snd (next_poll n s))"
  by (auto simp: next_poll_def split: option.split list.split intro: core_dequeue core_update_channel)

lemma core_consume [intro]: "core_ok s \<Longrightarrow> core_ok (snd (consume_next n s))"
  by (auto simp: consume_next_def split: option.split list.split intro: core_dequeue)

lemma core_next_message [intro]: "core_ok s \<Longrightarrow> core_ok (snd (next_message n s))"
  by (auto simp: next_message_def split: option.split intro!: core_next core_update_channel)

lemma core_connection: "core_ok s \<Longrightarrow> rt_accepted s \<Longrightarrow> core_ok (on_connection_state st s)"
proof -
  assume s: "core_ok s" "rt_accepted s"
  have conn: "core_ok (s\<lparr>rt_conn := st\<rparr>)" if "st \<noteq> Disconnected" for st
    using s(1) that by (simp add: core_ok_def) (auto simp: deadlines_def)
  have timer: "core_ok (set_timer ''transport'' Transport_lost (s\<lparr>rt_conn := st\<rparr>))" for st
    using s(1) by (simp add: core_ok_def set_timer_def) (auto simp: deadlines_def dict_simps)
  have up: "core_ok (check_established (cancel_timer ''transport'' (s\<lparr>rt_conn := Connected, rt_ever_connected := True\<rparr>)))"
    using conn [of Connected] s(2) by (intro core_established core_cancel) (simp_all add: cancel_timer_def core_ok_def)
  show ?thesis using s conn timer up
    by (auto simp: on_connection_state_def Let_def split: connection_state.split)
qed

lemma core_dispatch [intro]: "core_ok s \<Longrightarrow> core_ok (dispatch_track i s)"
  by (auto simp: dispatch_track_def intro: core_spawn)

lemma core_on_track [intro]: "core_ok s \<Longrightarrow> core_ok (on_track k s)"
proof -
  assume s: "core_ok s"
  let ?t = "s\<lparr>rt_counts := (rt_counts s)(k := rt_counts s k + 1),
    rt_incoming := rt_incoming s @ [\<lparr>it_kind = k, it_counted = True, it_stopped = False\<rparr>]\<rparr>"
  have "core_ok ?t" if c: "rt_code s = None" "\<not> mp_max_tracks (rt_media s) \<le> rt_counts s k"
  proof -
    have "rt_stage s = Serving" using s c by (simp add: core_ok_def closing_def)
    then have "released ?t" using s by (simp add: core_ok_def) (simp add: released_def)
    moreover have "tracks_counted s" using s by (simp add: core_ok_def)
    then have "tracks_counted ?t" using c(2) unfolding tracks_counted_def by (auto simp: live_tracks_def)
    ultimately show ?thesis using s by (simp add: core_ok_def)
  qed
  then have "core_ok (emit Ev_track None (Some k) ?t)" if "rt_code s = None" "\<not> mp_max_tracks (rt_media s) \<le> rt_counts s k"
    using that by (auto intro: core_emit)
  moreover have "core_ok (t\<lparr>rt_queued_tracks := q\<rparr>) = core_ok t" for t q by (simp add: core_ok_def)
  ultimately show ?thesis using s by (auto simp: on_track_def Let_def split: option.split)
qed

lemma count_update: "i < length ts \<Longrightarrow> P (ts ! i) \<Longrightarrow> \<not> P t \<Longrightarrow>
    int (length (filter P (ts[i := t]))) = int (length (filter P ts)) - 1"
  by (subst (2) id_take_nth_drop [of i ts]) (simp_all add: upd_conv_take_nth_drop)

lemma core_track_ended [intro]: "core_ok s \<Longrightarrow> core_ok (track_ended i s)"
proof -
  assume s: "core_ok s"
  let ?t = "(rt_incoming s) ! i"
  let ?s = "s\<lparr>rt_counts := (rt_counts s)(it_kind ?t := rt_counts s (it_kind ?t) - 1),
    rt_incoming := (rt_incoming s)[i := ?t\<lparr>it_counted := False\<rparr>]\<rparr>"
  have "core_ok ?s" if i: "i < length (rt_incoming s)" "it_counted ?t"
  proof -
    have "\<forall>t\<in>set (rt_incoming ?s). it_stopped t" if "\<forall>t\<in>set (rt_incoming s). it_stopped t"
      using that nth_mem [OF i(1)] set_update_subset_insert [of "rt_incoming s" i] by fastforce
    then have "released ?s" using s unfolding core_ok_def released_def by simp
    moreover have "tracks_counted ?s" unfolding tracks_counted_def
    proof (intro allI)
      fix k
      have k: "live_tracks k (rt_incoming s) = rt_counts s k"
        "0 \<le> mp_max_tracks (rt_media s) \<longrightarrow> rt_counts s k \<le> mp_max_tracks (rt_media s)"
        using s by (simp_all add: core_ok_def tracks_counted_def)
      show "live_tracks k (rt_incoming ?s) = rt_counts ?s k \<and>
          (0 \<le> mp_max_tracks (rt_media ?s) \<longrightarrow> rt_counts ?s k \<le> mp_max_tracks (rt_media ?s))"
      proof (cases "k = it_kind ?t")
        case True
        then show ?thesis using k i count_update [of i "rt_incoming s" "\<lambda>t. it_kind t = k \<and> it_counted t"]
          by (auto simp: live_tracks_def)
      next
        case False
        then have "filter (\<lambda>t. it_kind t = k \<and> it_counted t) ((rt_incoming s)[i := ?t\<lparr>it_counted := False\<rparr>]) =
            filter (\<lambda>t. it_kind t = k \<and> it_counted t) (rt_incoming s)"
          by (subst (3) id_take_nth_drop [OF i(1)]) (simp add: upd_conv_take_nth_drop [OF i(1)])
        then show ?thesis using k False by (simp add: live_tracks_def)
      qed
    qed
    ultimately show ?thesis using s by (simp add: core_ok_def)
  qed
  then show ?thesis using s by (simp add: track_ended_def)
qed

section \<open>Startup, handlers and negotiation\<close>

lemma core_pending: "core_ok s \<Longrightarrow> length ps \<le> length (rt_pending s) \<or> int (length ps) \<le> sl_pending_candidates (rt_limits s) \<Longrightarrow>
    core_ok (s\<lparr>rt_pending := ps\<rparr>)"
  by (simp add: core_ok_def) (auto simp: bounded_def)

lemma core_signaling: "core_ok s \<Longrightarrow> \<not> b \<or> rt_stage s = Serving \<Longrightarrow> core_ok (s\<lparr>rt_signaling_open := b\<rparr>)"
  by (simp add: core_ok_def) (auto simp: closing_def final_code_def)

lemma core_write [intro]: "core_ok s \<Longrightarrow> core_ok (write_next w s)"
proof -
  assume s: "core_ok s"
  have "core_ok (s\<lparr>rt_outbound := ms\<rparr>)" if "rt_outbound s = m # ms" for m ms
    using s that by (intro core_outbound) (auto simp: core_ok_def bounded_def)
  with s show ?thesis
    by (auto simp: write_next_def Let_def split: list.split write_result.split intro!: core_signaling)
qed

lemma core_disconnect [intro]: "core_ok s \<Longrightarrow> core_ok (on_disconnect code s)"
proof -
  assume s: "core_ok s"
  have "core_ok (set_timer ''signaling'' Signaling_lost (t\<lparr>rt_signaling_lost := True\<rparr>))" if "core_ok t" for t
    using that by (simp add: core_ok_def set_timer_def) (auto simp: deadlines_def dict_simps)
  then have "core_ok (on_signaling_closed c t)" if "core_ok t" for c t
    using that by (simp add: on_signaling_closed_def core_terminate)
  moreover have "core_ok (s\<lparr>rt_signaling_open := False, rt_client_connected := False\<rparr>)"
    using core_signaling [OF s, of False] by simp
  ultimately show ?thesis by (simp add: on_disconnect_def)
qed

lemma core_attach_tracks: "core_ok s \<Longrightarrow> core_ok (snd (attach_tracks kind add ts s))"
  by (induction ts arbitrary: s) (auto split: sum.split awaited.split)

lemma core_attach [intro]: "core_ok s \<Longrightarrow> core_ok (snd (attach_initial_tracks kind add s))"
  by (simp add: attach_initial_tracks_def core_attach_tracks)

lemma core_flush_rest [intro]: "core_ok s \<Longrightarrow> core_ok (flush_rest cs re s)"
  by (auto simp: flush_rest_def Let_def split: list.split intro: core_emit)

lemma core_flush [intro]: "core_ok s \<Longrightarrow> core_ok (flush_pending re s)"
  unfolding flush_pending_def by (intro core_flush_rest core_pending) simp_all

lemma core_describe [simp]: "core_ok (begin_describe p s) = core_ok s"
  by (simp add: begin_describe_def)

lemma core_leave [simp]: "core_ok (snd (leave_lock out s)) = core_ok s"
  by (simp add: leave_lock_def)

lemma core_remote [simp]: "core_ok (remote_description_applied sm s) = core_ok s"
  by (simp add: remote_description_applied_def)

lemma core_settle [simp]: "core_ok (settle_offer s) = core_ok s"
  by (simp add: settle_offer_def)

lemma core_on_offer [intro]: "core_ok s \<Longrightarrow> core_ok (snd (on_offer sdp n sg s))"
  by (simp add: on_offer_def Let_def split: sum.split)

lemma core_offer_applied [intro]: "core_ok s \<Longrightarrow> core_ok (snd (offer_applied kind add sm n re r s))"
proof -
  assume "core_ok s"
  then have "core_ok (snd (attach_initial_tracks kind add (remote_description_applied sm s)))"
    by (intro core_attach) simp
  with \<open>core_ok s\<close> show ?thesis
    by (cases "attach_initial_tracks kind add (remote_description_applied sm s)")
      (auto simp: offer_applied_def Let_def split: awaited.split outcome.split)
qed

lemma core_answer_made [intro]: "core_ok s \<Longrightarrow> core_ok (snd (answer_made n re r s))"
  by (auto simp: answer_made_def split: awaited.split)

lemma core_on_answer [intro]: "core_ok s \<Longrightarrow> core_ok (snd (on_answer sdp n sg s))"
  by (simp add: on_answer_def Let_def split: sum.split)

lemma core_answer_applied [intro]: "core_ok s \<Longrightarrow> core_ok (snd (answer_applied sm re r s))"
  by (auto simp: answer_applied_def split: awaited.split intro!: core_cancel core_flush)

lemma core_on_candidate [intro]: "core_ok s \<Longrightarrow> core_ok (snd (on_candidate c s))"
  by (auto simp: on_candidate_def Let_def split: sum.split intro: core_pending)

lemma core_candidate_result [intro]: "core_ok s \<Longrightarrow> core_ok (candidate_result r s)"
  by (auto simp: candidate_result_def split: awaited.split)

lemma core_candidate_added [intro]: "core_ok s \<Longrightarrow> core_ok (snd (candidate_added r s))"
  and core_candidate_flushed [intro]: "core_ok s \<Longrightarrow> core_ok (snd (candidate_flushed cs re r s))"
  by (auto simp: candidate_added_def candidate_flushed_def)

lemma core_renegotiate: "core_ok s \<Longrightarrow> renegotiate sg needs s = (out, w, s') \<Longrightarrow> core_ok s'"
  by (auto simp: renegotiate_def Let_def split: sum.splits if_splits)

lemma core_check: "core_ok s \<Longrightarrow> renegotiate_if_needed sg needs s = (out, w, s') \<Longrightarrow> core_ok s'"
  by (auto simp: renegotiate_if_needed_def core_renegotiate split: if_splits)

lemma core_offer_made [intro]: "core_ok s \<Longrightarrow> core_ok (snd (offer_made n initial r s))"
  by (auto simp: offer_made_def Let_def split: awaited.split intro!: core_timer core_release_candidates core_send)

lemma core_read [intro]: "core_ok s \<Longrightarrow> core_ok (snd (read_frame parse sg f s))"
  by (auto simp: read_frame_def split: frame.split option.split client_message.split)

lemma core_release_track [intro]: "core_ok s \<Longrightarrow> core_ok (release_track t s)"
  by (simp add: release_track_def core_ok_def) (auto simp: released_def)

lemma core_release_outgoing [intro]: "core_ok s \<Longrightarrow> core_ok (release_outgoing i s)"
  by (auto simp: release_outgoing_def)

lemma core_send_track [intro]: "core_ok s \<Longrightarrow> core_ok (snd (send_track kind add native owned s))"
proof -
  assume s: "core_ok s"
  have "core_ok (s\<lparr>rt_owned := rt_owned s @ [native]\<rparr>)" if "rt_code s = None"
    using s that by (simp add: core_ok_def) (auto simp: released_def closing_def)
  then show ?thesis using s
    by (auto simp: send_track_def ensure_active_def Let_def await_error_def split: sum.split awaited.split option.splits)
qed

lemma core_remove_track [intro]: "core_ok s \<Longrightarrow> core_ok (remove_track i s)"
  by (auto simp: remove_track_def mark_removed_def Let_def)

lemma core_detach [intro]: "core_ok s \<Longrightarrow> core_ok (detach_track i s)"
  by (simp add: detach_track_def)

lemma core_track_removed [intro]: "core_ok s \<Longrightarrow> core_ok (snd (track_removed i r s))"
  by (auto simp: track_removed_def split: awaited.split)

lemma core_accept: "core_ok s \<Longrightarrow> \<not> rt_accepted s \<Longrightarrow> rt_code s = None \<Longrightarrow> core_ok (accept offered s)"
proof -
  assume s: "core_ok s" "\<not> rt_accepted s" "rt_code s = None"
  let ?s = "s\<lparr>rt_app_connected := True, rt_client_connected := True, rt_signaling_open := True\<rparr>"
  let ?t = "spawn ''startup'' Engine_failure
           (set_timer ''negotiation'' Negotiation_timeout (emit Ev_admitted None None (?s\<lparr>rt_accepted := True\<rparr>)))"
  have stage: "rt_stage s = Serving" "\<not> rt_established s" "\<not> rt_started s" using s by (auto simp: core_ok_def closing_def starts_once_def split: if_splits)
  then have "core_ok ?s" using s core_signaling [of "s\<lparr>rt_app_connected := True, rt_client_connected := True\<rparr>" True] by simp
  moreover have "core_ok ?t"
  proof -
    note defs = spawn_def set_timer_def emit_def core_ok_def
    have "deadlines ?t" using s by (simp add: defs) (auto simp: deadlines_def dict_simps)
    moreover have "starts_once ?t" using s by (simp add: defs) (auto simp: starts_once_def runs_def)
    moreover have "closing ?t" using s(1) stage by (simp add: defs) (auto simp: closing_def final_code_def)
    moreover have "events_ordered ?t" using s stage
      by (simp add: defs) (auto simp: events_ordered_def life_events_def closed_events_def)
    ultimately show ?thesis using s by (simp add: defs)
  qed
  ultimately show ?thesis by (auto simp: accept_def Let_def)
qed

lemma accepted_bind [simp]: "rt_accepted (bind_channel n ready s) = rt_accepted s"
  by (simp add: bind_channel_def channel_opened_def check_established_def update_channel_def spawn_def emit_def cancel_timer_def Let_def)

lemma core_create_channels: "core_ok s \<Longrightarrow> rt_accepted s \<Longrightarrow> core_ok (snd (create_channels create cs s))"
  by (induction cs arbitrary: s) (auto simp: core_bind split: awaited.split)

lemma core_prepare: "core_ok s \<Longrightarrow> rt_accepted s \<Longrightarrow> core_ok (snd (prepare_peer create kind add transceiver s))"
proof -
  assume "core_ok s" "rt_accepted s"
  then have c: "core_ok (snd (create_channels create (dl_channels (rt_decl s)) s))" by (rule core_create_channels)
  obtain out t where t: "create_channels create (dl_channels (rt_decl s)) s = (out, t)" by force
  obtain out2 u where u: "attach_initial_tracks kind add t = (out2, u)" by force
  have "core_ok t" "core_ok u" using c t u core_attach [of t kind add] by auto
  then show ?thesis by (simp add: prepare_peer_def t u split: outcome.split)
qed

lemma core_peer_created: "core_ok s \<Longrightarrow> rt_accepted s \<Longrightarrow> core_ok (snd (peer_created create kind add transceiver r s))"
proof -
  assume s: "core_ok s" "rt_accepted s"
  have "core_ok (s\<lparr>rt_peer := True\<rparr>)" if "rt_code s = None"
    using s that by (simp add: core_ok_def) (auto simp: starts_once_def released_def closing_def)
  moreover have "core_ok (s\<lparr>rt_peer := True, rt_peer_closed := True\<rparr>)"
    using s by (simp add: core_ok_def) (auto simp: starts_once_def released_def)
  ultimately show ?thesis using s
    by (auto simp: peer_created_def Let_def intro: core_prepare split: awaited.split option.split)
qed

lemma core_hello: "core_ok s \<Longrightarrow> hello_sent ice ok s = (out, s') \<Longrightarrow> core_ok s'"
  by (auto simp: hello_sent_def Let_def split: option.splits if_splits intro!: core_spawn)

lemma core_dispatches: "core_ok s \<Longrightarrow> core_ok (fold dispatch_track ts s)"
  by (induction ts arbitrary: s) auto

lemma core_spawn_handlers [simp]: "core_ok (fold (\<lambda>p. spawn_handler (f p)) hs s) = core_ok s"
  by (induction hs arbitrary: s) auto

lemma emit_send: "emit k c m (send_signal x s) = send_signal x (emit k c m s)"
  by (simp add: emit_def send_signal_def terminate_def)

lemma core_started_with:
  assumes s: "core_ok s" "rt_established s" "\<not> rt_started s" "filter (\<lambda>t. fst t = ''start'') (rt_tasks s) = []"
  shows "core_ok (started_with s)"
proof -
  let ?r = "emit Ev_ready None None (s\<lparr>rt_started := True\<rparr>)"
  have "starts_once ?r" using s by (simp add: core_ok_def emit_def) (auto simp: starts_once_def runs_def)
  moreover have "events_ordered ?r" using s
    by (simp add: core_ok_def emit_def) (auto simp: events_ordered_def life_events_def closed_events_def)
  ultimately have "core_ok ?r" using s(1) by (simp add: core_ok_def emit_def)
  then have "core_ok (emit Ev_ready None None (send_signal Ready_message (s\<lparr>rt_started := True\<rparr>)))"
    by (auto simp: emit_send)
  then show ?thesis
    by (auto simp: started_with_def Let_def intro!: core_dispatches core_spawn)
qed

lemma core_started: "core_ok s \<Longrightarrow> runs ''start'' s \<Longrightarrow> core_ok (start_done out s)"
proof -
  assume s: "core_ok s" "runs ''start'' s"
  then obtain f where f: "dict_get (rt_tasks s) ''start'' = Some f" by (auto simp: runs_def)
  have mem: "(''start'', f) \<in> set (filter (\<lambda>t. fst t = ''start'') (rt_tasks s))" using map_of_SomeD [OF f] by simp
  define m where "m = length (filter (\<lambda>t. fst t = ''start'') (rt_tasks s))"
  have "m > 0" using mem length_pos_if_in_set by (fastforce simp: m_def)
  moreover have "m + (if rt_started s then 1 else 0) \<le> (if rt_established s then 1 else 0)"
    using s(1) by (simp add: core_ok_def starts_once_def m_def)
  ultimately have one: "rt_established s" "\<not> rt_started s" "length (filter (\<lambda>t. fst t = ''start'') (rt_tasks s)) = 1"
    unfolding m_def [symmetric] by (auto split: if_splits)
  let ?t = "task_ends ''start'' Returned s"
  have t: "?t = s\<lparr>rt_tasks := remove1 (''start'', f) (rt_tasks s)\<rparr>" using f by (simp add: task_ends_def guard_def)
  have "length (filter (\<lambda>t. fst t = ''start'') (rt_tasks ?t)) = 0"
    using one(3) mem by (simp add: t filter_remove1 length_remove1)
  then have "core_ok (started_with ?t)" using one s(1) core_task_ends [OF s(1), of "''start''" Returned]
    by (intro core_started_with) (simp_all add: t)
  then show ?thesis using s by (auto simp: start_done_def Let_def)
qed

lemma core_media: "core_ok s \<Longrightarrow> watch_media late stats s = (res, s') \<Longrightarrow> core_ok s'"
  by (auto simp: watch_media_def split: if_splits awaited.splits intro: core_emit)

section \<open>Cleanup\<close>

lemma core_serve_ended [intro]: "core_ok s \<Longrightarrow> core_ok (serve_ended out s)"
  by (auto simp: serve_ended_def split: outcome.split)

lemma core_cleanup_begin: "core_ok s \<Longrightarrow> rt_stage s = Serving \<Longrightarrow> rt_code s \<noteq> None \<Longrightarrow> core_ok (cleanup_begin s)"
proof -
  assume s: "core_ok s" "rt_stage s = Serving" "rt_code s \<noteq> None"
  let ?t = "cleanup_begin s"
  note defs = cleanup_begin_def close_signaling_def settle_offer_def Let_def core_ok_def
  have "deadlines ?t" by (simp add: defs deadlines_def)
  moreover have "events_ordered ?t" using s
    by (simp add: defs) (auto simp: events_ordered_def life_events_def closed_events_def)
  moreover have "closing ?t" using s by (auto simp: defs closing_def final_code_def)
  moreover have "released ?t" using s by (simp add: defs) (auto simp: released_def)
  ultimately show ?thesis using s by (simp add: defs)
qed

lemma core_calling_close: "core_ok s \<Longrightarrow> rt_stage s = Closing_signaling \<Longrightarrow>
    core_ok (s\<lparr>rt_stage := Calling_close, rt_on_close_calls := rt_on_close_calls s @
      (if ss_on_close (rt_session s) \<and> rt_accepted s then [final_code s] else [])\<rparr>)"
  by (simp add: core_ok_def) (auto simp: events_ordered_def life_events_def closed_events_def closing_def released_def final_code_def)

lemma core_cancel_tasks: "core_ok s \<Longrightarrow> rt_stage s = Closing_signaling \<Longrightarrow> core_ok (cancel_tasks st sh s)"
proof -
  assume s: "core_ok s" "rt_stage s = Closing_signaling"
  let ?t = "s\<lparr>rt_tasks := filter (\<lambda>t. t \<in> set st) (rt_tasks s)\<rparr>"
  have "dict_get (filter P ts) n \<noteq> None \<Longrightarrow> dict_get ts n \<noteq> None" for P n and ts :: "(string \<times> error_code) list"
    by (metis map_of_SomeD filter_is_subset not_None_eq subsetD weak_map_of_SomeI)
  moreover have "length (filter P (filter Q ts)) \<le> length (filter P ts)" for P Q and ts :: "(string \<times> error_code) list"
    by (induction ts) auto
  moreover have "dict_get (rt_tasks s) ''startup'' \<noteq> None \<Longrightarrow> rt_accepted s"
    using s(1) by (simp add: core_ok_def starts_once_def runs_def)
  ultimately have "core_ok ?t" using s(1) by (intro core_tasks) blast+
  then have "core_ok (?t\<lparr>rt_handlers := hs\<rparr>)" for hs by simp
  with s(2) show ?thesis unfolding cancel_tasks_def Let_def
    by (intro core_calling_close) (auto split: if_split)
qed

lemma fold_release_track:
  "\<exists>ow st. fold release_track ts s = s\<lparr>rt_owned := ow, rt_stopped := st\<rparr> \<and> set ow = set (rt_owned s) - set ts \<and>
     set (rt_owned s) \<union> set (rt_stopped s) \<subseteq> set ow \<union> set st"
proof (induction ts arbitrary: s)
  case Nil
  show ?case by (intro exI [of _ "rt_owned s"] exI [of _ "rt_stopped s"]) simp
next
  case (Cons t ts)
  from Cons [of "release_track t s"] show ?case
    by (auto simp: release_track_def split: if_splits)
qed

lemma core_release_resources: "core_ok s \<Longrightarrow> rt_stage s = Calling_close \<Longrightarrow> core_ok (release_resources s)"
proof -
  assume s: "core_ok s" "rt_stage s = Calling_close"
  let ?t = "s\<lparr>rt_incoming := map (\<lambda>t. t\<lparr>it_stopped := True\<rparr>) (rt_incoming s),
    rt_outgoing := map (\<lambda>t. t\<lparr>ot_removed := True\<rparr>) (rt_outgoing s)\<rparr>"
  obtain ow st where f: "fold release_track (rt_owned s) ?t = ?t\<lparr>rt_owned := ow, rt_stopped := st\<rparr>" "ow = []"
    "set (rt_owned s) \<union> set (rt_stopped s) \<subseteq> set st"
    using fold_release_track [of "rt_owned s" ?t] by auto
  let ?u = "release_resources s"
  note defs = release_resources_def Let_def f core_ok_def
  have live: "live_tracks k (map (\<lambda>t. t\<lparr>it_stopped := True\<rparr>) ts) = live_tracks k ts" for k ts
    by (simp add: live_tracks_def filter_map comp_def)
  have "bounded ?u" using s(1) by (simp add: defs) (auto simp: bounded_def wf_dict_def comp_def case_prod_unfold)
  moreover have "tracks_counted ?u" using s(1) by (simp add: defs) (auto simp: tracks_counted_def live)
  moreover have "events_ordered ?u" using s by (simp add: defs) (auto simp: events_ordered_def life_events_def closed_events_def)
  moreover have "closing ?u" using s by (simp add: defs) (auto simp: closing_def final_code_def)
  moreover have "released ?u" using s f(3) by (simp add: defs) (auto simp: released_def)
  ultimately show ?thesis using s(1) by (simp add: defs)
qed

lemma core_cleanup_end: "core_ok s \<Longrightarrow> rt_stage s = Closing_peer \<Longrightarrow> core_ok (cleanup_end s)"
proof -
  assume s: "core_ok s" "rt_stage s = Closing_peer"
  let ?t = "cleanup_end s"
  note defs = cleanup_end_def emit_def core_ok_def
  have "events_ordered ?t" using s
    by (simp add: defs) (auto simp: events_ordered_def life_events_def closed_events_def final_code_def closing_def)
  moreover have "closing ?t" using s by (simp add: defs) (auto simp: closing_def final_code_def)
  moreover have "released ?t" using s by (simp add: defs) (auto simp: released_def)
  ultimately show ?thesis using s(1) by (simp add: defs)
qed

section \<open>Held candidates\<close>

text \<open>Candidates are held back exactly while a local description is being made.\<close>

definition hold :: "runtime \<Rightarrow> candidate option list option \<times> phase option" where
  "hold s = (rt_held s, rt_phase s)"

lemma held_hold: "hold s = hold t \<Longrightarrow> held_while_describing s = held_while_describing t"
  by (simp add: hold_def held_while_describing_def)

lemma hold_frame [simp]:
  "hold (rt_code_update f0 s) = hold s" "hold (rt_accepted_update f1 s) = hold s"
  "hold (rt_signaling_open_update f2 s) = hold s" "hold (rt_signaling_lost_update f3 s) = hold s"
  "hold (rt_app_connected_update f4 s) = hold s" "hold (rt_client_connected_update f5 s) = hold s"
  "hold (rt_close_frame_update f6 s) = hold s" "hold (rt_peer_update f7 s) = hold s" "hold (rt_conn_update f8 s) = hold s"
  "hold (rt_ever_connected_update f9 s) = hold s" "hold (rt_established_update f10 s) = hold s"
  "hold (rt_started_update f11 s) = hold s" "hold (rt_outbound_update f12 s) = hold s" "hold (rt_wire_update f13 s) = hold s"
  "hold (rt_pending_update f14 s) = hold s" "hold (rt_remote_applied_update f15 s) = hold s"
  "hold (rt_ufrags_update f16 s) = hold s" "hold (rt_ignored_offer_update f17 s) = hold s"
  "hold (rt_negotiations_update f18 s) = hold s" "hold (rt_local_offer_update f19 s) = hold s"
  "hold (rt_offer_settled_update f20 s) = hold s" "hold (rt_settled_update f21 s) = hold s"
  "hold (rt_attached_update f22 s) = hold s" "hold (rt_timers_update f23 s) = hold s" "hold (rt_tasks_update f24 s) = hold s"
  "hold (rt_handlers_update f25 s) = hold s" "hold (rt_incoming_update f26 s) = hold s" "hold (rt_counts_update f27 s) = hold s"
  "hold (rt_queued_tracks_update f28 s) = hold s" "hold (rt_outgoing_update f29 s) = hold s"
  "hold (rt_owned_update f30 s) = hold s" "hold (rt_stopped_update f31 s) = hold s" "hold (rt_channels_update f32 s) = hold s"
  "hold (rt_events_update f33 s) = hold s" "hold (rt_slots_held_update f34 s) = hold s"
  "hold (rt_on_close_calls_update f35 s) = hold s" "hold (rt_peer_closed_update f36 s) = hold s"
  "hold (rt_stage_update f37 s) = hold s"
  by (simp_all add: hold_def)

lemma hold_simps [simp]:
  "hold (terminate c s) = hold s" "hold (send_signal x s) = hold s" "hold (report c m s) = hold s" "hold (emit k e m s) = hold s"
  "hold (set_timer n c s) = hold s" "hold (cancel_timer n s) = hold s" "hold (spawn n c s) = hold s" "hold (spawn_handler n s) = hold s"
  "hold (guard c out s) = hold s" "hold (update_channel n f s) = hold s" "hold (release_track i s) = hold s"
  by (auto simp: terminate_def send_signal_def report_def emit_def set_timer_def cancel_timer_def spawn_def
      spawn_handler_def guard_def update_channel_def release_track_def split: outcome.split rtc_error.split)

lemma hold_fold: "(\<And>x s. hold (f x s) = hold s) \<Longrightarrow> hold (fold f xs s) = hold s"
  by (induction xs arbitrary: s) auto

lemma hold_ops [simp]:
  "hold (expire_timer n s) = hold s" "hold (task_ends n out s) = hold s" "hold (handler_ends n out s) = hold s"
  "hold (check_established s) = hold s" "hold (on_disconnect d s) = hold s" "hold (dispatch_track i s) = hold s"
  "hold (write_next w s) = hold s" "hold (track_ended j s) = hold s" "hold (settle_offer s) = hold s"
  "hold (release_outgoing j s) = hold s" "hold (candidate_result r s) = hold s" "hold (channel_opened n s) = hold s"
  "hold (channel_closed n s) = hold s" "hold (channel_drained n s) = hold s"
  by (auto simp: expire_timer_def task_ends_def handler_ends_def check_established_def on_disconnect_def on_signaling_closed_def
      dispatch_track_def write_next_def track_ended_def settle_offer_def release_outgoing_def candidate_result_def
      channel_opened_def channel_closed_def channel_drained_def Let_def
      split: option.split list.split write_result.split awaited.split)

lemma hold_callbacks [simp]:
  "hold (bind_channel n ready s) = hold s" "hold (on_remote_channel n ready s) = hold s" "hold (on_channel_message load n d s) = hold s"
  "hold (snd (transmit n d b late raises s)) = hold s" "hold (snd (next_poll n s)) = hold s" "hold (snd (next_message n s)) = hold s"
  "hold (snd (consume_next n s)) = hold s" "hold (on_connection_state st s) = hold s" "hold (on_track k s) = hold s"
  "hold (remove_track i s) = hold s" "hold (accept offered s) = hold s" "hold (serve_ended out s) = hold s"
  "hold (cleanup_begin s) = hold s" "hold (cleanup_end s) = hold s"
  by (auto simp: bind_channel_def on_remote_channel_def on_channel_message_def transmit_def next_poll_def next_message_def
      consume_next_def on_connection_state_def on_track_def remove_track_def mark_removed_def accept_def serve_ended_def
      cleanup_begin_def close_signaling_def cleanup_end_def Let_def
      split: option.split list.split sum.split connection_state.split outcome.split)

lemma hold_starts [simp]: "hold (started_with s) = hold s" "hold (release_resources s) = hold s" "hold (start_done out s) = hold s"
  by (auto simp: started_with_def release_resources_def start_done_def Let_def hold_fold)

lemma hold_attach [simp]: "hold (snd (attach_tracks kind add ts s)) = hold s" "hold (snd (attach_initial_tracks kind add s)) = hold s"
proof -
  show *: "hold (snd (attach_tracks kind add ts s)) = hold s" for ts s
    by (induction ts arbitrary: s) (auto split: sum.split awaited.split)
  show "hold (snd (attach_initial_tracks kind add s)) = hold s" by (simp add: attach_initial_tracks_def *)
qed

lemma hold_create [simp]: "hold (snd (create_channels create cs s)) = hold s"
  by (induction cs arbitrary: s) (auto split: awaited.split)

lemma hold_send_track [simp]: "hold (snd (send_track kind add native owned s)) = hold s"
  by (auto simp: send_track_def Let_def split: sum.split awaited.split)

lemma hold_result [simp]: "hold (task_result n r) = hold (snd r)"
  by (auto simp: task_result_def split: prod.split outcome.split)

lemma hold_startup [simp]: "hold (snd (peer_created create kind add transceiver r s)) = hold s"
  "hello_sent ice ok s = (out, s') \<Longrightarrow> hold s' = hold s" "watch_media late stats s = (res, s') \<Longrightarrow> hold s' = hold s"
  "send_message dump t m b late raises s = Inr (sent, s') \<Longrightarrow> hold s' = hold s"
proof -
  have prepare: "hold (snd (prepare_peer create kind add transceiver s)) = hold s" for s
  proof -
    obtain out t where t: "create_channels create (dl_channels (rt_decl s)) s = (out, t)" by force
    obtain out2 u where u: "attach_initial_tracks kind add t = (out2, u)" by force
    have "hold t = hold s" "hold u = hold s" using t u hold_create hold_attach(2) by (metis snd_conv)+
    then show ?thesis by (simp add: prepare_peer_def t u split: outcome.split)
  qed
  show "hold (snd (peer_created create kind add transceiver r s)) = hold s"
    by (auto simp: peer_created_def prepare Let_def split: awaited.split option.split)
  show "hello_sent ice ok s = (out, s') \<Longrightarrow> hold s' = hold s"
    by (auto simp: hello_sent_def Let_def split: option.splits if_splits)
  show "watch_media late stats s = (res, s') \<Longrightarrow> hold s' = hold s"
    by (auto simp: watch_media_def split: if_splits awaited.splits)
  assume sent: "send_message dump t m b late raises s = Inr (sent, s')"
  then obtain n c where "channel_state t s = Inr (n, c)" by (auto simp: send_message_def)
  with sent have "s' = s \<or> (\<exists>d. transmit n d b late raises s = (sent, s'))"
    by (auto simp: send_message_def split: sum.splits if_splits)
  then show "hold s' = hold s" using hold_callbacks(4) by (metis snd_conv)
qed

lemma release_hold [simp]: "hold (release_candidates s) = (None, rt_phase s)"
proof -
  have "hold (fold send_candidate cs s) = hold s" if "rt_held s = None" for cs s
    using that
  proof (induction cs arbitrary: s)
    case (Cons c cs)
    then have "hold (send_candidate c s) = hold s" by (simp add: send_candidate_def)
    with Cons show ?case by (simp add: hold_def)
  qed simp
  then show ?thesis by (simp add: release_candidates_def) (simp add: hold_def)
qed

lemma held_leave: "rt_held s = None \<Longrightarrow> held_while_describing (snd (leave_lock out s))"
  by (simp add: leave_lock_def held_while_describing_def describing_def)

lemma hold_held: "rt_held s = fst (hold s)" and hold_phase: "rt_phase s = snd (hold s)"
  by (simp_all add: hold_def)

lemma held_flush: "rt_held s = None \<Longrightarrow> held_while_describing (flush_rest cs re s)"
proof -
  assume "rt_held s = None"
  then have "fst (hold (flush_rest cs re s)) = None \<and> \<not> describing (snd (hold (flush_rest cs re s)))"
    by (auto simp: flush_rest_def Let_def split: list.split) (auto simp: hold_def describing_def)
  then show ?thesis by (simp add: held_while_describing_def hold_def)
qed

lemma held_describe: "held_while_describing (begin_describe p s) \<longleftrightarrow> describing (Some p)"
  by (simp add: begin_describe_def held_while_describing_def)

lemma held_free: "held_while_describing s \<Longrightarrow> \<not> describing (rt_phase s) \<Longrightarrow> rt_held s = None"
  by (auto simp: held_while_describing_def)

lemma held_local [intro]: "held_while_describing s \<Longrightarrow> held_while_describing (on_local_candidate c s)"
proof -
  assume s: "held_while_describing s"
  have "held_while_describing (send_candidate c s)"
  proof (cases "rt_held s")
    case None
    then show ?thesis using s held_hold [of "send_candidate c s" s] by (simp add: send_candidate_def)
  qed (use s in \<open>simp add: send_candidate_def held_while_describing_def\<close>)
  with s show ?thesis by (simp add: on_local_candidate_def)
qed

lemma held_enter_phase: "rt_held s = None \<Longrightarrow> \<not> describing (Some p) \<Longrightarrow> held_while_describing (s\<lparr>rt_phase := Some p\<rparr>)"
  by (simp add: held_while_describing_def)

lemma hold_offer_applied: "hold (snd (offer_applied kind add sm n re (Awaited u) s)) \<in> {(Some [], Some (Answering n re)), (rt_held s, None)}"
proof -
  let ?t = "remote_description_applied sm s"
  obtain out v where v: "(if dl_role (rt_decl ?t) = Answerer then attach_initial_tracks kind add ?t else (Returned, ?t)) = (out, v)" by force
  then have "hold v = hold ?t" using hold_attach(2) by (metis snd_conv)
  then have "hold v = hold s" by (simp add: remote_description_applied_def)
  then show ?thesis using v
    by (cases out) (auto simp: offer_applied_def Let_def leave_lock_def begin_describe_def hold_def)
qed

lemma held_by_hold: "hold t \<in> {(Some [], Some (Answering n re)), (Some [], Some (Offering n re)), (None, None)} \<Longrightarrow> held_while_describing t"
  by (auto simp: hold_def held_while_describing_def describing_def)

lemma held_offer_applied: "rt_held s = None \<Longrightarrow> held_while_describing (snd (offer_applied kind add sm n re r s))"
  using hold_offer_applied [of kind add sm n re _ s]
  by (cases r) (auto simp: offer_applied_def intro: held_leave held_by_hold)

lemma held_offers:
  "held_while_describing s \<Longrightarrow> free s \<Longrightarrow> held_while_describing (snd (on_offer sdp n sg s))"
  "held_while_describing s \<Longrightarrow> free s \<Longrightarrow> held_while_describing (snd (on_answer sdp n sg s))"
  "held_while_describing s \<Longrightarrow> free s \<Longrightarrow> held_while_describing (snd (on_candidate c s))"
proof -
  assume s: "held_while_describing s" "free s"
  then have h: "rt_held s = None" by (simp add: held_while_describing_def describing_def)
  have keep: "held_while_describing t" if "hold t = hold s" for t using s(1) held_hold [OF that] by simp
  show "held_while_describing (snd (on_offer sdp n sg s))"
    by (auto simp: on_offer_def Let_def h describing_def split: sum.split intro!: held_enter_phase intro: keep)
  show "held_while_describing (snd (on_answer sdp n sg s))"
    by (auto simp: on_answer_def Let_def h describing_def split: sum.split intro!: held_enter_phase intro: keep)
  show "held_while_describing (snd (on_candidate c s))"
    by (auto simp: on_candidate_def Let_def h describing_def split: sum.split intro!: held_enter_phase intro: keep)
qed

lemma held_answer_made: "held_while_describing (snd (answer_made n re r s))"
proof -
  have "rt_held (release_candidates t) = None" for t by (simp add: hold_held)
  then show ?thesis by (auto simp: answer_made_def flush_pending_def split: awaited.split intro!: held_leave held_flush)
qed

lemma held_answer_applied: "rt_held s = None \<Longrightarrow> held_while_describing (snd (answer_applied sm re r s))"
  by (auto simp: answer_applied_def flush_pending_def settle_offer_def cancel_timer_def remote_description_applied_def
      split: awaited.split intro!: held_leave held_flush)

lemma held_candidates: "rt_held s = None \<Longrightarrow> held_while_describing (snd (candidate_added r s))"
  "rt_held s = None \<Longrightarrow> held_while_describing (snd (candidate_flushed cs re r s))"
proof -
  have "rt_held (candidate_result r s) = rt_held s" by (simp add: hold_held)
  then show "rt_held s = None \<Longrightarrow> held_while_describing (snd (candidate_added r s))"
    "rt_held s = None \<Longrightarrow> held_while_describing (snd (candidate_flushed cs re r s))"
    by (simp_all add: candidate_added_def candidate_flushed_def held_leave held_flush)
qed

lemma held_renegotiate: "held_while_describing s \<Longrightarrow> renegotiate sg needs s = (out, w, s') \<Longrightarrow> held_while_describing s'"
  by (auto simp: renegotiate_def Let_def held_describe describing_def split: sum.splits if_splits)

lemma held_check: "held_while_describing s \<Longrightarrow> renegotiate_if_needed sg needs s = (out, w, s') \<Longrightarrow> held_while_describing s'"
  by (auto simp: renegotiate_if_needed_def held_renegotiate split: if_splits)

lemma held_offer_made: "held_while_describing (snd (offer_made n initial r s))"
proof -
  have "rt_held (release_candidates t) = None" for t by (simp add: hold_held)
  then show ?thesis by (auto simp: offer_made_def Let_def set_timer_def split: awaited.split intro!: held_leave)
qed

lemma held_track_removed: "rt_held s = None \<Longrightarrow> held_while_describing (snd (track_removed i r s))"
proof -
  have "rt_held (release_outgoing i s) = rt_held s" by (simp add: hold_held)
  then show "rt_held s = None \<Longrightarrow> held_while_describing (snd (track_removed i r s))"
    by (auto simp: track_removed_def split: awaited.split intro!: held_leave)
qed

lemma held_cancel: "held_while_describing s \<Longrightarrow> held_while_describing (cancel_tasks st sh s)"
  by (auto simp: cancel_tasks_def Let_def held_while_describing_def describing_def)

lemma held_read: "held_while_describing s \<Longrightarrow> (needs_lock parse f \<longrightarrow> free s) \<Longrightarrow> held_while_describing (snd (read_frame parse sg f s))"
proof -
  assume s: "held_while_describing s" "needs_lock parse f \<longrightarrow> free s"
  have "held_while_describing (on_disconnect c s)" for c using s(1) held_hold [of "on_disconnect c s" s] by simp
  then show ?thesis using s held_offers
    by (auto simp: read_frame_def needs_lock_def split: frame.split option.split client_message.split)
qed

section \<open>Every step\<close>

lemma result_core: "core_ok s' \<Longrightarrow> core_ok (task_result n (out, s'))"
  by (rule core_task_result) simp

lemma core_who: "core_ok s' \<Longrightarrow> core_ok (case who of Some n \<Rightarrow> task_result n (out, s') | None \<Rightarrow> s')"
  by (auto split: option.split intro: result_core)

lemma observed_accepted: "core_ok s \<Longrightarrow> observed s \<Longrightarrow> rt_accepted s"
  by (auto simp: core_ok_def starts_once_def observed_def)

lemma core_step: "session_step s t \<Longrightarrow> core_ok s \<Longrightarrow> core_ok t"
proof (induction rule: session_step.induct)
  case (step_peer s create kind add transceiver r)
  then show ?case by (intro core_task_result core_peer_created) (auto intro: observed_accepted simp: observed_def)
next
  case (step_hello s ice ok out s')
  then have "core_ok s'" using core_hello by blast
  then show ?case by (rule core_task_ends)
next
  case (step_check s sg needs out w2 s')
  then have "core_ok s'" using core_check by blast
  then show ?case by (rule result_core)
next
  case (step_renegotiate s sg needs out w2 s' who)
  then have "core_ok s'" using core_renegotiate by blast
  then show ?case by (rule core_who)
next
  case (step_offering s n initial r2 out s' who)
  then have "core_ok s'" using core_offer_made [of s n initial r2] by simp
  then show ?case by (rule core_who)
next
  case (step_media s late stats res s')
  then have "core_ok s'" using core_media by blast
  then show ?case by (auto split: option.split)
next
  case (step_send dump tg m buffered late raises s res s')
  then show ?case using core_send_message by blast
qed (auto intro: core_accept core_connection core_remote_channel core_opened observed_accepted core_started
    core_cleanup_begin core_cancel_tasks core_release_resources core_cleanup_end simp: on_local_candidate_def)

lemma held_who: "held_while_describing s' \<Longrightarrow> held_while_describing (case who of Some n \<Rightarrow> task_result n (out, s') | None \<Rightarrow> s')"
  using held_hold [of "task_result _ (out, s')" s'] by (auto split: option.split)

lemma held_result: "held_while_describing (snd r) \<Longrightarrow> held_while_describing (task_result n r)"
  using held_hold [of "task_result n r" "snd r"] by simp

lemma held_step: "session_step s t \<Longrightarrow> held_while_describing s \<Longrightarrow> held_while_describing t"
proof (induction rule: session_step.induct)
  case (step_read s parse f sg)
  then show ?case by (intro held_result held_read)
next
  case (step_offer s sm n re kind add r)
  then have "rt_held s = None" by (auto simp: describing_def intro: held_free)
  then show ?case by (intro held_result held_offer_applied)
next
  case (step_answer s n re r2)
  show ?case by (intro held_result held_answer_made)
next
  case (step_flush s cs re r)
  then have "rt_held s = None" by (auto simp: describing_def intro: held_free)
  then show ?case by (intro held_result held_candidates)
next
  case (step_remote_answer s sm re r)
  then have "rt_held s = None" by (auto simp: describing_def intro: held_free)
  then show ?case by (intro held_result held_answer_applied)
next
  case (step_candidate s c r)
  then have "rt_held s = None" by (auto simp: describing_def intro: held_free)
  then show ?case by (intro held_result held_candidates)
next
  case (step_check s sg needs out w2 s')
  then have "held_while_describing (snd (out, s'))" using held_check by simp
  then show ?case by (rule held_result)
next
  case (step_renegotiate s sg needs out w2 s' who)
  then have "held_while_describing s'" using held_renegotiate by blast
  then show ?case by (rule held_who)
next
  case (step_offering s n initial r2 out s' who)
  then have "held_while_describing s'" using held_offer_made [of n initial r2 s] by simp
  then show ?case by (rule held_who)
next
  case (step_detach s i)
  then have "rt_held s = None" by (auto simp: describing_def intro: held_free)
  then show ?case unfolding detach_track_def by (intro held_enter_phase) (simp_all add: describing_def)
next
  case (step_detached s i r)
  then have "rt_held s = None" by (auto simp: describing_def intro: held_free)
  then show ?case by (rule held_track_removed)
next
  case (step_hello s ice ok out s')
  then show ?case using held_hold [of "task_ends ''startup'' out s'" s] by simp
next
  case (step_media s late stats res s')
  then have "hold (case res of None \<Rightarrow> s' | Some out \<Rightarrow> task_ends ''media'' out s') = hold s" by (simp split: option.split)
  then show ?case using step_media held_hold by blast
next
  case (step_send dump tg m buffered late raises s res s')
  then show ?case using held_hold [of s' s] by simp
next
  case (step_cancel s stuck stuck_handlers)
  then show ?case by (rule_tac held_cancel)
qed (blast | erule held_hold [THEN iffD2, rotated], simp)+

lemma ok_step: "session_step s t \<Longrightarrow> session_ok s \<Longrightarrow> session_ok t"
  by (simp add: session_ok_def core_step held_step)

end
