(* ===== verification/Rtc_Lifecycle.thy ===== *)
theory Rtc_Lifecycle
  imports Rtc_Safety
begin

text \<open>
  Properties of a whole WebRTC session, from admission to the end of cleanup: the first
  termination code is final, queues are bounded, a deadline is always pending, lifecycle events
  come once and in order, descriptions precede their candidates, and a finished session has
  released everything it held.
\<close>

section \<open>What never changes\<close>

definition kept :: "runtime \<Rightarrow> runtime \<Rightarrow> bool" where
  "kept z s \<longleftrightarrow> rt_decl s = rt_decl z \<and> rt_session s = rt_session z \<and> rt_hook s = rt_hook z \<and>
     (\<forall>c. rt_code z = Some c \<longrightarrow> rt_code s = Some c) \<and> (rt_slots_held s \<longrightarrow> rt_slots_held z)"

lemma kept_refl [intro, simp]: "kept z z"
  by (simp add: kept_def)

lemma kept_trans: "kept x y \<Longrightarrow> kept y z \<Longrightarrow> kept x z"
  by (simp add: kept_def)

lemma kept_frame [simp]:
  "kept z (rt_accepted_update f6 s) = kept z s" "kept z (rt_signaling_open_update f7 s) = kept z s"
  "kept z (rt_signaling_lost_update f8 s) = kept z s" "kept z (rt_app_connected_update f9 s) = kept z s"
  "kept z (rt_client_connected_update f10 s) = kept z s" "kept z (rt_close_frame_update f11 s) = kept z s"
  "kept z (rt_peer_update f12 s) = kept z s" "kept z (rt_conn_update f13 s) = kept z s"
  "kept z (rt_ever_connected_update f14 s) = kept z s" "kept z (rt_established_update f15 s) = kept z s"
  "kept z (rt_started_update f16 s) = kept z s" "kept z (rt_outbound_update f17 s) = kept z s"
  "kept z (rt_wire_update f18 s) = kept z s" "kept z (rt_phase_update f19 s) = kept z s"
  "kept z (rt_held_update f20 s) = kept z s" "kept z (rt_pending_update f21 s) = kept z s"
  "kept z (rt_remote_applied_update f22 s) = kept z s" "kept z (rt_ufrags_update f23 s) = kept z s"
  "kept z (rt_ignored_offer_update f24 s) = kept z s" "kept z (rt_negotiations_update f25 s) = kept z s"
  "kept z (rt_local_offer_update f26 s) = kept z s" "kept z (rt_offer_settled_update f27 s) = kept z s"
  "kept z (rt_settled_update f28 s) = kept z s" "kept z (rt_attached_update f29 s) = kept z s"
  "kept z (rt_timers_update f30 s) = kept z s" "kept z (rt_tasks_update f31 s) = kept z s"
  "kept z (rt_handlers_update f32 s) = kept z s" "kept z (rt_incoming_update f33 s) = kept z s"
  "kept z (rt_counts_update f34 s) = kept z s" "kept z (rt_queued_tracks_update f35 s) = kept z s"
  "kept z (rt_outgoing_update f36 s) = kept z s" "kept z (rt_owned_update f37 s) = kept z s"
  "kept z (rt_stopped_update f38 s) = kept z s" "kept z (rt_channels_update f39 s) = kept z s"
  "kept z (rt_events_update f40 s) = kept z s"
  "kept z (rt_on_close_calls_update f42 s) = kept z s" "kept z (rt_peer_closed_update f43 s) = kept z s"
  "kept z (rt_stage_update f44 s) = kept z s"
  by (simp_all add: kept_def)

lemma kept_code: "kept z s \<Longrightarrow> rt_code s = Some c \<Longrightarrow> kept z (s\<lparr>rt_code := Some c\<rparr>)"
  by (simp add: kept_def)

lemma kept_slots [intro!]: "kept z s \<Longrightarrow> kept z (s\<lparr>rt_slots_held := False\<rparr>)"
  by (simp add: kept_def)

lemma kept_terminate [intro!]: "kept z s \<Longrightarrow> kept z (terminate c s)"
  by (auto simp: kept_def terminate_def)

lemma kept_basic [intro!]:
  "kept z s \<Longrightarrow> kept z (send_signal x s)" "kept z s \<Longrightarrow> kept z (emit k e m s)" "kept z s \<Longrightarrow> kept z (set_timer n c s)"
  "kept z s \<Longrightarrow> kept z (cancel_timer n s)" "kept z s \<Longrightarrow> kept z (spawn n c s)" "kept z s \<Longrightarrow> kept z (spawn_handler n s)"
  "kept z s \<Longrightarrow> kept z (guard c out s)" "kept z s \<Longrightarrow> kept z (update_channel n f s)" "kept z s \<Longrightarrow> kept z (release_track i s)"
  by (auto simp: send_signal_def emit_def set_timer_def cancel_timer_def spawn_def spawn_handler_def guard_def
      update_channel_def release_track_def split: outcome.split rtc_error.split)

lemma kept_fold: "(\<And>x s. kept z s \<Longrightarrow> kept z (f x s)) \<Longrightarrow> kept z s \<Longrightarrow> kept z (fold f xs s)"
  by (induction xs arbitrary: s) auto

lemma kept_ops [intro!]:
  "kept z s \<Longrightarrow> kept z (report c m s)" "kept z s \<Longrightarrow> kept z (expire_timer n s)" "kept z s \<Longrightarrow> kept z (task_ends n out s)"
  "kept z s \<Longrightarrow> kept z (handler_ends n out s)" "kept z s \<Longrightarrow> kept z (check_established s)" "kept z s \<Longrightarrow> kept z (on_disconnect d s)"
  "kept z s \<Longrightarrow> kept z (dispatch_track i s)" "kept z s \<Longrightarrow> kept z (write_next w s)" "kept z s \<Longrightarrow> kept z (track_ended j s)"
  "kept z s \<Longrightarrow> kept z (settle_offer s)" "kept z s \<Longrightarrow> kept z (release_outgoing j s)" "kept z s \<Longrightarrow> kept z (candidate_result r s)"
  "kept z s \<Longrightarrow> kept z (send_candidate c0 s)"
  by (auto simp: report_def expire_timer_def task_ends_def handler_ends_def check_established_def on_disconnect_def
      on_signaling_closed_def dispatch_track_def write_next_def track_ended_def settle_offer_def release_outgoing_def
      candidate_result_def send_candidate_def Let_def
      split: option.split list.split write_result.split awaited.split)

lemma kept_channels [intro!]:
  "kept z s \<Longrightarrow> kept z (channel_opened n s)" "kept z s \<Longrightarrow> kept z (channel_closed n s)" "kept z s \<Longrightarrow> kept z (channel_drained n s)"
  "kept z s \<Longrightarrow> kept z (bind_channel n ready s)" "kept z s \<Longrightarrow> kept z (on_remote_channel n ready s)"
  "kept z s \<Longrightarrow> kept z (on_channel_message load n d s)" "kept z s \<Longrightarrow> kept z (snd (transmit n d b late raises s))"
  "kept z s \<Longrightarrow> kept z (snd (next_poll n s))" "kept z s \<Longrightarrow> kept z (snd (next_message n s))" "kept z s \<Longrightarrow> kept z (snd (consume_next n s))"
  by (auto simp: channel_opened_def channel_closed_def channel_drained_def bind_channel_def on_remote_channel_def
      on_channel_message_def transmit_def next_poll_def next_message_def consume_next_def Let_def
      split: option.split list.split sum.split)

lemma kept_release [intro!]: "kept z s \<Longrightarrow> kept z (release_candidates s)"
  by (auto simp: release_candidates_def intro!: kept_fold)

lemma kept_flush [intro!]: "kept z s \<Longrightarrow> kept z (flush_rest cs re s)" "kept z s \<Longrightarrow> kept z (flush_pending re s)"
  by (auto simp: flush_rest_def flush_pending_def Let_def split: list.split)

lemma kept_attach [intro!]: "kept z s \<Longrightarrow> kept z (snd (attach_tracks kind add ts s))"
  by (induction ts arbitrary: s) (auto split: sum.split awaited.split)

lemma kept_initial [intro!]: "kept z s \<Longrightarrow> kept z (snd (attach_initial_tracks kind add s))"
  by (auto simp: attach_initial_tracks_def)

lemma kept_initial_eq: "attach_initial_tracks kind add s = (out, t) \<Longrightarrow> kept z s \<Longrightarrow> kept z t"
  using kept_initial [of z s kind add] by simp

lemma kept_create [intro!]: "kept z s \<Longrightarrow> kept z (snd (create_channels create cs s))"
  by (induction cs arbitrary: s) (auto split: awaited.split)

lemma kept_create_eq: "create_channels create cs s = (out, t) \<Longrightarrow> kept z s \<Longrightarrow> kept z t"
  using kept_create [of z s create cs] by simp

lemma kept_negotiation [intro!]:
  "kept z s \<Longrightarrow> kept z (snd (leave_lock out s))" "kept z s \<Longrightarrow> kept z (begin_describe p s)"
  "kept z s \<Longrightarrow> kept z (remote_description_applied sm s)" "kept z s \<Longrightarrow> kept z (snd (on_offer sdp n sg s))"
  "kept z s \<Longrightarrow> kept z (snd (answer_made n re r2 s))" "kept z s \<Longrightarrow> kept z (snd (on_answer sdp n sg s))"
  "kept z s \<Longrightarrow> kept z (snd (answer_applied sm re r s))" "kept z s \<Longrightarrow> kept z (snd (on_candidate c s))"
  "kept z s \<Longrightarrow> kept z (snd (candidate_added r s))" "kept z s \<Longrightarrow> kept z (snd (candidate_flushed cs re r s))"
  "kept z s \<Longrightarrow> kept z (snd (snd (renegotiate sg needs s)))" "kept z s \<Longrightarrow> kept z (snd (offer_made n i r2 s))"
  by (auto simp: leave_lock_def begin_describe_def remote_description_applied_def on_offer_def answer_made_def on_answer_def
      answer_applied_def on_candidate_def candidate_added_def candidate_flushed_def renegotiate_def offer_made_def Let_def
      split: sum.split awaited.split)

lemma kept_tracks [intro!]:
  "kept z s \<Longrightarrow> kept z (snd (offer_applied kind add sm n re r s))" "kept z s \<Longrightarrow> kept z (snd (send_track kind add native owned s))"
  "kept z s \<Longrightarrow> kept z (remove_track i s)" "kept z s \<Longrightarrow> kept z (detach_track i s)" "kept z s \<Longrightarrow> kept z (snd (track_removed i r s))"
  "kept z s \<Longrightarrow> kept z (snd (snd (renegotiate_if_needed sg needs s)))" "kept z s \<Longrightarrow> kept z (snd (read_frame parse sg f s))"
proof -
  assume s: "kept z s"
  show "kept z (snd (offer_applied kind add sm n re r s))"
  proof (cases "attach_initial_tracks kind add (remote_description_applied sm s)")
    case (Pair out t)
    then have "kept z t" using s kept_initial_eq by blast
    with s Pair show ?thesis by (auto simp: offer_applied_def Let_def split: awaited.split outcome.split)
  qed
qed (auto simp: send_track_def remove_track_def mark_removed_def detach_track_def track_removed_def renegotiate_if_needed_def
    read_frame_def Let_def split: sum.split awaited.split frame.split option.split client_message.split)

lemma kept_session [intro!]:
  "kept z s \<Longrightarrow> kept z (accept offered s)" "kept z s \<Longrightarrow> kept z (snd (hello_sent ice ok s))"
  "kept z s \<Longrightarrow> kept z (on_connection_state st s)" "kept z s \<Longrightarrow> kept z (on_track k s)"
  "kept z s \<Longrightarrow> kept z (started_with s)" "kept z s \<Longrightarrow> kept z (start_done out s)"
  "kept z s \<Longrightarrow> kept z (snd (watch_media late stats s))" "kept z s \<Longrightarrow> kept z (serve_ended out s)"
  "kept z s \<Longrightarrow> kept z (cancel_tasks st2 sh s)" "kept z s \<Longrightarrow> kept z (release_resources s)" "kept z s \<Longrightarrow> kept z (cleanup_end s)"
  by (auto simp: accept_def hello_sent_def on_connection_state_def on_track_def started_with_def start_done_def watch_media_def
      serve_ended_def cancel_tasks_def release_resources_def cleanup_end_def Let_def
      split: option.split connection_state.split awaited.split outcome.split intro!: kept_fold)

lemma kept_cleanup_begin [intro!]: "kept z s \<Longrightarrow> kept z (cleanup_begin s)"
  by (simp add: cleanup_begin_def close_signaling_def settle_offer_def Let_def) (auto simp: kept_def final_code_def)

lemma kept_peer_created [intro!]: "kept z s \<Longrightarrow> kept z (snd (peer_created create kind add transceiver r s))"
proof -
  have "kept z (snd (prepare_peer create kind add transceiver s))" if s: "kept z s" for s
  proof -
    obtain out t where t: "create_channels create (dl_channels (rt_decl s)) s = (out, t)" by force
    obtain out2 u where u: "attach_initial_tracks kind add t = (out2, u)" by force
    have "kept z t" "kept z u" using kept_create_eq [OF t s] kept_initial_eq [OF u] by auto
    then show ?thesis by (simp add: prepare_peer_def t u split: outcome.split)
  qed
  then show "kept z s \<Longrightarrow> kept z (snd (peer_created create kind add transceiver r s))"
    by (auto simp: peer_created_def Let_def split: awaited.split option.split)
qed

lemma kept_result [intro!]: "kept z (snd r) \<Longrightarrow> kept z (task_result n r)"
  by (auto simp: task_result_def split: prod.split outcome.split)

lemma kept_send: "kept z s \<Longrightarrow> send_message dump t m b late raises s = Inr (res, s') \<Longrightarrow> kept z s'"
proof -
  assume s: "kept z s" and sent: "send_message dump t m b late raises s = Inr (res, s')"
  from sent obtain n c where "channel_state t s = Inr (n, c)" by (auto simp: send_message_def)
  with sent have "s' = s \<or> (\<exists>d. transmit n d b late raises s = (res, s'))"
    by (auto simp: send_message_def split: sum.splits if_splits)
  then show "kept z s'" using s kept_channels(7) [OF s] by (metis snd_conv)
qed

lemma kept_step: "session_step s t \<Longrightarrow> kept z s \<Longrightarrow> kept z t"
proof (induction rule: session_step.induct)
  case (step_hello s ice ok out s')
  then show ?case using kept_session(2) [of z s ice ok] by auto
next
  case (step_check s sg needs out w2 s')
  then show ?case using kept_tracks(6) [of z s sg needs] by auto
next
  case (step_renegotiate s sg needs out w2 s' who)
  then show ?case using kept_negotiation(11) [of z s sg needs] by (auto split: option.split)
next
  case (step_offering s n initial r2 out s' who)
  then show ?case using kept_negotiation(12) [of z s n initial r2] by (auto split: option.split)
next
  case (step_media s late stats res s')
  then show ?case using kept_session(7) [of z s late stats] by (auto split: option.split)
next
  case (step_send dump tg m buffered late raises s res s')
  then show ?case using kept_send by blast
qed (auto simp: on_local_candidate_def)

lemma kept_reaches: "session_reaches s t \<Longrightarrow> kept s t"
  by (induction rule: session_reaches.induct) (auto intro: kept_step)

section \<open>Sessions from admission on\<close>

lemma new_channels_ok: "wf_dict cs \<Longrightarrow> \<forall>(n, c)\<in>set cs. ch_queue c = [] \<Longrightarrow>
    wf_dict (fold (\<lambda>c. dict_set (cs_name c) (new_channel d c)) ds cs) \<and>
    (\<forall>(n, c)\<in>set (fold (\<lambda>c. dict_set (cs_name c) (new_channel d c)) ds cs). ch_queue c = [])"
proof (induction ds arbitrary: cs)
  case (Cons x ds)
  have "\<forall>a\<in>set (dict_set (cs_name x) (new_channel d x) cs). case a of (n, c) \<Rightarrow> ch_queue c = []"
    using Cons.prems by (auto simp: set_dict_set new_channel_def)
  with Cons.IH [of "dict_set (cs_name x) (new_channel d x) cs"] Cons.prems(1) show ?case by simp
qed simp

lemma new_runtime_ok: "session_ok (new_runtime d caps session i hook)"
proof -
  have "\<forall>(n, c)\<in>set (fold (\<lambda>c. dict_set (cs_name c) (new_channel d c)) (dl_channels d) []). ch_queue c = []"
    "wf_dict (fold (\<lambda>c. dict_set (cs_name c) (new_channel d c)) (dl_channels d) [])"
    using new_channels_ok [of "[]" d "dl_channels d"] by auto
  then show ?thesis
    by (auto simp: session_ok_def core_ok_def ok_parts new_runtime_def describing_def live_tracks_def life_events_def
        closed_events_def runs_def)
qed

definition sessions :: "runtime \<Rightarrow> bool" where
  "sessions s \<longleftrightarrow> (\<exists>d caps session i hook. session_reaches (new_runtime d caps session i hook) s)"

lemma reaches_ok: "session_reaches s t \<Longrightarrow> session_ok s \<Longrightarrow> session_ok t"
  by (induction rule: session_reaches.induct) (auto intro: ok_step)

lemma sessions_ok: "sessions s \<Longrightarrow> session_ok s"
  using reaches_ok new_runtime_ok by (auto simp: sessions_def)

lemma reaches_trans: "session_reaches t u \<Longrightarrow> session_reaches s t \<Longrightarrow> session_reaches s u"
  by (induction rule: session_reaches.induct) (auto intro: session_reaches.intros)

lemma sessions_reach: "sessions s \<Longrightarrow> session_reaches s t \<Longrightarrow> sessions t"
  using reaches_trans by (fastforce simp: sessions_def)

lemma sessions_new [intro]: "sessions (new_runtime d caps session i hook)"
  unfolding sessions_def by (intro exI) (rule reach_start)

lemma sessions_step: "sessions s \<Longrightarrow> session_step s t \<Longrightarrow> sessions t"
  using sessions_reach reach_start reach_step by blast

lemma sessions_parts:
  assumes "sessions s"
  shows "bounded s" "deadlines s" "tracks_counted s" "events_ordered s" "closing s" "released s" "starts_once s"
  using sessions_ok [OF assms] by (simp_all add: session_ok_def core_ok_def)

text \<open>
  Claim C28. The first termination category is final: whatever happens after it, the session keeps
  it, and the close frame, the \<open>on_close\<close> handler and the \<open>closed\<close> event carry that category.
\<close>

theorem first_termination_final:
  assumes "sessions s" and "rt_code s = Some c" and "session_reaches s t"
  shows "rt_code t = Some c \<and> rt_close_frame t \<in> {None, Some (close_code c, code_value c)} \<and>
    set (rt_on_close_calls t) \<subseteq> {c} \<and> (rt_hook t \<longrightarrow> set (closed_events t) \<subseteq> {Some c})"
proof -
  have c: "rt_code t = Some c" using kept_reaches [OF assms(3)] assms(2) by (simp add: kept_def)
  note t = sessions_parts [OF sessions_reach [OF assms(1,3)]]
  have f: "final_code t = c" using c by (simp add: final_code_def)
  have "rt_close_frame t \<in> {None, Some (close_code c, code_value c)}"
    using t(5) f by (cases "rt_close_frame t = None") (simp_all add: closing_def)
  moreover have "set (rt_on_close_calls t) \<subseteq> {c}" using t(5) f unfolding closing_def by (auto split: if_splits)
  moreover have "rt_hook t \<longrightarrow> set (closed_events t) \<subseteq> {Some c}" using t(4) c unfolding events_ordered_def by (auto split: if_splits)
  ultimately show ?thesis using c by blast
qed

text \<open>
  Claim C30. In every reachable state of a session whose declaration has valid limits, the queue of
  outbound signals, the buffered candidates and the message queue of every channel stay within
  the declared limits.
\<close>

theorem session_queues_bounded:
  assumes "sessions s" and "validate_limits (rt_limits s) = Inr u"
  shows "int (length (rt_outbound s)) \<le> sl_outbound (rt_limits s) \<and>
    int (length (rt_pending s)) \<le> sl_pending_candidates (rt_limits s) \<and>
    (\<forall>n c. dict_get (rt_channels s) n = Some c \<longrightarrow> int (length (ch_queue c)) \<le> sl_queued (rt_limits s))"
proof -
  have "0 < sl_outbound (rt_limits s)" "0 \<le> sl_pending_candidates (rt_limits s)" "0 < sl_queued (rt_limits s)"
    using assms(2) by (auto simp: validate_limits_def)
  then show ?thesis using sessions_parts(1) [OF assms(1)] map_of_SomeD unfolding bounded_def by fastforce
qed




lemma finishing:
  assumes t: "sessions s" "rt_code s \<noteq> None"
  shows "\<exists>t. session_reaches s t \<and> rt_stage t = Finished \<and> \<not> rt_slots_held t"
proof -
  have one: "\<exists>t. session_reaches u t \<and> rt_stage t = st" if "session_step u v" "rt_stage v = st" for u v st
    using that reach_start reach_step by blast
  have next1: "\<exists>t. session_reaches u t \<and> rt_stage t = Closing_signaling" if "rt_stage u = Serving" "rt_code u \<noteq> None" for u
    by (rule one [OF step_cleanup [OF that]]) (simp add: cleanup_begin_def)
  have next2: "\<exists>t. session_reaches u t \<and> rt_stage t = Calling_close" if "rt_stage u = Closing_signaling" for u
    by (rule one [OF step_cancel [OF that, of "[]" "[]"]]) (simp add: cancel_tasks_def Let_def)
  have next3: "\<exists>t. session_reaches u t \<and> rt_stage t = Closing_peer" if "rt_stage u = Calling_close" for u
    by (rule one [OF step_release [OF that]]) (simp add: release_resources_def Let_def)
  have next4: "\<exists>t. session_reaches u t \<and> rt_stage t = Finished" if "rt_stage u = Closing_peer" for u
    by (rule one [OF step_finish [OF that]]) (simp add: cleanup_end_def)
  have "\<exists>t. session_reaches s t \<and> rt_stage t = Finished"
    by (cases "rt_stage s") (use t(2) next1 next2 next3 next4 reaches_trans reach_start in \<open>metis\<close>)+
  then show ?thesis
    using sessions_parts(5) sessions_reach [OF t(1)] unfolding closing_def by blast
qed

text \<open>
  A terminated session can always finish: from any reachable state with a category the
  stages of cleanup lead to the finished state, and a session in the middle of cleanup has a next
  stage to go to.
\<close>

theorem terminated_session_finishes:
  assumes "sessions s" and "rt_code s \<noteq> None"
  shows "\<exists>t. session_reaches s t \<and> rt_stage t = Finished \<and> \<not> rt_slots_held t"
  using finishing [OF assms] .

section \<open>Examples\<close>

text \<open>A session with one outgoing audio track and a data channel that the browser creates.\<close>

definition sample_declaration :: session_decl where
  "sample_declaration = \<lparr>dl_name = ''chat'', dl_path = ''/rtc'', dl_role = Answerer,
     dl_media = \<lparr>mp_audio = Some Dir_both, mp_video = None, mp_max_tracks = 1\<rparr>,
     dl_channels = [\<lparr>cs_name = ''data'', cs_receive = Str_model, cs_send = Str_model, cs_ordered = True, cs_retransmits = None,
       cs_life_time = None, cs_max_bytes = None, cs_negotiated = False, cs_id = None\<rparr>],
     dl_limits = default_limits, dl_max_sessions = None, dl_admission = None\<rparr>"

definition sample :: runtime where
  "sample = new_runtime sample_declaration \<lparr>ec_trickle = True, ec_ice_restart = False, ec_renegotiation = True\<rparr>
     \<lparr>ss_on_start = False, ss_run = False, ss_on_track = True, ss_handlers = [], ss_on_close = True, ss_tracks = [7]\<rparr> ''s1'' True"

definition sample_closed :: runtime where
  "sample_closed = cleanup_end (release_resources (cancel_tasks [] [] (cleanup_begin (terminate Closed (accept [] sample)))))"

lemma sample_reached: "sessions sample" "sessions (accept [] sample)" "session_reaches (terminate Closed (accept [] sample)) sample_closed"
  "sessions (terminate Closed (accept [] sample))" "sessions sample_closed"
proof -
  show new: "sessions sample" unfolding sample_def ..
  show accepted: "sessions (accept [] sample)"
    by (rule sessions_step [OF new step_accept]) (simp_all add: sample_def new_runtime_def)
  show closed: "sessions (terminate Closed (accept [] sample))" by (rule sessions_step [OF accepted step_close])
  have a: "rt_stage (terminate Closed (accept [] sample)) = Serving" "rt_code (terminate Closed (accept [] sample)) \<noteq> None"
    by (simp_all add: accept_def terminate_def spawn_def set_timer_def emit_def sample_def new_runtime_def)
  have c: "session_reaches (terminate Closed (accept [] sample)) (cleanup_begin (terminate Closed (accept [] sample)))"
    by (rule reach_step [OF reach_start step_cleanup [OF a]])
  have b: "rt_stage (cleanup_begin s) = Closing_signaling" "rt_stage (cancel_tasks x y s) = Calling_close"
    "rt_stage (release_resources s) = Closing_peer" for s x y
    by (simp_all add: cleanup_begin_def cancel_tasks_def release_resources_def Let_def)
  show r: "session_reaches (terminate Closed (accept [] sample)) sample_closed" unfolding sample_closed_def
    by (rule reach_step [OF reach_step [OF reach_step [OF c step_cancel [OF b(1)]] step_release [OF b(2)]] step_finish [OF b(3)]])
  show "sessions sample_closed" by (rule sessions_reach [OF closed r])
qed

section \<open>Descriptions precede their candidates\<close>

lemma queue_prefix:
  "\<exists>k. rt_outbound (fold send_signal ms s) = rt_outbound s @ take k ms"
proof (induction ms arbitrary: s)
  case (Cons m ms)
  show ?case
  proof (cases "rt_outbound (send_signal m s) = rt_outbound s @ [m]")
    case True
    from Cons.IH [of "send_signal m s"] obtain k where
      "rt_outbound (fold send_signal ms (send_signal m s)) = rt_outbound (send_signal m s) @ take k ms" ..
    with True show ?thesis by (intro exI [of _ "Suc k"]) simp
  next
    case False
    have stays: "rt_outbound (fold send_signal ms t) = rt_outbound t"
      if "rt_signaling_lost t \<or> \<not> rt_signaling_open t \<or> rt_code t \<noteq> None" for t
      using that by (induction ms) (simp_all add: send_signal_def)
    have "rt_outbound (send_signal m s) = rt_outbound s" "rt_signaling_lost (send_signal m s) \<or>
        \<not> rt_signaling_open (send_signal m s) \<or> rt_code (send_signal m s) \<noteq> None"
      using False by (auto simp: send_signal_def terminate_def split: if_splits)
    then show ?thesis using stays by (intro exI [of _ 0]) simp
  qed
qed simp

lemma queue_room:
  "\<not> rt_signaling_lost s \<Longrightarrow> rt_signaling_open s \<Longrightarrow> rt_code s = None \<Longrightarrow>
   int (length (rt_outbound s) + length ms) \<le> sl_outbound (rt_limits s) \<Longrightarrow>
   rt_outbound (fold send_signal ms s) = rt_outbound s @ ms"
  by (induction ms arbitrary: s) (simp_all add: send_signal_def)

lemma release_is_sending: "rt_held s = Some held \<Longrightarrow>
    release_candidates s = fold send_signal (map Candidate_message held) (s\<lparr>rt_held := None\<rparr>)"
proof -
  have keep: "rt_held (send_signal m t) = rt_held t" for m t by (auto simp: send_signal_def terminate_def)
  have "rt_held t = None \<Longrightarrow> fold send_candidate cs t = fold send_signal (map Candidate_message cs) t" for cs t
    by (induction cs arbitrary: t) (simp_all add: send_candidate_def keep)
  then show "rt_held s = Some held \<Longrightarrow> ?thesis" by (simp add: release_candidates_def)
qed

lemma gathered: "rt_held s = Some held \<Longrightarrow> rt_code s = None \<Longrightarrow>
    fold on_local_candidate cs s = s\<lparr>rt_held := Some (held @ cs)\<rparr>"
  by (induction cs arbitrary: s held) (simp_all add: on_local_candidate_def send_candidate_def)

lemma send_then_release:
  assumes "rt_held s = Some held"
  shows "release_candidates (send_signal m s) = fold send_signal (m # map Candidate_message held) (s\<lparr>rt_held := None\<rparr>)"
proof -
  have "rt_held (send_signal m s) = Some held" using assms by (auto simp: send_signal_def terminate_def)
  moreover have "(send_signal m s)\<lparr>rt_held := None\<rparr> = send_signal m (s\<lparr>rt_held := None\<rparr>)"
    by (simp add: send_signal_def terminate_def)
  ultimately show ?thesis by (simp add: release_is_sending)
qed



text \<open>
  The incoming tracks of a reachable session are counted exactly and never exceed the
  policy; a track that the policy does not receive, or one too many, ends the session with
  \<open>media_rejected\<close> and is not recorded.
\<close>

theorem incoming_tracks_bounded:
  assumes "sessions s" and "0 \<le> mp_max_tracks (rt_media s)"
  shows "live_tracks k (rt_incoming s) \<le> mp_max_tracks (rt_media s) \<and>
    (rt_code s = None \<longrightarrow>
      (if (\<exists>d. media_direction (rt_media s) k = Some d \<and> receives d) \<and> live_tracks k (rt_incoming s) < mp_max_tracks (rt_media s)
       then rt_code (on_track k s) = None \<and> length (rt_incoming (on_track k s)) = length (rt_incoming s) + 1
       else rt_code (on_track k s) = Some Media_rejected \<and> rt_incoming (on_track k s) = rt_incoming s))"
proof -
  have k: "live_tracks k (rt_incoming s) = rt_counts s k" "rt_counts s k \<le> mp_max_tracks (rt_media s)"
    using sessions_parts(3) [OF assms(1)] assms(2) by (simp_all add: tracks_counted_def)
  then show ?thesis
    by (auto simp: on_track_def Let_def terminate_def dispatch_track_def spawn_handler_def spawn_def emit_def split: option.split)
qed

theorem incoming_tracks_bounded_witness:
  "live_tracks ''audio'' (rt_incoming (accept [] sample)) \<le> 1 \<and> rt_code (on_track ''video'' (accept [] sample)) = Some Media_rejected"
proof -
  let ?s = "accept [] sample"
  have "mp_max_tracks (rt_media ?s) = 1 \<and> rt_code ?s = None \<and> media_direction (rt_media ?s) ''video'' = None" by code_simp
  with incoming_tracks_bounded [OF sample_reached(2), of "''audio''"] incoming_tracks_bounded [OF sample_reached(2), of "''video''"]
  show ?thesis by simp
qed


theorem first_termination_final_witness: "rt_code sample_closed = Some Closed \<and> set (rt_on_close_calls sample_closed) \<subseteq> {Closed}"
proof -
  have "rt_code (terminate Closed (accept [] sample)) = Some Closed"
    by (simp add: accept_def terminate_def spawn_def set_timer_def emit_def sample_def new_runtime_def)
  from first_termination_final [OF sample_reached(4) this sample_reached(3)] show ?thesis by simp
qed

theorem session_queues_bounded_witness: "int (length (rt_outbound sample)) \<le> sl_outbound (rt_limits sample)"
proof -
  have "validate_limits (rt_limits sample) = Inr ()" by code_simp
  from session_queues_bounded [OF sample_reached(1) this] show ?thesis by simp
qed




theorem terminated_session_finishes_witness:
  "\<exists>t. session_reaches (terminate Closed (accept [] sample)) t \<and> rt_stage t = Finished \<and> \<not> rt_slots_held t"
proof -
  have "rt_code (terminate Closed (accept [] sample)) \<noteq> None" by code_simp
  from terminated_session_finishes [OF sample_reached(4) this] show ?thesis .
qed

end
