(* ===== verification/Rtc_Router.thy ===== *)
theory Rtc_Router
  imports Rtc_Lifecycle
begin

text \<open>
  WebRTC routers (\<open>fastapi_canon/integrations/webrtc/capacity.py\<close> and \<open>router.py\<close>): shared
  capacities and the slots sessions hold in them, declaration and admission of sessions, shutdown,
  and the steps of all running sessions together. A capacity is its index in the table of
  capacities, a session is identified by its reservation.
\<close>

section \<open>Capacities and reservations (capacity.py)\<close>

record session_capacity =
  sc_max :: int
  sc_active :: int

definition new_capacity :: "pyval \<Rightarrow> (string, session_capacity) result" where
  "new_capacity v = (case v of
     PInt n \<Rightarrow> if n \<le> 0 then Inl ''max_sessions must be positive'' else Inr \<lparr>sc_max = n, sc_active = 0\<rparr>
   | _ \<Rightarrow> Inl ''max_sessions must be positive'')"

definition full :: "session_capacity \<Rightarrow> bool" where
  "full c \<longleftrightarrow> sc_max c \<le> sc_active c"

record reservation =
  sr_capacities :: "nat list"
  sr_held :: bool

record slot_table =
  st_capacities :: "session_capacity list"
  st_reservations :: "reservation list"

definition add_active :: "int \<Rightarrow> nat list \<Rightarrow> session_capacity list \<Rightarrow> session_capacity list" where
  "add_active n cids caps = fold (\<lambda>i caps. caps[i := (caps ! i)\<lparr>sc_active := sc_active (caps ! i) + n\<rparr>]) cids caps"

definition reserve_slots :: "nat list \<Rightarrow> slot_table \<Rightarrow> slot_table" where
  \<comment> \<open>\<open>SlotReservation(*capacities)\<close>; its index is the old length\<close>
  "reserve_slots cids t =
     t\<lparr>st_capacities := add_active 1 cids (st_capacities t),
       st_reservations := st_reservations t @ [\<lparr>sr_capacities = cids, sr_held = True\<rparr>]\<rparr>"

definition release_slots :: "nat \<Rightarrow> slot_table \<Rightarrow> slot_table" where
  "release_slots r t =
     (if r < length (st_reservations t) \<and> sr_held (st_reservations t ! r)
      then t\<lparr>st_capacities := add_active (- 1) (sr_capacities (st_reservations t ! r)) (st_capacities t),
             st_reservations := (st_reservations t)[r := (st_reservations t ! r)\<lparr>sr_held := False\<rparr>]\<rparr>
      else t)"

section \<open>Routers (router.py)\<close>

record webrtc_router =
  wr_slots :: slot_table
  wr_own :: "nat option"
  wr_declarations :: "(session_decl \<times> nat list) list"
  wr_closing :: bool
  wr_sessions :: "(nat \<times> runtime) list"
  wr_hook :: bool
  wr_events :: "session_event list"
  wr_stopped :: "nat list"

definition make_capacity :: "pyval option \<Rightarrow> slot_table \<Rightarrow> (string, nat option \<times> slot_table) result" where
  \<comment> \<open>\<open>_capacity\<close>\<close>
  "make_capacity v t = (case v of
     None \<Rightarrow> Inr (None, t)
   | Some n \<Rightarrow> rbind (new_capacity n) (\<lambda>c.
       Inr (Some (length (st_capacities t)), t\<lparr>st_capacities := st_capacities t @ [c]\<rparr>)))"

definition declare_session ::
  "session_decl \<Rightarrow> nat item option \<Rightarrow> webrtc_router \<Rightarrow> (string, webrtc_router) result" where
  \<comment> \<open>\<open>session()\<close> and its decorator: the declared limit makes a capacity of its own\<close>
  "declare_session d shared w =
     rbind (ensure (shared \<noteq> Some Foreign) ''capacity must be a SessionCapacity instance or None'') (\<lambda>_.
     rbind (make_capacity (map_option PInt (dl_max_sessions d)) (wr_slots w)) (\<lambda>(own, t).
     rbind (validate_declaration d) (\<lambda>_.
     rbind (ensure (\<forall>(d2, _)\<in>set (wr_declarations w). dl_name d2 \<noteq> dl_name d) ''Session is already declared'') (\<lambda>_.
       Inr (w\<lparr>wr_slots := t, wr_declarations := wr_declarations w @
         [(d, List.map_filter (\<lambda>c. c) [wr_own w, own, case shared of Some (Instance c) \<Rightarrow> Some c | _ \<Rightarrow> None])]\<rparr>)))))"

definition emit_event :: "session_event \<Rightarrow> webrtc_router \<Rightarrow> webrtc_router" where
  "emit_event e w = (if wr_hook w then w\<lparr>wr_events := wr_events w @ [e]\<rparr> else w)"

definition admit ::
  "session_decl \<Rightarrow> nat list \<Rightarrow> capabilities \<Rightarrow> session_spec \<Rightarrow> string \<Rightarrow> webrtc_router \<Rightarrow> nat option \<times> webrtc_router" where
  "admit d cids caps session sid w =
     (if wr_closing w then (None, w)
      else if list_ex (\<lambda>i. full (st_capacities (wr_slots w) ! i)) cids
      then (None, emit_event \<lparr>ev_kind = Ev_rejected, ev_code = Some Session_limit, ev_media = None\<rparr> w)
      else (let r = length (st_reservations (wr_slots w))
            in (Some r, w\<lparr>wr_slots := reserve_slots cids (wr_slots w),
                          wr_sessions := wr_sessions w @ [(r, new_runtime d caps session sid (wr_hook w))]\<rparr>)))"

datatype admission = Refused error_code | Admitted nat

definition refuse :: "error_code \<Rightarrow> session_spec \<Rightarrow> webrtc_router \<Rightarrow> admission \<times> webrtc_router" where
  \<comment> \<open>the close code is the category's; the tracks the factory handed over are stopped, each once\<close>
  "refuse c session w = (Refused c, w\<lparr>wr_stopped := wr_stopped w @ fromkeys (ss_tracks session)\<rparr>)"

definition serve_session ::
  "session_decl \<Rightarrow> nat list \<Rightarrow> bool \<Rightarrow> (handler_key \<times> nat) list \<Rightarrow> capabilities \<Rightarrow> session_spec \<Rightarrow> string \<Rightarrow> webrtc_router \<Rightarrow>
     admission \<times> webrtc_router" where
  \<comment> \<open>\<open>_serve\<close> up to \<open>runtime.serve()\<close>\<close>
  "serve_session d cids has_engine on_message caps session sid w =
     (if \<not> has_engine then refuse Handler_failure session w
      else if invalid_handlers d on_message (ss_handlers session) \<noteq> [] then refuse Handler_failure session w
      else (case admit d cids caps session sid w of
          (Some r, w) \<Rightarrow> (Admitted r, w)
        | (None, w) \<Rightarrow> refuse (if wr_closing w then Shutdown else Session_limit) session w))"

definition session_moves :: "nat \<Rightarrow> runtime \<Rightarrow> webrtc_router \<Rightarrow> webrtc_router" where
  \<comment> \<open>a running session goes on; cleanup releases its reservation\<close>
  "session_moves r s w =
     w\<lparr>wr_sessions := map (\<lambda>(k, x). (k, if k = r then s else x)) (wr_sessions w),
       wr_slots := (if rt_slots_held s then wr_slots w else release_slots r (wr_slots w))\<rparr>"

definition session_ends :: "nat \<Rightarrow> webrtc_router \<Rightarrow> webrtc_router" where
  "session_ends r w = w\<lparr>wr_sessions := filter (\<lambda>(k, _). k \<noteq> r) (wr_sessions w)\<rparr>"

definition close_router :: "webrtc_router \<Rightarrow> webrtc_router" where
  \<comment> \<open>\<open>aclose\<close>, without waiting\<close>
  "close_router w = w\<lparr>wr_closing := True, wr_sessions := map (\<lambda>(k, s). (k, terminate Shutdown s)) (wr_sessions w)\<rparr>"

definition close_timeout :: "rat \<Rightarrow> rat list \<Rightarrow> rat" where
  \<comment> \<open>how long \<open>aclose\<close> waits by default; the list is of the sessions' shutdown timeouts\<close>
  "close_timeout minimum timeouts = 2 * minimum + fold max (tl timeouts) (hd timeouts)"

definition open_router :: "webrtc_router \<Rightarrow> webrtc_router" where
  "open_router w = w\<lparr>wr_closing := False\<rparr>"

inductive router_step :: "webrtc_router \<Rightarrow> webrtc_router \<Rightarrow> bool" where
  router_declares: "declare_session d shared w = Inr w' \<Longrightarrow>
    (\<And>i. shared = Some (Instance i) \<Longrightarrow> i < length (st_capacities (wr_slots w)) \<and> Some i \<noteq> wr_own w) \<Longrightarrow> router_step w w'"
| router_serves: "(d, cids) \<in> set (wr_declarations w) \<Longrightarrow>
    serve_session d cids has_engine on_message caps session sid w = (res, w') \<Longrightarrow> router_step w w'"
| router_runs: "(r, s) \<in> set (wr_sessions w) \<Longrightarrow> session_step s t \<Longrightarrow> router_step w (session_moves r t w)"
| router_ends: "(r, s) \<in> set (wr_sessions w) \<Longrightarrow> rt_stage s = Finished \<Longrightarrow> router_step w (session_ends r w)"
| router_closes: "router_step w (close_router w)"
| router_opens: "router_step w (open_router w)"

inductive router_reaches :: "webrtc_router \<Rightarrow> webrtc_router \<Rightarrow> bool" where
  router_start: "router_reaches w w"
| router_next: "router_reaches w v \<Longrightarrow> router_step v u \<Longrightarrow> router_reaches w u"

definition new_router :: "session_capacity list \<Rightarrow> nat option \<Rightarrow> bool \<Rightarrow> webrtc_router" where
  \<comment> \<open>with the capacities that exist, the router's own among them\<close>
  "new_router caps own hook = \<lparr>wr_slots = \<lparr>st_capacities = caps, st_reservations = []\<rparr>, wr_own = own, wr_declarations = [],
     wr_closing = False, wr_sessions = [], wr_hook = hook, wr_events = [], wr_stopped = []\<rparr>"

section \<open>Slots are counted\<close>

definition holders :: "nat \<Rightarrow> slot_table \<Rightarrow> nat set" where
  "holders i t = {r. r < length (st_reservations t) \<and> sr_held (st_reservations t ! r) \<and> i \<in> set (sr_capacities (st_reservations t ! r))}"

definition counted :: "slot_table \<Rightarrow> nat \<Rightarrow> bool" where
  "counted t i \<longleftrightarrow> sc_active (st_capacities t ! i) = int (card (holders i t)) \<and>
     sc_active (st_capacities t ! i) \<le> sc_max (st_capacities t ! i) \<and> 0 \<le> sc_max (st_capacities t ! i)"

definition refers :: "slot_table \<Rightarrow> reservation \<Rightarrow> bool" where
  "refers t r \<longleftrightarrow> distinct (sr_capacities r) \<and> (\<forall>i\<in>set (sr_capacities r). i < length (st_capacities t))"

definition slots_ok :: "slot_table \<Rightarrow> bool" where
  "slots_ok t \<longleftrightarrow> (\<forall>r\<in>set (st_reservations t). refers t r) \<and> (\<forall>i<length (st_capacities t). counted t i)"

lemma holders_finite [simp, intro]: "finite (holders i t)"
  by (simp add: holders_def)

lemma length_add_active [simp]: "length (add_active n cids caps) = length caps"
proof -
  have "length (fold (\<lambda>i caps. caps[i := f i caps]) cids caps) = length caps" for f cids and caps :: "session_capacity list"
    by (induction cids arbitrary: caps) auto
  then show ?thesis by (simp add: add_active_def)
qed

lemma nth_add_active: "distinct cids \<Longrightarrow> i < length caps \<Longrightarrow> add_active n cids caps ! i =
    (if i \<in> set cids then (caps ! i)\<lparr>sc_active := sc_active (caps ! i) + n\<rparr> else caps ! i)"
proof (induction cids arbitrary: caps)
  case (Cons c cids)
  let ?caps = "caps[c := (caps ! c)\<lparr>sc_active := sc_active (caps ! c) + n\<rparr>]"
  have "add_active n (c # cids) caps = add_active n cids ?caps" by (simp add: add_active_def)
  with Cons show ?case by (cases "i = c") auto
qed (simp add: add_active_def)

lemma holders_reserve: "holders i (reserve_slots cids t) =
    (if i \<in> set cids then insert (length (st_reservations t)) (holders i t) else holders i t)"
  by (auto simp: holders_def reserve_slots_def nth_append)

lemma holders_release: "holders i (release_slots r t) = holders i t - {r}"
  by (auto simp: holders_def release_slots_def nth_list_update)

lemma capacities_length [simp]: "length (st_capacities (reserve_slots cids t)) = length (st_capacities t)"
  "length (st_capacities (release_slots r t)) = length (st_capacities t)"
  by (simp_all add: reserve_slots_def release_slots_def)

lemma slots_reserve:
  assumes "slots_ok t" and "distinct cids" and "\<forall>i\<in>set cids. i < length (st_capacities t) \<and> \<not> full (st_capacities t ! i)"
  shows "slots_ok (reserve_slots cids t)"
proof -
  have fresh: "length (st_reservations t) \<notin> holders i t" for i by (simp add: holders_def)
  have "counted (reserve_slots cids t) i" if i: "i < length (st_capacities t)" for i
  proof -
    have "st_capacities (reserve_slots cids t) ! i =
        (if i \<in> set cids then (st_capacities t ! i)\<lparr>sc_active := sc_active (st_capacities t ! i) + 1\<rparr> else st_capacities t ! i)"
      using assms(2) i by (simp add: reserve_slots_def nth_add_active)
    then show ?thesis using assms(1,3) i fresh
      by (auto simp: counted_def holders_reserve slots_ok_def full_def)
  qed
  moreover have "refers (reserve_slots cids t) r" if "r \<in> set (st_reservations (reserve_slots cids t))" for r
    using that assms by (auto simp: slots_ok_def refers_def reserve_slots_def)
  ultimately show ?thesis by (simp add: slots_ok_def)
qed

lemma slots_release:
  assumes "slots_ok t"
  shows "slots_ok (release_slots r t)"
proof (cases "r < length (st_reservations t) \<and> sr_held (st_reservations t ! r)")
  case True
  let ?cids = "sr_capacities (st_reservations t ! r)"
  have mem: "st_reservations t ! r \<in> set (st_reservations t)" using True by simp
  then have d: "distinct ?cids" using assms by (auto simp: slots_ok_def refers_def)
  have "counted (release_slots r t) i" if i: "i < length (st_capacities t)" for i
  proof -
    have cap: "st_capacities (release_slots r t) ! i =
        (if i \<in> set ?cids then (st_capacities t ! i)\<lparr>sc_active := sc_active (st_capacities t ! i) + (- 1)\<rparr> else st_capacities t ! i)"
      using True nth_add_active [OF d i, of "- 1"] by (simp add: release_slots_def)
    have old: "counted t i" using assms i by (simp add: slots_ok_def)
    show ?thesis
    proof (cases "i \<in> set ?cids")
      case in_r: True
      then have r: "r \<in> holders i t" using True by (simp add: holders_def)
      then have "card (holders i t) > 0" using card_gt_0_iff by blast
      then show ?thesis using old cap in_r r by (auto simp: counted_def holders_release card_Diff_singleton)
    next
      case False
      then have "r \<notin> holders i t" by (simp add: holders_def)
      then show ?thesis using old cap False by (simp add: counted_def holders_release)
    qed
  qed
  moreover have "refers (release_slots r t) x" if "x \<in> set (st_reservations (release_slots r t))" for x
  proof -
    have "x = (st_reservations t ! r)\<lparr>sr_held := False\<rparr> \<or> x \<in> set (st_reservations t)"
      using that True set_update_subset_insert [of "st_reservations t" r] by (auto simp: release_slots_def)
    then show ?thesis using assms mem by (auto simp: slots_ok_def refers_def)
  qed
  ultimately show ?thesis by (simp add: slots_ok_def)
qed (use assms in \<open>auto simp: release_slots_def\<close>)

text \<open>One capacity, as admission uses it for a session that needs no other, is a pool of slots.\<close>

definition take_slot :: "nat \<Rightarrow> slot_table \<Rightarrow> nat option \<times> slot_table" where
  "take_slot i t = (if full (st_capacities t ! i) then (None, t)
     else (Some (length (st_reservations t)), reserve_slots [i] t))"

definition capacity_limit :: "nat \<Rightarrow> slot_table \<Rightarrow> nat option" where
  "capacity_limit i t = Some (nat (sc_max (st_capacities t ! i)))"

definition pool_ok :: "nat \<Rightarrow> slot_table \<Rightarrow> bool" where
  "pool_ok i t \<longleftrightarrow> slots_ok t \<and> i < length (st_capacities t)"

lemma max_kept: "slots_ok t \<Longrightarrow> i < length (st_capacities t) \<Longrightarrow> sc_max (st_capacities (release_slots r t) ! i) = sc_max (st_capacities t ! i)"
proof -
  assume t: "slots_ok t" "i < length (st_capacities t)"
  show ?thesis
  proof (cases "r < length (st_reservations t) \<and> sr_held (st_reservations t ! r)")
    case True
    then have "distinct (sr_capacities (st_reservations t ! r))" using t(1) by (auto simp: slots_ok_def refers_def)
    with True t(2) show ?thesis by (simp add: release_slots_def nth_add_active)
  qed (auto simp: release_slots_def)
qed

interpretation capacity: slot_pool "take_slot i" release_slots "holders i" "capacity_limit i" "pool_ok i" for i
proof
  fix t t' :: slot_table and r
  assume ok: "pool_ok i t"
  show "finite (holders i t)" by simp
  show "pool_ok i (snd (take_slot i t))"
    using ok by (auto simp: pool_ok_def take_slot_def intro!: slots_reserve)
  show "pool_ok i (release_slots r t)" using ok by (simp add: pool_ok_def slots_release)
  have c: "counted t i" using ok by (simp add: pool_ok_def slots_ok_def)
  show "take_slot i t = (Some r, t') \<Longrightarrow> r \<notin> holders i t \<and> holders i t' = insert r (holders i t) \<and>
      capacity_limit i t' = capacity_limit i t \<and> (case capacity_limit i t of None \<Rightarrow> True | Some n \<Rightarrow> card (holders i t) < n)"
  proof -
    assume taken: "take_slot i t = (Some r, t')"
    then have t': "t' = reserve_slots [i] t" "r = length (st_reservations t)" "\<not> full (st_capacities t ! i)"
      by (auto simp: take_slot_def split: if_splits)
    have "sc_max (st_capacities t' ! i) = sc_max (st_capacities t ! i)"
      using ok by (simp add: t' reserve_slots_def nth_add_active pool_ok_def)
    moreover have "r \<notin> holders i t" by (simp add: t' holders_def)
    ultimately show ?thesis using t' c by (simp add: holders_reserve capacity_limit_def counted_def full_def)
  qed
  show "take_slot i t = (None, t') \<Longrightarrow> t' = t \<and> (case capacity_limit i t of None \<Rightarrow> False | Some n \<Rightarrow> n \<le> card (holders i t))"
    using c by (auto simp: take_slot_def capacity_limit_def counted_def full_def split: if_splits)
  show "holders i (release_slots r t) = holders i t - {r} \<and> capacity_limit i (release_slots r t) = capacity_limit i t"
    using ok max_kept by (simp add: holders_release capacity_limit_def pool_ok_def)
qed

section \<open>Routers keep to their capacities\<close>

definition runs_slot :: "webrtc_router \<Rightarrow> nat \<times> runtime \<Rightarrow> bool" where
  "runs_slot w p \<longleftrightarrow> fst p < length (st_reservations (wr_slots w)) \<and> sessions (snd p) \<and>
     sr_held (st_reservations (wr_slots w) ! fst p) = rt_slots_held (snd p)"

definition router_ok :: "webrtc_router \<Rightarrow> bool" where
  "router_ok w \<longleftrightarrow> slots_ok (wr_slots w) \<and> distinct (map fst (wr_sessions w)) \<and>
     (\<forall>p\<in>set (wr_sessions w). runs_slot w p) \<and>
     (\<forall>r<length (st_reservations (wr_slots w)). sr_held (st_reservations (wr_slots w) ! r) \<longrightarrow> r \<in> fst ` set (wr_sessions w)) \<and>
     (\<forall>(d, cids)\<in>set (wr_declarations w). distinct cids \<and> (\<forall>i\<in>set cids. i < length (st_capacities (wr_slots w)))) \<and>
     (\<forall>i. wr_own w = Some i \<longrightarrow> i < length (st_capacities (wr_slots w)))"

lemma new_router_ok:
  assumes "\<forall>c\<in>set caps. sc_active c = 0 \<and> 0 \<le> sc_max c" and "\<forall>i. own = Some i \<longrightarrow> i < length caps"
  shows "router_ok (new_router caps own hook)"
  using assms by (auto simp: router_ok_def new_router_def slots_ok_def counted_def holders_def)

lemma router_declare_ok:
  assumes ok: "router_ok w" and decl: "declare_session d shared w = Inr w'"
    and shared: "\<And>i. shared = Some (Instance i) \<Longrightarrow> i < length (st_capacities (wr_slots w)) \<and> Some i \<noteq> wr_own w"
  shows "router_ok w'"
proof -
  obtain own t where m: "make_capacity (map_option PInt (dl_max_sessions d)) (wr_slots w) = Inr (own, t)"
    using decl by (auto simp: declare_session_def)
  let ?n = "length (st_capacities (wr_slots w))"
  have t: "st_reservations t = st_reservations (wr_slots w)" "?n \<le> length (st_capacities t)" "slots_ok t"
    "\<forall>i. own = Some i \<longrightarrow> i = ?n \<and> i < length (st_capacities t)"
  proof -
    have "own = None \<and> t = wr_slots w \<or> (\<exists>n>0. own = Some ?n \<and>
        t = (wr_slots w)\<lparr>st_capacities := st_capacities (wr_slots w) @ [\<lparr>sc_max = n, sc_active = 0\<rparr>]\<rparr>)"
      using m by (cases "dl_max_sessions d") (simp_all add: make_capacity_def new_capacity_def split: if_splits, force)
    moreover have "slots_ok ((wr_slots w)\<lparr>st_capacities := st_capacities (wr_slots w) @ [\<lparr>sc_max = n, sc_active = 0\<rparr>]\<rparr>)" if "n > 0" for n
    proof -
      have "holders ?n (wr_slots w) = {}" using ok nth_mem
        by (fastforce simp: holders_def router_ok_def slots_ok_def refers_def)
      then show ?thesis using ok that
        by (auto simp: router_ok_def slots_ok_def refers_def counted_def holders_def nth_append less_Suc_eq)
    qed
    ultimately show "st_reservations t = st_reservations (wr_slots w)" "?n \<le> length (st_capacities t)" "slots_ok t"
      "\<forall>i. own = Some i \<longrightarrow> i = ?n \<and> i < length (st_capacities t)" using ok by (auto simp: router_ok_def)
  qed
  let ?cids = "List.map_filter (\<lambda>c. c) [wr_own w, own, case shared of Some (Instance c) \<Rightarrow> Some c | _ \<Rightarrow> None]"
  have w': "w' = w\<lparr>wr_slots := t, wr_declarations := wr_declarations w @ [(d, ?cids)]\<rparr>"
    using decl m by (simp add: declare_session_def)
  have "\<forall>i. wr_own w = Some i \<longrightarrow> i < ?n" using ok by (simp add: router_ok_def)
  then have "distinct ?cids \<and> (\<forall>i\<in>set ?cids. i < length (st_capacities t))"
    using t(2,4) shared by (fastforce simp: map_filter_simps split: option.splits item.splits)
  then show ?thesis using ok t unfolding w' router_ok_def runs_slot_def by fastforce
qed

lemma router_serve_ok:
  assumes ok: "router_ok w" and d: "(d, cids) \<in> set (wr_declarations w)"
    and served: "serve_session d cids has_engine on_message caps session sid w = (res, w')"
  shows "router_ok w'"
proof -
  have same: "router_ok (v\<lparr>wr_stopped := ts\<rparr>) = router_ok v" "router_ok (emit_event e v) = router_ok v" for v ts e
    by (simp_all add: router_ok_def runs_slot_def emit_event_def)
  show ?thesis
  proof (cases "fst (admit d cids caps session sid w)")
    case None
    then have "snd (admit d cids caps session sid w) = w \<or> (\<exists>e. snd (admit d cids caps session sid w) = emit_event e w)"
      by (auto simp: admit_def Let_def split: if_splits)
    with None ok served show ?thesis
      by (cases "admit d cids caps session sid w") (auto simp: serve_session_def refuse_def same split: if_splits)
  next
    case (Some r)
    let ?t = "wr_slots w"
    let ?w = "w\<lparr>wr_slots := reserve_slots cids ?t, wr_sessions := wr_sessions w @ [(r, new_runtime d caps session sid (wr_hook w))]\<rparr>"
    from Some have r: "r = length (st_reservations ?t)" and free: "\<forall>i\<in>set cids. \<not> full (st_capacities ?t ! i)"
      and a: "admit d cids caps session sid w = (Some r, ?w)"
      by (auto simp: admit_def Let_def list_ex_iff split: if_splits)
    have "slots_ok (reserve_slots cids ?t)" using ok d free by (intro slots_reserve) (auto simp: router_ok_def)
    moreover have "r \<notin> fst ` set (wr_sessions w)" using ok r by (auto simp: router_ok_def runs_slot_def)
    moreover have "runs_slot ?w p" if "p \<in> set (wr_sessions w)" for p
      using ok that by (auto simp: router_ok_def runs_slot_def reserve_slots_def nth_append)
    moreover have "runs_slot ?w (r, new_runtime d caps session sid (wr_hook w))"
      using sessions_new by (simp add: runs_slot_def r reserve_slots_def) (simp add: new_runtime_def)
    moreover have "k \<in> fst ` set (wr_sessions ?w)"
      if "k < length (st_reservations (wr_slots ?w))" "sr_held (st_reservations (wr_slots ?w) ! k)" for k
      using ok that r by (auto simp: router_ok_def reserve_slots_def nth_append less_Suc_eq split: if_splits)
    ultimately have "router_ok ?w" using ok by (auto simp: router_ok_def)
    with ok a served show ?thesis by (auto simp: serve_session_def refuse_def same split: if_splits)
  qed
qed

lemma slots_held_once: "session_step s t \<Longrightarrow> rt_slots_held t \<Longrightarrow> rt_slots_held s"
  using kept_step [of s t s] by (simp add: kept_def)

lemma router_moves_ok:
  assumes ok: "router_ok w" and s: "(r, s) \<in> set (wr_sessions w)" and step: "session_step s t"
  shows "router_ok (session_moves r t w)"
proof -
  let ?w = "session_moves r t w"
  have sl: "runs_slot w (r, s)" using ok s by (auto simp: router_ok_def)
  then have t: "sessions t" using sessions_step step by (auto simp: runs_slot_def)
  have keys: "map fst (wr_sessions ?w) = map fst (wr_sessions w)" by (simp add: session_moves_def comp_def case_prod_unfold)
  have len: "length (st_reservations (wr_slots ?w)) = length (st_reservations (wr_slots w))"
    by (simp add: session_moves_def release_slots_def)
  have held: "sr_held (st_reservations (wr_slots ?w) ! k) = (if k = r then rt_slots_held t else sr_held (st_reservations (wr_slots w) ! k))"
    if "k < length (st_reservations (wr_slots w))" for k
    using that sl slots_held_once [OF step] by (auto simp: session_moves_def release_slots_def runs_slot_def nth_list_update)
  have "runs_slot ?w p" if "p \<in> set (wr_sessions ?w)" for p
  proof -
    from that obtain k x where p: "p = (k, if k = r then t else x)" "(k, x) \<in> set (wr_sessions w)"
      by (auto simp: session_moves_def)
    then have "runs_slot w (k, x)" using ok by (auto simp: router_ok_def)
    with p t len held show ?thesis by (auto simp: runs_slot_def)
  qed
  moreover have "k \<in> fst ` set (wr_sessions ?w)" if "k < length (st_reservations (wr_slots ?w))" "sr_held (st_reservations (wr_slots ?w) ! k)" for k
  proof -
    have "k = r \<or> k \<in> fst ` set (wr_sessions w)" using that held len ok by (auto simp: router_ok_def split: if_splits)
    then have "k \<in> set (map fst (wr_sessions w))" using s by force
    then show ?thesis using keys by (metis list.set_map)
  qed
  moreover have "slots_ok (wr_slots ?w)" using ok slots_release by (simp add: session_moves_def router_ok_def)
  moreover have "wr_declarations ?w = wr_declarations w" "wr_own ?w = wr_own w"
    "length (st_capacities (wr_slots ?w)) = length (st_capacities (wr_slots w))" by (simp_all add: session_moves_def)
  ultimately show ?thesis using ok keys unfolding router_ok_def by simp
qed

lemma router_ends_ok:
  assumes ok: "router_ok w" and s: "(r, s) \<in> set (wr_sessions w)" and fin: "rt_stage s = Finished"
  shows "router_ok (session_ends r w)"
proof -
  have sl: "runs_slot w (r, s)" using ok s by (auto simp: router_ok_def)
  then have "\<not> sr_held (st_reservations (wr_slots w) ! r)"
    using sessions_parts(5) [of s] fin by (simp add: runs_slot_def closing_def)
  then have "k \<noteq> r" if "sr_held (st_reservations (wr_slots w) ! k)" for k using that by auto
  then have "k \<in> fst ` set (wr_sessions (session_ends r w))"
    if "k < length (st_reservations (wr_slots w))" "sr_held (st_reservations (wr_slots w) ! k)" for k
    using ok that by (force simp: router_ok_def session_ends_def)
  moreover have "distinct (map fst (wr_sessions (session_ends r w)))"
    using ok by (auto simp: router_ok_def session_ends_def distinct_map inj_on_def)
  moreover have "wr_slots (session_ends r w) = wr_slots w" "wr_declarations (session_ends r w) = wr_declarations w"
    "wr_own (session_ends r w) = wr_own w" by (simp_all add: session_ends_def)
  moreover have "\<forall>p\<in>set (wr_sessions (session_ends r w)). runs_slot (session_ends r w) p"
    using ok by (auto simp: router_ok_def runs_slot_def session_ends_def)
  ultimately show ?thesis using ok by (simp add: router_ok_def)
qed

lemma router_step_ok: "router_step w w' \<Longrightarrow> router_ok w \<Longrightarrow> router_ok w'"
proof (induction rule: router_step.induct)
  case (router_declares d shared w w')
  then show ?case using router_declare_ok by blast
next
  case (router_serves d cids w has_engine on_message caps session sid res w')
  then show ?case using router_serve_ok by blast
next
  case (router_runs r s w t)
  then show ?case using router_moves_ok by blast
next
  case (router_ends r s w)
  then show ?case using router_ends_ok by blast
next
  case (router_closes w)
  have "runs_slot (close_router w) (k, terminate Shutdown s)" if "runs_slot w (k, s)" for k s
    using that sessions_step [OF _ step_close] by (auto simp: runs_slot_def close_router_def terminate_def)
  with router_closes show ?case
    by (auto simp: router_ok_def close_router_def comp_def case_prod_unfold image_image)
next
  case (router_opens w)
  then show ?case by (simp add: router_ok_def open_router_def runs_slot_def)
qed

lemma router_reaches_ok: "router_reaches w w' \<Longrightarrow> router_ok w \<Longrightarrow> router_ok w'"
  by (induction rule: router_reaches.induct) (auto intro: router_step_ok)


text \<open>
  Admission: a session with an engine and only handlers of receiving channels is
  admitted exactly when the router is not closing and no capacity that applies is full; otherwise
  it is refused with \<open>shutdown\<close> (1001) or \<open>session_limit\<close> (1013), takes no slot, and the tracks its
  factory handed over are stopped, each once.
\<close>

theorem admission_decided:
  assumes "invalid_handlers d on_message (ss_handlers session) = []"
  shows "(let (res, w') = serve_session d cids True on_message caps session sid w
     in if wr_closing w then res = Refused Shutdown \<and> close_code Shutdown = 1001
        else if \<exists>i\<in>set cids. full (st_capacities (wr_slots w) ! i) then res = Refused Session_limit \<and> close_code Session_limit = 1013
        else \<exists>r. res = Admitted r \<and> (r, new_runtime d caps session sid (wr_hook w)) \<in> set (wr_sessions w')) \<and>
    (\<forall>c w'. serve_session d cids True on_message caps session sid w = (Refused c, w') \<longrightarrow>
       wr_slots w' = wr_slots w \<and> wr_sessions w' = wr_sessions w \<and> wr_stopped w' = wr_stopped w @ fromkeys (ss_tracks session))"
  using assms
  by (auto simp: serve_session_def admit_def refuse_def emit_event_def list_ex_iff Let_def close_code_def close_codes_def)

text \<open>
  Shutdown reaches everyone: once a router closes, every running session has a
  termination category (\<open>shutdown\<close> unless it had one), each of them can finish, and no session is
  admitted until the router opens again.
\<close>

theorem closing_router_drains:
  assumes "router_reaches (new_router cs own hook) w" and "\<forall>c\<in>set cs. sc_active c = 0 \<and> 0 < sc_max c"
    and "\<forall>i. own = Some i \<longrightarrow> i < length cs"
  shows "(\<forall>(r, s)\<in>set (wr_sessions w). rt_code s = None \<longrightarrow> (r, terminate Shutdown s) \<in> set (wr_sessions (close_router w))) \<and>
    (\<forall>(r, s)\<in>set (wr_sessions (close_router w)). rt_code s \<noteq> None \<and> (\<exists>t. session_reaches s t \<and> rt_stage t = Finished)) \<and>
    fst (admit d cids caps session sid (close_router w)) = None"
proof -
  have "router_ok (new_router cs own hook)" using assms(2,3) by (intro new_router_ok) auto
  then have ok: "router_ok w" using router_reaches_ok assms(1) by blast
  have all: "rt_code s \<noteq> None \<and> (\<exists>t. session_reaches s t \<and> rt_stage t = Finished)"
    if "(r, s) \<in> set (wr_sessions (close_router w))" for r s
  proof -
    from that obtain s0 where s0: "(r, s0) \<in> set (wr_sessions w)" "s = terminate Shutdown s0" by (auto simp: close_router_def)
    then have "sessions s" using ok sessions_step [OF _ step_close] by (auto simp: router_ok_def runs_slot_def)
    moreover have "rt_code s \<noteq> None" using s0(2) by (simp add: rt_latch.request_decides)
    ultimately show ?thesis using finishing by blast
  qed
  have "(r, terminate Shutdown s) \<in> set (wr_sessions (close_router w))" if "(r, s) \<in> set (wr_sessions w)" for r s
    using that by (force simp: close_router_def)
  moreover have "fst (admit d cids caps session sid (close_router w)) = None" by (simp add: admit_def close_router_def)
  ultimately show ?thesis using all by blast
qed

section \<open>Examples\<close>

text \<open>A router with room for one session, which a first session takes.\<close>

definition one_slot :: webrtc_router where
  "one_slot = new_router [\<lparr>sc_max = 1, sc_active = 0\<rparr>] (Some 0) True"

definition one_declared :: webrtc_router where
  "one_declared = (case declare_session sample_declaration None one_slot of Inr w \<Rightarrow> w | Inl _ \<Rightarrow> one_slot)"

definition one_served :: webrtc_router where
  "one_served = snd (serve_session sample_declaration [0] True [] (rt_caps sample) (rt_session sample) ''s1'' one_declared)"

lemma one_reached: "router_reaches one_slot one_declared" "router_reaches one_slot one_served"
proof -
  have "succeeds (declare_session sample_declaration None one_slot)" by code_simp
  then have "declare_session sample_declaration None one_slot = Inr one_declared"
    by (auto simp: succeeds_iff one_declared_def)
  then have d: "router_step one_slot one_declared" by (rule router_declares) simp
  then show r: "router_reaches one_slot one_declared" using router_start router_next by blast
  have "(sample_declaration, [0]) \<in> set (wr_declarations one_declared)" by code_simp
  moreover obtain res w where w: "serve_session sample_declaration [0] True [] (rt_caps sample) (rt_session sample) ''s1'' one_declared = (res, w)"
    by force
  ultimately have "router_step one_declared w" by (rule router_serves)
  with w have "router_step one_declared one_served" by (simp add: one_served_def)
  with r show "router_reaches one_slot one_served" by (rule router_next)
qed


theorem admission_decided_witness:
  "fst (serve_session sample_declaration [0] True [] (rt_caps sample) (rt_session sample) ''s2'' one_served) = Refused Session_limit"
proof -
  have h: "invalid_handlers sample_declaration [] (ss_handlers (rt_session sample)) = []" by code_simp
  have nc: "wr_closing one_served = False" and "full (st_capacities (wr_slots one_served) ! 0)" by code_simp+
  then have ex: "(\<exists>i\<in>set [0]. full (st_capacities (wr_slots one_served) ! i)) = True" by simp
  obtain res w' where served:
    "serve_session sample_declaration [0] True [] (rt_caps sample) (rt_session sample) ''s2'' one_served = (res, w')" by force
  have "res = Refused Session_limit"
    using conjunct1 [OF admission_decided [OF h, of "[0]" "rt_caps sample" "''s2''" one_served]]
    by (simp only: served prod.case Let_def nc ex if_True if_False)
  with served show ?thesis by (simp only: fst_conv)
qed

theorem closing_router_drains_witness:
  "fst (admit sample_declaration [0] (rt_caps sample) (rt_session sample) ''s2'' (close_router one_served)) = None"
  using closing_router_drains [OF one_reached(2) [unfolded one_slot_def]] by simp

end
