(* ===== verification/Codegen_Names.thy ===== *)
theory Codegen_Names
  imports Error_OpenAPI "HOL-Library.Sublist" "HOL-Library.List_Lexorder" "HOL-Library.Char_ord"
begin

text \<open>
  Names of generated clients: the spellings of \<open>fastapi_canon/codegen/names.py\<close>, the
  intermediate representation of an operation (\<open>ir.py\<close>) and the plan that gives every
  operation one public path (\<open>planner.py\<close>). The regular expressions of \<open>_words\<close> are
  recursions over the text; identifiers and letters are the ASCII ones.
\<close>

section \<open>Errors and identifiers\<close>

text \<open>\<open>Generation\<close> is a \<open>GenerationError\<close> with the values its message names, \<open>Contract\<close> a
  \<open>ContractError\<close>, \<open>Fault\<close> an uncaught attribute or type error.\<close>

datatype gen_error =
    Generation string "string list"
  | Contract string string
  | Fault

definition word_char :: "char \<Rightarrow> bool" where
  "word_char c = (is_alpha c \<or> is_digit c)"

definition is_identifier :: "string \<Rightarrow> bool" where
  "is_identifier s = (case s of [] \<Rightarrow> False
     | c # cs \<Rightarrow> (is_alpha c \<or> c = CHR ''_'') \<and> list_all (\<lambda>x. word_char x \<or> x = CHR ''_'') cs)"

definition python_keywords :: "string list" where
  "python_keywords = [''False'', ''None'', ''True'', ''and'', ''as'', ''assert'', ''async'', ''await'', ''break'',
     ''class'', ''continue'', ''def'', ''del'', ''elif'', ''else'', ''except'', ''finally'', ''for'', ''from'',
     ''global'', ''if'', ''import'', ''in'', ''is'', ''lambda'', ''nonlocal'', ''not'', ''or'', ''pass'',
     ''raise'', ''return'', ''try'', ''while'', ''with'', ''yield'']"

definition is_keyword :: "string \<Rightarrow> bool" where
  "is_keyword s = (s \<in> set python_keywords)"

definition reserved_names :: "string list" where
  "reserved_names = [''constructor'', ''prototype'', ''__proto__'', ''then'', ''close'', ''aclose'',
     ''closed'', ''runtime'']"

section \<open>Spellings (names.py)\<close>

fun split_acronyms :: "string \<Rightarrow> string" where
  \<comment> \<open>\<open>re.sub(r"([A-Z]+)([A-Z][a-z])", r"\1 \2", value)\<close>: before the last capital of a run
     that a lower-case letter follows\<close>
  "split_acronyms (a # b # c # s) =
     (if is_upper a \<and> is_upper b \<and> is_lower c then a # CHR '' '' # split_acronyms (b # c # s)
      else a # split_acronyms (b # c # s))"
| "split_acronyms s = s"

fun split_humps :: "string \<Rightarrow> string" where
  \<comment> \<open>\<open>re.sub(r"([a-z0-9])([A-Z])", r"\1 \2", value)\<close>\<close>
  "split_humps (a # b # s) =
     (if (is_lower a \<or> is_digit a) \<and> is_upper b then a # CHR '' '' # split_humps (b # s)
      else a # split_humps (b # s))"
| "split_humps s = s"

fun word_runs :: "string \<Rightarrow> string list" where
  \<comment> \<open>\<open>re.findall(r"[A-Za-z0-9]+", value)\<close>\<close>
  "word_runs [] = []"
| "word_runs (c # s) =
     (if \<not> word_char c then word_runs s
      else (case s of [] \<Rightarrow> [[c]]
            | d # _ \<Rightarrow> if word_char d then (case word_runs s of w # ws \<Rightarrow> (c # w) # ws | [] \<Rightarrow> [[c]])
                       else [c] # word_runs s))"

definition words :: "string \<Rightarrow> string list" where
  "words value = word_runs (split_humps (split_acronyms value))"

definition camel :: "string \<Rightarrow> (gen_error, string) result" where
  "camel value = (case words value of
       [] \<Rightarrow> Inl (Generation ''Invalid identifier'' [value])
     | p # ps \<Rightarrow> Inr (str_lower p @ concat (map capitalize ps)))"

definition pascal :: "string \<Rightarrow> (gen_error, string) result" where
  "pascal value = rbind (camel value) (\<lambda>name.
     Inr (case name of [] \<Rightarrow> [] | c # cs \<Rightarrow> upper_char c # cs))"

definition snake :: "string \<Rightarrow> string" where
  "snake value =
     (let result = join_with ''_'' (map str_lower (words value));
          result = (case result of [] \<Rightarrow> [] | c # _ \<Rightarrow> if is_digit c then ''value_'' @ result else result)
      in if is_keyword result then result @ ''_'' else result)"

fun check_members :: "string \<Rightarrow> string list \<Rightarrow> (gen_error, unit) result" where
  "check_members value [] = Inr ()"
| "check_members value (part # parts) =
     rbind (camel part) (\<lambda>c.
     rbind (ensure (c \<notin> set reserved_names \<and> snake part \<notin> set reserved_names)
              (Generation ''Reserved operation member'' [part, value])) (\<lambda>_.
     check_members value parts))"

definition public_name :: "string \<Rightarrow> (gen_error, string list) result" where
  "public_name value =
     (let parts = split_on CHR ''.'' value in
      rbind (ensure (list_all (\<lambda>p. p \<noteq> [] \<and> is_identifier p \<and> \<not> starts_with ''_'' p) parts)
               (Generation ''Operation name must be a dotted public identifier'' [value])) (\<lambda>_.
      rbind (check_members value parts) (\<lambda>_. Inr parts)))"

definition model_field :: "(string \<Rightarrow> bool) \<Rightarrow> string \<Rightarrow> string" where
  \<comment> \<open>\<open>base\<close>: the attributes of pydantic's \<open>BaseModel\<close>\<close>
  "model_field base value = (let name = snake value in if base name then name @ ''_'' else name)"

section \<open>The plan of public names (ir.py, planner.py)\<close>

datatype interaction = Call | Stream_of | Session_of

record binding_ir =
  bi_source :: string
  bi_protocol :: string
  bi_transport :: string
  bi_operation :: string
  bi_backend_path :: "string list"
  bi_path :: string
  bi_method :: string
  bi_metadata :: pyval

record parameter_ir =
  pa_name :: string
  pa_wire_name :: string
  pa_schema :: pyval
  pa_required :: bool
  pa_location :: string

record operation_ir =
  op_name :: "string list"
  op_interaction :: interaction
  op_binding :: binding_ir
  op_parameters :: "parameter_ir list"
  op_result :: pyval
  op_summary :: string
  op_description :: string
  op_deprecated :: bool
  op_problems :: "string list"

definition overlaps :: "string list \<Rightarrow> string list \<Rightarrow> bool" where
  "overlaps name other = (name = other \<or> take (length other) name = other \<or> take (length name) other = name)"

fun claim_names ::
    "(string \<Rightarrow> (gen_error, string) result) \<Rightarrow> operation_ir list \<Rightarrow> string list list \<Rightarrow> (gen_error, string list list) result" where
  \<comment> \<open>one pass of \<open>build_plan\<close>; \<open>taken\<close> are the keys of \<open>names\<close>\<close>
  "claim_names convert [] taken = Inr taken"
| "claim_names convert (operation # rest) taken =
     rbind (rmap convert (op_name operation)) (\<lambda>name.
     rbind (ensure (\<not> list_ex (overlaps name) taken)
              (Generation ''Public operation conflict''
                 [join_with ''.'' name, bi_source (op_binding operation), bi_operation (op_binding operation)])) (\<lambda>_.
     claim_names convert rest (taken @ [name])))"

definition plan_operations :: "operation_ir list \<Rightarrow> (gen_error, operation_ir list) result" where
  "plan_operations all_operations =
     (let operations = sort_key op_name all_operations in
      rbind (claim_names (\<lambda>s. Inr (snake s)) operations []) (\<lambda>_.
      rbind (claim_names camel operations []) (\<lambda>_.
      Inr (map (\<lambda>operation. operation\<lparr>op_name := map snake (op_name operation)\<rparr>) operations))))"

section \<open>Properties of the spellings\<close>

lemma ord_lower_char: "ord_of (lower_char c) = (if is_upper c then ord_of c + 32 else ord_of c)"
  by (simp add: lower_char_def ord_of_def is_upper_def Let_def)

lemma lower_char_classes [simp]:
  "\<not> is_upper (lower_char c)" "is_digit (lower_char c) = is_digit c" "word_char (lower_char c) = word_char c"
  by (auto simp: is_upper_def is_digit_def word_char_def is_alpha_def is_lower_def Let_def ord_lower_char)

lemma lower_char_id: "\<not> is_upper c \<Longrightarrow> lower_char c = c"
  by (simp add: lower_char_def)

lemma str_lower_id: "list_all (\<lambda>c. \<not> is_upper c) s \<Longrightarrow> str_lower s = s"
  by (induction s) (auto simp: str_lower_def lower_char_id)

lemma split_acronyms_id: "list_all (\<lambda>c. \<not> is_upper c) s \<Longrightarrow> split_acronyms s = s"
  by (induction s rule: split_acronyms.induct) auto

lemma split_humps_id: "list_all (\<lambda>c. \<not> is_upper c) s \<Longrightarrow> split_humps s = s"
  by (induction s rule: split_humps.induct) auto

definition is_word :: "string \<Rightarrow> bool" where
  "is_word w = (w \<noteq> [] \<and> list_all word_char w)"

lemma word_runs_words: "list_all is_word (word_runs s)"
  by (induction s rule: word_runs.induct) (auto simp: is_word_def split: list.splits)

lemma word_runs_word:
  "is_word w \<Longrightarrow> t = [] \<or> \<not> word_char (hd t) \<Longrightarrow> word_runs (w @ t) = w # word_runs t"
proof (induction w)
  case (Cons c w)
  show ?case
  proof (cases w)
    case Nil
    with Cons.prems show ?thesis by (cases t) (auto simp: is_word_def)
  next
    case (Cons d v)
    with Cons.IH Cons.prems show ?thesis by (auto simp: is_word_def)
  qed
qed (simp add: is_word_def)

lemma not_word_underscore [simp]: "\<not> word_char CHR ''_''"
  by (simp add: word_char_def is_alpha_def is_lower_def is_upper_def is_digit_def ord_of_def)

lemma word_runs_join:
  "list_all is_word ws \<Longrightarrow> t = [] \<or> t = ''_'' \<Longrightarrow> word_runs (join_with ''_'' ws @ t) = ws"
proof (induction "''_'' :: string" ws rule: join_with.induct)
  case (2 p)
  then show ?case using word_runs_word [of p "[]"] word_runs_word [of p "''_''"] by auto
next
  case (3 p q ps)
  then show ?case by (simp add: word_runs_word)
qed auto

lemma set_join_with: "set (join_with sep ws) \<subseteq> set sep \<union> (\<Union>w\<in>set ws. set w)"
  by (induction sep ws rule: join_with.induct) auto

lemma not_upper_underscore [simp]: "\<not> is_upper CHR ''_''"
  by (simp add: is_upper_def ord_of_def)

lemma is_word_lower: "is_word w \<Longrightarrow> is_word (str_lower w)"
  by (auto simp: is_word_def str_lower_def list_all_iff)

lemma words_are_words: "list_all is_word (words s)"
  by (simp add: words_def word_runs_words)

lemma words_join:
  assumes "list_all is_word ws" and "\<forall>w\<in>set ws. \<forall>c\<in>set w. \<not> is_upper c" and "t = [] \<or> t = ''_''"
  shows "words (join_with ''_'' ws @ t) = ws"
proof -
  have "list_all (\<lambda>c. \<not> is_upper c) (join_with ''_'' ws @ t)"
    using assms set_join_with [of "''_''" ws] by (fastforce simp: list_all_iff)
  with assms show ?thesis by (simp add: words_def split_acronyms_id split_humps_id word_runs_join)
qed

text \<open>The words a spelling is made of: lower-case, after \<open>value\<close> when the first starts with a digit.\<close>

definition snake_words :: "string \<Rightarrow> string list" where
  "snake_words s = (case map str_lower (words s) of [] \<Rightarrow> []
     | w # ws \<Rightarrow> if is_digit (hd w) then ''value'' # w # ws else w # ws)"

lemma hd_join: "is_word w \<Longrightarrow> join_with sep (w # ws) = hd w # tl (join_with sep (w # ws))"
  by (cases ws; cases w) (auto simp: is_word_def)

lemma snake_eq: "snake s =
   (let result = join_with ''_'' (snake_words s) in if is_keyword result then result @ ''_'' else result)"
proof (cases "map str_lower (words s)")
  case Nil
  then show ?thesis by (simp add: snake_def snake_words_def)
next
  case (Cons w ws)
  have "is_word w" using words_are_words [of s] Cons is_word_lower by (cases "words s") auto
  then obtain u where u: "join_with ''_'' (w # ws) = hd w # u" using hd_join by blast
  have "join_with ''_'' (''value'' # w # ws) = ''value_'' @ join_with ''_'' (w # ws)" by simp
  with Cons u show ?thesis by (simp add: snake_def snake_words_def del: join_with.simps)
qed

lemma snake_words_ok:
  "list_all is_word (snake_words s) \<and> (\<forall>w\<in>set (snake_words s). \<forall>c\<in>set w. \<not> is_upper c)
   \<and> (snake_words s \<noteq> [] \<longrightarrow> \<not> is_digit (hd (hd (snake_words s))))"
proof -
  have lower: "list_all is_word (map str_lower (words s))"
    using words_are_words [of s] by (auto simp: list_all_iff is_word_lower)
  have caps: "\<forall>w\<in>set (map str_lower (words s)). \<forall>c\<in>set w. \<not> is_upper c" by (auto simp: str_lower_def)
  have "is_word ''value'' \<and> \<not> is_digit (CHR ''v'') \<and> (\<forall>c\<in>set ''value''. \<not> is_upper c)" by code_simp
  moreover have "list_all is_word ws \<Longrightarrow> \<forall>w\<in>set ws. \<forall>c\<in>set w. \<not> is_upper c \<Longrightarrow> ws = map str_lower (words s) \<Longrightarrow> ?thesis" for ws
    using calculation unfolding snake_words_def by (cases ws) (auto split: if_splits)
  ultimately show ?thesis using lower caps by blast
qed

lemma words_snake: "words (snake s) = snake_words s"
  using snake_words_ok [of s] words_join [of "snake_words s" "[]"] words_join [of "snake_words s" "''_''"]
  by (simp add: snake_eq Let_def)

lemma snake_words_snake: "snake_words (snake s) = snake_words s"
proof -
  have "map str_lower (snake_words s) = snake_words s"
    using snake_words_ok [of s] by (auto simp: map_idI str_lower_id list_all_iff)
  with snake_words_ok [of s] show ?thesis
    unfolding snake_words_def [of "snake s"] words_snake by (cases "snake_words s") auto
qed

text \<open>
  Spelling a name in snake case is stable: the result, with its \<open>value_\<close> prefix or
  its underscore after a keyword, is spelled as itself.
\<close>

theorem snake_stable: "snake (snake s) = snake s"
  by (simp only: snake_eq [of "snake s"] snake_words_snake) (simp only: snake_eq [of s])

lemma not_keyword_underscore: "\<not> is_keyword (s @ ''_'')"
proof
  assume "is_keyword (s @ ''_'')"
  then have "last (s @ ''_'') \<in> set (map last python_keywords)" unfolding is_keyword_def set_map by (rule imageI)
  then show False by (simp add: python_keywords_def)
qed

text \<open>
  The spelling of a name with at least one letter or digit is a Python identifier and
  no keyword.
\<close>

theorem snake_identifier:
  assumes "words s \<noteq> []"
  shows "is_identifier (snake s) \<and> \<not> is_keyword (snake s)"
proof -
  have nonempty: "snake_words s \<noteq> []" using assms by (cases "words s") (auto simp: snake_words_def)
  then obtain w ws where w: "snake_words s = w # ws" by (cases "snake_words s") auto
  have ok: "list_all is_word (w # ws)" "\<not> is_digit (hd w)" using snake_words_ok [of s] w by auto
  then obtain u where u: "join_with ''_'' (w # ws) = hd w # u" using hd_join [of w] by (auto simp del: join_with.simps)
  have "is_alpha (hd w)" using ok by (cases w) (auto simp: is_word_def word_char_def)
  moreover have "list_all (\<lambda>x. word_char x \<or> x = CHR ''_'') (hd w # u)"
    using set_join_with [of "''_''" "w # ws"] ok unfolding u by (fastforce simp: list_all_iff is_word_def)
  ultimately show ?thesis unfolding snake_eq w u
    using not_keyword_underscore [of "hd w # u"]
    by (auto simp: is_identifier_def Let_def simp del: join_with.simps)
qed

theorem snake_identifier_witness: "is_identifier (snake ''Class'') \<and> \<not> is_keyword (snake ''Class'')"
  by (rule snake_identifier) code_simp

section \<open>Properties of the plan\<close>

lemma word_runs_first: "word_char c \<Longrightarrow> \<exists>w ws. word_runs (c # s) = (c # w) # ws"
  by (cases s) (auto split: list.splits)

lemma split_acronyms_first: "\<exists>t. split_acronyms (c # s) = c # t"
  by (cases s; cases "tl s") auto

lemma split_humps_first: "\<exists>t. split_humps (c # s) = c # t"
  by (cases s) auto

lemma words_first:
  assumes "is_alpha c"
  shows "\<exists>w ws. words (c # s) = (c # w) # ws"
proof -
  obtain t where t: "split_acronyms (c # s) = c # t" using split_acronyms_first by blast
  obtain u where u: "split_humps (c # t) = c # u" using split_humps_first by blast
  from word_runs_first [of c u] assms show ?thesis by (simp add: words_def t u word_char_def)
qed

lemma ord_inject: "ord_of c = ord_of d \<longleftrightarrow> c = d"
  by (simp add: ord_of_def)

lemma upper_lower_char: "upper_char (lower_char c) = upper_char c"
proof (cases "is_upper c")
  case True
  then have low: "is_lower (lower_char c)" by (simp add: is_lower_def ord_lower_char is_upper_def Let_def)
  with True have "ord_of (upper_char (lower_char c)) = ord_of (char_of (ord_of c) :: char)"
    by (simp add: upper_char_def ord_lower_char)
  then have "upper_char (lower_char c) = c" by (simp add: ord_inject) (simp add: ord_of_def)
  with True show ?thesis by (simp add: ord_inject upper_char_def is_lower_def is_upper_def Let_def)
qed (simp add: lower_char_id)

lemma str_lower_lower [simp]: "str_lower (str_lower s) = str_lower s"
  by (simp add: str_lower_def lower_char_id)

lemma capitalize_lower: "capitalize (str_lower s) = capitalize s"
  by (cases s) (simp_all add: str_lower_def upper_lower_char lower_char_id)

definition public_part :: "string \<Rightarrow> bool" where
  "public_part p = (p \<noteq> [] \<and> is_identifier p \<and> \<not> starts_with ''_'' p)"

lemma public_part_first: "public_part p \<Longrightarrow> \<exists>c s. p = c # s \<and> is_alpha c"
  by (cases p) (auto simp: public_part_def is_identifier_def starts_with_def)

lemma camel_snake: "public_part p \<Longrightarrow> camel (snake p) = camel p \<and> (\<exists>n. camel p = Inr n)"
proof -
  assume "public_part p"
  then obtain c s where p: "p = c # s" "is_alpha c" using public_part_first by blast
  then obtain w ws where w: "words p = (c # w) # ws" using words_first by blast
  have "\<not> is_digit c" using p(2) by (auto simp: is_alpha_def is_lower_def is_upper_def is_digit_def Let_def)
  then have "words (snake p) = map str_lower (words p)" by (simp add: words_snake snake_words_def w str_lower_def)
  then show ?thesis by (simp add: camel_def w comp_def capitalize_lower)
qed

lemma public_name_parts: "public_name v = Inr ps \<Longrightarrow> list_all public_part ps"
  by (auto simp: public_name_def public_part_def Let_def list_all_iff)

lemma rmap_camel_public:
  "list_all public_part ps \<Longrightarrow> rmap camel (map snake ps) = rmap camel ps \<and> succeeds (rmap camel ps)"
proof (induction ps)
  case (Cons p ps)
  then have "public_part p" and "list_all public_part ps" by simp_all
  with camel_snake [of p] Cons.IH show ?case by (auto simp: succeeds_iff)
qed simp

lemma list_all2_function: "\<forall>x\<in>set xs. \<forall>y. P x y = (y = f x) \<Longrightarrow> list_all2 P xs ns \<longleftrightarrow> ns = map f xs"
  by (induction xs arbitrary: ns) (auto simp: list_all2_Cons1)

lemma two_checks:
  "rbind a (\<lambda>_. rbind b (\<lambda>_. Inr x)) = Inr y \<longleftrightarrow> y = x \<and> (\<exists>u. a = Inr u) \<and> (\<exists>u. b = Inr u)"
  by (cases a; cases b) auto

lemma rmap_total: "rmap (\<lambda>x. Inr (f x)) xs = Inr (map f xs)"
  by (induction xs) simp_all

lemma prefix_take: "prefix ys xs \<longleftrightarrow> take (length ys) xs = ys"
  by (metis append_eq_conv_conj prefix_def take_is_prefix)

lemma overlaps_parallel: "overlaps xs ys \<longleftrightarrow> \<not> xs \<parallel> ys"
  by (auto simp: overlaps_def parallel_def prefix_take)

lemma claim_names_iff:
  assumes "list_all2 (\<lambda>p name. rmap convert (op_name p) = Inr name) ops names"
  shows "succeeds (claim_names convert ops taken) \<longleftrightarrow>
    sorted_wrt (\<lambda>a b. a \<parallel> b) names \<and> (\<forall>t\<in>set taken. \<forall>name\<in>set names. name \<parallel> t)"
  using assms
proof (induction ops names arbitrary: taken rule: list_all2_induct)
  case (Cons p ops name names)
  have "succeeds (claim_names convert (p # ops) taken) \<longleftrightarrow>
      (\<forall>t\<in>set taken. name \<parallel> t) \<and> succeeds (claim_names convert ops (taken @ [name]))"
    using Cons.hyps(1) by (auto simp: succeeds_iff list_ex_iff overlaps_parallel)
  with Cons.IH [of "taken @ [name]"] show ?case by (auto simp: parallel_commute)
qed simp

text \<open>
  Claim C37. Planning operations with public names succeeds exactly when no public path is equal
  to or inside another one, in snake case and in camel case; the plan then holds every operation
  once, sorted by name, under the path in snake case, and the camel-case paths of the plan are
  those that were compared.
\<close>

theorem plan_unambiguous:
  assumes "\<forall>p\<in>set ops. \<exists>v. public_name v = Inr (op_name p)"
  shows "plan_operations ops = Inr planned \<longleftrightarrow>
    planned = map (\<lambda>p. p\<lparr>op_name := map snake (op_name p)\<rparr>) (sort_key op_name ops) \<and>
    sorted_wrt (\<lambda>a b. op_name a \<parallel> op_name b) planned \<and>
    (\<exists>camels. list_all2 (\<lambda>p c. rmap camel (op_name p) = Inr c) planned camels \<and> sorted_wrt (\<lambda>a b. a \<parallel> b) camels)"
proof -
  let ?s = "sort_key op_name ops" and ?r = "\<lambda>p. p\<lparr>op_name := map snake (op_name p)\<rparr>"
  have public: "\<forall>p\<in>set ?s. list_all public_part (op_name p)" using assms public_name_parts by fastforce
  have "\<forall>p\<in>set ?s. \<exists>c. rmap camel (op_name p) = Inr c"
    using public rmap_camel_public by (auto simp: succeeds_iff)
  then obtain c where c: "\<forall>p\<in>set ?s. rmap camel (op_name p) = Inr (c p)" by metis
  then have camels: "list_all2 (\<lambda>p n. rmap camel (op_name p) = Inr n) ?s (map c ?s)"
    by (simp only: list_all2_map2 list.rel_refl_strong)
  have snakes: "list_all2 (\<lambda>p n. rmap (\<lambda>s. Inr (snake s)) (op_name p) = Inr n) ?s (map (\<lambda>p. map snake (op_name p)) ?s)"
    by (simp add: list_all2_conv_all_nth rmap_total)
  have planned: "list_all2 (\<lambda>p n. rmap camel (op_name p) = Inr n) (map ?r ?s) ns \<longleftrightarrow> ns = map c ?s" for ns
    unfolding list_all2_map1
  proof (rule list_all2_function, intro ballI allI)
    fix p assume "p \<in> set ?s"
    with c public rmap_camel_public [of "op_name p"] show "(rmap camel (op_name (?r p)) = Inr n) = (n = c p)" for n
      by auto
  qed
  have snake: "(\<exists>u. claim_names (\<lambda>s. Inr (snake s)) ?s [] = Inr u) \<longleftrightarrow>
      sorted_wrt (\<lambda>a b. op_name a \<parallel> op_name b) (map ?r ?s)"
    using claim_names_iff [OF snakes, of "[]"] by (simp add: succeeds_iff sorted_wrt_map)
  have camel: "(\<exists>u. claim_names camel ?s [] = Inr u) \<longleftrightarrow> sorted_wrt (\<lambda>a b. a \<parallel> b) (map c ?s)"
    using claim_names_iff [OF camels, of "[]"] by (simp add: succeeds_iff)
  have "plan_operations ops = Inr planned \<longleftrightarrow> planned = map ?r ?s \<and>
      (\<exists>u. claim_names (\<lambda>s. Inr (snake s)) ?s [] = Inr u) \<and> (\<exists>u. claim_names camel ?s [] = Inr u)"
    unfolding plan_operations_def Let_def by (rule two_checks)
  moreover have "sorted_wrt (\<lambda>a b. a \<parallel> b) (map c ?s) \<longleftrightarrow> (\<exists>camels.
      list_all2 (\<lambda>p c. rmap camel (op_name p) = Inr c) (map ?r ?s) camels \<and> sorted_wrt (\<lambda>a b. a \<parallel> b) camels)"
    by (simp only: planned simp_thms ex_simps)
  ultimately show ?thesis unfolding snake camel by (cases "planned = map ?r ?s") (simp_all only: simp_thms)
qed

definition sample_operation :: "string list \<Rightarrow> operation_ir" where
  "sample_operation name = \<lparr>op_name = name, op_interaction = Call,
     op_binding = \<lparr>bi_source = ''http'', bi_protocol = ''http'', bi_transport = ''http'', bi_operation = ''op'',
       bi_backend_path = [], bi_path = ''/users'', bi_method = ''get'', bi_metadata = PNone\<rparr>,
     op_parameters = [], op_result = PNone, op_summary = [], op_description = [], op_deprecated = False,
     op_problems = []\<rparr>"

theorem plan_unambiguous_witness:
  "\<exists>planned. plan_operations [sample_operation [''users'', ''getAll''], sample_operation [''class'']] = Inr planned \<and>
     sorted_wrt (\<lambda>a b. op_name a \<parallel> op_name b) planned"
proof -
  let ?ops = "[sample_operation [''users'', ''getAll''], sample_operation [''class'']]"
  have "public_name ''users.getAll'' = Inr [''users'', ''getAll''] \<and> public_name ''class'' = Inr [''class'']"
    by code_simp
  then have "\<forall>p\<in>set ?ops. \<exists>v. public_name v = Inr (op_name p)" by (auto simp: sample_operation_def)
  moreover have "succeeds (plan_operations ?ops)" by code_simp
  ultimately show ?thesis using plan_unambiguous [of ?ops] by (auto simp: succeeds_iff)
qed

end
