(* ===== verification/Codegen_Selection.thy ===== *)
theory Codegen_Selection
  imports Codegen_Names
begin

text \<open>
  Selecting the operations of a contract (\<open>fastapi_canon/codegen/selection.py\<close>), with the JSON
  pointers and references it resolves (\<open>integrations/sse/codegen/openapi.py\<close>). A document is a
  JSON value. The source collects references in a set and takes them out in any order; the model
  keeps a list, and its result is stated as a set. A percent-encoded reference is the UTF-8 text
  its bytes make.
\<close>

section \<open>Sources (ir.py, config.py)\<close>

datatype contract_kind = Openapi | Openrpc | Webrtc

record source_config =
  sc_name :: string
  sc_kind :: contract_kind
  sc_input :: "string list option"
  sc_source :: "string option"
  sc_output :: "string list option"
  sc_factory :: "bool option"
  sc_optional :: bool
  sc_operations :: "(string \<times> string) list"
  sc_identities :: "(string \<times> string) list"
  sc_names :: "(string \<times> string) list"
  sc_include :: "string list option"
  sc_exclude :: "string list"

section \<open>References (integrations/sse/codegen/openapi.py)\<close>

definition hex_value :: "char \<Rightarrow> nat option" where
  "hex_value c = (let n = ord_of c in
     if is_digit c then Some (n - 48)
     else if 97 \<le> n \<and> n \<le> 102 then Some (n - 87)
     else if 65 \<le> n \<and> n \<le> 70 then Some (n - 55) else None)"

fun unquote :: "string \<Rightarrow> string" where
  "unquote (c # a # b # s) =
     (if c = CHR ''%'' then
        (case (hex_value a, hex_value b) of
           (Some m, Some n) \<Rightarrow> char_of (16 * m + n) # unquote s
         | _ \<Rightarrow> c # unquote (a # b # s))
      else c # unquote (a # b # s))"
| "unquote s = s"

definition pointer_key :: "string \<Rightarrow> string" where
  "pointer_key part = replace_str (length part) ''~0'' ''~'' (replace_str (length part) ''~1'' ''/'' part)"

definition list_index :: "'a list \<Rightarrow> int \<Rightarrow> 'a option" where
  \<comment> \<open>\<open>xs[i]\<close>, from the end when negative\<close>
  "list_index xs i =
     (if 0 \<le> i \<and> i < int (length xs) then Some (xs ! nat i)
      else if i < 0 \<and> - int (length xs) \<le> i then Some (xs ! nat (int (length xs) + i))
      else None)"

definition step_into :: "string \<Rightarrow> pyval \<Rightarrow> pyval option" where
  "step_into key target =
     (case target of
        PList xs \<Rightarrow> (case parse_int key of None \<Rightarrow> None | Some i \<Rightarrow> list_index xs i)
      | PDict d \<Rightarrow> member d key
      | _ \<Rightarrow> None)"

fun walk :: "string list \<Rightarrow> pyval \<Rightarrow> pyval option" where
  "walk [] target = Some target"
| "walk (key # keys) target = (case step_into key target of None \<Rightarrow> None | Some v \<Rightarrow> walk keys v)"

definition resolve_pointer :: "pyval \<Rightarrow> string \<Rightarrow> (gen_error, pyval) result" where
  "resolve_pointer document ref =
     (if \<not> starts_with ''#/'' ref then Inl (Contract ''Only local OpenAPI references are supported'' ref)
      else (case walk (map pointer_key (split_on CHR ''/'' (unquote (drop 2 ref)))) document of
              None \<Rightarrow> Inl (Contract ''Unresolved reference'' ref)
            | Some target \<Rightarrow> Inr target))"

definition merge_reference :: "(pyval \<times> pyval) list \<Rightarrow> (pyval \<times> pyval) list \<Rightarrow> (pyval \<times> pyval) list" where
  \<comment> \<open>\<open>{**target, **{k: v for k, v in value.items() if k != "$ref"}}\<close>\<close>
  "merge_reference target value = fold (\<lambda>(k, v). dict_set k v) (drop_member ''$ref'' value) target"

fun texts :: "pyval \<Rightarrow> string list" where
  \<comment> \<open>the strings that occur as values in a document\<close>
  "texts (PStr s) = [s]"
| "texts (PList xs) = concat (map texts xs)"
| "texts (PDict kvs) = concat (map (\<lambda>(k, v). texts v) kvs)"
| "texts v = []"

definition own_reference :: "(pyval \<times> pyval) list \<Rightarrow> string set" where
  "own_reference d = (case member d ''$ref'' of Some (PStr r) \<Rightarrow> {r} | _ \<Rightarrow> {})"

lemma step_into_texts: "step_into key v = Some w \<Longrightarrow> set (texts w) \<subseteq> set (texts v)"
  by (cases v) (auto simp: step_into_def list_index_def split: option.splits if_splits
      dest!: map_of_SomeD intro!: nth_mem bexI)

lemma walk_texts: "walk keys v = Some w \<Longrightarrow> set (texts w) \<subseteq> set (texts v)"
  by (induction keys arbitrary: v) (auto split: option.splits dest!: step_into_texts)

lemma resolve_pointer_texts: "resolve_pointer document ref = Inr v \<Longrightarrow> set (texts v) \<subseteq> set (texts document)"
  by (auto simp: resolve_pointer_def split: if_splits option.splits dest: walk_texts)

lemma fold_dict_set_absent:
  "k \<notin> fst ` set kvs \<Longrightarrow> dict_get (fold (\<lambda>(k, v). dict_set k v) kvs d) k = dict_get d k"
  by (induction kvs arbitrary: d) (auto simp: dict_get_set)

lemma merge_reference_ref: "member (merge_reference t d) ''$ref'' = member t ''$ref''"
  unfolding merge_reference_def
  by (rule fold_dict_set_absent) (auto simp: drop_member_def dict_pop_def)

lemma own_reference_texts: "own_reference d \<subseteq> set (texts (PDict d))"
  by (auto simp: own_reference_def split: option.splits pyval.splits dest!: map_of_SomeD intro: rev_bexI)

text \<open>Every round adds a reference to \<open>seen\<close>, and the references come from the document.\<close>

function resolve_ref_from ::
    "pyval \<Rightarrow> string list \<Rightarrow> (pyval \<times> pyval) list \<Rightarrow> (gen_error, (pyval \<times> pyval) list) result" where
  "resolve_ref_from document seen d =
     (case member d ''$ref'' of
        None \<Rightarrow> Inr d
      | Some (PStr ref) \<Rightarrow>
          if ref \<in> set seen then Inl (Contract ''Cyclic reference'' ref)
          else (case resolve_pointer document ref of
                  Inl e \<Rightarrow> Inl e
                | Inr (PDict target) \<Rightarrow> resolve_ref_from document (ref # seen) (merge_reference target d)
                | Inr _ \<Rightarrow> Inl (Contract ''Reference does not point to an object'' ref))
      | Some _ \<Rightarrow> Inl Fault)"
  by pat_completeness auto

termination
proof (relation "measure (\<lambda>(document, seen, d). card (set (texts document) \<union> own_reference d - set seen))")
  fix document seen d v ref w target
  assume ref: "member d ''$ref'' = Some v" "v = PStr ref" "ref \<notin> set seen"
    and target: "resolve_pointer document ref = Inr w" "w = PDict target"
  let ?new = "set (texts document) \<union> own_reference (merge_reference target d) - set (ref # seen)"
  let ?old = "set (texts document) \<union> own_reference d - set seen"
  have "own_reference (merge_reference target d) \<subseteq> set (texts document)"
    using own_reference_texts [of target] resolve_pointer_texts [OF target(1)] target(2)
    by (auto simp: own_reference_def merge_reference_ref)
  then have "?new \<subseteq> ?old - {ref}" by auto
  moreover have "ref \<in> ?old" using ref by (simp add: own_reference_def)
  moreover have "finite ?old" by (auto simp: own_reference_def split: option.splits pyval.splits)
  ultimately have "card ?new < card ?old" by (meson card_Diff1_less card_mono finite_Diff le_less_trans)
  then show "((document, ref # seen, merge_reference target d), (document, seen, d))
      \<in> measure (\<lambda>(document, seen, d). card (set (texts document) \<union> own_reference d - set seen))" by simp
qed simp

declare resolve_ref_from.simps [simp del]

definition resolve_ref :: "pyval \<Rightarrow> pyval \<Rightarrow> (gen_error, pyval) result" where
  \<comment> \<open>\<open>"$ref" in value\<close> is a substring or element test on text and lists\<close>
  "resolve_ref document value =
     (case value of
        PDict d \<Rightarrow> rbind (resolve_ref_from document [] d) (\<lambda>r. Inr (PDict r))
      | PList xs \<Rightarrow> if PStr ''$ref'' \<in> set xs then Inl Fault else Inr value
      | PStr s \<Rightarrow> if sublist ''$ref'' s then Inl Fault else Inr value
      | _ \<Rightarrow> Inl Fault)"

section \<open>The catalog of operations (selection.py)\<close>

definition operation_methods :: "string list" where
  "operation_methods = [''get'', ''put'', ''post'', ''patch'', ''delete'', ''head'', ''options'', ''trace'']"

definition rpc_groups :: "string list" where
  "rpc_groups = [''methods'', ''x-rpc-notifications'', ''x-rpc-streams'', ''x-rpckit-binary-streams'', ''x-rpckit-sockets'']"

definition item_methods :: "pyval \<Rightarrow> string list" where
  \<comment> \<open>\<open>_HTTP_METHODS & item.keys()\<close>\<close>
  "item_methods item = filter (\<lambda>m. member (dict_body item) m \<noteq> None) operation_methods"

text \<open>An entry of \<open>operations\<close>: the name, and where the operation is: a path and method, or a
  group and the operation itself.\<close>

datatype location = At_path pyval string | In_group string pyval

type_synonym listed = "pyval \<times> location"

definition subscript :: "pyval \<Rightarrow> string \<Rightarrow> (gen_error, pyval) result" where
  \<comment> \<open>\<open>value[key]\<close> with a string key\<close>
  "subscript value key = (case value of
       PDict d \<Rightarrow> (case member d key of Some v \<Rightarrow> Inr v | None \<Rightarrow> Inl Fault)
     | _ \<Rightarrow> Inl Fault)"

definition path_entries :: "pyval \<Rightarrow> pyval \<Rightarrow> (gen_error, listed list) result" where
  "path_entries path item =
     (case item of
        PDict d \<Rightarrow> rmap (\<lambda>method.
          rbind (subscript item method) (\<lambda>operation.
          rbind (subscript operation ''operationId'') (\<lambda>name. Inr (name, At_path path method)))) (item_methods item)
      | _ \<Rightarrow> Inl Fault)"

definition resolve_paths :: "pyval \<Rightarrow> (pyval \<times> pyval) list \<Rightarrow> (gen_error, (pyval \<times> pyval) list \<times> listed list) result" where
  \<comment> \<open>the loop over \<open>selected["paths"]\<close>, with every item resolved in place\<close>
  "resolve_paths document paths =
     rbind (rmap (\<lambda>(path, item).
              rbind (resolve_ref document item) (\<lambda>item'.
              rbind (path_entries path item') (\<lambda>es. Inr ((path, item'), es)))) paths) (\<lambda>rs.
     Inr (map fst rs, concat (map snd rs)))"

definition group_entries :: "(pyval \<times> pyval) list \<Rightarrow> string \<Rightarrow> (gen_error, listed list) result" where
  \<comment> \<open>\<open>for operation in selected.get(key, [])\<close>; iterating a dict or a text yields strings\<close>
  "group_entries selected key =
     (case member selected key of
        None \<Rightarrow> Inr []
      | Some (PList xs) \<Rightarrow>
          rmap (\<lambda>operation. rbind (subscript operation ''name'') (\<lambda>name. Inr (name, In_group key operation))) xs
      | Some (PDict []) \<Rightarrow> Inr []
      | Some (PStr []) \<Rightarrow> Inr []
      | Some _ \<Rightarrow> Inl Fault)"

definition groups_of :: "contract_kind \<Rightarrow> string list" where
  "groups_of kind = (if kind = Openrpc then rpc_groups else [''sessions''])"

definition catalog :: "source_config \<Rightarrow> (pyval \<times> pyval) list \<Rightarrow> (gen_error, (pyval \<times> pyval) list \<times> listed list) result" where
  \<comment> \<open>the \<open>try\<close> block of \<open>select_operations\<close>; a \<open>ContractError\<close> is not caught\<close>
  "catalog config document =
     (let outcome =
        (if sc_kind config = Openapi then
           (case member document ''paths'' of
              None \<Rightarrow> Inr (document, [])
            | Some (PDict paths) \<Rightarrow>
                rbind (resolve_paths (PDict document) paths) (\<lambda>(paths', es).
                Inr (put ''paths'' (PDict paths') document, es))
            | Some _ \<Rightarrow> Inl Fault)
         else rbind (rmap (group_entries document) (groups_of (sc_kind config))) (\<lambda>ess.
                Inr (document, concat ess)))
      in case outcome of
           Inl Fault \<Rightarrow> Inl (Generation ''invalid operation catalog'' [sc_name config])
         | _ \<Rightarrow> outcome)"

definition name_text :: "pyval \<Rightarrow> string option" where
  "name_text v = (case v of PStr s \<Rightarrow> if s = [] then None else Some s | _ \<Rightarrow> None)"

definition operation_names :: "source_config \<Rightarrow> listed list \<Rightarrow> (gen_error, string list) result" where
  "operation_names config operations =
     (case those (map (\<lambda>e. name_text (fst e)) operations) of
        Some names \<Rightarrow> if distinct names then Inr names
                      else Inl (Generation ''operations require unique IDs'' [sc_name config])
      | None \<Rightarrow> Inl (Generation ''operations require unique IDs'' [sc_name config]))"

definition chosen :: "source_config \<Rightarrow> string list \<Rightarrow> (gen_error, string list) result" where
  \<comment> \<open>\<open>keep\<close>; \<open>known\<close> are the names of the catalog\<close>
  "chosen config known =
     (let include = (case sc_include config of Some xs \<Rightarrow> xs | None \<Rightarrow> known);
          exclude = sc_exclude config;
          unknown = filter (\<lambda>n. n \<notin> set known) (include @ exclude @ map fst (sc_operations config));
          keep = filter (\<lambda>n. n \<notin> set exclude) include
      in rbind (ensure (unknown = [])
                  (Generation ''unknown operation IDs'' (sc_name config # sort (remdups unknown)))) (\<lambda>_.
         rbind (ensure (\<not> (sc_include config \<noteq> None \<and> list_ex (\<lambda>n. n \<in> set exclude) include))
                  (Generation ''cannot include and exclude the same operation'' [sc_name config])) (\<lambda>_.
         rbind (ensure (keep \<noteq> []) (Generation ''selection contains no operations'' [sc_name config])) (\<lambda>_.
         Inr keep))))"

fun remove_value :: "pyval \<Rightarrow> pyval list \<Rightarrow> pyval list" where
  \<comment> \<open>\<open>owner.remove(value)\<close>: the first identical or equal element\<close>
  "remove_value v [] = []"
| "remove_value v (x # xs) = (if x = v \<or> py_eq x v then xs else x # remove_value v xs)"

definition update_dict :: "string \<Rightarrow> (pyval \<Rightarrow> pyval) \<Rightarrow> (pyval \<times> pyval) list \<Rightarrow> (pyval \<times> pyval) list" where
  "update_dict k f d = map (\<lambda>(key, v). (key, if key = PStr k then f v else v)) d"

definition delete_entry :: "location \<Rightarrow> (pyval \<times> pyval) list \<Rightarrow> (pyval \<times> pyval) list" where
  "delete_entry loc selected =
     (case loc of
        At_path path method \<Rightarrow>
          update_dict ''paths'' (\<lambda>paths. PDict (map (\<lambda>(p, item).
            (p, if p = path then PDict (drop_member method (dict_body item)) else item)) (dict_body paths))) selected
      | In_group key operation \<Rightarrow>
          update_dict key (\<lambda>xs. case xs of PList ys \<Rightarrow> PList (remove_value operation ys) | _ \<Rightarrow> xs) selected)"

definition delete_unselected :: "string list \<Rightarrow> listed list \<Rightarrow> (pyval \<times> pyval) list \<Rightarrow> (pyval \<times> pyval) list" where
  "delete_unselected keep operations selected =
     fold (\<lambda>(name, loc). if name \<in> PStr ` set keep then id else delete_entry loc) operations selected"

definition drop_empty_paths :: "(pyval \<times> pyval) list \<Rightarrow> (pyval \<times> pyval) list" where
  "drop_empty_paths selected =
     put ''paths'' (PDict (filter (\<lambda>(path, item). item_methods item \<noteq> []) (body_or_empty (member selected ''paths'')))) selected"

section \<open>Pruning models\<close>

definition opaque_keys :: "string list" where
  "opaque_keys = [''default'', ''example'', ''examples'', ''const'', ''enum'']"

definition container_keys :: "string list" where
  "container_keys = [''components'', ''schemas'', ''definitions'', ''$defs'', ''properties'', ''patternProperties'',
     ''dependentSchemas'', ''paths'', ''responses'', ''parameters'', ''headers'', ''requestBodies'', ''callbacks'',
     ''pathItems'', ''links'', ''content'', ''encoding'', ''mapping'']"

definition key_in :: "string list \<Rightarrow> pyval \<Rightarrow> bool" where
  "key_in names key = (case key of PStr k \<Rightarrow> k \<in> set names | _ \<Rightarrow> False)"

definition referenced_name :: "string \<Rightarrow> pyval option \<Rightarrow> string list" where
  "referenced_name pre reference =
     (case reference of
        Some (PStr r) \<Rightarrow>
          if starts_with pre r then [pointer_key (hd (split_on CHR ''/'' (drop (length pre) r)))] else []
      | _ \<Rightarrow> [])"

fun references :: "string \<Rightarrow> bool \<Rightarrow> pyval \<Rightarrow> string list" where
  "references pre container (PList xs) = concat (map (references pre False) xs)"
| "references pre container (PDict kvs) =
     referenced_name pre (member kvs ''$ref'') @
     concat (map (\<lambda>(key, item).
       if container \<or> \<not> key_in opaque_keys key
       then references pre (\<not> container \<and> key_in container_keys key) item else []) kvs)"
| "references pre container v = []"

partial_function (option) mark ::
    "string \<Rightarrow> (pyval \<times> pyval) list \<Rightarrow> string list \<Rightarrow> string list \<Rightarrow> string list option" where
  \<comment> \<open>the \<open>while pending\<close> loop of \<open>_prune_models\<close>\<close>
  "mark pre models pending keep =
     (case pending of
        [] \<Rightarrow> Some keep
      | name # rest \<Rightarrow>
          (case member models name of
             None \<Rightarrow> mark pre models rest keep
           | Some schema \<Rightarrow>
               if name \<in> set keep then mark pre models rest keep
               else mark pre models (references pre False schema @ rest) (name # keep)))"

declare mark.simps [code]

definition kept_models :: "string \<Rightarrow> (pyval \<times> pyval) list \<Rightarrow> pyval \<Rightarrow> (pyval \<times> pyval) list option" where
  "kept_models pre models document =
     (case mark pre models (references pre False document) [] of
        None \<Rightarrow> None
      | Some keep \<Rightarrow> Some (filter (\<lambda>p. fst p \<in> PStr ` set keep) models))"

definition prune_models :: "bool \<Rightarrow> (pyval \<times> pyval) list \<Rightarrow> (gen_error, (pyval \<times> pyval) list) result option" where
  "prune_models webrtc document =
     (let key = (if webrtc then ''definitions'' else ''schemas'');
          pre = (if webrtc then ''#/definitions/'' else ''#/components/schemas/'')
      in case (if webrtc then PDict document
               else (case member document ''components'' of None \<Rightarrow> PDict [] | Some v \<Rightarrow> v)) of
           PDict owner \<Rightarrow>
             (case (case member owner key of None \<Rightarrow> PDict [] | Some v \<Rightarrow> v) of
                PDict models \<Rightarrow>
                  (let owner' = drop_member key owner;
                       store = (\<lambda>o'. if webrtc then o'
                          else if member document ''components'' = None then document
                          else put ''components'' (PDict o') document)
                   in map_option (\<lambda>kept. Inr (store (put key (PDict kept) owner')))
                        (kept_models pre models (PDict (store owner'))))
              | _ \<Rightarrow> Some (Inl Fault))
         | _ \<Rightarrow> Some (Inl Fault))"

definition select_operations ::
    "source_config \<Rightarrow> (pyval \<times> pyval) list \<Rightarrow> (gen_error, source_config \<times> (pyval \<times> pyval) list) result option" where
  "select_operations config document =
     (if sc_include config = None \<and> sc_exclude config = [] then Some (Inr (config, document))
      else case rbind (catalog config document) (\<lambda>(selected, operations).
                rbind (operation_names config operations) (\<lambda>known.
                rbind (chosen config known) (\<lambda>keep. Inr (selected, operations, keep)))) of
             Inl e \<Rightarrow> Some (Inl e)
           | Inr (selected, operations, keep) \<Rightarrow>
               (let remaining = delete_unselected keep operations selected;
                    remaining = (if sc_kind config = Openapi then drop_empty_paths remaining else remaining)
                in map_option (\<lambda>pruned. rbind pruned (\<lambda>document'.
                     Inr (config\<lparr>sc_operations := filter (\<lambda>(key, v). key \<in> set keep) (sc_operations config)\<rparr>, document')))
                     (prune_models (sc_kind config = Webrtc) remaining)))"

end
