(* ===== verification/Codegen_Config.thy ===== *)
theory Codegen_Config
  imports Codegen_Selection
begin

text \<open>
  The code generation configuration (\<open>fastapi_canon/codegen/config.py\<close>): the parsed TOML table
  becomes sources and targets, every setting checked. A path is the list of its parts from the
  root, after \<open>os.path.abspath\<close>; \<open>base\<close> is the directory of the configuration file.
\<close>

section \<open>Reading settings\<close>

datatype language = Python | Typescript

record target_config =
  tc_name :: string
  tc_language :: language
  tc_sources :: "string list"
  tc_output :: "string list"
  tc_package :: string
  tc_client_name :: string
  tc_http_client :: string

record configuration =
  cf_path :: "string list"
  cf_sources :: "source_config list"
  cf_targets :: "target_config list"

type_synonym table = "(pyval \<times> pyval) list"

definition normalise :: "string list \<Rightarrow> string list \<Rightarrow> string list" where
  \<comment> \<open>\<open>os.path.normpath\<close>: empty parts and \<open>.\<close> are dropped, \<open>..\<close> goes up, not above the root\<close>
  "normalise base parts = foldl (\<lambda>path part.
     if part = [] \<or> part = ''.'' then path else if part = ''..'' then butlast path else path @ [part]) base parts"

definition join_path :: "string list \<Rightarrow> string \<Rightarrow> string list" where
  \<comment> \<open>\<open>os.path.abspath(base / value)\<close>; an absolute value replaces the root\<close>
  "join_path base value =
     normalise (if starts_with ''/'' value then [] else base) (split_on CHR ''/'' value)"

definition setting_error :: "string \<Rightarrow> string list \<Rightarrow> (gen_error, 'a) result" where
  "setting_error message names = Inl (Generation message names)"

definition path_of :: "string list \<Rightarrow> pyval option \<Rightarrow> (gen_error, string list option) result" where
  "path_of base value =
     (case value of
        None \<Rightarrow> Inr None
      | Some (PStr s) \<Rightarrow> if s = [] then setting_error ''Contract and SDK paths must be non-empty strings'' []
                        else Inr (Some (join_path base s))
      | Some _ \<Rightarrow> setting_error ''Contract and SDK paths must be non-empty strings'' [])"

definition check_keys :: "table \<Rightarrow> string list \<Rightarrow> string \<Rightarrow> (gen_error, unit) result" where
  "check_keys value allowed owner =
     ensure (list_all (\<lambda>(k, v). k \<in> PStr ` set allowed) value) (Generation ''Unknown or invalid settings in'' [owner])"

definition text_value :: "pyval \<Rightarrow> string option" where
  "text_value v = (case v of PStr s \<Rightarrow> Some s | _ \<Rightarrow> None)"

definition operation_list :: "pyval \<Rightarrow> string \<Rightarrow> bool \<Rightarrow> (gen_error, string list) result" where
  \<comment> \<open>\<open>including\<close>: the action is \<open>include\<close>\<close>
  "operation_list raw source including =
     (let failure = Generation (if including then ''include-operations requires unique non-empty strings''
                                else ''exclude-operations requires unique non-empty strings'') [source]
      in case raw of
           PList vs \<Rightarrow>
             (case those (map name_text vs) of
                None \<Rightarrow> Inl failure
              | Some names \<Rightarrow> if (including \<and> names = []) \<or> \<not> distinct names then Inl failure else Inr names)
         | _ \<Rightarrow> Inl failure)"

definition table_of :: "table \<Rightarrow> string \<Rightarrow> (gen_error, (string \<times> table) list) result" where
  "table_of raw name =
     (case (case member raw name of None \<Rightarrow> PDict [] | Some v \<Rightarrow> v) of
        PDict d \<Rightarrow>
          (case those (map (\<lambda>(k, v). case (k, v) of (PStr s, PDict t) \<Rightarrow> Some (s, t) | _ \<Rightarrow> None) d) of
             None \<Rightarrow> setting_error ''must be a table of named tables'' [name]
           | Some ts \<Rightarrow> Inr ts)
      | _ \<Rightarrow> setting_error ''must be a table of named tables'' [name])"

definition strings_of :: "pyval option \<Rightarrow> string \<Rightarrow> (gen_error, (string \<times> string) list) result" where
  "strings_of raw owner =
     (case (case raw of None \<Rightarrow> PDict [] | Some v \<Rightarrow> v) of
        PDict d \<Rightarrow>
          (case those (map (\<lambda>(k, v). case (k, name_text v) of (PStr s, Some t) \<Rightarrow> Some (s, t) | _ \<Rightarrow> None) d) of
             None \<Rightarrow> setting_error ''must map strings to non-empty strings'' [owner]
           | Some ps \<Rightarrow> Inr ps)
      | _ \<Rightarrow> setting_error ''must map strings to non-empty strings'' [owner])"

fun subtable :: "string list \<Rightarrow> table \<Rightarrow> (gen_error, table) result" where
  \<comment> \<open>the loop over \<open>sections\<close>\<close>
  "subtable [] raw = Inr raw"
| "subtable (s # ss) raw =
     (case (case member raw s of None \<Rightarrow> PDict [] | Some v \<Rightarrow> v) of
        PDict d \<Rightarrow> subtable ss d
      | _ \<Rightarrow> setting_error ''must be a table'' [])"

section \<open>Sources\<close>

definition application_sources :: "table \<Rightarrow> string list \<Rightarrow> (gen_error, source_config list) result" where
  "application_sources raw base =
     (case member raw ''app'' of
        None \<Rightarrow> if member raw ''contracts'' \<noteq> None then setting_error ''codegen.contracts requires codegen.app'' []
                else Inr []
      | Some v \<Rightarrow>
          (case text_value v of
             None \<Rightarrow> setting_error ''codegen.app requires a module:attribute reference'' []
           | Some reference \<Rightarrow>
               if CHR '':'' \<notin> set reference then setting_error ''codegen.app requires a module:attribute reference'' []
               else rbind (path_of base (Some (case member raw ''contracts'' of None \<Rightarrow> PStr ''contracts'' | Some c \<Rightarrow> c)))
                 (\<lambda>directory. Inr (map (\<lambda>(name, kind, file).
                    \<lparr>sc_name = name, sc_kind = kind, sc_input = None, sc_source = Some reference,
                     sc_output = map_option (\<lambda>d. d @ [file]) directory, sc_factory = None, sc_optional = True,
                     sc_operations = [], sc_identities = [], sc_names = [], sc_include = None, sc_exclude = []\<rparr>)
                    [(''http'', Openapi, ''openapi.json''), (''rpc'', Openrpc, ''openrpc.json''),
                     (''webrtc'', Webrtc, ''webrtc.json'')]))))"

definition kind_of :: "pyval option \<Rightarrow> contract_kind option" where
  "kind_of v = (case v of
       Some (PStr s) \<Rightarrow> if s = ''openapi'' then Some Openapi else if s = ''openrpc'' then Some Openrpc
                        else if s = ''webrtc'' then Some Webrtc else None
     | _ \<Rightarrow> None)"

definition source_settings :: "string list" where
  "source_settings = [''kind'', ''input'', ''source'', ''output'', ''factory'', ''operations'', ''identities'', ''names'',
     ''include-operations'', ''exclude-operations'']"

definition has :: "table \<Rightarrow> string \<Rightarrow> bool" where
  "has values key = (member values key \<noteq> None)"

definition check_origin :: "string \<Rightarrow> table \<Rightarrow> (gen_error, unit) result" where
  \<comment> \<open>the checks of \<open>input\<close>, \<open>source\<close>, \<open>output\<close> and \<open>factory\<close>\<close>
  "check_origin name values =
     rbind (ensure (has values ''input'' \<noteq> has values ''source'')
              (Generation ''needs exactly one of input or source'' [name])) (\<lambda>_.
     rbind (ensure (case member values ''source'' of None \<Rightarrow> True | Some v \<Rightarrow> name_text v \<noteq> None)
              (Generation ''requires a module:attribute reference'' [name])) (\<lambda>_.
     rbind (ensure (\<not> (has values ''source'' \<and> \<not> has values ''output''))
              (Generation ''needs a contract output path'' [name])) (\<lambda>_.
     rbind (ensure (\<not> (has values ''input'' \<and> (has values ''output'' \<or> has values ''factory'')))
              (Generation ''cannot declare output or factory'' [name])) (\<lambda>_.
     ensure (case member values ''factory'' of None \<Rightarrow> True | Some (PBool _) \<Rightarrow> True | Some _ \<Rightarrow> False)
       (Generation ''factory must be a boolean'' [name])))))"

definition read_source_table ::
    "string list \<Rightarrow> source_config list \<Rightarrow> string \<times> table \<Rightarrow> (gen_error, source_config) result" where
  \<comment> \<open>one round of the loop over \<open>sources\<close>; \<open>earlier\<close> are the sources collected so far\<close>
  "read_source_table base earlier entry =
     (case entry of (name, values) \<Rightarrow>
        rbind (ensure (identifier_part name) (Generation ''Invalid source name'' [name])) (\<lambda>_.
        rbind (ensure (\<not> list_ex (\<lambda>s. sc_name s = name) earlier)
                 (Generation ''collides with a source derived from codegen.app'' [name])) (\<lambda>_.
        rbind (check_keys values source_settings (''source '' @ name)) (\<lambda>_.
        rbind (case kind_of (member values ''kind'') of None \<Rightarrow> setting_error ''has unsupported contract kind'' [name]
               | Some k \<Rightarrow> Inr k) (\<lambda>kind.
        rbind (check_origin name values) (\<lambda>_.
        rbind (strings_of (member values ''operations'') (name @ ''.operations'')) (\<lambda>operations.
        rbind (strings_of (member values ''identities'') (name @ ''.identities'')) (\<lambda>identities.
        rbind (strings_of (member values ''names'') (name @ ''.names'')) (\<lambda>names.
        rbind (rmap public_name (map snd operations)) (\<lambda>_.
        rbind (path_of base (member values ''input'')) (\<lambda>input.
        rbind (path_of base (member values ''output'')) (\<lambda>output.
        rbind (case member values ''include-operations'' of None \<Rightarrow> Inr None
               | Some v \<Rightarrow> rbind (operation_list v name True) (\<lambda>xs. Inr (Some xs))) (\<lambda>include.
        rbind (operation_list (case member values ''exclude-operations'' of None \<Rightarrow> PList [] | Some v \<Rightarrow> v) name False)
          (\<lambda>exclude.
        Inr \<lparr>sc_name = name, sc_kind = kind, sc_input = input,
             sc_source = (case member values ''source'' of None \<Rightarrow> None | Some v \<Rightarrow> text_value v), sc_output = output,
             sc_factory = Some (case member values ''factory'' of Some (PBool b) \<Rightarrow> b | _ \<Rightarrow> False), sc_optional = False,
             sc_operations = operations, sc_identities = identities, sc_names = names,
             sc_include = include, sc_exclude = exclude\<rparr>))))))))))))))"

definition read_sources :: "string list \<Rightarrow> (string \<times> table) list \<Rightarrow> source_config list \<Rightarrow> (gen_error, source_config list) result" where
  "read_sources base = rfold (\<lambda>entry sources.
     rbind (read_source_table base sources entry) (\<lambda>s. Inr (sources @ [s])))"

section \<open>Targets\<close>

definition dotted_identifier :: "string \<Rightarrow> bool" where
  "dotted_identifier s = (list_all (\<lambda>p. is_identifier p \<and> \<not> is_keyword p) (split_on CHR ''.'' s))"

definition text_or :: "pyval option \<Rightarrow> string \<Rightarrow> string option" where
  \<comment> \<open>\<open>values.get(key, fallback)\<close> of a text setting, None when it is no text\<close>
  "text_or v fallback = (case v of None \<Rightarrow> Some fallback | Some w \<Rightarrow> text_value w)"

definition target_settings :: "string list" where
  "target_settings = [''language'', ''sources'', ''output'', ''package'', ''client-name'', ''http-client'']"

definition selected_sources :: "source_config list \<Rightarrow> language \<Rightarrow> string \<Rightarrow> pyval option \<Rightarrow> (gen_error, string list) result" where
  \<comment> \<open>without a list, a target uses every source its language can render\<close>
  "selected_sources sources lang name setting =
     (let failure = Generation ''needs a non-empty unique list of known sources'' [name];
          names = (case setting of
             None \<Rightarrow> Some (map sc_name (filter (\<lambda>s. lang = Typescript \<or> sc_kind s \<noteq> Webrtc) sources))
           | Some (PList vs) \<Rightarrow> those (map text_value vs)
           | Some _ \<Rightarrow> None)
      in case names of
           None \<Rightarrow> Inl failure
         | Some xs \<Rightarrow> if xs = [] \<or> \<not> list_all (\<lambda>x. x \<in> sc_name ` set sources) xs \<or> \<not> distinct xs
                      then Inl failure else Inr xs)"

definition read_target_table ::
    "string list \<Rightarrow> source_config list \<Rightarrow> string \<times> table \<Rightarrow> (gen_error, target_config) result" where
  "read_target_table base sources entry =
     (case entry of (name, values) \<Rightarrow>
        rbind (check_keys values target_settings (''target '' @ name)) (\<lambda>_.
        rbind (case member values ''language'' of
                 Some (PStr s) \<Rightarrow> if s = ''python'' then Inr Python else if s = ''typescript'' then Inr Typescript
                                  else setting_error ''has unsupported language'' [name]
               | _ \<Rightarrow> setting_error ''has unsupported language'' [name]) (\<lambda>lang.
        rbind (selected_sources sources lang name (member values ''sources'')) (\<lambda>selected.
        rbind (path_of base (member values ''output'')) (\<lambda>output.
        rbind (case output of None \<Rightarrow> setting_error ''needs a dedicated SDK output directory'' [name]
               | Some out \<Rightarrow> if out = base then setting_error ''needs a dedicated SDK output directory'' [name]
                             else Inr out) (\<lambda>out.
        rbind (case (text_or (member values ''package'') ''api_client'', text_or (member values ''client-name'') ''ApiClient'') of
                 (Some package, Some client) \<Rightarrow>
                   if dotted_identifier package \<and> is_identifier client \<and> \<not> is_keyword client then Inr (package, client)
                   else setting_error ''has invalid package or client-name'' [name]
               | _ \<Rightarrow> setting_error ''has invalid package or client-name'' [name]) (\<lambda>(package, client).
        rbind (case text_or (member values ''http-client'') ''httpx'' of
                 Some backend \<Rightarrow>
                   if backend \<notin> {''httpx'', ''httpx2''} \<or> (lang \<noteq> Python \<and> has values ''http-client'')
                   then setting_error ''has unsupported http-client'' [name] else Inr backend
               | None \<Rightarrow> setting_error ''has unsupported http-client'' [name]) (\<lambda>backend.
        Inr \<lparr>tc_name = name, tc_language = lang, tc_sources = selected, tc_output = out, tc_package = package,
             tc_client_name = client, tc_http_client = backend\<rparr>))))))))"

section \<open>The whole configuration\<close>

definition inside :: "string list \<Rightarrow> string list \<Rightarrow> bool" where
  \<comment> \<open>\<open>a.is_relative_to(b)\<close>\<close>
  "inside a b = (take (length b) a = b)"

definition contract_path :: "source_config \<Rightarrow> string list option" where
  \<comment> \<open>\<open>source.output or source.input\<close>\<close>
  "contract_path s = (case sc_output s of Some p \<Rightarrow> Some p | None \<Rightarrow> sc_input s)"

fun check_outputs :: "string list option list \<Rightarrow> string list list \<Rightarrow> (gen_error, unit) result" where
  "check_outputs contracts [] = Inr ()"
| "check_outputs contracts (out # outs) =
     rbind (ensure (\<not> list_ex (\<lambda>other. out = other \<or> inside out other \<or> inside other out) outs)
              (Generation ''SDK output directories must not overlap'' [])) (\<lambda>_.
     rbind (ensure (\<not> list_ex (\<lambda>c. case c of None \<Rightarrow> False | Some p \<Rightarrow> p = out \<or> inside p out) contracts)
              (Generation ''Saved contracts must stay outside SDK output directories'' [])) (\<lambda>_.
     check_outputs contracts outs))"

definition read_targets :: "string list \<Rightarrow> source_config list \<Rightarrow> (string \<times> table) list \<Rightarrow> (gen_error, target_config list) result" where
  "read_targets base sources = rmap (read_target_table base sources)"

definition load_config :: "string list \<Rightarrow> table option \<Rightarrow> (gen_error, configuration) result" where
  \<comment> \<open>\<open>parsed\<close>: the TOML document, None when the file cannot be read\<close>
  "load_config path parsed =
     (case parsed of
        None \<Rightarrow> setting_error ''Cannot read'' path
      | Some document \<Rightarrow>
          let base = butlast path in
          rbind (if last path = ''pyproject.toml'' then Inr [''tool'', ''fastapi-canon'', ''codegen'']
                 else rbind (check_keys document [''codegen''] (last path)) (\<lambda>_. Inr [''codegen''])) (\<lambda>sections.
          rbind (subtable sections document) (\<lambda>raw.
          rbind (check_keys raw [''version'', ''app'', ''contracts'', ''sources'', ''targets''] (last path)) (\<lambda>_.
          rbind (ensure (member raw ''version'' = Some (PInt 1))
                   (Generation ''configuration requires version = 1'' [])) (\<lambda>_.
          rbind (application_sources raw base) (\<lambda>derived.
          rbind (table_of raw ''sources'') (\<lambda>source_tables.
          rbind (read_sources base source_tables derived) (\<lambda>sources.
          rbind (table_of raw ''targets'') (\<lambda>target_tables.
          rbind (read_targets base sources target_tables) (\<lambda>targets.
          rbind (ensure (sources \<noteq> [] \<and> targets \<noteq> [])
                   (Generation ''Canon configuration needs sources and targets'' [])) (\<lambda>_.
          rbind (check_outputs (map contract_path sources) (map tc_output targets)) (\<lambda>_.
          rbind (ensure (distinct (List.map_filter sc_output sources))
                   (Generation ''Live contract output paths must be distinct'' [])) (\<lambda>_.
          Inr \<lparr>cf_path = path, cf_sources = sources, cf_targets = targets\<rparr>)))))))))))))"

section \<open>What an accepted configuration guarantees\<close>

definition source_ok :: "source_config \<Rightarrow> bool" where
  "source_ok s \<longleftrightarrow> (sc_input s = None) \<noteq> (sc_source s = None) \<and> (sc_source s = None) = (sc_output s = None) \<and>
     distinct (sc_exclude s) \<and> (case sc_include s of None \<Rightarrow> True | Some xs \<Rightarrow> xs \<noteq> [] \<and> distinct xs) \<and>
     list_all (\<lambda>v. succeeds (public_name v)) (map snd (sc_operations s))"

lemma operation_list_ok: "operation_list raw name including = Inr xs \<Longrightarrow> distinct xs \<and> (including \<longrightarrow> xs \<noteq> [])"
  by (auto simp: operation_list_def Let_def split: pyval.splits option.splits if_splits)

lemma path_of_None: "path_of base v = Inr p \<Longrightarrow> (p = None) = (v = None)"
  by (auto simp: path_of_def setting_error_def split: option.splits pyval.splits if_splits)

lemma rmap_succeeds: "rmap f xs = Inr ys \<Longrightarrow> list_all (\<lambda>x. succeeds (f x)) xs"
  by (induction xs arbitrary: ys) (auto simp: succeeds_iff)

lemma name_text_Some: "name_text v \<noteq> None \<Longrightarrow> text_value v \<noteq> None"
  by (auto simp: name_text_def text_value_def split: pyval.splits)

lemma check_origin_ok:
  "check_origin name vals = Inr u \<Longrightarrow> has vals ''input'' \<noteq> has vals ''source'' \<and>
     (has vals ''source'' \<longrightarrow> has vals ''output'') \<and> (has vals ''input'' \<longrightarrow> \<not> has vals ''output'') \<and>
     (\<forall>v. member vals ''source'' = Some v \<longrightarrow> text_value v \<noteq> None)"
  using name_text_Some by (auto simp: check_origin_def)

lemma read_source_table_ok:
  assumes "read_source_table base earlier (name, vals) = Inr s"
  shows "source_ok s \<and> sc_name s = name \<and> name \<notin> sc_name ` set earlier"
proof -
  from assms obtain u operations v input outp incl exclude where
    name: "\<not> list_ex (\<lambda>s. sc_name s = name) earlier" and origin: "check_origin name vals = Inr u"
    and public: "rmap public_name (map snd operations) = Inr v"
    and paths: "path_of base (member vals ''input'') = Inr input" "path_of base (member vals ''output'') = Inr outp"
    and incl: "(case member vals ''include-operations'' of None \<Rightarrow> Inr None
               | Some v \<Rightarrow> rbind (operation_list v name True) (\<lambda>xs. Inr (Some xs))) = Inr incl"
    and exclude: "operation_list (case member vals ''exclude-operations'' of None \<Rightarrow> PList [] | Some v \<Rightarrow> v) name False = Inr exclude"
    and s: "sc_name s = name" "sc_input s = input" "sc_output s = outp" "sc_include s = incl" "sc_exclude s = exclude"
      "sc_operations s = operations"
      "sc_source s = (case member vals ''source'' of None \<Rightarrow> None | Some v \<Rightarrow> text_value v)"
    unfolding read_source_table_def by (auto simp del: ensure_eq_Inr not_None_eq) (auto simp: ensure_eq_Inr)
  have "case incl of None \<Rightarrow> True | Some xs \<Rightarrow> xs \<noteq> [] \<and> distinct xs"
    using incl operation_list_ok by (fastforce split: option.splits)
  moreover have "sc_source s = None \<longleftrightarrow> \<not> has vals ''source''" "input = None \<longleftrightarrow> \<not> has vals ''input''"
    "outp = None \<longleftrightarrow> \<not> has vals ''output''"
    using check_origin_ok [OF origin] paths [THEN path_of_None] s(7) by (auto simp: has_def split: option.splits)
  ultimately have "source_ok s"
    using check_origin_ok [OF origin] operation_list_ok [OF exclude] rmap_succeeds [OF public] s
    by (auto simp: source_ok_def)
  with name s show ?thesis by (auto simp: list_ex_iff)
qed

lemma application_sources_ok:
  assumes "application_sources raw base = Inr derived"
  shows "list_all source_ok derived \<and> distinct (map sc_name derived)"
proof -
  have "path_of base (Some v) = Inr p \<Longrightarrow> p \<noteq> None" for v p using path_of_None [of base "Some v" p] by simp
  with assms show ?thesis
    by (fastforce simp: application_sources_def setting_error_def source_ok_def split: option.splits if_splits)
qed

lemma read_sources_ok:
  "read_sources base tables sources = Inr result \<Longrightarrow> list_all source_ok sources \<and> distinct (map sc_name sources) \<Longrightarrow>
     list_all source_ok result \<and> distinct (map sc_name result)"
  unfolding read_sources_def
proof (erule rfold_invariant [where P = "\<lambda>sources. list_all source_ok sources \<and> distinct (map sc_name sources)"], assumption)
  fix entry sources sources'
  assume ok: "list_all source_ok sources \<and> distinct (map sc_name sources)"
    and step: "rbind (read_source_table base sources entry) (\<lambda>s. Inr (sources @ [s])) = Inr sources'"
  obtain name vals where e: "entry = (name, vals)" by (cases entry)
  from step e obtain s where s: "read_source_table base sources (name, vals) = Inr s" "sources' = sources @ [s]" by auto
  from read_source_table_ok [OF s(1)] ok show "list_all source_ok sources' \<and> distinct (map sc_name sources')"
    by (auto simp: s(2))
qed

definition target_ok :: "source_config list \<Rightarrow> target_config \<Rightarrow> bool" where
  "target_ok sources t \<longleftrightarrow> tc_sources t \<noteq> [] \<and> distinct (tc_sources t) \<and> set (tc_sources t) \<subseteq> sc_name ` set sources \<and>
     dotted_identifier (tc_package t) \<and> is_identifier (tc_client_name t)"

lemma selected_sources_ok:
  "selected_sources sources lang name setting = Inr xs \<Longrightarrow> xs \<noteq> [] \<and> distinct xs \<and> set xs \<subseteq> sc_name ` set sources"
  by (auto simp: selected_sources_def Let_def list_all_iff split: option.splits if_splits)

lemma read_target_table_ok: "read_target_table base sources entry = Inr t \<Longrightarrow> target_ok sources t"
proof (cases entry)
  fix name vals
  assume "read_target_table base sources entry = Inr t" and e: "entry = (name, vals)"
  then obtain lang selected where
    "selected_sources sources lang name (member vals ''sources'') = Inr selected" "tc_sources t = selected"
    "dotted_identifier (tc_package t)" "is_identifier (tc_client_name t)"
    unfolding read_target_table_def
    by (auto simp: setting_error_def split: option.splits if_splits)
  then show ?thesis using selected_sources_ok by (auto simp: target_ok_def)
qed

lemma inside_prefix: "inside a b \<longleftrightarrow> prefix b a"
  by (simp add: inside_def prefix_take)

lemma check_outputs_ok:
  "check_outputs contracts outs = Inr u \<Longrightarrow> sorted_wrt (\<lambda>a b. a \<parallel> b) outs \<and>
     (\<forall>out\<in>set outs. \<forall>p. Some p \<in> set contracts \<longrightarrow> \<not> prefix out p)"
proof (induction outs)
  case (Cons out outs)
  then show ?case by (auto simp: list_ex_iff inside_prefix parallel_def split: option.splits)
qed simp


definition sample_config :: "(pyval \<times> pyval) list" where
  "sample_config = [(PStr ''codegen'', pack
     [(''version'', PInt 1), (''app'', PStr ''main:app''),
      (''targets'', pack [(''web'', pack [(''language'', PStr ''typescript''), (''output'', PStr ''sdk/web'')]),
        (''py'', pack [(''language'', PStr ''python''), (''output'', PStr ''sdk/../sdk/py'')])])])]"


end
