(* ===== verification/Codegen_Exact.thy ===== *)
theory Codegen_Exact
  imports Codegen_Selection
begin

text \<open>
  What the selection of operations (\<open>Codegen_Selection\<close>) keeps: exactly the chosen operations,
  and exactly the models they need. Selecting always returns.
\<close>

section \<open>What pruning keeps\<close>

text \<open>The models a document needs: those it refers to, and those that needed models refer to.\<close>

inductive needed :: "string \<Rightarrow> (pyval \<times> pyval) list \<Rightarrow> string list \<Rightarrow> string \<Rightarrow> bool"
  for pre models roots where
  root: "name \<in> set roots \<Longrightarrow> member models name \<noteq> None \<Longrightarrow> needed pre models roots name"
| step: "needed pre models roots name \<Longrightarrow> member models name = Some schema \<Longrightarrow>
    other \<in> set (references pre False schema) \<Longrightarrow> member models other \<noteq> None \<Longrightarrow>
    needed pre models roots other"

lemma needed_known: "needed pre models roots name \<Longrightarrow> \<exists>schema. member models name = Some schema"
  by (erule needed.cases) auto

definition refers_within :: "string \<Rightarrow> (pyval \<times> pyval) list \<Rightarrow> string set \<Rightarrow> string set \<Rightarrow> bool" where
  \<comment> \<open>the known references of the models in A are in B\<close>
  "refers_within pre models A B \<longleftrightarrow>
     (\<forall>name\<in>A. \<forall>schema. member models name = Some schema \<longrightarrow>
        (\<forall>other\<in>set (references pre False schema). member models other \<noteq> None \<longrightarrow> other \<in> B))"

definition known_in :: "(pyval \<times> pyval) list \<Rightarrow> string list \<Rightarrow> string set" where
  "known_in models names = {name \<in> set names. member models name \<noteq> None}"

lemma known_in_Cons: "known_in models (name # names) =
    (if member models name = None then {} else {name}) \<union> known_in models names"
  by (auto simp: known_in_def)

lemma finite_members: "finite {name. member models name \<noteq> None}"
proof -
  have "PStr ` {name. member models name \<noteq> None} \<subseteq> fst ` set models"
    by (auto dest: map_of_SomeD intro: rev_image_eqI)
  then show ?thesis by (meson finite_imageD finite_imageI finite_set finite_subset inj_onI pyval.inject(4))
qed

text \<open>
  The loop returns, with everything marked and pending, closed under references when what was
  marked referred to marked and pending models only, and with nothing that is not needed.
\<close>

lemma mark_result:
  "\<exists>k. mark pre models pending keep = Some k \<and> set keep \<union> known_in models pending \<subseteq> set k \<and>
     (refers_within pre models (set keep) (set keep \<union> set pending) \<longrightarrow> refers_within pre models (set k) (set k)) \<and>
     ((\<forall>name\<in>set keep \<union> known_in models pending. needed pre models roots name) \<longrightarrow>
       (\<forall>name\<in>set k. needed pre models roots name))"
proof (induction "card ({name. member models name \<noteq> None} - set keep)" arbitrary: keep pending rule: less_induct)
  case less
  show ?case
  proof (induction pending)
    case Nil
    show ?case by (subst mark.simps) (simp add: known_in_def)
  next
    case (Cons name rest)
    show ?case
    proof (cases "member models name")
      case None
      from Cons.IH obtain k where k: "mark pre models rest keep = Some k" "set keep \<union> known_in models rest \<subseteq> set k"
        "refers_within pre models (set keep) (set keep \<union> set rest) \<longrightarrow> refers_within pre models (set k) (set k)"
        "(\<forall>n\<in>set keep \<union> known_in models rest. needed pre models roots n) \<longrightarrow> (\<forall>n\<in>set k. needed pre models roots n)"
        by blast
      have "mark pre models (name # rest) keep = Some k" by (subst mark.simps) (simp add: None k(1))
      moreover have "refers_within pre models (set keep) (set keep \<union> set (name # rest)) \<Longrightarrow>
          refers_within pre models (set keep) (set keep \<union> set rest)"
        unfolding refers_within_def using None by (metis Un_iff set_ConsD)
      moreover have "known_in models (name # rest) = known_in models rest" by (simp add: known_in_Cons None)
      ultimately show ?thesis using k by metis
    next
      case (Some schema)
      show ?thesis
      proof (cases "name \<in> set keep")
        case True
        from Cons.IH obtain k where k: "mark pre models rest keep = Some k" "set keep \<union> known_in models rest \<subseteq> set k"
          "refers_within pre models (set keep) (set keep \<union> set rest) \<longrightarrow> refers_within pre models (set k) (set k)"
          "(\<forall>n\<in>set keep \<union> known_in models rest. needed pre models roots n) \<longrightarrow> (\<forall>n\<in>set k. needed pre models roots n)"
          by blast
        have "mark pre models (name # rest) keep = Some k" by (subst mark.simps) (simp add: Some True k(1))
        moreover have "set keep \<union> set (name # rest) = set keep \<union> set rest" using True by auto
        moreover have "set keep \<union> known_in models (name # rest) = set keep \<union> known_in models rest"
          using True by (auto simp: known_in_Cons)
        ultimately show ?thesis using k by metis
      next
        case False
        let ?S = "{name. member models name \<noteq> None}"
        have "card (?S - set (name # keep)) < card (?S - set keep)"
          using Some False finite_members [of models] by (intro psubset_card_mono) auto
        from less.hyps [OF this, of "references pre False schema @ rest"] obtain k where
          k: "mark pre models (references pre False schema @ rest) (name # keep) = Some k"
            "set (name # keep) \<union> known_in models (references pre False schema @ rest) \<subseteq> set k"
            "refers_within pre models (set (name # keep)) (set (name # keep) \<union> set (references pre False schema @ rest)) \<longrightarrow>
              refers_within pre models (set k) (set k)"
            "(\<forall>n\<in>set (name # keep) \<union> known_in models (references pre False schema @ rest). needed pre models roots n) \<longrightarrow>
              (\<forall>n\<in>set k. needed pre models roots n)"
          by blast
        have "mark pre models (name # rest) keep = Some k" by (subst mark.simps) (simp add: Some False k(1))
        moreover have "refers_within pre models (set keep) (set keep \<union> set (name # rest)) \<Longrightarrow>
            refers_within pre models (set (name # keep)) (set (name # keep) \<union> set (references pre False schema @ rest))"
          using Some by (auto simp: refers_within_def)
        moreover have "\<forall>n\<in>set keep \<union> known_in models (name # rest). needed pre models roots n \<Longrightarrow>
            \<forall>n\<in>set (name # keep) \<union> known_in models (references pre False schema @ rest). needed pre models roots n"
          using Some needed.step by (fastforce simp: known_in_def)
        moreover have "set keep \<union> known_in models (name # rest) \<subseteq> set k"
          using k(2) Some by (auto simp: known_in_def)
        ultimately show ?thesis using k(3,4) by blast
      qed
    qed
  qed
qed

lemma mark_needed: "\<exists>k. mark pre models roots [] = Some k \<and> set k = Collect (needed pre models roots)"
proof -
  from mark_result [of pre models roots "[]" roots] obtain k where
    k: "mark pre models roots [] = Some k" "known_in models roots \<subseteq> set k"
      "refers_within pre models (set k) (set k)"
      "(\<forall>n\<in>known_in models roots. needed pre models roots n) \<longrightarrow> (\<forall>n\<in>set k. needed pre models roots n)"
    by (auto simp: refers_within_def)
  have "n \<in> set k" if "needed pre models roots n" for n
    using that k(2,3) by induction (auto simp: known_in_def refers_within_def)
  moreover have "\<forall>n\<in>set k. needed pre models roots n" using k(4) by (auto simp: known_in_def intro: needed.root)
  ultimately show ?thesis using k(1) by auto
qed

lemma member_filter: "member (filter (\<lambda>p. P (fst p)) d) name = (if P (PStr name) then member d name else None)"
  by (induction d) auto

lemma kept_models_eq:
  "kept_models pre models document =
    Some (filter (\<lambda>p. fst p \<in> PStr ` Collect (needed pre models (references pre False document))) models)"
  using mark_needed [of pre models "references pre False document"] by (auto simp: kept_models_def)


text \<open>
  Claim C35. Selecting operations always returns: resolving references detects cycles, and marking
  the models a document needs ends, also when they refer to each other in a cycle.
\<close>

theorem selection_returns: "\<exists>r. select_operations config document = Some r"
proof -
  have "\<exists>r. prune_models webrtc d = Some r" for webrtc d
    by (auto simp: prune_models_def kept_models_eq Let_def split: pyval.split)
  then show ?thesis
    by (auto simp: select_operations_def Let_def split: sum.split prod.split)
qed

definition cyclic_models :: "(pyval \<times> pyval) list" where
  "cyclic_models = [(PStr ''A'', ref_to ''#/components/schemas/B''), (PStr ''B'', ref_to ''#/components/schemas/A''),
     (PStr ''C'', pack [])]"


section \<open>What selection keeps\<close>

definition kept_entry :: "string list \<Rightarrow> listed \<Rightarrow> bool" where
  "kept_entry keep e = (fst e \<in> PStr ` set keep)"

lemma member_update_dict:
  "member (update_dict key f d) k = map_option (if k = key then f else id) (member d k)"
  by (induction d) (auto simp: update_dict_def)

lemma member_put: "member (put k v d) j = (if j = k then Some v else member d j)"
  by (simp add: dict_get_set)

subsection \<open>Groups\<close>

definition group_list :: "(pyval \<times> pyval) list \<Rightarrow> string \<Rightarrow> pyval list" where
  "group_list d g = (case member d g of Some (PList xs) \<Rightarrow> xs | _ \<Rightarrow> [])"

definition rpc_name :: "pyval \<Rightarrow> pyval" where
  "rpc_name x = (case member (dict_body x) ''name'' of Some n \<Rightarrow> n | None \<Rightarrow> PNone)"

lemma subscript_name: "subscript x ''name'' = Inr n \<Longrightarrow> n = rpc_name x \<and> member (dict_body x) ''name'' = Some n"
  by (auto simp: subscript_def rpc_name_def dict_body_def split: pyval.splits option.splits)

lemma group_entries_eq:
  "group_entries d g = Inr es \<Longrightarrow>
    es = map (\<lambda>x. (rpc_name x, In_group g x)) (group_list d g) \<and>
    (\<forall>x\<in>set (group_list d g). subscript x ''name'' = Inr (rpc_name x))"
proof -
  assume es: "group_entries d g = Inr es"
  have "rmap (\<lambda>x. rbind (subscript x ''name'') (\<lambda>n. Inr (n, In_group g x))) xs = Inr es \<Longrightarrow>
      es = map (\<lambda>x. (rpc_name x, In_group g x)) xs \<and> (\<forall>x\<in>set xs. subscript x ''name'' = Inr (rpc_name x))" for xs
    by (induction xs arbitrary: es) (auto dest: subscript_name)
  with es show ?thesis
    by (auto simp: group_entries_def group_list_def split: option.splits pyval.splits list.splits)
qed

lemma group_entries_sub:
  assumes "group_entries d g = Inr es" and "member d' g = map_option (\<lambda>v. case v of PList xs \<Rightarrow> PList (filter P xs) | _ \<Rightarrow> v) (member d g)"
  shows "group_entries d' g = Inr (map (\<lambda>x. (rpc_name x, In_group g x)) (filter P (group_list d g)))"
proof -
  have all: "(\<forall>x\<in>set xs. subscript x ''name'' = Inr (rpc_name x)) \<Longrightarrow>
      rmap (\<lambda>x. rbind (subscript x ''name'') (\<lambda>n. Inr (n, In_group g x))) xs =
      Inr (map (\<lambda>x. (rpc_name x, In_group g x)) xs)" for xs
    by (induction xs) auto
  from group_entries_eq [OF assms(1)] assms show ?thesis
    by (auto simp: group_entries_def group_list_def all split: option.splits pyval.splits list.splits)
qed

lemma py_eq_pairs_get: "py_eq_pairs a b \<Longrightarrow> dict_get a k = Some v \<Longrightarrow> \<exists>w. dict_get b k = Some w \<and> py_eq v w"
  by (induction a) (auto split: option.splits if_splits)

lemma equal_operations_named:
  assumes "y = x \<or> py_eq y x" and "rpc_name y = PStr s" and "subscript x ''name'' = Inr (rpc_name x)"
    and "subscript y ''name'' = Inr (rpc_name y)"
  shows "rpc_name y = rpc_name x"
proof (cases "y = x")
  case False
  with assms obtain a b where ab: "y = PDict a" "x = PDict b"
    by (auto simp: subscript_def split: pyval.splits)
  with False assms(1) have "py_eq_pairs a b" by simp
  moreover have "member a ''name'' = Some (PStr s)" using assms(2,4) ab subscript_name [OF assms(4)]
    by (simp add: dict_body_def)
  ultimately obtain w where w: "member b ''name'' = Some w" "py_eq (PStr s) w" using py_eq_pairs_get by blast
  then have "w = PStr s" by (simp add: number_of_def)
  with w assms(2) ab show ?thesis by (simp add: rpc_name_def dict_body_def)
qed simp

lemma remove_value_skip: "\<forall>u\<in>set us. u \<noteq> y \<and> \<not> py_eq u y \<Longrightarrow> remove_value y (us @ xs) = us @ remove_value y xs"
  by (induction us) auto

lemma fold_remove_filter:
  assumes "distinct (map f (us @ ys))"
    and "\<And>x y. x \<in> set (us @ ys) \<Longrightarrow> y \<in> set (us @ ys) \<Longrightarrow> y = x \<or> py_eq y x \<Longrightarrow> f y = f x"
  shows "fold remove_value (filter P ys) (us @ ys) = us @ filter (\<lambda>y. \<not> P y) ys"
  using assms
proof (induction ys arbitrary: us)
  case (Cons y ys)
  show ?case
  proof (cases "P y")
    case True
    have "\<forall>u\<in>set us. u \<noteq> y \<and> \<not> py_eq u y"
    proof
      fix u assume u: "u \<in> set us"
      then have "f u \<noteq> f y" using Cons.prems(1) by (auto simp: image_iff)
      with Cons.prems(2) [of y u] u show "u \<noteq> y \<and> \<not> py_eq u y" by auto
    qed
    from remove_value_skip [OF this, of "y # ys"] have "remove_value y (us @ y # ys) = us @ ys" by simp
    moreover have "fold remove_value (filter P ys) (us @ ys) = us @ filter (\<lambda>y. \<not> P y) ys"
    proof (rule Cons.IH)
      show "distinct (map f (us @ ys))" using Cons.prems(1) by simp
      show "a \<in> set (us @ ys) \<Longrightarrow> b \<in> set (us @ ys) \<Longrightarrow> b = a \<or> py_eq b a \<Longrightarrow> f b = f a" for a b
        using Cons.prems(2) [of a b] by auto
    qed
    ultimately show ?thesis using True by simp
  next
    case False
    have "fold remove_value (filter P ys) ((us @ [y]) @ ys) = (us @ [y]) @ filter (\<lambda>y. \<not> P y) ys"
    proof (rule Cons.IH)
      show "distinct (map f ((us @ [y]) @ ys))" using Cons.prems(1) by simp
      show "a \<in> set ((us @ [y]) @ ys) \<Longrightarrow> b \<in> set ((us @ [y]) @ ys) \<Longrightarrow> b = a \<or> py_eq b a \<Longrightarrow> f b = f a" for a b
        using Cons.prems(2) [of a b] by simp
    qed
    with False show ?thesis by simp
  qed
qed simp

definition removed_from :: "string list \<Rightarrow> listed list \<Rightarrow> string \<Rightarrow> pyval list" where
  "removed_from keep es g = concat (map (\<lambda>(n, loc). case loc of In_group g' x \<Rightarrow>
     if g' = g \<and> n \<notin> PStr ` set keep then [x] else [] | _ \<Rightarrow> []) es)"

definition in_groups :: "listed list \<Rightarrow> bool" where
  "in_groups es = list_all (\<lambda>e. case snd e of In_group _ _ \<Rightarrow> True | _ \<Rightarrow> False) es"

lemma delete_unselected_groups:
  "in_groups es \<Longrightarrow> member (delete_unselected keep es d) g =
     map_option (\<lambda>v. case v of PList xs \<Rightarrow> PList (fold remove_value (removed_from keep es g) xs) | _ \<Rightarrow> v) (member d g)"
proof (induction es arbitrary: d)
  case Nil
  then show ?case by (cases "member d g") (auto simp: delete_unselected_def removed_from_def split: pyval.split)
next
  case (Cons e es)
  obtain n g' x where e: "e = (n, In_group g' x)"
    using Cons.prems by (cases e) (auto simp: in_groups_def split: location.splits)
  show ?case
  proof (cases "n \<in> PStr ` set keep")
    case True
    then have d: "delete_unselected keep (e # es) d = delete_unselected keep es d" by (simp add: delete_unselected_def e)
    have r: "removed_from keep (e # es) g = removed_from keep es g" using True by (auto simp: removed_from_def e)
    show ?thesis unfolding d r using Cons.prems by (intro Cons.IH) (simp add: in_groups_def)
  next
    case False
    then have d: "delete_unselected keep (e # es) d = delete_unselected keep es (delete_entry (In_group g' x) d)"
      by (simp add: delete_unselected_def e)
    have r: "removed_from keep (e # es) g = (if g' = g then [x] else []) @ removed_from keep es g"
      using False by (simp add: removed_from_def e)
    show ?thesis unfolding d r using Cons.IH [of "delete_entry (In_group g' x) d"] Cons.prems
      by (cases "member d g") (auto simp: in_groups_def delete_entry_def member_update_dict split: pyval.split)
  qed
qed

definition group_part :: "(pyval \<times> pyval) list \<Rightarrow> string \<Rightarrow> listed list" where
  "group_part d g = map (\<lambda>x. (rpc_name x, In_group g x)) (group_list d g)"

lemma removed_from_part:
  "removed_from keep (group_part d g') g =
     (if g' = g then filter (\<lambda>x. rpc_name x \<notin> PStr ` set keep) (group_list d g) else [])"
proof -
  have "removed_from keep (map (\<lambda>x. (rpc_name x, In_group g' x)) xs) g =
      (if g' = g then filter (\<lambda>x. rpc_name x \<notin> PStr ` set keep) xs else [])" for xs
    by (induction xs) (auto simp: removed_from_def)
  then show ?thesis by (simp add: group_part_def)
qed

lemma removed_from_append: "removed_from keep (es @ fs) g = removed_from keep es g @ removed_from keep fs g"
  by (simp add: removed_from_def)

lemma removed_from_parts:
  "distinct gs \<Longrightarrow> removed_from keep (concat (map (group_part d) gs)) g =
     (if g \<in> set gs then filter (\<lambda>x. rpc_name x \<notin> PStr ` set keep) (group_list d g) else [])"
proof (induction gs)
  case Nil
  then show ?case by (simp add: removed_from_def)
next
  case (Cons g' gs)
  then show ?case by (auto simp: removed_from_append removed_from_part)
qed

lemma rmap_eq_map: "rmap f xs = Inr ys \<Longrightarrow> \<forall>x\<in>set xs. \<forall>y. f x = Inr y \<longrightarrow> y = g x \<Longrightarrow> ys = map g xs"
  by (induction xs arbitrary: ys) auto

lemma rmap_all: "\<forall>x\<in>set xs. f x = Inr (g x) \<Longrightarrow> rmap f xs = Inr (map g xs)"
  by (induction xs) auto

lemma distinct_part: "distinct (map fst (concat (map h gs))) \<Longrightarrow> g \<in> set gs \<Longrightarrow> distinct (map fst (h g))"
  by (induction gs) auto

lemma filter_part:
  "filter (kept_entry keep) (concat (map (group_part d) gs)) =
     concat (map (\<lambda>g. map (\<lambda>x. (rpc_name x, In_group g x))
       (filter (\<lambda>x. rpc_name x \<in> PStr ` set keep) (group_list d g))) gs)"
  by (simp add: filter_concat comp_def group_part_def filter_map kept_entry_def)

lemma selected_groups:
  assumes ess: "rmap (group_entries d) gs = Inr ess" and gs: "distinct gs"
    and names: "distinct (map fst (concat ess))" "\<forall>e\<in>set (concat ess). \<exists>s. fst e = PStr s"
    and d': "\<forall>g\<in>set gs. member d' g = member (delete_unselected keep (concat ess) d) g"
  shows "\<exists>ess'. rmap (group_entries d') gs = Inr ess' \<and> concat ess' = filter (kept_entry keep) (concat ess)"
proof -
  have parts: "ess = map (group_part d) gs"
    using ess by (rule rmap_eq_map) (auto simp: group_part_def dest: group_entries_eq)
  have ok: "\<forall>g\<in>set gs. group_entries d g = Inr (group_part d g)"
    using ess parts by (auto simp: rmap_Inr_iff list_all2_map2 list_all2_same)
  let ?P = "\<lambda>x. rpc_name x \<in> PStr ` set keep"
  have "group_entries d' g = Inr (map (\<lambda>x. (rpc_name x, In_group g x)) (filter ?P (group_list d g)))"
    if g: "g \<in> set gs" for g
  proof (rule group_entries_sub)
    show "group_entries d g = Inr (group_part d g)" using ok g by blast
    have in_gs: "in_groups (concat ess)" by (auto simp: parts in_groups_def list_all_iff group_part_def)
    have dist: "distinct (map rpc_name (group_list d g))"
      using distinct_part [of "group_part d" gs g] names(1) g by (simp add: parts group_part_def comp_def)
    have same: "rpc_name y = rpc_name x"
      if xy: "x \<in> set (group_list d g)" "y \<in> set (group_list d g)" "y = x \<or> py_eq y x" for x y
    proof -
      have subs: "\<forall>x\<in>set (group_list d g). subscript x ''name'' = Inr (rpc_name x)"
        using group_entries_eq ok g by blast
      have "(rpc_name y, In_group g y) \<in> set (concat ess)" using xy(2) g by (auto simp: parts group_part_def)
      with names(2) obtain s where "rpc_name y = PStr s" by fastforce
      with equal_operations_named [OF xy(3)] subs xy show ?thesis by blast
    qed
    have "fold remove_value (filter (\<lambda>x. \<not> ?P x) (group_list d g)) ([] @ group_list d g) =
        [] @ filter (\<lambda>x. \<not> \<not> ?P x) (group_list d g)"
    proof (rule fold_remove_filter)
      show "distinct (map rpc_name ([] @ group_list d g))" using dist by simp
      show "a \<in> set ([] @ group_list d g) \<Longrightarrow> b \<in> set ([] @ group_list d g) \<Longrightarrow> b = a \<or> py_eq b a \<Longrightarrow> rpc_name b = rpc_name a"
        for a b using same unfolding append_Nil by blast
    qed
    then have folded: "fold remove_value (filter (\<lambda>x. \<not> ?P x) (group_list d g)) (group_list d g) = filter ?P (group_list d g)"
      by simp
    have removed: "removed_from keep (concat ess) g = filter (\<lambda>x. \<not> ?P x) (group_list d g)"
      using removed_from_parts [OF gs] g by (simp add: parts)
    have deleted: "member d' g = map_option (\<lambda>v. case v of PList xs \<Rightarrow>
        PList (fold remove_value (filter (\<lambda>x. \<not> ?P x) (group_list d g)) xs) | _ \<Rightarrow> v) (member d g)"
      using d' g delete_unselected_groups [OF in_gs, of keep d g] unfolding removed by simp
    show "member d' g = map_option (\<lambda>v. case v of PList xs \<Rightarrow> PList (filter ?P xs) | _ \<Rightarrow> v) (member d g)"
    proof (cases "member d g")
      case (Some v)
      show ?thesis
      proof (cases "\<exists>xs. v = PList xs")
        case True
        then obtain xs where v: "v = PList xs" by blast
        then have "group_list d g = xs" by (simp add: group_list_def Some)
        with folded show ?thesis unfolding deleted by (simp add: Some v)
      qed (auto simp: deleted Some split: pyval.split)
    qed (simp add: deleted)
  qed
  then have "rmap (group_entries d') gs =
      Inr (map (\<lambda>g. map (\<lambda>x. (rpc_name x, In_group g x)) (filter ?P (group_list d g))) gs)"
    by (intro rmap_all) blast
  then show ?thesis by (simp add: parts filter_part)
qed

subsection \<open>Paths\<close>

definition listed_id :: "pyval \<Rightarrow> string \<Rightarrow> pyval" where
  "listed_id item m =
     (case member (dict_body item) m of
        Some v \<Rightarrow> (case member (dict_body v) ''operationId'' of Some n \<Rightarrow> n | None \<Rightarrow> PNone)
      | None \<Rightarrow> PNone)"

definition path_part :: "pyval \<Rightarrow> pyval \<Rightarrow> listed list" where
  "path_part p item = map (\<lambda>m. (listed_id item m, At_path p m)) (item_methods item)"

definition plain_item :: "pyval \<Rightarrow> bool" where
  "plain_item item \<longleftrightarrow> (\<exists>d. item = PDict d \<and> member d ''$ref'' = None)"

lemma subscript_dict: "subscript v k = Inr w \<Longrightarrow> member (dict_body v) k = Some w"
  by (auto simp: subscript_def dict_body_def split: pyval.splits option.splits)

lemma path_entries_part: "path_entries p item = Inr es \<Longrightarrow> es = path_part p item"
proof -
  assume es: "path_entries p item = Inr es"
  have "rmap (\<lambda>m. rbind (subscript item m) (\<lambda>v. rbind (subscript v ''operationId'') (\<lambda>n. Inr (n, At_path p m)))) ms = Inr es
      \<Longrightarrow> es = map (\<lambda>m. (listed_id item m, At_path p m)) ms" for ms
    by (rule rmap_eq_map) (auto simp: listed_id_def dest!: subscript_dict)
  with es show ?thesis by (auto simp: path_entries_def path_part_def split: pyval.splits)
qed

lemma resolve_ref_from_plain: "resolve_ref_from document seen d = Inr r \<Longrightarrow> member r ''$ref'' = None"
proof (induction document seen d rule: resolve_ref_from.induct)
  case (1 document seen d)
  from "1.prems" "1.IH" show ?case
    by (subst (asm) resolve_ref_from.simps) (auto split: option.splits pyval.splits if_splits sum.splits)
qed

lemma resolve_ref_dict: "resolve_ref document v = Inr (PDict d) \<Longrightarrow> plain_item (PDict d)"
  by (auto simp: resolve_ref_def plain_item_def resolve_ref_from_plain split: pyval.splits if_splits)

lemma resolve_ref_plain: "plain_item item \<Longrightarrow> resolve_ref document item = Inr item"
  by (auto simp: resolve_ref_def plain_item_def resolve_ref_from.simps)

lemma path_entries_dict: "path_entries p item = Inr es \<Longrightarrow> \<exists>d. item = PDict d"
  by (auto simp: path_entries_def split: pyval.splits)

lemma resolve_paths_parts:
  "resolve_paths document paths = Inr (ps, es) \<Longrightarrow>
    es = concat (map (\<lambda>(p, item). path_part p item) ps) \<and> map fst ps = map fst paths \<and>
    (\<forall>(p, item)\<in>set ps. plain_item item \<and> path_entries p item = Inr (path_part p item))"
proof -
  assume "resolve_paths document paths = Inr (ps, es)"
  then obtain rs where rs: "rmap (\<lambda>(path, item). rbind (resolve_ref document item) (\<lambda>item'.
      rbind (path_entries path item') (\<lambda>es. Inr ((path, item'), es)))) paths = Inr rs"
    and out: "ps = map fst rs" "es = concat (map snd rs)" by (auto simp: resolve_paths_def)
  have "map (fst \<circ> fst) rs = map fst paths \<and>
      (\<forall>((p, item), es)\<in>set rs. es = path_part p item \<and> plain_item item \<and> path_entries p item = Inr (path_part p item))"
    using rs
  proof (induction paths arbitrary: rs)
    case (Cons q paths)
    obtain p v where q: "q = (p, v)" by (cases q)
    from Cons.prems q obtain item es' rs' where
      r: "resolve_ref document v = Inr item" "path_entries p item = Inr es'" "rs = ((p, item), es') # rs'"
        "rmap (\<lambda>(path, item). rbind (resolve_ref document item) (\<lambda>item'.
          rbind (path_entries path item') (\<lambda>es. Inr ((path, item'), es)))) paths = Inr rs'" by auto
    moreover have "plain_item item" using r path_entries_dict resolve_ref_dict by metis
    ultimately show ?case using Cons.IH [OF r(4)] path_entries_part [OF r(2)] q by auto
  qed simp
  then show ?thesis unfolding out
    by (auto simp: comp_def intro!: arg_cong [where f = concat] split: prod.splits)
qed

definition unselected_at :: "string list \<Rightarrow> listed list \<Rightarrow> pyval \<Rightarrow> pyval \<Rightarrow> bool" where
  "unselected_at keep es p key = (\<exists>n m. (n, At_path p m) \<in> set es \<and> n \<notin> PStr ` set keep \<and> key = PStr m)"

definition cut_item :: "(pyval \<Rightarrow> bool) \<Rightarrow> pyval \<Rightarrow> pyval" where
  "cut_item P item = PDict (filter (\<lambda>kv. \<not> P (fst kv)) (dict_body item))"

definition at_paths :: "listed list \<Rightarrow> bool" where
  "at_paths es = list_all (\<lambda>e. case snd e of At_path _ _ \<Rightarrow> True | _ \<Rightarrow> False) es"

lemma cut_item_cut: "cut_item P (cut_item Q item) = cut_item (\<lambda>k. Q k \<or> P k) item"
  by (simp add: cut_item_def dict_body_def)

lemma cut_item_none: "cut_item (\<lambda>_. False) (PDict d) = PDict d"
  by (simp add: cut_item_def dict_body_def)

lemma drop_member_cut: "PDict (drop_member m (dict_body item)) = cut_item (\<lambda>k. k = PStr m) item"
  by (simp add: cut_item_def drop_member_def dict_pop_def)

lemma unselected_at_Nil: "unselected_at keep [] p = (\<lambda>_. False)"
  by (simp add: unselected_at_def fun_eq_iff)

lemma unselected_at_Cons:
  "unselected_at keep ((n, At_path q m) # es) p = (\<lambda>k. (q = p \<and> n \<notin> PStr ` set keep \<and> k = PStr m) \<or> unselected_at keep es p k)"
  by (auto simp: unselected_at_def fun_eq_iff)

lemma delete_unselected_paths:
  "at_paths es \<Longrightarrow> member d ''paths'' = Some (PDict ps) \<Longrightarrow> \<forall>(p, item)\<in>set ps. \<exists>b. item = PDict b \<Longrightarrow>
   member (delete_unselected keep es d) ''paths'' =
     Some (PDict (map (\<lambda>(p, item). (p, cut_item (unselected_at keep es p) item)) ps))"
proof (induction es arbitrary: d ps)
  case Nil
  have "map (\<lambda>(p, item). (p, cut_item (unselected_at keep [] p) item)) ps = ps"
    using Nil.prems(3) by (intro map_idI) (fastforce simp: unselected_at_Nil cut_item_none)
  with Nil show ?case by (simp add: delete_unselected_def)
next
  case (Cons e es)
  obtain n q m where e: "e = (n, At_path q m)"
    using Cons.prems(1) by (cases e) (auto simp: at_paths_def split: location.splits)
  have es: "at_paths es" using Cons.prems(1) by (simp add: at_paths_def)
  show ?case
  proof (cases "n \<in> PStr ` set keep")
    case True
    then have "delete_unselected keep (e # es) d = delete_unselected keep es d" by (simp add: delete_unselected_def e)
    moreover have "unselected_at keep (e # es) p = unselected_at keep es p" for p
      using True by (simp add: e unselected_at_Cons)
    ultimately show ?thesis using Cons.IH [OF es Cons.prems(2,3)] by simp
  next
    case False
    let ?cut = "\<lambda>(p, item). (p, if p = q then PDict (drop_member m (dict_body item)) else item)"
    have d: "delete_unselected keep (e # es) d = delete_unselected keep es (delete_entry (At_path q m) d)"
      using False by (simp add: delete_unselected_def e)
    have paths: "member (delete_entry (At_path q m) d) ''paths'' = Some (PDict (map ?cut ps))"
      using Cons.prems(2) by (simp add: delete_entry_def member_update_dict dict_body_def)
    have dicts: "\<forall>(p, item)\<in>set (map ?cut ps). \<exists>b. item = PDict b" using Cons.prems(3) by auto
    have "(\<lambda>(p, item). (p, cut_item (unselected_at keep es p) item)) (?cut x) =
        (\<lambda>(p, item). (p, cut_item (unselected_at keep (e # es) p) item)) x" for x
      using False by (cases x) (auto simp: drop_member_cut cut_item_cut e unselected_at_Cons)
    then show ?thesis unfolding d Cons.IH [OF es paths dicts] by (simp add: comp_def)
  qed
qed

definition kept_item :: "string list \<Rightarrow> pyval \<Rightarrow> pyval" where
  "kept_item keep item = cut_item (\<lambda>k. \<exists>m\<in>set (item_methods item). listed_id item m \<notin> PStr ` set keep \<and> k = PStr m) item"

lemma member_cut: "member (dict_body (cut_item P item)) m = (if P (PStr m) then None else member (dict_body item) m)"
  using member_filter [of "\<lambda>k. \<not> P k" "dict_body item" m] by (simp add: cut_item_def dict_body_def)

lemma item_methods_mem: "m \<in> set (item_methods item) \<longleftrightarrow> m \<in> set operation_methods \<and> member (dict_body item) m \<noteq> None"
  by (simp add: item_methods_def)

lemma kept_item_methods:
  "item_methods (kept_item keep item) = filter (\<lambda>m. listed_id item m \<in> PStr ` set keep) (item_methods item)"
proof -
  have "member (dict_body (kept_item keep item)) m \<noteq> None \<longleftrightarrow>
      member (dict_body item) m \<noteq> None \<and> listed_id item m \<in> PStr ` set keep" if "m \<in> set operation_methods" for m
    using that by (auto simp: kept_item_def member_cut item_methods_mem)
  then show ?thesis unfolding item_methods_def filter_filter by (intro filter_cong) auto
qed

lemma kept_item_part: "path_part p (kept_item keep item) = filter (kept_entry keep) (path_part p item)"
proof -
  have "listed_id (kept_item keep item) m = listed_id item m" if "m \<in> set (item_methods (kept_item keep item))" for m
    using that by (auto simp: listed_id_def item_methods_mem kept_item_def member_cut)
  then show ?thesis
    by (simp add: path_part_def kept_item_methods filter_map comp_def kept_entry_def)
qed

lemma kept_item_plain: "plain_item item \<Longrightarrow> plain_item (kept_item keep item)"
proof -
  assume "plain_item item"
  then obtain d where d: "item = PDict d" "member d ''$ref'' = None" by (auto simp: plain_item_def)
  obtain b where b: "kept_item keep item = PDict b" by (simp add: kept_item_def cut_item_def)
  have "member (dict_body (kept_item keep item)) ''$ref'' = None" unfolding kept_item_def member_cut using d
    by (simp add: dict_body_def)
  with b show ?thesis by (simp add: plain_item_def dict_body_def)
qed

lemma kept_item_entries:
  assumes "plain_item item" and "path_entries p item = Inr (path_part p item)"
  shows "path_entries p (kept_item keep item) = Inr (path_part p (kept_item keep item))"
proof -
  let ?k = "kept_item keep item"
  obtain d b where d: "item = PDict d" and b: "?k = PDict b"
    using assms(1) by (auto simp: plain_item_def kept_item_def cut_item_def)
  have "\<forall>m\<in>set (item_methods item). \<exists>v n. subscript item m = Inr v \<and> subscript v ''operationId'' = Inr n"
    using assms(2) by (auto simp: d path_entries_def rmap_Inr_iff path_part_def list_all2_map2 list_all2_same)
  moreover have "subscript ?k m = subscript item m" and "m \<in> set (item_methods item)"
    if m: "m \<in> set (item_methods ?k)" for m
  proof -
    show "m \<in> set (item_methods item)" using m by (simp add: kept_item_methods)
    have "member (dict_body ?k) m = member (dict_body item) m"
      using m unfolding kept_item_methods by (auto simp: kept_item_def member_cut)
    then show "subscript ?k m = subscript item m" unfolding b by (simp add: d subscript_def dict_body_def)
  qed
  ultimately have "\<forall>m\<in>set (item_methods ?k). \<exists>v n. subscript ?k m = Inr v \<and> subscript v ''operationId'' = Inr n"
    by metis
  then have "\<forall>m\<in>set (item_methods ?k). rbind (subscript ?k m) (\<lambda>v. rbind (subscript v ''operationId'') (\<lambda>n. Inr (n, At_path p m)))
      = Inr (listed_id ?k m, At_path p m)"
    by (fastforce simp: listed_id_def dest: subscript_dict)
  then show ?thesis unfolding path_part_def by (simp add: b path_entries_def rmap_all)
qed

subsection \<open>Whole documents\<close>

lemma prune_models_other:
  assumes "prune_models webrtc document = Some (Inr document')"
    and "k \<noteq> (if webrtc then ''definitions'' else ''components'')"
  shows "member document' k = member document k"
  using assms
  by (auto simp: prune_models_def Let_def kept_models_eq dict_get_set drop_member_def dict_get_pop
      split: pyval.splits option.splits if_splits)

lemma operation_names_ok:
  assumes "operation_names config es = Inr known"
  shows "distinct (map fst es)" and "\<forall>e\<in>set es. \<exists>s. fst e = PStr s"
proof -
  have "those (map (\<lambda>e. name_text (fst e)) es) = Some names \<Longrightarrow> map fst es = map PStr names" for names
  proof (induction es arbitrary: names)
    case (Cons e es)
    then show ?case by (auto simp: name_text_def split: option.splits pyval.splits if_splits)
  qed simp
  with assms have es: "map fst es = map PStr known" and "distinct known"
    by (auto simp: operation_names_def split: option.splits if_splits)
  then show "distinct (map fst es)" by (simp add: distinct_map inj_on_def)
  show "\<forall>e\<in>set es. \<exists>s. fst e = PStr s"
  proof
    fix e assume "e \<in> set es"
    then have "fst e \<in> set (map PStr known)" unfolding es [symmetric] by simp
    then show "\<exists>s. fst e = PStr s" by auto
  qed
qed

lemma path_part_mem: "(n, At_path q m) \<in> set (path_part p item) \<longleftrightarrow>
    q = p \<and> m \<in> set (item_methods item) \<and> n = listed_id item m"
  by (auto simp: path_part_def)

lemma cut_unselected:
  assumes "distinct (map fst ps)" and "(p, item) \<in> set ps"
  shows "cut_item (unselected_at keep (concat (map (\<lambda>(p, item). path_part p item) ps)) p) item = kept_item keep item"
proof -
  have "unselected_at keep (concat (map (\<lambda>(p, item). path_part p item) ps)) p k \<longleftrightarrow>
      (\<exists>m\<in>set (item_methods item). listed_id item m \<notin> PStr ` set keep \<and> k = PStr m)" for k
    using assms by (fastforce simp: unselected_at_def path_part_mem dest: eq_key_imp_eq_value)
  then have "unselected_at keep (concat (map (\<lambda>(p, item). path_part p item) ps)) p =
      (\<lambda>k. \<exists>m\<in>set (item_methods item). listed_id item m \<notin> PStr ` set keep \<and> k = PStr m)" by (rule ext)
  then show ?thesis by (simp add: kept_item_def)
qed

lemma concat_drop_empty: "\<forall>x\<in>set xs. \<not> P x \<longrightarrow> f x = [] \<Longrightarrow> concat (map f (filter P xs)) = concat (map f xs)"
  by (induction xs) auto

lemma selected_paths:
  assumes paths: "resolve_paths (PDict document) paths = Inr (ps, es)" and keys: "wf_dict paths"
    and d: "member d ''paths'' = Some (PDict ps)"
    and d': "member d' ''paths'' = member (drop_empty_paths (delete_unselected keep es d)) ''paths''"
  shows "\<exists>ps'. member d' ''paths'' = Some (PDict ps') \<and>
    resolve_paths (PDict d') ps' = Inr (ps', filter (kept_entry keep) es)"
proof -
  let ?part = "\<lambda>(p, item). path_part p item" and ?keep = "\<lambda>(p, item). (p, kept_item keep item)"
  let ?has = "\<lambda>(p, item). item_methods item \<noteq> []"
  have es: "es = concat (map ?part ps)" and fsts: "map fst ps = map fst paths"
    and ok: "\<forall>(p, item)\<in>set ps. plain_item item \<and> path_entries p item = Inr (path_part p item)"
    using resolve_paths_parts [OF paths] by blast+
  have dist: "distinct (map fst ps)" using keys by (simp add: fsts wf_dict_def)
  have "at_paths es" by (auto simp: es at_paths_def list_all_iff path_part_def)
  moreover have "\<forall>(p, item)\<in>set ps. \<exists>b. item = PDict b" using ok by (auto simp: plain_item_def)
  ultimately have "member (delete_unselected keep es d) ''paths'' =
      Some (PDict (map (\<lambda>(p, item). (p, cut_item (unselected_at keep es p) item)) ps))"
    using delete_unselected_paths d by blast
  moreover have "map (\<lambda>(p, item). (p, cut_item (unselected_at keep es p) item)) ps = map ?keep ps"
    using cut_unselected [OF dist] by (auto simp: es)
  ultimately have del: "member (delete_unselected keep es d) ''paths'' = Some (PDict (map ?keep ps))" by simp
  define ps' where "ps' = filter ?has (map ?keep ps)"
  have "member d' ''paths'' = Some (PDict ps')"
    by (simp add: d' drop_empty_paths_def dict_get_set del body_or_empty_def dict_body_def ps'_def)
  moreover have "resolve_paths (PDict d') ps' = Inr (ps', filter (kept_entry keep) es)"
  proof -
    have "\<forall>(p, item)\<in>set ps'. resolve_ref (PDict d') item = Inr item \<and> path_entries p item = Inr (path_part p item)"
      using ok by (fastforce simp: ps'_def kept_item_entries intro: resolve_ref_plain kept_item_plain)
    then have "rmap (\<lambda>(path, item). rbind (resolve_ref (PDict d') item) (\<lambda>item'.
        rbind (path_entries path item') (\<lambda>es. Inr ((path, item'), es)))) ps' = Inr (map (\<lambda>(p, item). ((p, item), path_part p item)) ps')"
      by (intro rmap_all) auto
    moreover have "concat (map ?part ps') = filter (kept_entry keep) es"
    proof -
      have "concat (map ?part ps') = concat (map ?part (map ?keep ps))"
        unfolding ps'_def by (rule concat_drop_empty) (auto simp: path_part_def)
      also have "\<dots> = filter (kept_entry keep) es"
        by (simp add: es filter_concat comp_def kept_item_part split_def)
      finally show ?thesis .
    qed
    ultimately show ?thesis by (simp add: resolve_paths_def comp_def split_def)
  qed
  ultimately show ?thesis by blast
qed

lemma rpc_groups_other: "kind \<noteq> Openapi \<Longrightarrow> g \<in> set (groups_of kind) \<Longrightarrow>
    g \<noteq> (if kind = Webrtc then ''definitions'' else ''components'')"
  by (auto simp: groups_of_def rpc_groups_def split: if_splits)

lemma distinct_groups: "distinct (groups_of kind)"
  by (simp add: groups_of_def rpc_groups_def)

lemma chosen_known: "chosen config known = Inr keep \<Longrightarrow> keep \<noteq> [] \<and> set keep \<subseteq> set known"
  by (auto simp: chosen_def Let_def filter_empty_conv)

lemma catalog_Inr: "catalog config document = Inr (selected, ops) \<Longrightarrow>
    (if sc_kind config = Openapi then
       (case member document ''paths'' of
          None \<Rightarrow> selected = document \<and> ops = []
        | Some v \<Rightarrow> \<exists>paths ps. v = PDict paths \<and> resolve_paths (PDict document) paths = Inr (ps, ops) \<and>
            selected = put ''paths'' (PDict ps) document)
     else selected = document \<and> (\<exists>ess. rmap (group_entries document) (groups_of (sc_kind config)) = Inr ess \<and> ops = concat ess))"
  by (auto simp: catalog_def Let_def rbind_def split: if_splits option.splits pyval.splits sum.splits gen_error.splits)


definition sample_contract :: "(pyval \<times> pyval) list" where
  "sample_contract =
     [(PStr ''methods'', PList [pack [(''name'', PStr ''add''), (''result'', ref_to ''#/components/schemas/Sum'')],
        pack [(''name'', PStr ''drop''), (''result'', ref_to ''#/components/schemas/Gone'')]]),
      (PStr ''components'', pack [(''schemas'', pack [(''Sum'', pack []), (''Gone'', pack [])])])]"

definition sample_source :: source_config where
  "sample_source = \<lparr>sc_name = ''rpc'', sc_kind = Openrpc, sc_input = None, sc_source = None, sc_output = None,
     sc_factory = Some False, sc_optional = False, sc_operations = [], sc_identities = [], sc_names = [],
     sc_include = None, sc_exclude = [''drop'']\<rparr>"


end
