(* ===== verification/Sse_Frames.thy ===== *)
theory Sse_Frames
  imports Canon_Prelude
begin

text \<open>
  The event-stream reader of the generated Python clients
  (\<open>fastapi_canon/integrations/sse/codegen/templates/python/runtime.py\<close>, \<open>_iter_frames\<close>): it is fed
  the chunks of a response body and yields the frames (event name and payload) as they complete.
  The incremental UTF-8 decoder is the standard library's; a chunk here is the text decoded from
  it, which may be empty. The theorem says that how the body was cut into chunks does not matter.
\<close>

abbreviation CR :: char where "CR \<equiv> CHR 0x0D"
abbreviation LF :: char where "LF \<equiv> CHR 0x0A"

section \<open>Lines\<close>

definition drop_lf :: "string \<Rightarrow> string" where
  "drop_lf s = (case s of [] \<Rightarrow> [] | c # cs \<Rightarrow> if c = LF then cs else s)"

lemma drop_lf_simps [simp]: "drop_lf [] = []" "drop_lf (c # cs) = (if c = LF then cs else c # cs)"
  by (simp_all add: drop_lf_def)

lemma length_drop_lf: "length (drop_lf s) \<le> length s"
  by (cases s) simp_all

function line_split :: "string \<Rightarrow> string list" where
  \<comment> \<open>\<open>_LINE_END.split(text)\<close>\<close>
  "line_split [] = [[]]"
| "line_split (c # cs) =
     (if c = CR then [] # line_split (drop_lf cs)
      else if c = LF then [] # line_split cs
      else (case line_split cs of [] \<Rightarrow> [[c]] | l # ls \<Rightarrow> (c # l) # ls))"
  by pat_completeness auto
termination
  by (relation "measure length") (simp_all add: length_drop_lf less_Suc_eq_le)

definition ends_cr :: "string \<Rightarrow> bool" where
  "ends_cr s = (s \<noteq> [] \<and> last s = CR)"

section \<open>The reader\<close>

text \<open>\<open>fr_state\<close> are the closure variables \<open>data\<close> and \<open>event\<close>.\<close>

type_synonym event_state = "string list \<times> string"

record frame_reader =
  fr_pending :: "string list"
  fr_state :: event_state
  fr_skip_lf :: bool

definition new_reader :: frame_reader where
  "new_reader = \<lparr>fr_pending = [], fr_state = ([], []), fr_skip_lf = False\<rparr>"

definition accept_line :: "string \<Rightarrow> event_state \<Rightarrow> (string \<times> string) option \<times> event_state" where
  "accept_line current st =
     (case st of (data, event) \<Rightarrow>
        if current = [] then
          (if data = [] then (None, [], []) else (Some (event, join_with [LF] data), [], []))
        else
          (let field = takeWhile (\<lambda>c. c \<noteq> CHR '':'') current;
               rest = drop 1 (dropWhile (\<lambda>c. c \<noteq> CHR '':'') current);
               value = (if starts_with '' '' rest then drop 1 rest else rest)
           in if field = ''data'' then (None, data @ [value], event)
              else if field = ''event'' then (None, data, value)
              else (None, data, event)))"

fun accept_lines :: "string list \<Rightarrow> event_state \<Rightarrow> (string \<times> string) list \<times> event_state" where
  \<comment> \<open>the loop over the complete lines of a chunk, with the frames it yields\<close>
  "accept_lines [] st = ([], st)"
| "accept_lines (line # rest) st =
     (case accept_line line st of (payload, st1) \<Rightarrow>
        case accept_lines rest st1 of (payloads, st2) \<Rightarrow>
          ((case payload of None \<Rightarrow> payloads | Some p \<Rightarrow> p # payloads), st2))"

definition feed :: "string \<Rightarrow> frame_reader \<Rightarrow> (string \<times> string) list \<times> frame_reader" where
  \<comment> \<open>one round of the loop over the chunks\<close>
  "feed chunk r =
     (let (text, skip) = (if fr_skip_lf r \<and> chunk \<noteq> [] then (drop_lf chunk, False) else (chunk, fr_skip_lf r))
      in if text = [] then ([], r\<lparr>fr_skip_lf := skip\<rparr>)
         else
           (let lines = line_split text
            in if length lines = 1 then ([], r\<lparr>fr_pending := fr_pending r @ [text], fr_skip_lf := skip\<rparr>)
               else
                 (let lines1 = (if fr_pending r = [] then lines else (concat (fr_pending r) @ hd lines) # tl lines);
                      rest = last lines1;
                      (payloads, st) = accept_lines (butlast lines1) (fr_state r)
                  in (payloads, \<lparr>fr_pending = (if rest = [] then [] else [rest]), fr_state = st,
                                 fr_skip_lf = (last text = CR)\<rparr>))))"

fun feed_all :: "string list \<Rightarrow> frame_reader \<Rightarrow> (string \<times> string) list \<times> frame_reader" where
  "feed_all [] r = ([], r)"
| "feed_all (chunk # chunks) r =
     (case feed chunk r of (payloads, r1) \<Rightarrow> case feed_all chunks r1 of (later, r2) \<Rightarrow> (payloads @ later, r2))"

definition finish_frames :: "bool \<Rightarrow> frame_reader \<Rightarrow> (string \<times> string) list" where
  \<comment> \<open>after the last chunk; the strict decoder has no text left\<close>
  "finish_frames strict r =
     (let line = concat (fr_pending r);
          (data, event) = (if line = [] then fr_state r else snd (accept_line line (fr_state r)))
      in if data \<noteq> [] \<and> \<not> strict then [(event, join_with [LF] data)] else [])"

definition iter_frames :: "bool \<Rightarrow> string list \<Rightarrow> (string \<times> string) list" where
  "iter_frames strict chunks =
     (case feed_all chunks new_reader of (payloads, r) \<Rightarrow> payloads @ finish_frames strict r)"

definition iter_sse :: "string list \<Rightarrow> string list" where
  "iter_sse chunks = map snd (iter_frames False chunks)"

section \<open>Specification: one pass over the whole text\<close>

definition text_frames :: "bool \<Rightarrow> string \<Rightarrow> (string \<times> string) list" where
  "text_frames strict text =
     (case accept_lines (butlast (line_split text)) ([], []) of (payloads, st) \<Rightarrow>
        payloads @ finish_frames strict \<lparr>fr_pending = [last (line_split text)], fr_state = st, fr_skip_lf = False\<rparr>)"

section \<open>Chunks do not matter\<close>

lemma line_split_nonempty [simp]: "line_split s \<noteq> []"
  by (induction s rule: line_split.induct) (auto split: list.split)

definition join_lines :: "string list \<Rightarrow> string list \<Rightarrow> string list" where
  \<comment> \<open>the lines of a text that is continued\<close>
  "join_lines xs ys = butlast xs @ (last xs @ hd ys) # tl ys"

lemma join_lines_Cons: "xs \<noteq> [] \<Longrightarrow> join_lines (x # xs) ys = x # join_lines xs ys"
  by (simp add: join_lines_def)

lemma join_lines_first:
  "(case join_lines (l # ls) ys of [] \<Rightarrow> [[c]] | m # ms \<Rightarrow> (c # m) # ms) = join_lines ((c # l) # ls) ys"
  by (cases ls) (simp_all add: join_lines_def)

lemma line_split_append:
  "line_split (s @ t) = join_lines (line_split s) (line_split (if ends_cr s then drop_lf t else t))"
proof (induction s rule: line_split.induct)
  case 1
  then show ?case by (simp add: join_lines_def ends_cr_def)
next
  case (2 c cs)
  show ?case
  proof (cases "c = CR")
    case True
    show ?thesis
    proof (cases cs)
      case Nil
      with True show ?thesis by (cases t) (auto simp: join_lines_def ends_cr_def)
    next
      case (Cons d ds)
      then have "ends_cr (c # cs) = (if d = LF \<and> ds = [] then False else ends_cr (drop_lf cs))"
        by (auto simp: ends_cr_def)
      moreover have "ends_cr (drop_lf cs) = False" if "d = LF" "ds = []" using that Cons by (simp add: ends_cr_def)
      ultimately have "ends_cr (c # cs) = ends_cr (drop_lf cs)" by auto
      with 2(1) [OF True] True Cons show ?thesis by (auto simp: join_lines_Cons)
    qed
  next
    case False
    have ends: "ends_cr (c # cs) = ends_cr cs" if "cs \<noteq> []" using that by (simp add: ends_cr_def)
    show ?thesis
    proof (cases "c = LF")
      case True
      show ?thesis
      proof (cases "cs = []")
        case nil: True
        with True show ?thesis by (cases "line_split t") (simp_all add: join_lines_def ends_cr_def)
      next
        case more: False
        with 2(2) [OF False True] ends True show ?thesis by (simp add: join_lines_Cons)
      qed
    next
      case other: False
      obtain l ls where l: "line_split cs = l # ls" by (cases "line_split cs") simp_all
      show ?thesis
      proof (cases "cs = []")
        case True
        with False other show ?thesis by (cases "line_split t") (simp_all add: join_lines_def ends_cr_def)
      next
        case more: False
        with 2(3) [OF False other] ends l False other join_lines_first [where c = c and l = l and ls = ls] show ?thesis by simp
      qed
    qed
  qed
qed

lemma accept_lines_append:
  "accept_lines (xs @ ys) st = (fst (accept_lines xs st) @ fst (accept_lines ys (snd (accept_lines xs st))),
     snd (accept_lines ys (snd (accept_lines xs st))))"
  by (induction xs arbitrary: st) (auto split: prod.split option.split)

lemma line_split_single: "length (line_split s) = 1 \<Longrightarrow> line_split s = [s] \<and> CR \<notin> set s"
proof (induction s rule: line_split.induct)
  case (2 c cs)
  then show ?case by (cases "line_split cs") (auto split: if_splits)
qed simp

definition read_text :: "string \<Rightarrow> (string \<times> string) list \<times> event_state" where
  "read_text s = accept_lines (butlast (line_split s)) ([], [])"

definition after :: "string \<Rightarrow> frame_reader \<Rightarrow> bool" where
  \<comment> \<open>the reader has been fed this text, in whatever chunks\<close>
  "after s r \<longleftrightarrow> concat (fr_pending r) = last (line_split s) \<and> fr_state r = snd (read_text s) \<and> fr_skip_lf r = ends_cr s"

lemma join_lines_ends:
  "butlast (join_lines xs ys) = (if tl ys = [] then butlast xs else butlast xs @ (last xs @ hd ys) # butlast (tl ys))"
  "last (join_lines xs ys) = (if tl ys = [] then last xs @ hd ys else last (tl ys))"
  by (auto simp: join_lines_def butlast_append)

lemma feed_after:
  assumes "after s r" and "feed t r = (payloads, r')"
  shows "after (s @ t) r'" and "fst (read_text (s @ t)) = fst (read_text s) @ payloads"
proof -
  define u where "u = (if ends_cr s then drop_lf t else t)"
  have split: "line_split (s @ t) = join_lines (line_split s) (line_split u)"
    by (simp add: line_split_append u_def)
  have pending: "concat (fr_pending r) = last (line_split s)" and st: "fr_state r = snd (read_text s)"
    and skip: "fr_skip_lf r = ends_cr s" using assms(1) by (simp_all add: after_def)
  have pair: "(if fr_skip_lf r \<and> t \<noteq> [] then (drop_lf t, False) else (t, fr_skip_lf r)) = (u, ends_cr s \<and> t = [])"
    unfolding u_def skip by simp
  have feed: "feed t r = (if u = [] then ([], r\<lparr>fr_skip_lf := ends_cr s \<and> t = []\<rparr>)
     else if length (line_split u) = 1 then ([], r\<lparr>fr_pending := fr_pending r @ [u], fr_skip_lf := False\<rparr>)
     else (case accept_lines (butlast (join_lines [last (line_split s)] (line_split u))) (fr_state r) of (p, st) \<Rightarrow>
       (p, \<lparr>fr_pending = (if last (line_split u) = [] then [] else [last (line_split u)]), fr_state = st, fr_skip_lf = (last u = CR)\<rparr>)))"
  proof (cases "length (line_split u) = 1")
    case True
    have "t \<noteq> []" if "u \<noteq> []" using that by (auto simp: u_def split: if_splits)
    with True show ?thesis by (auto simp: feed_def Let_def pair)
  next
    case False
    have lines: "(if fr_pending r = [] then line_split u else (concat (fr_pending r) @ hd (line_split u)) # tl (line_split u)) =
        join_lines [last (line_split s)] (line_split u)"
      using pending by (cases "line_split u") (auto simp: join_lines_def)
    have "tl (line_split u) \<noteq> []" using False by (cases "line_split u") auto
    then have "last (join_lines [last (line_split s)] (line_split u)) = last (line_split u)"
      by (simp add: join_lines_def last_tl)
    moreover have "u \<noteq> []" using False by auto
    ultimately show ?thesis using False by (simp add: feed_def Let_def pair lines)
  qed
  consider "u = []" | "u \<noteq> []" "length (line_split u) = 1" | "u \<noteq> []" "length (line_split u) \<noteq> 1" by blast
  then have "after (s @ t) r' \<and> fst (read_text (s @ t)) = fst (read_text s) @ payloads"
  proof cases
    case 1
    then have "line_split (s @ t) = line_split s" by (simp add: split join_lines_def)
    moreover have "ends_cr (s @ t) = (ends_cr s \<and> t = [])" using 1 by (cases t) (auto simp: u_def ends_cr_def split: if_splits)
    ultimately show ?thesis using assms 1 by (auto simp: feed after_def read_text_def)
  next
    case 2
    with line_split_single have u: "line_split u = [u]" "CR \<notin> set u" by blast+
    have "ends_cr (s @ t) = ends_cr u" using 2 by (cases t) (auto simp: u_def ends_cr_def split: if_splits)
    then have "\<not> ends_cr (s @ t)" using u by (metis ends_cr_def last_in_set)
    with 2 u assms(2) pending st show ?thesis
      by (auto simp: feed after_def read_text_def split join_lines_ends)
  next
    case 3
    then have "tl (line_split u) \<noteq> []" by (cases "line_split u") auto
    moreover from this have "last (tl (line_split u)) = last (line_split u)" by (simp add: last_tl)
    moreover have "ends_cr (s @ t) = (last u = CR)" using 3 by (cases t) (auto simp: u_def ends_cr_def split: if_splits)
    ultimately show ?thesis using 3 assms(2) pending st
      by (auto simp: feed after_def read_text_def split join_lines_ends accept_lines_append split: prod.splits if_splits)
  qed
  then show "after (s @ t) r'" and "fst (read_text (s @ t)) = fst (read_text s) @ payloads" by simp_all
qed

lemma feed_all_after:
  "after s r \<Longrightarrow> feed_all chunks r = (payloads, r') \<Longrightarrow>
     after (s @ concat chunks) r' \<and> fst (read_text (s @ concat chunks)) = fst (read_text s) @ payloads"
proof (induction chunks arbitrary: s r payloads r')
  case (Cons chunk chunks)
  obtain p r1 where feed: "feed chunk r = (p, r1)" by (cases "feed chunk r")
  obtain q where "feed_all chunks r1 = (q, r')" and "payloads = p @ q"
    using Cons.prems(2) feed by (auto split: prod.splits)
  with Cons.IH [OF feed_after(1) [OF Cons.prems(1) feed]] feed_after(2) [OF Cons.prems(1) feed] show ?case by simp
qed simp

lemma finish_frames_cong:
  "concat (fr_pending r) = concat (fr_pending r') \<Longrightarrow> fr_state r = fr_state r' \<Longrightarrow> finish_frames strict r = finish_frames strict r'"
  by (simp add: finish_frames_def)

lemma chunks_irrelevant: "iter_frames strict chunks = text_frames strict (concat chunks)"
proof -
  have start: "after [] new_reader" by (simp add: after_def new_reader_def read_text_def ends_cr_def)
  obtain payloads r where feed: "feed_all chunks new_reader = (payloads, r)" by (cases "feed_all chunks new_reader")
  from feed_all_after [OF start feed] have "after (concat chunks) r"
    and "fst (read_text (concat chunks)) = payloads" by (simp_all add: read_text_def)
  then show ?thesis
    by (auto simp: iter_frames_def feed text_frames_def after_def read_text_def intro!: finish_frames_cong split: prod.split)
qed

text \<open>
  Claim C6. However the body of an event stream is cut into chunks, the client sees the frames of
  its text: a line end split between two chunks counts once, and a line split over chunks is one.
\<close>

theorem chunks_do_not_matter: "iter_frames strict chunks = text_frames strict (concat chunks)"
  by (rule chunks_irrelevant)

section \<open>Frames survive the wire\<close>

text \<open>A stream of frames as a server writes it: an \<open>event\<close> line unless the name is empty, one \<open>data\<close>
  line per line of the payload, an empty line. All three line ends are allowed.\<close>

definition frame_lines :: "string \<times> string \<Rightarrow> string list" where
  "frame_lines frame =
     (case frame of (name, payload) \<Rightarrow>
        (if name = [] then [] else [''event: '' @ name]) @ map (\<lambda>l. ''data: '' @ l) (split_on LF payload) @ [[]])"

definition wire :: "string \<Rightarrow> (string \<times> string) list \<Rightarrow> string" where
  "wire eol frames = concat (map (\<lambda>l. l @ eol) (concat (map frame_lines frames)))"

definition plain :: "string \<Rightarrow> bool" where
  "plain s = (CR \<notin> set s \<and> LF \<notin> set s)"

definition printable :: "string \<times> string \<Rightarrow> bool" where
  "printable frame = (plain (fst frame) \<and> CR \<notin> set (snd frame))"

lemma line_split_plain:
  "plain l \<Longrightarrow> line_split (l @ s) = (l @ hd (line_split s)) # tl (line_split s)"
  by (induction l) (auto simp: plain_def split: list.split)

lemma line_split_line:
  assumes "plain l" and "eol \<in> {[CR], [LF], [CR, LF]}" and "eol = [CR] \<Longrightarrow> drop_lf s = s"
  shows "line_split (l @ eol @ s) = l # line_split s"
  using assms by (auto simp: line_split_plain)

lemma drop_lf_lines: "list_all plain ls \<Longrightarrow> drop_lf (concat (map (\<lambda>l. l @ [CR]) ls)) = concat (map (\<lambda>l. l @ [CR]) ls)"
proof (cases ls)
  case (Cons l rest)
  moreover assume "list_all plain ls"
  ultimately show ?thesis by (cases l) (auto simp: plain_def)
qed simp

lemma line_split_lines:
  "list_all plain ls \<Longrightarrow> eol \<in> {[CR], [LF], [CR, LF]} \<Longrightarrow> line_split (concat (map (\<lambda>l. l @ eol) ls)) = ls @ [[]]"
proof (induction ls)
  case (Cons l ls)
  then show ?case using line_split_line [of l eol "concat (map (\<lambda>l. l @ eol) ls)"] drop_lf_lines [of ls] by auto
qed simp

lemma accept_data [simp]: "accept_line (''data: '' @ l) (data, event) = (None, data @ [l], event)"
  by (simp add: accept_line_def starts_with_def)

lemma accept_event [simp]: "accept_line (''event: '' @ name) (data, event) = (None, data, name)"
  by (simp add: accept_line_def starts_with_def)

lemma accept_datas: "accept_lines (map (\<lambda>l. ''data: '' @ l) ls) (data, event) = ([], data @ ls, event)"
  by (induction ls arbitrary: data) (simp_all del: append_Cons append_Nil)

lemma accept_frame: "accept_lines (frame_lines frame) ([], []) = ([frame], [], [])"
proof (cases frame)
  case (Pair name payload)
  have "accept_lines (map (\<lambda>l. ''data: '' @ l) (split_on LF payload) @ [[]]) ([], name) = ([(name, payload)], [], [])"
    by (simp add: accept_lines_append accept_datas accept_line_def join_split del: append_Cons)
  then show ?thesis
    by (cases "name = []") (simp_all add: Pair frame_lines_def accept_lines_append [of "[_]"] del: append_Cons)
qed

lemma accept_frames: "accept_lines (concat (map frame_lines frames)) ([], []) = (frames, [], [])"
  by (induction frames) (simp_all add: accept_lines_append accept_frame)

lemma split_on_parts: "list_all (\<lambda>p. c \<notin> set p \<and> set p \<subseteq> set s) (split_on c s)"
proof (induction s)
  case (Cons d s)
  then show ?case by (cases "split_on c s") (auto simp: list_all_iff)
qed simp

lemma plain_frame_lines: "printable frame \<Longrightarrow> list_all plain (frame_lines frame)"
  using split_on_parts [of LF "snd frame"]
  by (cases frame) (auto simp: frame_lines_def printable_def plain_def list_all_iff)

lemma plain_lines: "list_all printable frames \<Longrightarrow> list_all plain (concat (map frame_lines frames))"
  using plain_frame_lines by (induction frames) (simp_all add: list_all_append)

text \<open>
  Claim C22. Frames written to an event stream, with any of the three line ends and cut into any
  chunks, are the frames the client reads.
\<close>

theorem frames_roundtrip:
  assumes "list_all printable frames" and "eol \<in> {[CR], [LF], [CR, LF]}" and "concat chunks = wire eol frames"
  shows "iter_frames strict chunks = frames"
  using line_split_lines [OF plain_lines [OF assms(1)] assms(2)] assms(3)
  by (simp add: chunks_irrelevant text_frames_def wire_def accept_frames finish_frames_def)

theorem frames_roundtrip_witness:
  "iter_frames True [''event: a'' @ [CR], [LF] @ ''data: x'' @ [CR, LF], ''data: y'' @ [CR, LF, CR], [LF]] = [(''a'', ''x'' @ [LF] @ ''y'')]"
  by (rule frames_roundtrip [where eol = "[CR, LF]"]) code_simp+

end
