(* ===== verification/Sse_Client.thy ===== *)
theory Sse_Client
  imports Sse_Frames Codegen_Selection Ws_Errors
begin

text \<open>
  The transport of the generated Python clients for event streams
  (\<open>fastapi_canon/integrations/sse/codegen/templates/python/runtime.py\<close>) and the problems it raises
  (\<open>fastapi_canon/codegen/templates/problem.py\<close>): request values, the answer to a request, the
  frames of a stream and how it ends. The HTTP library, JSON parsing and pydantic's validation of
  events are parameters; the frames are those of \<open>Sse_Frames\<close>.
\<close>

section \<open>Problems (problem.py)\<close>

text \<open>A \<open>Problem\<close> is the members of its JSON object; pydantic keeps the unknown ones.\<close>

record client_problem =
  cp_type :: string
  cp_status :: "int option"
  cp_members :: "(pyval \<times> pyval) list"

datatype problem_defect = Validation_defect | Protocol_defect string

definition optional_text :: "pyval option \<Rightarrow> bool" where
  "optional_text v = (case v of None \<Rightarrow> True | Some PNone \<Rightarrow> True | Some (PStr _) \<Rightarrow> True | _ \<Rightarrow> False)"

definition problem_validate :: "pyval \<Rightarrow> (problem_defect, client_problem) result" where
  \<comment> \<open>\<open>Problem.model_validate\<close>\<close>
  "problem_validate v =
     (case v of
        PDict d \<Rightarrow>
          (case (member d ''type'', member d ''title'', member d ''code'') of
             (Some (PStr t), Some (PStr _), Some (PStr _)) \<Rightarrow>
               if \<not> optional_text (member d ''detail'') \<or> \<not> optional_text (member d ''instance'') then Inl Validation_defect
               else (case member d ''status'' of
                       None \<Rightarrow> Inr \<lparr>cp_type = t, cp_status = None, cp_members = d\<rparr>
                     | Some PNone \<Rightarrow> Inr \<lparr>cp_type = t, cp_status = None, cp_members = d\<rparr>
                     | Some (PInt i) \<Rightarrow> Inr \<lparr>cp_type = t, cp_status = Some i, cp_members = d\<rparr>
                     | _ \<Rightarrow> Inl Validation_defect)
           | _ \<Rightarrow> Inl Validation_defect)
      | _ \<Rightarrow> Inl Validation_defect)"

definition parse_problem :: "bool \<Rightarrow> pyval \<Rightarrow> (problem_defect, client_problem) result" where
  "parse_problem embedded v =
     rbind (problem_validate v) (\<lambda>problem.
     rbind (ensure (\<not> list_ex (\<lambda>key. member (cp_members problem) key = Some PNone) [''status'', ''detail'', ''instance''])
              (Protocol_defect ''Absent standard problem members must be omitted'')) (\<lambda>_.
     rbind (ensure (\<not> (embedded \<and> member (cp_members problem) ''status'' \<noteq> None))
              (Protocol_defect ''An embedded problem must omit HTTP status'')) (\<lambda>_.
     rbind (ensure (case cp_status problem of None \<Rightarrow> True | Some i \<Rightarrow> 100 \<le> i \<and> i \<le> 599)
              (Protocol_defect ''Invalid HTTP problem status'')) (\<lambda>_.
     Inr problem))))"

section \<open>Request values\<close>

datatype client_error =
    Transport_failure string
  | Protocol_failure string
  | Raised_problem client_problem
  | Typed_problem pyval
  | Http_failure int pyval
  | Stream_parse_failure string bool
  | Client_value_error string
  | Client_type_error string

datatype param_scalar = Scalar_text string | Scalar_int int | Scalar_float string | Scalar_bool bool | Scalar_null

datatype param_value = One_value param_scalar | Many_values "param_scalar list"

definition scalar :: "param_scalar \<Rightarrow> string" where
  \<comment> \<open>a float carries its text\<close>
  "scalar v =
     (case v of
        Scalar_null \<Rightarrow> ''null''
      | Scalar_bool b \<Rightarrow> if b then ''true'' else ''false''
      | Scalar_text s \<Rightarrow> s
      | Scalar_int i \<Rightarrow> str_of_int i
      | Scalar_float s \<Rightarrow> s)"

definition unreserved :: "char \<Rightarrow> bool" where
  "unreserved c = (is_alpha c \<or> is_digit c \<or> c \<in> set ''_.-~'')"

definition hex_digit :: "nat \<Rightarrow> char" where
  "hex_digit n = char_of (if n < 10 then 48 + n else 55 + n)"

definition quote :: "string \<Rightarrow> string" where
  \<comment> \<open>\<open>urllib.parse.quote(text, safe="")\<close>\<close>
  "quote s = concat (map (\<lambda>c. if unreserved c then [c]
     else [CHR ''%'', hex_digit (ord_of c div 16), hex_digit (ord_of c mod 16)]) s)"

definition encode_path :: "param_scalar \<Rightarrow> (client_error, string) result" where
  "encode_path v =
     (if scalar v \<in> {''.'', ''..''} then Inl (Client_value_error ''Path parameters cannot be dot segments'')
      else Inr (quote (scalar v)))"

definition append_query ::
    "string \<Rightarrow> param_value option \<Rightarrow> bool \<Rightarrow> bool \<Rightarrow> (string \<times> string) list \<Rightarrow> (client_error, (string \<times> string) list) result" where
  "append_query name v explode required query =
     (case v of
        None \<Rightarrow> if required then Inl (Client_type_error ''Required query parameter cannot be None'') else Inr query
      | Some (Many_values xs) \<Rightarrow>
          Inr (query @ (if explode then map (\<lambda>x. (name, scalar x)) xs else [(name, join_with '','' (map scalar xs))]))
      | Some (One_value x) \<Rightarrow> Inr (query @ [(name, scalar x)]))"

definition set_header ::
    "string \<Rightarrow> param_scalar option \<Rightarrow> bool \<Rightarrow> (string \<times> string) list \<Rightarrow> (client_error, (string \<times> string) list) result" where
  "set_header name v required headers =
     (case v of
        None \<Rightarrow> if required then Inl (Client_type_error ''Required header parameter cannot be None'') else Inr headers
      | Some x \<Rightarrow> Inr (dict_set name (scalar x) headers))"

section \<open>The frames of a stream\<close>

text \<open>\<open>sa_json\<close> parses JSON text; \<open>sa_event\<close> validates an event, the flag of a failure says that it is
  no JSON; \<open>sa_schema\<close> is the schema of the event type; \<open>sa_problems\<close> validate the declared
  problems of the operation, by their type.\<close>

record 'a stream_api =
  sa_json :: "string \<Rightarrow> pyval option"
  sa_event :: "string \<Rightarrow> (bool, 'a) result"
  sa_schema :: "(pyval \<times> pyval) list"
  sa_problems :: "(string \<times> (pyval \<Rightarrow> pyval option)) list"

definition unknown_event_policy :: "(pyval \<times> pyval) list \<Rightarrow> (client_error, string \<times> string list) result" where
  "unknown_event_policy schema =
     (let policy = (case member schema ''discriminator'' of Some (PDict d) \<Rightarrow> d | _ \<Rightarrow> []);
          known = (case member policy ''mapping'' of Some (PDict d) \<Rightarrow> List.map_filter (\<lambda>(k, _). case k of PStr s \<Rightarrow> Some s | _ \<Rightarrow> None) d | _ \<Rightarrow> [])
      in case member policy ''propertyName'' of
           Some (PStr name) \<Rightarrow>
             if known = [] then Inl (Client_value_error ''requires a top-level discriminated event union'') else Inr (name, known)
         | _ \<Rightarrow> Inl (Client_value_error ''requires a top-level discriminated event union''))"

datatype 'a frame_result = Yielded 'a | Ignored_event | Stream_finished | Frame_error client_error

definition problem_frame :: "'a stream_api \<Rightarrow> string \<Rightarrow> client_error" where
  \<comment> \<open>\<open>canon.problem\<close>\<close>
  "problem_frame api payload =
     (case sa_json api payload of
        None \<Rightarrow> Protocol_failure ''Invalid canon.problem event''
      | Some v \<Rightarrow>
          (case parse_problem True v of
             Inl Validation_defect \<Rightarrow> Protocol_failure ''Invalid canon.problem event''
           | Inl (Protocol_defect m) \<Rightarrow> Protocol_failure m
           | Inr problem \<Rightarrow>
               (case dict_get (sa_problems api) (cp_type problem) of
                  None \<Rightarrow> Raised_problem problem
                | Some check \<Rightarrow>
                    (case check v of
                       None \<Rightarrow> Protocol_failure ''Invalid declared stream problem''
                     | Some typed \<Rightarrow> Typed_problem typed))))"

definition read_frame :: "'a stream_api \<Rightarrow> bool \<Rightarrow> (string \<times> string list) option \<Rightarrow> string \<times> string \<Rightarrow> 'a frame_result" where
  "read_frame api canon policy frame =
     (case frame of (event, payload) \<Rightarrow>
        if canon \<and> starts_with ''canon.'' event then
          (if event = ''canon.complete'' then
             (if sa_json api payload = Some (PDict []) then Stream_finished
              else Frame_error (Protocol_failure ''Invalid canon.complete event''))
           else if event = ''canon.problem'' then Frame_error (problem_frame api payload)
           else Frame_error (Protocol_failure ''Unknown Canon control event''))
        else
          (case sa_event api payload of
             Inr x \<Rightarrow> Yielded x
           | Inl no_json \<Rightarrow>
               (case (policy, sa_json api payload) of
                  (Some (name, known), Some (PDict d)) \<Rightarrow>
                    (case member d name of
                       Some (PStr tag) \<Rightarrow>
                         if tag \<notin> set known then Ignored_event else Frame_error (Stream_parse_failure payload no_json)
                     | _ \<Rightarrow> Frame_error (Stream_parse_failure payload no_json))
                | _ \<Rightarrow> Frame_error (Stream_parse_failure payload no_json))))"

datatype stream_end = Stream_ended | Stream_raised client_error

fun read_frames ::
    "'a stream_api \<Rightarrow> bool \<Rightarrow> (string \<times> string list) option \<Rightarrow> stream_end \<Rightarrow> (string \<times> string) list \<Rightarrow> 'a list \<times> stream_end" where
  \<comment> \<open>the loop over the frames; \<open>closing\<close> is how the stream ends when they run out\<close>
  "read_frames api canon policy closing [] = ([], closing)"
| "read_frames api canon policy closing (frame # frames) =
     (case read_frame api canon policy frame of
        Stream_finished \<Rightarrow> ([], Stream_ended)
      | Frame_error e \<Rightarrow> ([], Stream_raised e)
      | Ignored_event \<Rightarrow> read_frames api canon policy closing frames
      | Yielded x \<Rightarrow> (case read_frames api canon policy closing frames of (xs, end) \<Rightarrow> (x # xs, end)))"

section \<open>The answer to a request\<close>

text \<open>How a body ends: completely, with an error of the HTTP library, or with text that is no UTF-8.
  \<open>ra_body\<close> are the chunks: decoded text of a stream, raw bytes of a failure.\<close>

datatype body_end = Body_complete | Body_http_error | Body_bad_utf8

record raw_answer =
  ra_status :: int
  ra_content_type :: string
  ra_body :: "string list"
  ra_end :: body_end

definition media_type :: "string \<Rightarrow> string" where
  \<comment> \<open>\<open>header.split(";", 1)[0].strip().lower()\<close>\<close>
  "media_type header =
     str_lower (rev (dropWhile is_space (rev (dropWhile is_space (hd (split_on CHR '';'' header))))))"

fun read_limited :: "string \<Rightarrow> string list \<Rightarrow> string" where
  "read_limited raw [] = raw"
| "read_limited raw (chunk # chunks) =
     (let raw1 = raw @ take (65536 - length raw) chunk
      in if 65536 \<le> length raw1 then raw1 else read_limited raw1 chunks)"

definition http_failure :: "'a stream_api \<Rightarrow> (string \<Rightarrow> string) \<Rightarrow> raw_answer \<Rightarrow> client_error" where
  \<comment> \<open>\<open>decode\<close>: \<open>raw.decode("utf-8", errors="replace")\<close>\<close>
  "http_failure api decode a =
     (let text = decode (read_limited [] (ra_body a));
          details = (if text = [] then PNone else (case sa_json api text of Some v \<Rightarrow> v | None \<Rightarrow> PStr text))
      in if media_type (ra_content_type a) = ''application/problem+json'' then
           (case parse_problem False details of
              Inl _ \<Rightarrow> Protocol_failure ''Invalid HTTP problem response''
            | Inr problem \<Rightarrow>
                if cp_status problem \<noteq> None \<and> cp_status problem \<noteq> Some (ra_status a)
                then Protocol_failure ''Problem status differs from HTTP response''
                else Raised_problem problem)
         else Http_failure (ra_status a) details)"

definition stream_frames :: "bool \<Rightarrow> raw_answer \<Rightarrow> (string \<times> string) list" where
  "stream_frames canon a =
     (if ra_end a = Body_complete then iter_frames canon (ra_body a) else fst (feed_all (ra_body a) new_reader))"

definition stream_closing :: "bool \<Rightarrow> body_end \<Rightarrow> stream_end" where
  "stream_closing canon e =
     (case e of
        Body_complete \<Rightarrow>
          if canon then Stream_raised (Transport_failure ''SSE connection ended without canon.complete'') else Stream_ended
      | Body_http_error \<Rightarrow> Stream_raised (Transport_failure ''SSE HTTP transport failed'')
      | Body_bad_utf8 \<Rightarrow> Stream_raised (Transport_failure ''Invalid UTF-8 in SSE stream''))"

definition stream_answer ::
    "'a stream_api \<Rightarrow> (string \<Rightarrow> string) \<Rightarrow> bool \<Rightarrow> string option \<Rightarrow> raw_answer option \<Rightarrow> 'a list \<times> stream_end" where
  \<comment> \<open>\<open>Transport.stream\<close>; no answer when the request failed\<close>
  "stream_answer api decode canon unknown_events answer =
     (if unknown_events \<notin> {None, Some ''error'', Some ''ignore''}
      then ([], Stream_raised (Client_value_error ''unknown_events must be error or ignore''))
      else
        (case (if unknown_events = Some ''ignore'' then map_sum id Some (unknown_event_policy (sa_schema api)) else Inr None) of
           Inl e \<Rightarrow> ([], Stream_raised e)
         | Inr policy \<Rightarrow>
             (case answer of
                None \<Rightarrow> ([], Stream_raised (Transport_failure ''SSE HTTP transport failed''))
              | Some a \<Rightarrow>
                  if \<not> (200 \<le> ra_status a \<and> ra_status a \<le> 299) then ([], Stream_raised (http_failure api decode a))
                  else if media_type (ra_content_type a) \<noteq> ''text/event-stream''
                  then ([], Stream_raised (Transport_failure ''Expected text/event-stream''))
                  else read_frames api canon policy (stream_closing canon (ra_end a)) (stream_frames canon a))))"

section \<open>Path values survive the URL\<close>

lemma ord_hex_digit: "n < 16 \<Longrightarrow> ord_of (hex_digit n) = (if n < 10 then 48 + n else 55 + n)"
  by (simp add: ord_of_def hex_digit_def)

lemma hex_value_digit: "n < 16 \<Longrightarrow> hex_value (hex_digit n) = Some n"
  by (auto simp: hex_value_def is_digit_def ord_hex_digit Let_def)

lemma ord_less [simp]: "ord_of c < 256"
  by (simp add: ord_of_def)

lemma char_of_ord [simp]: "char_of (ord_of c) = c"
  by (simp add: ord_of_def)

lemma ord_split: "16 * (ord_of c div 16) + ord_of c mod 16 = ord_of c"
  by simp

lemma unquote_other: "c \<noteq> CHR ''%'' \<Longrightarrow> unquote (c # s) = c # unquote s"
  by (cases s; cases "tl s") auto

lemma unreserved_percent [simp]: "unreserved c \<Longrightarrow> c \<noteq> CHR ''%''"
  by (auto simp: unreserved_def is_alpha_def is_lower_def is_upper_def is_digit_def Let_def ord_of_def)

lemma unquote_quote: "unquote (quote s) = s"
proof (induction s)
  case (Cons c s)
  have "ord_of c div 16 < 16" by (simp add: div_less_iff_less_mult)
  then have "hex_value (hex_digit (ord_of c div 16)) = Some (ord_of c div 16)"
    and "hex_value (hex_digit (ord_of c mod 16)) = Some (ord_of c mod 16)" by (simp_all add: hex_value_digit)
  with Cons show ?case
    by (cases "unreserved c") (simp_all add: quote_def unquote_other ord_split)
qed (simp add: quote_def)

lemma hex_digit_unreserved: "n < 16 \<Longrightarrow> unreserved (hex_digit n)"
  by (auto simp: unreserved_def is_alpha_def is_upper_def is_digit_def ord_hex_digit Let_def)

lemma quote_chars: "list_all (\<lambda>c. unreserved c \<or> c = CHR ''%'') (quote s)"
proof (induction s)
  case (Cons c s)
  have "ord_of c div 16 < 16" by (simp add: div_less_iff_less_mult)
  with Cons show ?case by (auto simp: quote_def hex_digit_unreserved)
qed (simp add: quote_def)

lemma quote_dots: "quote s \<in> {''.'', ''..''} \<Longrightarrow> s = quote s"
  using unquote_quote [of s] by auto

text \<open>
  A path value is encoded into one segment: the server that decodes it reads the value,
  the segment has no separator, query or fragment character, and is no dot segment.
\<close>

theorem encode_path_roundtrip:
  assumes "encode_path v = Inr segment"
  shows "unquote segment = scalar v \<and> segment \<notin> {''.'', ''..''} \<and> list_all (\<lambda>c. unreserved c \<or> c = CHR ''%'') segment"
proof -
  from assms have "segment = quote (scalar v)" and "scalar v \<notin> {''.'', ''..''}"
    by (auto simp: encode_path_def split: if_splits)
  with quote_dots [of "scalar v"] show ?thesis by (auto simp: unquote_quote quote_chars)
qed

theorem encode_path_roundtrip_witness:
  "\<exists>segment. encode_path (Scalar_text ''a/b c?'') = Inr segment \<and> unquote segment = ''a/b c?''"
proof -
  have "encode_path (Scalar_text ''a/b c?'') = Inr ''a%2Fb%20c%3F''" by code_simp
  from encode_path_roundtrip [OF this] this show ?thesis by (auto simp: scalar_def)
qed

section \<open>How a stream ends\<close>

lemma finish_strict [simp]: "finish_frames True r = []"
  by (simp add: finish_frames_def split: prod.split)

lemma text_frames_strict: "text_frames True s = fst (read_text s)"
  by (simp add: text_frames_def read_text_def split: prod.split)

lemma feed_all_text: "fst (feed_all chunks new_reader) = fst (read_text (concat chunks))"
proof -
  have start: "after [] new_reader" by (simp add: after_def new_reader_def read_text_def ends_cr_def)
  obtain payloads r where "feed_all chunks new_reader = (payloads, r)" by (cases "feed_all chunks new_reader")
  with feed_all_after [OF start this] show ?thesis by (simp add: read_text_def)
qed

lemma stream_frames_text:
  "stream_frames canon a =
     (if ra_end a = Body_complete then text_frames canon (concat (ra_body a)) else text_frames True (concat (ra_body a)))"
  by (simp add: stream_frames_def chunks_irrelevant feed_all_text text_frames_strict)

lemma read_limited_take: "length raw < 65536 \<Longrightarrow> read_limited raw chunks = take 65536 (raw @ concat chunks)"
proof (induction chunks arbitrary: raw)
  case (Cons chunk chunks)
  show ?case
  proof (cases "65536 \<le> length (raw @ take (65536 - length raw) chunk)")
    case True
    with Cons.prems show ?thesis by (simp add: Let_def)
  next
    case False
    with Cons.IH [of "raw @ take (65536 - length raw) chunk"] show ?thesis by (simp add: Let_def)
  qed
qed simp

text \<open>
  What a client gets of an answer depends on its body as a whole, not on the chunks it
  arrives in; of the body of a failure it reads at most 64 KiB.
\<close>

theorem answers_not_chunks:
  assumes "concat (ra_body a) = concat body"
  shows "stream_answer api decode canon unknown (Some a) = stream_answer api decode canon unknown (Some (a\<lparr>ra_body := body\<rparr>)) \<and>
    length (read_limited [] body) \<le> 65536"
proof -
  have fields: "ra_status (a\<lparr>ra_body := body\<rparr>) = ra_status a" "ra_content_type (a\<lparr>ra_body := body\<rparr>) = ra_content_type a"
    "ra_end (a\<lparr>ra_body := body\<rparr>) = ra_end a" "ra_body (a\<lparr>ra_body := body\<rparr>) = body" by simp_all
  have "http_failure api decode (a\<lparr>ra_body := body\<rparr>) = http_failure api decode a"
    unfolding http_failure_def fields by (simp only: read_limited_take [of "[]"] assms list.size(3) append_Nil zero_less_numeral)
  moreover have "stream_frames canon (a\<lparr>ra_body := body\<rparr>) = stream_frames canon a"
    using assms by (simp add: stream_frames_text)
  ultimately have "stream_answer api decode canon unknown (Some (a\<lparr>ra_body := body\<rparr>)) = stream_answer api decode canon unknown (Some a)"
    unfolding stream_answer_def option.case fields by (simp only:)
  then show ?thesis by (simp add: read_limited_take)
qed

theorem answers_not_chunks_witness:
  "stream_answer \<lparr>sa_json = \<lambda>_. None, sa_event = \<lambda>s. Inr s, sa_schema = [], sa_problems = []\<rparr> id False None
     (Some \<lparr>ra_status = 200, ra_content_type = ''text/event-stream'', ra_body = [[CR], [LF, CR]], ra_end = Body_complete\<rparr>) =
   stream_answer \<lparr>sa_json = \<lambda>_. None, sa_event = \<lambda>s. Inr s, sa_schema = [], sa_problems = []\<rparr> id False None
     (Some \<lparr>ra_status = 200, ra_content_type = ''text/event-stream'', ra_body = [[CR, LF, CR]], ra_end = Body_complete\<rparr>)"
  using answers_not_chunks
    [of "\<lparr>ra_status = 200, ra_content_type = ''text/event-stream'', ra_body = [[CR], [LF, CR]], ra_end = Body_complete\<rparr>"
       "[[CR, LF, CR]]"] by simp

definition event_of :: "'a stream_api \<Rightarrow> string \<times> string \<Rightarrow> 'a option" where
  "event_of api frame = (case sa_event api (snd frame) of Inr x \<Rightarrow> Some x | Inl _ \<Rightarrow> None)"

lemma read_frames_ended:
  assumes "read_frames api True policy (Stream_raised e) frames = (xs, Stream_ended)"
  shows "\<exists>pre payload post. frames = pre @ (''canon.complete'', payload) # post \<and> sa_json api payload = Some (PDict []) \<and>
    list_all (\<lambda>f. \<not> starts_with ''canon.'' (fst f)) pre \<and> xs = List.map_filter (event_of api) pre"
  using assms
proof (induction frames arbitrary: xs)
  case (Cons frame frames)
  show ?case
  proof (cases "read_frame api True policy frame")
    case (Yielded x)
    then obtain ys where ys: "read_frames api True policy (Stream_raised e) frames = (ys, Stream_ended)" and xs: "xs = x # ys"
      using Cons.prems by (auto split: prod.splits)
    from Cons.IH [OF ys] obtain pre payload post where
      pre: "frames = pre @ (''canon.complete'', payload) # post" "sa_json api payload = Some (PDict [])"
        "list_all (\<lambda>f. \<not> starts_with ''canon.'' (fst f)) pre" "ys = List.map_filter (event_of api) pre" by blast
    have "event_of api frame = Some x" and "\<not> starts_with ''canon.'' (fst frame)"
      using Yielded by (auto simp: read_frame_def event_of_def split: if_splits prod.splits sum.splits option.splits pyval.splits)
    with pre xs show ?thesis
      by (intro exI [of _ "frame # pre"] exI [of _ payload] exI [of _ post]) (simp add: List.map_filter_simps)
  next
    case Ignored_event
    then have "read_frames api True policy (Stream_raised e) frames = (xs, Stream_ended)" using Cons.prems by simp
    from Cons.IH [OF this] obtain pre payload post where
      pre: "frames = pre @ (''canon.complete'', payload) # post" "sa_json api payload = Some (PDict [])"
        "list_all (\<lambda>f. \<not> starts_with ''canon.'' (fst f)) pre" "xs = List.map_filter (event_of api) pre" by blast
    have "event_of api frame = None" and "\<not> starts_with ''canon.'' (fst frame)"
      using Ignored_event by (auto simp: read_frame_def event_of_def split: if_splits prod.splits sum.splits option.splits pyval.splits)
    with pre show ?thesis
      by (intro exI [of _ "frame # pre"] exI [of _ payload] exI [of _ post]) (simp add: List.map_filter_simps)
  next
    case Stream_finished
    then have "fst frame = ''canon.complete''" and "sa_json api (snd frame) = Some (PDict [])" and "xs = []"
      using Cons.prems by (auto simp: read_frame_def split: if_splits prod.splits sum.splits option.splits pyval.splits)
    then show ?thesis
      by (intro exI [of _ "[]"] exI [of _ "snd frame"] exI [of _ frames]) (simp add: prod_eq_iff List.map_filter_simps)
  next
    case (Frame_error e')
    then show ?thesis using Cons.prems by simp
  qed
qed simp

text \<open>
  Claim C4. A Canon stream never ends early unnoticed: the client's iteration ends without an
  error only when the body holds a complete \<open>canon.complete\<close> frame, with the empty object, and the
  events it yielded are all events before that frame. A body cut off anywhere before it raises.
\<close>

theorem canon_stream_complete:
  assumes "stream_answer api decode True unknown (Some a) = (xs, Stream_ended)"
  shows "\<exists>pre payload post. text_frames True (concat (ra_body a)) = pre @ (''canon.complete'', payload) # post \<and>
    sa_json api payload = Some (PDict []) \<and> list_all (\<lambda>f. \<not> starts_with ''canon.'' (fst f)) pre \<and>
    xs = List.map_filter (event_of api) pre"
proof -
  have "stream_frames True a = text_frames True (concat (ra_body a))" by (simp add: stream_frames_text)
  moreover obtain e where "stream_closing True (ra_end a) = Stream_raised e"
    by (cases "ra_end a") (simp_all add: stream_closing_def)
  ultimately obtain policy where
    "read_frames api True policy (Stream_raised e) (text_frames True (concat (ra_body a))) = (xs, Stream_ended)"
    using assms by (auto simp: stream_answer_def split: if_splits sum.splits)
  then show ?thesis by (rule read_frames_ended)
qed

definition echo_api :: "string stream_api" where
  "echo_api = \<lparr>sa_json = \<lambda>s. if s = ''{}'' then Some (PDict []) else None, sa_event = \<lambda>s. Inr s, sa_schema = [], sa_problems = []\<rparr>"

definition echo_answer :: raw_answer where
  "echo_answer = \<lparr>ra_status = 200, ra_content_type = ''text/event-stream; charset=utf-8'',
     ra_body = [''data: a'' @ [LF], [LF] @ ''event: canon.complete'' @ [CR], [LF] @ ''data: {}'' @ [LF, LF]],
     ra_end = Body_http_error\<rparr>"

theorem canon_stream_complete_witness:
  "\<exists>pre payload post. text_frames True (concat (ra_body echo_answer)) = pre @ (''canon.complete'', payload) # post \<and>
     List.map_filter (event_of echo_api) pre = [''a'']"
proof -
  have "stream_answer echo_api id True None (Some echo_answer) = ([''a''], Stream_ended)" by code_simp
  from canon_stream_complete [OF this] show ?thesis by metis
qed

end
