(* ===== verification/Http_Client.thy ===== *)
theory Http_Client
  imports Sse_Client
begin

text \<open>
  The HTTP operations of the generated Python clients
  (\<open>fastapi_canon/codegen/templates/client.py\<close>): \<open>Runtime.prepare\<close>, which turns the arguments of an
  operation into a request, and \<open>Runtime.request\<close>, which turns the response into a result or an
  error. Validation by pydantic, JSON text and the transfer itself are parameters; the quoting of
  path values and the problems are those of \<open>Sse_Client\<close>.
\<close>

section \<open>Requests\<close>

datatype param_location = In_path | In_query | In_header | In_body | In_form | In_file

record http_parameter =
  hp_wire :: string
  hp_location :: param_location
  hp_required :: bool
  hp_array :: bool

record http_spec =
  hs_path :: string
  hs_method :: string
  hs_parameters :: "http_parameter list"
  hs_media :: string
  hs_statuses :: "string list"
  hs_bodyless :: "string list"
  hs_binary :: "string list"

record upload =
  up_filename :: string
  up_content :: string
  up_type :: string

text \<open>An argument: not given, a plain value (\<open>None\<close> is \<open>Plain PNone\<close>), bytes, an upload, or a list
  with uploads.\<close>

datatype http_value = Unset | Plain pyval | Raw_bytes string | File_upload upload | Mixed_list "http_value list"

datatype part = File_part upload | Form_part string

datatype request_body = Bytes_body string | Json_body pyval

datatype request_payload = Multipart_files "(string \<times> part) list" | Content "string option"

record prepared =
  rp_path :: string
  rp_query :: "(string \<times> string) list"
  rp_headers :: "(string \<times> string) list"
  rp_body :: "request_body option"
  rp_parts :: "(string \<times> part) list"

datatype http_error =
    Http_value_error string
  | Http_type_error string
  | Http_validation_error string
  | Http_client_error client_error
  | Http_closed

text \<open>\<open>ha_validate\<close>: the type of a parameter; \<open>ha_dump\<close>: the JSON form of a value; \<open>ha_write\<close>:
  \<open>json.dumps\<close>, None for NaN and infinities; \<open>ha_float\<close>: the text of a float.\<close>

record http_api =
  ha_validate :: "string \<Rightarrow> http_value \<Rightarrow> pyval option"
  ha_dump :: "pyval \<Rightarrow> pyval"
  ha_write :: "pyval \<Rightarrow> string option"
  ha_float :: "pyfloat \<Rightarrow> string"

definition http_scalar :: "http_api \<Rightarrow> pyval \<Rightarrow> (http_error, string) result" where
  \<comment> \<open>\<open>_scalar\<close>\<close>
  "http_scalar api v =
     (case v of
        PBool b \<Rightarrow> Inr (if b then ''true'' else ''false'')
      | PStr s \<Rightarrow> Inr s
      | PInt i \<Rightarrow> Inr (str_of_int i)
      | PFloat f \<Rightarrow> Inr (ha_float api f)
      | _ \<Rightarrow> Inl (Http_value_error ''HTTP parameters require scalar values or arrays of scalars''))"

definition validated :: "http_api \<Rightarrow> string \<Rightarrow> http_value \<Rightarrow> (http_error, pyval) result" where
  "validated api name v = (case ha_validate api name v of None \<Rightarrow> Inl (Http_validation_error name) | Some w \<Rightarrow> Inr w)"

definition is_listed :: "http_value \<Rightarrow> bool" where
  "is_listed v = (case v of Plain (PList _) \<Rightarrow> True | Mixed_list _ \<Rightarrow> True | _ \<Rightarrow> False)"

definition upload_items :: "bool \<Rightarrow> http_value \<Rightarrow> http_value list" where
  "upload_items array v =
     (if \<not> array then [v] else (case v of Mixed_list xs \<Rightarrow> xs | Plain (PList ys) \<Rightarrow> map Plain ys | _ \<Rightarrow> []))"

definition form_items :: "bool \<Rightarrow> pyval \<Rightarrow> (http_error, pyval list) result" where
  \<comment> \<open>the validated value of an array type is a list\<close>
  "form_items array v =
     (if \<not> array then Inr [v]
      else (case v of PList xs \<Rightarrow> Inr xs | _ \<Rightarrow> Inl (Http_type_error ''not a list'')))"

definition add_part :: "http_api \<Rightarrow> http_parameter \<Rightarrow> http_value \<Rightarrow> prepared \<Rightarrow> (http_error, prepared) result" where
  \<comment> \<open>a \<open>file\<close> or \<open>form\<close> parameter\<close>
  "add_part api p v r =
     (let name = hp_wire p
      in if v = Plain PNone \<and> \<not> hp_required p then Inr r
         else if hp_array p \<and> \<not> is_listed v then Inl (Http_value_error ''Multipart part requires a list'')
         else if hp_location p = In_file then
           rbind (rmap (\<lambda>item. case item of File_upload u \<Rightarrow> Inr (name, File_part u)
                          | _ \<Rightarrow> Inl (Http_type_error ''Multipart file requires Upload'')) (upload_items (hp_array p) v))
             (\<lambda>parts. Inr (r\<lparr>rp_parts := rp_parts r @ parts\<rparr>))
         else
           rbind (validated api name v) (\<lambda>w.
           rbind (form_items (hp_array p) w) (\<lambda>items.
           rbind (rmap (\<lambda>item. rbind (http_scalar api item) (\<lambda>s. Inr (name, Form_part s))) items)
             (\<lambda>parts. Inr (r\<lparr>rp_parts := rp_parts r @ parts\<rparr>)))))"

definition fill_path :: "string \<Rightarrow> string \<Rightarrow> string \<Rightarrow> string" where
  \<comment> \<open>\<open>path.replace("{" + name + "}", encoded)\<close>\<close>
  "fill_path name encoded path = replace_str (length path) (''{'' @ name @ ''}'') encoded path"

definition add_value :: "http_api \<Rightarrow> http_parameter \<Rightarrow> pyval \<Rightarrow> prepared \<Rightarrow> (http_error, prepared) result" where
  \<comment> \<open>a validated value in the body, path, query or headers\<close>
  "add_value api p w r =
     (let name = hp_wire p
      in if hp_location p = In_body then Inr (r\<lparr>rp_body := Some (Json_body (ha_dump api w))\<rparr>)
         else if w = PNone then
           (if hp_required p then Inl (Http_value_error ''Required HTTP parameter cannot be null'') else Inr r)
         else (case hp_location p of
             In_path \<Rightarrow>
               rbind (http_scalar api w) (\<lambda>s.
               let encoded = quote s
               in if encoded \<in> {''.'', ''..'', ''''} then Inl (Http_value_error ''Invalid path parameter'')
                  else Inr (r\<lparr>rp_path := fill_path name encoded (rp_path r)\<rparr>))
           | In_query \<Rightarrow>
               rbind (rmap (http_scalar api) (case w of PList xs \<Rightarrow> xs | _ \<Rightarrow> [w]))
                 (\<lambda>ss. Inr (r\<lparr>rp_query := rp_query r @ map (Pair name) ss\<rparr>))
           | _ \<Rightarrow> rbind (http_scalar api w) (\<lambda>s. Inr (r\<lparr>rp_headers := dict_set (str_lower name) s (rp_headers r)\<rparr>))))"

definition octet_stream :: string where "octet_stream = ''application/octet-stream''"

definition add_parameter :: "http_api \<Rightarrow> string \<Rightarrow> (string \<Rightarrow> http_value) \<Rightarrow> http_parameter \<Rightarrow> prepared \<Rightarrow> (http_error, prepared) result" where
  \<comment> \<open>one round of the loop over the parameters\<close>
  "add_parameter api media arguments p r =
     (let name = hp_wire p; v = arguments name
      in if v = Unset then
           (if hp_required p then Inl (Http_value_error ''Missing required HTTP parameter'') else Inr r)
         else if hp_location p \<in> {In_file, In_form} then add_part api p v r
         else if hp_location p = In_body \<and> media = octet_stream then
           (case v of Raw_bytes b \<Rightarrow> Inr (r\<lparr>rp_body := Some (Bytes_body b)\<rparr>)
            | _ \<Rightarrow> Inl (Http_type_error ''Binary request bodies require bytes''))
         else rbind (validated api name v) (\<lambda>w. add_value api p w r))"

definition lower_headers :: "(string \<times> string) list \<Rightarrow> (string \<times> string) list \<Rightarrow> (string \<times> string) list" where
  \<comment> \<open>the client's headers, overridden by those of the call; names do not distinguish case\<close>
  "lower_headers own call = fold (\<lambda>(k, v). dict_set (str_lower k) v) call (fold (\<lambda>(k, v). dict_set (str_lower k) v) own [])"

definition finish_request :: "http_api \<Rightarrow> string \<Rightarrow> string \<Rightarrow> prepared \<Rightarrow> (http_error, (string \<times> string) list \<times> request_payload) result" where
  "finish_request api media boundary r =
     (if media = ''multipart/form-data'' then
        (let headers = dict_pop ''content-type'' (rp_headers r)
         in if rp_parts r \<noteq> [] then Inr (headers, Multipart_files (rp_parts r))
            else Inr (dict_set ''content-type'' (''multipart/form-data; boundary='' @ boundary) headers,
                      Content (Some (''--'' @ boundary @ ''--'' @ [CHR 0x0D, CHR 0x0A]))))
      else (case rp_body r of
              None \<Rightarrow> Inr (rp_headers r, Content None)
            | Some (Bytes_body b) \<Rightarrow> Inr (dict_set ''content-type'' octet_stream (rp_headers r), Content (Some b))
            | Some (Json_body w) \<Rightarrow>
                (case ha_write api w of
                   None \<Rightarrow> Inl (Http_value_error ''Out of range float values are not JSON compliant'')
                 | Some text \<Rightarrow> Inr (dict_set ''content-type'' ''application/json'' (rp_headers r), Content (Some text)))))"

definition prepare_request ::
    "http_api \<Rightarrow> http_spec \<Rightarrow> (string \<times> string) list \<Rightarrow> (string \<times> string) list \<Rightarrow> string \<Rightarrow> (string \<Rightarrow> http_value) \<Rightarrow>
     (http_error, string \<times> (string \<times> string) list \<times> (string \<times> string) list \<times> request_payload) result" where
  "prepare_request api spec own call boundary arguments =
     rbind (rfold (add_parameter api (hs_media spec) arguments) (hs_parameters spec)
        \<lparr>rp_path = hs_path spec, rp_query = [], rp_headers = lower_headers own call, rp_body = None, rp_parts = []\<rparr>) (\<lambda>r.
     rbind (finish_request api (hs_media spec) boundary r) (\<lambda>(headers, payload).
     Inr (rp_path r, rp_query r, headers, payload)))"

section \<open>Responses\<close>

text \<open>\<open>rr_json\<close> is \<open>response.json()\<close>, None when it raises; \<open>rr_text\<close> the decoded text.\<close>

record raw_response =
  rr_status :: int
  rr_content_type :: string
  rr_content :: string
  rr_json :: "pyval option"
  rr_text :: string

definition response_media :: "string \<Rightarrow> string" where
  \<comment> \<open>\<open>header.split(";", 1)[0].strip()\<close>\<close>
  "response_media header = rev (dropWhile is_space (rev (dropWhile is_space (hd (split_on CHR '';'' header)))))"

definition error_response :: "raw_response \<Rightarrow> client_error" where
  "error_response r =
     (if response_media (rr_content_type r) = ''application/problem+json'' then
        (case rr_json r of
           None \<Rightarrow> Protocol_failure ''Invalid HTTP problem''
         | Some v \<Rightarrow>
             (case parse_problem False v of
                Inl Validation_defect \<Rightarrow> Protocol_failure ''Invalid HTTP problem''
              | Inl (Protocol_defect m) \<Rightarrow> Protocol_failure m
              | Inr problem \<Rightarrow>
                  if cp_status problem \<noteq> None \<and> cp_status problem \<noteq> Some (rr_status r)
                  then Protocol_failure ''Problem status does not match HTTP response''
                  else Raised_problem problem))
      else Http_failure (rr_status r) (case rr_json r of Some v \<Rightarrow> v | None \<Rightarrow> PStr (take 65536 (rr_text r))))"

datatype 'a http_result = No_content | Binary_content string | Json_result 'a

definition response_key :: "http_spec \<Rightarrow> int \<Rightarrow> string option" where
  \<comment> \<open>the documented status that answers: itself or \<open>2XX\<close>\<close>
  "response_key spec status =
     (if str_of_int status \<in> set (hs_statuses spec) then Some (str_of_int status)
      else if ''2XX'' \<in> set (hs_statuses spec) then Some ''2XX'' else None)"

definition read_response ::
    "(string \<Rightarrow> string \<Rightarrow> 'a option) \<Rightarrow> http_spec \<Rightarrow> raw_response \<Rightarrow> (client_error, 'a http_result) result" where
  \<comment> \<open>\<open>adapter\<close>: the response types by documented status\<close>
  "read_response adapter spec r =
     (if 400 \<le> rr_status r then Inl (error_response r)
      else if \<not> (200 \<le> rr_status r \<and> rr_status r < 300) then Inl (Protocol_failure ''Unexpected HTTP response status'')
      else (case response_key spec (rr_status r) of
          None \<Rightarrow> Inl (Protocol_failure ''Undocumented HTTP response status'')
        | Some status \<Rightarrow>
            if status \<in> set (hs_bodyless spec) then
              (if rr_content r \<noteq> [] then Inl (Protocol_failure ''Unexpected body for bodyless HTTP response'') else Inr No_content)
            else if status \<in> set (hs_binary spec) then Inr (Binary_content (rr_content r))
            else (case adapter status (rr_content r) of
                    None \<Rightarrow> Inl (Protocol_failure ''Invalid HTTP response'')
                  | Some v \<Rightarrow> Inr (Json_result v))))"

definition request_operation ::
    "http_api \<Rightarrow> (string \<Rightarrow> string \<Rightarrow> 'a option) \<Rightarrow> http_spec \<Rightarrow> bool \<Rightarrow> (string \<times> string) list \<Rightarrow> (string \<times> string) list \<Rightarrow> string \<Rightarrow>
     (string \<Rightarrow> http_value) \<Rightarrow>
     (string \<times> (string \<times> string) list \<times> (string \<times> string) list \<times> request_payload \<Rightarrow> raw_response option) \<Rightarrow>
     (http_error, 'a http_result) result" where
  \<comment> \<open>\<open>Runtime.request\<close>; \<open>transfer\<close> is the HTTP library, None when it raises\<close>
  "request_operation api adapter spec shut own call boundary arguments transfer =
     rbind (ensure (\<not> shut) Http_closed) (\<lambda>_.
     rbind (prepare_request api spec own call boundary arguments) (\<lambda>request.
     (case transfer request of
        None \<Rightarrow> Inl (Http_client_error (Transport_failure ''HTTP request failed''))
      | Some r \<Rightarrow> (case read_response adapter spec r of Inl e \<Rightarrow> Inl (Http_client_error e) | Inr v \<Rightarrow> Inr v))))"

section \<open>Requests keep the shape of their route\<close>

definition structural :: "char \<Rightarrow> bool" where
  \<comment> \<open>characters that separate the parts of a URL\<close>
  "structural c = (c \<in> set ''/?#&=;'')"

lemma quote_not_structural: "filter structural (quote s) = []"
proof -
  have "\<not> structural c" if "unreserved c \<or> c = CHR ''%''" for c
    using that by (auto simp: structural_def unreserved_def is_alpha_def is_lower_def is_upper_def is_digit_def Let_def ord_of_def)
  with quote_chars [of s] show ?thesis by (auto simp: filter_empty_conv list_all_iff)
qed

lemma starts_with_split: "starts_with p s \<Longrightarrow> s = p @ drop (length p) s"
  by (metis append_take_drop_id starts_with_def)

lemma replace_str_structural:
  assumes "filter structural old = []" and "filter structural new = []"
  shows "filter structural (replace_str n old new s) = filter structural s"
proof (induction n arbitrary: s)
  case (Suc n)
  show ?case
  proof (cases s)
    case (Cons c cs)
    show ?thesis
    proof (cases "starts_with old s")
      case True
      then have "filter structural s = filter structural (drop (length old) s)"
        by (subst starts_with_split [OF True]) (simp add: assms)
      with True Suc Cons show ?thesis by (simp add: assms)
    next
      case False
      with Suc Cons show ?thesis by simp
    qed
  qed simp
qed simp

definition plain_name :: "string \<Rightarrow> bool" where
  "plain_name name = (filter structural name = [])"

lemma fill_path_structural:
  "plain_name name \<Longrightarrow> filter structural (fill_path name (quote s) path) = filter structural path"
  by (simp add: fill_path_def plain_name_def quote_not_structural replace_str_structural structural_def)

definition headers_ok :: "(string \<times> string) list \<Rightarrow> bool" where
  "headers_ok headers \<longleftrightarrow> wf_dict headers \<and> (\<forall>k\<in>fst ` set headers. str_lower k = k)"

lemma str_lower_idem [simp]: "str_lower (str_lower s) = str_lower s"
proof -
  have "lower_char (lower_char c) = lower_char c" for c by (subst lower_char_def) simp
  then show ?thesis by (simp add: str_lower_def)
qed

lemma headers_ok_steps [simp]:
  "headers_ok []" "str_lower k = k \<Longrightarrow> headers_ok h \<Longrightarrow> headers_ok (dict_set k v h)" "headers_ok h \<Longrightarrow> headers_ok (dict_pop k h)"
  unfolding headers_ok_def keys_dict_set keys_dict_pop by auto

definition request_ok :: "http_spec \<Rightarrow> prepared \<Rightarrow> bool" where
  "request_ok spec r \<longleftrightarrow> filter structural (rp_path r) = filter structural (hs_path spec) \<and> headers_ok (rp_headers r)"

lemma add_value_ok:
  assumes "request_ok spec r" and "hp_location p = In_path \<Longrightarrow> plain_name (hp_wire p)" and "add_value api p w r = Inr r'"
  shows "request_ok spec r'"
  using assms
  by (cases "hp_location p")
    (auto simp: add_value_def Let_def request_ok_def fill_path_structural split: if_splits)

lemma add_part_ok: "request_ok spec r \<Longrightarrow> add_part api p v r = Inr r' \<Longrightarrow> request_ok spec r'"
  by (auto simp: add_part_def Let_def request_ok_def split: if_splits)

lemma add_parameter_ok:
  assumes "request_ok spec r" and "hp_location p = In_path \<Longrightarrow> plain_name (hp_wire p)"
    and "add_parameter api media arguments p r = Inr r'"
  shows "request_ok spec r' \<and> (hp_required p \<longrightarrow> arguments (hp_wire p) \<noteq> Unset)"
proof (cases "arguments (hp_wire p) = Unset")
  case True
  with assms show ?thesis by (cases "hp_required p") (simp_all add: add_parameter_def)
next
  case given: False
  consider (part) "hp_location p \<in> {In_file, In_form}"
    | (binary) "hp_location p = In_body" "media = octet_stream" "hp_location p \<notin> {In_file, In_form}"
    | (plain) "hp_location p \<notin> {In_file, In_form}" "\<not> (hp_location p = In_body \<and> media = octet_stream)" by blast
  then have "request_ok spec r'"
  proof cases
    case part
    with given assms(3) have "add_part api p (arguments (hp_wire p)) r = Inr r'" by (simp add: add_parameter_def Let_def)
    with add_part_ok [OF assms(1)] show ?thesis by blast
  next
    case binary
    with given assms(3) show ?thesis
      using assms(1) by (auto simp: add_parameter_def Let_def request_ok_def split: http_value.splits)
  next
    case plain
    with given assms(3) obtain w where "add_value api p w r = Inr r'" by (auto simp: add_parameter_def Let_def)
    with add_value_ok [OF assms(1,2)] show ?thesis by blast
  qed
  with given show ?thesis by simp
qed

lemma lower_headers_ok: "headers_ok (lower_headers own call)"
proof -
  have "headers_ok d \<Longrightarrow> headers_ok (fold (\<lambda>(k, v). dict_set (str_lower k) v) hs d)" for d and hs :: "(string \<times> string) list"
  proof (induction hs arbitrary: d)
    case (Cons p hs)
    have "headers_ok (dict_set (str_lower (fst p)) (snd p) d)" by (rule headers_ok_steps(2)) (use Cons.prems in simp_all)
    from Cons.IH [OF this] show ?case by (simp only: fold_simps case_prod_beta comp_def)
  qed simp
  from this [OF this [OF headers_ok_steps(1)]] show ?thesis unfolding lower_headers_def .
qed

lemma add_parameters_ok:
  "rfold (add_parameter api media arguments) ps r = Inr r' \<Longrightarrow> request_ok spec r \<Longrightarrow>
     \<forall>p\<in>set ps. hp_location p = In_path \<longrightarrow> plain_name (hp_wire p) \<Longrightarrow>
     request_ok spec r' \<and> (\<forall>p\<in>set ps. hp_required p \<longrightarrow> arguments (hp_wire p) \<noteq> Unset)"
proof (induction ps arbitrary: r)
  case (Cons p ps)
  then obtain r1 where r1: "add_parameter api media arguments p r = Inr r1"
    and rest: "rfold (add_parameter api media arguments) ps r1 = Inr r'" by auto
  from add_parameter_ok [OF Cons.prems(2) _ r1] Cons.prems(3)
  have "request_ok spec r1 \<and> (hp_required p \<longrightarrow> arguments (hp_wire p) \<noteq> Unset)" by auto
  with Cons.IH [OF rest] Cons.prems(3) show ?case by auto
qed simp

lemma finish_request_headers:
  assumes "finish_request api media boundary r = Inr (headers, payload)" and "headers_ok (rp_headers r)"
  shows "headers_ok headers"
proof -
  have "str_lower ''content-type'' = ''content-type''" by code_simp
  with assms show ?thesis
    by (auto simp: finish_request_def Let_def split: if_splits option.splits request_body.splits)
qed


definition plain_api :: http_api where
  "plain_api = \<lparr>ha_validate = \<lambda>_ v. case v of Plain w \<Rightarrow> Some w | _ \<Rightarrow> None, ha_dump = id, ha_write = \<lambda>_. Some ''null'',
     ha_float = \<lambda>_. ''0''\<rparr>"

definition item_spec :: http_spec where
  "item_spec = \<lparr>hs_path = ''/items/{id}'', hs_method = ''GET'',
     hs_parameters = [\<lparr>hp_wire = ''id'', hp_location = In_path, hp_required = True, hp_array = False\<rparr>],
     hs_media = [], hs_statuses = [''200'', ''204''], hs_bodyless = [''204''], hs_binary = []\<rparr>"


section \<open>What a response may become\<close>

text \<open>
  A response of an error status never becomes a result; a result comes from a successful
  status the operation documents, exactly or as 2XX; a status documented without a body gives no
  content and no other does; a raised problem names no other status than the response's.
\<close>

theorem responses_classified:
  "case read_response adapter spec r of
     Inr v \<Rightarrow> 200 \<le> rr_status r \<and> rr_status r < 300 \<and>
       (\<exists>status. response_key spec (rr_status r) = Some status \<and> status \<in> set (hs_statuses spec) \<and>
         (v = No_content) = (status \<in> set (hs_bodyless spec)) \<and> (v = No_content \<longrightarrow> rr_content r = []))
   | Inl (Raised_problem p) \<Rightarrow> 400 \<le> rr_status r \<and> cp_status p \<in> {None, Some (rr_status r)}
   | Inl (Http_failure status details) \<Rightarrow> 400 \<le> rr_status r \<and> status = rr_status r
   | Inl _ \<Rightarrow> True"
proof (cases "400 \<le> rr_status r")
  case True
  then show ?thesis
    by (simp add: read_response_def error_response_def split: option.split problem_defect.split sum.split)
next
  case False
  then show ?thesis
    by (auto simp: read_response_def response_key_def split: option.split)
qed

end
