(* ===== verification/Client_Runtime.thy ===== *)
theory Client_Runtime
  imports Http_Client
begin

text \<open>
  The lifecycle of a generated Python client (\<open>Runtime\<close> of
  \<open>fastapi_canon/codegen/templates/client.py\<close>): protocol clients are opened on first use, once for
  all concurrent calls, and closed with the client. Code between two awaits is one operation; calls
  that wait, opening tasks and the closing task interleave freely. A protocol client is a number.
\<close>

section \<open>State\<close>

datatype open_state = Opening | Opened nat | Open_failed | Open_cancelled

record open_task =
  ot_name :: string
  ot_state :: open_state

record client_binding =
  cb_client :: "nat option"
  cb_owned :: bool

text \<open>The closing task: waiting for the active calls, for the opening tasks it cancelled, closing the
  clients of the remaining bindings, done.\<close>

datatype close_phase = Not_closing | Closing_calls | Closing_opens "nat list" | Closing_clients "string list" | Closed_runtime

record client_runtime =
  cr_closed :: bool
  cr_phase :: close_phase
  cr_bindings :: "(string \<times> client_binding) list"
  cr_pending :: "(string \<times> nat) list"
  cr_opens :: "open_task list"
  cr_clients :: nat
  cr_made :: "(nat \<times> string) list"
  cr_closed_clients :: "nat list"

definition new_runtime :: "(string \<times> client_binding) list \<Rightarrow> nat \<Rightarrow> client_runtime" where
  \<comment> \<open>the registered bindings; \<open>n\<close> clients were given by the caller\<close>
  "new_runtime bindings n = \<lparr>cr_closed = False, cr_phase = Not_closing, cr_bindings = bindings, cr_pending = [], cr_opens = [],
     cr_clients = n, cr_made = [], cr_closed_clients = []\<rparr>"

section \<open>Bindings\<close>

datatype asked = Ask_closed | Ask_unknown | Ask_client nat | Ask_waits nat | Ask_failed

definition ask_binding :: "string \<Rightarrow> client_runtime \<Rightarrow> asked \<times> client_runtime" where
  \<comment> \<open>\<open>binding\<close> up to its await\<close>
  "ask_binding name s =
     (if cr_closed s then (Ask_closed, s)
      else (case dict_get (cr_bindings s) name of
              None \<Rightarrow> (Ask_unknown, s)
            | Some b \<Rightarrow>
                (case cb_client b of
                   Some c \<Rightarrow> (Ask_client c, s)
                 | None \<Rightarrow>
                     (case dict_get (cr_pending s) name of
                        Some t \<Rightarrow> (Ask_waits t, s)
                      | None \<Rightarrow>
                          (Ask_waits (length (cr_opens s)),
                           s\<lparr>cr_opens := cr_opens s @ [\<lparr>ot_name = name, ot_state = Opening\<rparr>],
                             cr_pending := dict_set name (length (cr_opens s)) (cr_pending s)\<rparr>)))))"

definition end_open :: "nat \<Rightarrow> open_state \<Rightarrow> client_runtime \<Rightarrow> client_runtime" where
  "end_open t st s = s\<lparr>cr_opens := (cr_opens s)[t := (cr_opens s ! t)\<lparr>ot_state := st\<rparr>]\<rparr>"

definition open_succeeds :: "nat \<Rightarrow> client_runtime \<Rightarrow> client_runtime" where
  \<comment> \<open>the factory returned a client: \<open>open_binding\<close> stores it\<close>
  "open_succeeds t s =
     (let name = ot_name (cr_opens s ! t); c = cr_clients s
      in (end_open t (Opened c) s)
           \<lparr>cr_bindings := map (\<lambda>(n, b). (n, if n = name then b\<lparr>cb_client := Some c\<rparr> else b)) (cr_bindings s),
            cr_clients := Suc c, cr_made := cr_made s @ [(c, name)]\<rparr>)"

definition pop_done :: "nat \<Rightarrow> client_runtime \<Rightarrow> client_runtime" where
  \<comment> \<open>\<open>if pending.done() and self.pending.get(name) is pending\<close>\<close>
  "pop_done t s =
     (let job = cr_opens s ! t
      in if ot_state job \<noteq> Opening \<and> dict_get (cr_pending s) (ot_name job) = Some t
         then s\<lparr>cr_pending := dict_pop (ot_name job) (cr_pending s)\<rparr> else s)"

definition resume_call :: "nat \<Rightarrow> client_runtime \<Rightarrow> asked \<times> client_runtime" where
  \<comment> \<open>a waiting call resumes when its task has ended\<close>
  "resume_call t s =
     (case ot_state (cr_opens s ! t) of
        Opened c \<Rightarrow> (if cr_closed s then Ask_closed else Ask_client c, s)
      | _ \<Rightarrow> (Ask_failed, pop_done t s))"

section \<open>Closing\<close>

definition begin_close :: "client_runtime \<Rightarrow> client_runtime" where
  \<comment> \<open>\<open>aclose\<close>: every call awaits the one closing task\<close>
  "begin_close s = (if cr_phase s = Not_closing then s\<lparr>cr_closed := True, cr_phase := Closing_calls\<rparr> else s)"

definition calls_ended :: "client_runtime \<Rightarrow> client_runtime" where
  "calls_ended s = s\<lparr>cr_phase := Closing_opens (map snd (cr_pending s))\<rparr>"

definition opens_ended :: "client_runtime \<Rightarrow> client_runtime" where
  "opens_ended s = s\<lparr>cr_pending := [], cr_phase := Closing_clients (map fst (cr_bindings s))\<rparr>"

definition owned_client :: "(string \<times> client_binding) list \<Rightarrow> string \<Rightarrow> nat option" where
  "owned_client bindings name = (case dict_get bindings name of Some b \<Rightarrow> if cb_owned b then cb_client b else None | None \<Rightarrow> None)"

definition close_next :: "string \<Rightarrow> string list \<Rightarrow> client_runtime \<Rightarrow> client_runtime" where
  \<comment> \<open>one binding of the loop; what closing raises is collected\<close>
  "close_next name rest s =
     s\<lparr>cr_phase := Closing_clients rest,
       cr_closed_clients := cr_closed_clients s @ (case owned_client (cr_bindings s) name of None \<Rightarrow> [] | Some c \<Rightarrow> [c])\<rparr>"

definition task_done :: "nat \<Rightarrow> client_runtime \<Rightarrow> bool" where
  "task_done t s = (t < length (cr_opens s) \<and> ot_state (cr_opens s ! t) \<noteq> Opening)"

inductive runtime_step :: "client_runtime \<Rightarrow> client_runtime \<Rightarrow> bool" where
  asks: "ask_binding name s = (r, s') \<Longrightarrow> runtime_step s s'"
| succeeds: "t < length (cr_opens s) \<Longrightarrow> ot_state (cr_opens s ! t) = Opening \<Longrightarrow> runtime_step s (open_succeeds t s)"
| fails: "t < length (cr_opens s) \<Longrightarrow> ot_state (cr_opens s ! t) = Opening \<Longrightarrow> runtime_step s (end_open t Open_failed s)"
| cancelled: "t < length (cr_opens s) \<Longrightarrow> ot_state (cr_opens s ! t) = Opening \<Longrightarrow> runtime_step s (end_open t Open_cancelled s)"
| resumes: "task_done t s \<Longrightarrow> resume_call t s = (r, s') \<Longrightarrow> runtime_step s s'"
| call_cancelled: "t < length (cr_opens s) \<Longrightarrow> runtime_step s (pop_done t s)"
| closes: "runtime_step s (begin_close s)"
| calls: "cr_phase s = Closing_calls \<Longrightarrow> runtime_step s (calls_ended s)"
| opens: "cr_phase s = Closing_opens ts \<Longrightarrow> \<forall>t\<in>set ts. task_done t s \<Longrightarrow> runtime_step s (opens_ended s)"
| closes_next: "cr_phase s = Closing_clients (name # rest) \<Longrightarrow> runtime_step s (close_next name rest s)"
| finishes: "cr_phase s = Closing_clients [] \<Longrightarrow> runtime_step s (s\<lparr>cr_phase := Closed_runtime\<rparr>)"

text \<open>Initially every binding is registered once, and the given clients differ.\<close>

definition given_clients :: "(string \<times> client_binding) list \<Rightarrow> nat list" where
  "given_clients bindings = List.map_filter (\<lambda>(_, b). cb_client b) bindings"

definition registered :: "(string \<times> client_binding) list \<Rightarrow> nat \<Rightarrow> bool" where
  "registered bindings n \<longleftrightarrow> wf_dict bindings \<and> distinct (given_clients bindings) \<and> list_all (\<lambda>c. c < n) (given_clients bindings)"

inductive runtime_reaches :: "client_runtime \<Rightarrow> bool" where
  start: "registered bindings n \<Longrightarrow> runtime_reaches (new_runtime bindings n)"
| step: "runtime_reaches s \<Longrightarrow> runtime_step s s' \<Longrightarrow> runtime_reaches s'"

section \<open>One client per binding, closed once\<close>

definition opening_at :: "client_runtime \<Rightarrow> nat \<Rightarrow> string \<Rightarrow> bool" where
  "opening_at s t name \<longleftrightarrow> t < length (cr_opens s) \<and> ot_name (cr_opens s ! t) = name \<and> ot_state (cr_opens s ! t) = Opening"

definition phase_ok :: "client_runtime \<Rightarrow> bool" where
  "phase_ok s =
     (case cr_phase s of
        Not_closing \<Rightarrow> cr_closed_clients s = []
      | Closing_calls \<Rightarrow> cr_closed s \<and> cr_closed_clients s = []
      | Closing_opens ts \<Rightarrow> cr_closed s \<and> cr_closed_clients s = [] \<and> (\<forall>t name. opening_at s t name \<longrightarrow> t \<in> set ts)
      | Closing_clients rest \<Rightarrow> cr_closed s \<and> (\<forall>t name. \<not> opening_at s t name) \<and>
          (\<exists>before. map fst (cr_bindings s) = before @ rest \<and>
             cr_closed_clients s = List.map_filter (owned_client (cr_bindings s)) before)
      | Closed_runtime \<Rightarrow> cr_closed s \<and> (\<forall>t name. \<not> opening_at s t name) \<and>
          cr_closed_clients s = List.map_filter (owned_client (cr_bindings s)) (map fst (cr_bindings s)))"

definition runtime_inv :: "client_runtime \<Rightarrow> bool" where
  "runtime_inv s \<longleftrightarrow> registered (cr_bindings s) (cr_clients s) \<and> wf_dict (cr_pending s) \<and>
     (\<forall>t name. opening_at s t name \<longrightarrow> dict_get (cr_pending s) name = Some t \<and>
        (\<exists>b. dict_get (cr_bindings s) name = Some b \<and> cb_client b = None)) \<and>
     (\<forall>c name. (c, name) \<in> set (cr_made s) \<longrightarrow> (\<exists>b. dict_get (cr_bindings s) name = Some b \<and> cb_client b = Some c)) \<and>
     distinct (map snd (cr_made s)) \<and> (\<forall>name t. dict_get (cr_pending s) name = Some t \<longrightarrow> t < length (cr_opens s)) \<and> phase_ok s"

named_theorems runtime_defs \<open>the operations of a client\<close>

lemmas [runtime_defs] = end_open_def calls_ended_def opens_ended_def close_next_def

lemma given_clients_simps [simp]:
  "given_clients [] = []"
  "given_clients ((n, b) # bs) = (case cb_client b of None \<Rightarrow> [] | Some c \<Rightarrow> [c]) @ given_clients bs"
  by (simp_all add: given_clients_def List.map_filter_simps split: option.split)

abbreviation store :: "string \<Rightarrow> nat \<Rightarrow> (string \<times> client_binding) list \<Rightarrow> (string \<times> client_binding) list" where
  "store name c \<equiv> map (\<lambda>(n, b). (n, if n = name then b\<lparr>cb_client := Some c\<rparr> else b))"

lemma store_absent: "name \<notin> fst ` set bs \<Longrightarrow> store name c bs = bs"
  by (induction bs) auto

lemma keys_store [simp]: "map fst (store name c bs) = map fst bs" "wf_dict (store name c bs) = wf_dict bs"
  by (simp_all add: wf_dict_def comp_def case_prod_beta)

lemma dict_get_store: "dict_get (store name c bs) n =
    (if n = name then map_option (\<lambda>b. b\<lparr>cb_client := Some c\<rparr>) (dict_get bs n) else dict_get bs n)"
  by (induction bs) auto

lemma given_store:
  "wf_dict bs \<Longrightarrow> dict_get bs name = Some b \<Longrightarrow> cb_client b = None \<Longrightarrow> c \<notin> set (given_clients bs) \<Longrightarrow>
     distinct (given_clients bs) \<Longrightarrow>
     distinct (given_clients (store name c bs)) \<and> set (given_clients (store name c bs)) = insert c (set (given_clients bs))"
proof (induction bs)
  case (Cons p bs)
  obtain n b' where p: "p = (n, b')" by (cases p)
  show ?case
  proof (cases "n = name")
    case True
    then have "name \<notin> fst ` set bs" using Cons.prems(1) p by (auto simp: wf_dict_def)
    then have "store name c bs = bs" by (rule store_absent)
    then show ?thesis using Cons.prems p True by (simp del: map_map)
  next
    case False
    then have "distinct (given_clients (store name c bs)) \<and> set (given_clients (store name c bs)) = insert c (set (given_clients bs))"
      using Cons p by (auto simp: wf_dict_def)
    then show ?thesis using Cons.prems p False by (cases "cb_client b'") auto
  qed
qed simp

lemma registered_store:
  assumes "registered bs n" and "dict_get bs name = Some b" and "cb_client b = None"
  shows "registered (store name n bs) (Suc n)"
proof -
  have "n \<notin> set (given_clients bs)" using assms(1) by (auto simp: registered_def list_all_iff)
  with given_store [of bs name b n] assms show ?thesis
    by (auto simp: registered_def list_all_iff less_Suc_eq)
qed

lemma opening_end:
  assumes "t < length (cr_opens s)" and "st \<noteq> Opening"
  shows "opening_at (end_open t st s) t' name \<longleftrightarrow> opening_at s t' name \<and> t' \<noteq> t"
  using assms by (cases "t = t'") (auto simp: opening_at_def end_open_def nth_list_update)

lemma runtime_invI:
  assumes "registered (cr_bindings s) (cr_clients s)" "wf_dict (cr_pending s)" "distinct (map snd (cr_made s))" "phase_ok s"
    and "\<And>t name. opening_at s t name \<Longrightarrow> dict_get (cr_pending s) name = Some t \<and>
       (\<exists>b. dict_get (cr_bindings s) name = Some b \<and> cb_client b = None)"
    and "\<And>c name. (c, name) \<in> set (cr_made s) \<Longrightarrow> \<exists>b. dict_get (cr_bindings s) name = Some b \<and> cb_client b = Some c"
    and "\<And>name t. dict_get (cr_pending s) name = Some t \<Longrightarrow> t < length (cr_opens s)"
  shows "runtime_inv s"
  using assms unfolding runtime_inv_def by blast

lemma runtime_invD:
  assumes "runtime_inv s"
  shows "registered (cr_bindings s) (cr_clients s)" "wf_dict (cr_pending s)" "distinct (map snd (cr_made s))" "phase_ok s"
    and "opening_at s t name \<Longrightarrow> dict_get (cr_pending s) name = Some t"
    and "opening_at s t name \<Longrightarrow> \<exists>b. dict_get (cr_bindings s) name = Some b \<and> cb_client b = None"
    and "(c, name) \<in> set (cr_made s) \<Longrightarrow> \<exists>b. dict_get (cr_bindings s) name = Some b \<and> cb_client b = Some c"
    and "dict_get (cr_pending s) name = Some t \<Longrightarrow> t < length (cr_opens s)"
  using assms unfolding runtime_inv_def by blast+

lemma end_open_fields [simp]:
  "cr_closed (end_open t st s) = cr_closed s" "cr_phase (end_open t st s) = cr_phase s"
  "cr_bindings (end_open t st s) = cr_bindings s" "cr_pending (end_open t st s) = cr_pending s"
  "length (cr_opens (end_open t st s)) = length (cr_opens s)" "cr_clients (end_open t st s) = cr_clients s"
  "cr_made (end_open t st s) = cr_made s" "cr_closed_clients (end_open t st s) = cr_closed_clients s"
  by (simp_all add: end_open_def)

lemma phase_ok_mono:
  assumes "phase_ok s" and "cr_phase s' = cr_phase s" "cr_closed s' = cr_closed s" "cr_closed_clients s' = cr_closed_clients s"
    and "\<And>t name. opening_at s' t name \<Longrightarrow> opening_at s t name"
    and "cr_bindings s' = cr_bindings s \<or> (\<exists>t name. opening_at s t name)"
  shows "phase_ok s'"
  using assms by (auto simp: phase_ok_def split: close_phase.splits)

lemma end_open_inv:
  assumes inv: "runtime_inv s" and "t < length (cr_opens s)" and "st \<noteq> Opening"
  shows "runtime_inv (end_open t st s)"
proof (rule runtime_invI)
  note at = opening_end [OF assms(2,3)]
  show "phase_ok (end_open t st s)" using runtime_invD(4) [OF inv] by (rule phase_ok_mono) (simp_all add: at)
  show "dict_get (cr_pending (end_open t st s)) name = Some t' \<and>
      (\<exists>b. dict_get (cr_bindings (end_open t st s)) name = Some b \<and> cb_client b = None)"
    if "opening_at (end_open t st s) t' name" for t' name
    using that runtime_invD(5,6) [OF inv, of t' name] by (simp add: at)
qed (simp_all add: runtime_invD(1,2,3,7,8) [OF inv])

lemma open_succeeds_inv:
  assumes inv: "runtime_inv s" and t: "t < length (cr_opens s)" and st: "ot_state (cr_opens s ! t) = Opening"
  shows "runtime_inv (open_succeeds t s)"
proof -
  let ?name = "ot_name (cr_opens s ! t)" and ?c = "cr_clients s" and ?s = "open_succeeds t s"
  have now: "opening_at s t ?name" using t st by (simp add: opening_at_def)
  then obtain b where b: "dict_get (cr_bindings s) ?name = Some b" "cb_client b = None"
    and pending: "dict_get (cr_pending s) ?name = Some t" using runtime_invD(5,6) [OF inv] by blast
  have fields: "cr_closed ?s = cr_closed s" "cr_phase ?s = cr_phase s" "cr_bindings ?s = store ?name ?c (cr_bindings s)"
    "cr_pending ?s = cr_pending s" "length (cr_opens ?s) = length (cr_opens s)" "cr_clients ?s = Suc ?c"
    "cr_made ?s = cr_made s @ [(?c, ?name)]" "cr_closed_clients ?s = cr_closed_clients s"
    by (simp_all add: open_succeeds_def Let_def)
  have opens: "opening_at ?s t' n \<longleftrightarrow> opening_at s t' n \<and> t' \<noteq> t" for t' n
    using opening_end [OF t, of "Opened ?c" t' n] by (simp add: open_succeeds_def Let_def opening_at_def)
  have other: "n \<noteq> ?name" if "opening_at s t' n" "t' \<noteq> t" for t' n
    using runtime_invD(5) [OF inv that(1)] pending that(2) by auto
  have none: "(c, ?name) \<notin> set (cr_made s)" for c
    using runtime_invD(7) [OF inv, of c ?name] b by auto
  show ?thesis
  proof (rule runtime_invI)
    show "phase_ok ?s" using runtime_invD(4) [OF inv] now by (intro phase_ok_mono [of s ?s]) (auto simp only: fields opens)
    show "registered (cr_bindings ?s) (cr_clients ?s)"
      unfolding fields using runtime_invD(1) [OF inv] b by (rule registered_store)
    show "distinct (map snd (cr_made ?s))" using runtime_invD(3) [OF inv] none by (auto simp: fields)
    show "dict_get (cr_pending ?s) n = Some t' \<and> (\<exists>b. dict_get (cr_bindings ?s) n = Some b \<and> cb_client b = None)"
      if "opening_at ?s t' n" for t' n
      using that other [of t' n] runtime_invD(5,6) [OF inv, of t' n] by (simp add: fields opens dict_get_store)
    show "\<exists>b. dict_get (cr_bindings ?s) n = Some b \<and> cb_client b = Some c" if "(c, n) \<in> set (cr_made ?s)" for c n
    proof (cases "n = ?name")
      case True
      with that none [of c] have "c = ?c" by (auto simp: fields)
      with True b show ?thesis by (simp add: fields dict_get_store)
    next
      case False
      with that have "(c, n) \<in> set (cr_made s)" by (simp add: fields)
      with runtime_invD(7) [OF inv this] False show ?thesis by (simp add: fields dict_get_store)
    qed
  qed (simp_all add: fields runtime_invD(1,2,3,7,8) [OF inv])
qed

lemma pop_done_inv:
  assumes inv: "runtime_inv s" and "t < length (cr_opens s)"
  shows "runtime_inv (pop_done t s)"
proof -
  let ?name = "ot_name (cr_opens s ! t)"
  let ?s = "s\<lparr>cr_pending := dict_pop ?name (cr_pending s)\<rparr>"
  have opens: "opening_at ?s t' n = opening_at s t' n" for t' n by (simp add: opening_at_def)
  have "runtime_inv ?s" if over: "ot_state (cr_opens s ! t) \<noteq> Opening" "dict_get (cr_pending s) ?name = Some t"
  proof (rule runtime_invI)
    show "phase_ok ?s" using runtime_invD(4) [OF inv] by (rule phase_ok_mono) (simp_all add: opens)
    show "dict_get (cr_pending ?s) n = Some t' \<and> (\<exists>b. dict_get (cr_bindings ?s) n = Some b \<and> cb_client b = None)"
      if "opening_at ?s t' n" for t' n
    proof -
      have at: "opening_at s t' n" using that opens by simp
      then have pending: "dict_get (cr_pending s) n = Some t'" using runtime_invD(5) [OF inv] by simp
      have "t' \<noteq> t" using at over(1) by (auto simp: opening_at_def)
      then have "n \<noteq> ?name" using pending over(2) by auto
      with pending runtime_invD(6) [OF inv at] show ?thesis by (simp add: dict_get_pop)
    qed
    show "t' < length (cr_opens ?s)" if "dict_get (cr_pending ?s) n = Some t'" for t' n
      using that runtime_invD(8) [OF inv, of n t'] by (simp add: dict_get_pop split: if_splits)
    show "\<exists>b. dict_get (cr_bindings ?s) n = Some b \<and> cb_client b = Some c" if "(c, n) \<in> set (cr_made ?s)" for c n
      using that runtime_invD(7) [OF inv, of c n] by simp
  qed (simp_all add: runtime_invD(1,2,3) [OF inv])
  then have popped: "ot_state (cr_opens s ! t) \<noteq> Opening \<and> dict_get (cr_pending s) ?name = Some t \<Longrightarrow> runtime_inv ?s" by blast
  show ?thesis
  proof (cases "ot_state (cr_opens s ! t) \<noteq> Opening \<and> dict_get (cr_pending s) ?name = Some t")
    case True
    then have "pop_done t s = ?s" unfolding pop_done_def Let_def by (rule if_P)
    with popped [OF True] show ?thesis by (simp only:)
  next
    case False
    then have "pop_done t s = s" unfolding pop_done_def Let_def by (rule if_not_P)
    with inv show ?thesis by (simp only:)
  qed
qed

lemma ask_binding_inv:
  assumes inv: "runtime_inv s" and ask: "ask_binding name s = (r, s')"
  shows "runtime_inv s'"
proof (cases "s' = s")
  case False
  with ask obtain b where b: "dict_get (cr_bindings s) name = Some b" "cb_client b = None" "dict_get (cr_pending s) name = None"
    and opened: "\<not> cr_closed s" and s': "s' = s\<lparr>cr_opens := cr_opens s @ [\<lparr>ot_name = name, ot_state = Opening\<rparr>],
      cr_pending := dict_set name (length (cr_opens s)) (cr_pending s)\<rparr>"
    by (auto simp: ask_binding_def split: if_splits option.splits)
  have at: "opening_at s' t n \<longleftrightarrow> opening_at s t n \<or> t = length (cr_opens s) \<and> n = name" for t n
    by (auto simp: s' opening_at_def nth_append)
  show ?thesis
  proof (rule runtime_invI)
    show "phase_ok s'"
      using runtime_invD(4) [OF inv] opened by (cases "cr_phase s") (simp_all add: s' phase_ok_def)
    show "dict_get (cr_pending s') n = Some t \<and> (\<exists>b. dict_get (cr_bindings s') n = Some b \<and> cb_client b = None)"
      if "opening_at s' t n" for t n
    proof (cases "opening_at s t n")
      case True
      with b(3) runtime_invD(5) [OF inv True] have "n \<noteq> name" by auto
      with runtime_invD(5,6) [OF inv True] show ?thesis by (simp add: s' dict_get_set)
    next
      case False
      with that at b show ?thesis by (simp add: s' dict_get_set)
    qed
    show "t < length (cr_opens s')" if "dict_get (cr_pending s') n = Some t" for t n
      using that runtime_invD(8) [OF inv, of n t] by (simp add: s' dict_get_set split: if_splits)
  qed (simp_all add: s' runtime_invD(1,2,3,7,8) [OF inv])
qed (use inv in simp)

lemma phase_change_inv:
  assumes inv: "runtime_inv s" and same: "cr_bindings s' = cr_bindings s" "cr_pending s' = cr_pending s" "cr_opens s' = cr_opens s"
      "cr_clients s' = cr_clients s" "cr_made s' = cr_made s" and ok: "phase_ok s'"
  shows "runtime_inv s'"
proof -
  have "opening_at s' t name = opening_at s t name" for t name by (simp add: opening_at_def same)
  with inv ok show ?thesis unfolding runtime_inv_def same by simp
qed

lemma begin_close_inv:
  assumes inv: "runtime_inv s"
  shows "runtime_inv (begin_close s)"
proof (rule phase_change_inv [OF inv])
  show "phase_ok (begin_close s)"
    using runtime_invD(4) [OF inv] by (cases "cr_phase s") (simp_all add: begin_close_def phase_ok_def)
qed (simp_all add: begin_close_def)

lemma calls_ended_inv:
  assumes inv: "runtime_inv s" and "cr_phase s = Closing_calls"
  shows "runtime_inv (calls_ended s)"
proof (rule phase_change_inv [OF inv])
  have "t \<in> snd ` set (cr_pending s)" if "opening_at s t name" for t name
    using runtime_invD(5) [OF inv that] runtime_invD(2) [OF inv] by (force simp: dict_get_in)
  with assms(2) runtime_invD(4) [OF inv] show "phase_ok (calls_ended s)"
    by (simp add: calls_ended_def phase_ok_def opening_at_def)
qed (simp_all add: calls_ended_def)

lemma opens_ended_inv:
  assumes inv: "runtime_inv s" and "cr_phase s = Closing_opens ts" and over: "\<forall>t\<in>set ts. task_done t s"
  shows "runtime_inv (opens_ended s)"
proof -
  have listed: "t \<in> set ts" if "opening_at s t name" for t name
    using runtime_invD(4) [OF inv] assms(2) that by (simp add: phase_ok_def) blast
  have none: "\<not> opening_at s t name" for t name
  proof
    assume at: "opening_at s t name"
    with over listed have "task_done t s" by blast
    with at show False by (simp add: task_done_def opening_at_def)
  qed
  have still: "\<not> opening_at (opens_ended s) t name" for t name
    using none [of t name] by (simp add: opens_ended_def opening_at_def)
  show ?thesis
  proof (rule runtime_invI)
    show "phase_ok (opens_ended s)"
      using runtime_invD(4) [OF inv] assms(2) still
      by (simp add: phase_ok_def opens_ended_def List.map_filter_simps)
    show "\<exists>b. dict_get (cr_bindings (opens_ended s)) name = Some b \<and> cb_client b = Some c"
      if "(c, name) \<in> set (cr_made (opens_ended s))" for c name
      using that runtime_invD(7) [OF inv, of c name] by (simp add: opens_ended_def)
  qed (use still runtime_invD(1,3) [OF inv] in \<open>simp_all add: opens_ended_def\<close>)
qed

lemma close_next_inv:
  assumes inv: "runtime_inv s" and phase: "cr_phase s = Closing_clients (name # rest)"
  shows "runtime_inv (close_next name rest s)"
proof (rule phase_change_inv [OF inv])
  from runtime_invD(4) [OF inv] phase obtain before where
    before: "map fst (cr_bindings s) = before @ name # rest"
      "cr_closed_clients s = List.map_filter (owned_client (cr_bindings s)) before"
    and closed: "cr_closed s" and none: "\<And>t name. \<not> opening_at s t name" by (auto simp: phase_ok_def)
  have "cr_closed_clients (close_next name rest s) = List.map_filter (owned_client (cr_bindings s)) (before @ [name])"
    using before(2) by (simp add: close_next_def List.map_filter_def split: option.split)
  moreover have "\<not> opening_at (close_next name rest s) t n" for t n using none [of t n] by (simp add: close_next_def opening_at_def)
  moreover have "cr_bindings (close_next name rest s) = cr_bindings s" "cr_phase (close_next name rest s) = Closing_clients rest"
    "cr_closed (close_next name rest s) = cr_closed s" by (simp_all add: close_next_def)
  moreover have "map fst (cr_bindings s) = (before @ [name]) @ rest" using before(1) by simp
  ultimately show "phase_ok (close_next name rest s)" unfolding phase_ok_def using closed
    by (simp only: close_phase.case) blast
qed (simp_all add: close_next_def)

lemma finish_close_inv:
  assumes inv: "runtime_inv s" and phase: "cr_phase s = Closing_clients []"
  shows "runtime_inv (s\<lparr>cr_phase := Closed_runtime\<rparr>)"
proof (rule phase_change_inv [OF inv])
  show "phase_ok (s\<lparr>cr_phase := Closed_runtime\<rparr>)"
    using runtime_invD(4) [OF inv] phase by (auto simp: phase_ok_def opening_at_def)
qed simp_all

lemma runtime_step_inv: "runtime_step s s' \<Longrightarrow> runtime_inv s \<Longrightarrow> runtime_inv s'"
proof (induction rule: runtime_step.induct)
  case (asks name s r s')
  then show ?case by (blast intro: ask_binding_inv)
next
  case (resumes t s r s')
  then have "s' = s \<or> s' = pop_done t s" by (auto simp: resume_call_def split: open_state.splits)
  with resumes pop_done_inv show ?case by (auto simp: task_done_def)
qed (simp_all add: open_succeeds_inv end_open_inv pop_done_inv begin_close_inv calls_ended_inv opens_ended_inv
    close_next_inv finish_close_inv)

lemma runtime_reaches_inv: "runtime_reaches s \<Longrightarrow> runtime_inv s"
proof (induction rule: runtime_reaches.induct)
  case (start bindings n)
  then show ?case by (simp add: runtime_inv_def new_runtime_def phase_ok_def opening_at_def)
qed (blast intro: runtime_step_inv)

lemma map_filter_cong: "(\<And>x. x \<in> set xs \<Longrightarrow> f x = g x) \<Longrightarrow> List.map_filter f xs = List.map_filter g xs"
proof (induction xs)
  case (Cons a xs)
  then have "List.map_filter f xs = List.map_filter g xs" and "f a = g a" by simp_all
  then show ?case by (cases "g a") simp_all
qed (simp add: List.map_filter_simps)

lemma set_filtered_map: "set (List.map_filter f xs) = {y. \<exists>x\<in>set xs. f x = Some y}"
  by (induction xs) (auto split: option.splits)

lemma closed_runtime_stays:
  assumes "runtime_step s s'" and phase: "cr_phase s = Closed_runtime" and closed: "cr_closed s" and none: "\<And>t name. \<not> opening_at s t name"
  shows "cr_made s' = cr_made s \<and> cr_closed_clients s' = cr_closed_clients s"
  using assms(1)
proof cases
  case (asks name r)
  with closed show ?thesis by (simp add: ask_binding_def)
next
  case (succeeds t)
  with none show ?thesis by (simp add: opening_at_def)
next
  case (resumes t r)
  then have "s' = s \<or> s' = pop_done t s" by (auto simp: resume_call_def split: open_state.splits)
  then show ?thesis by (auto simp: pop_done_def Let_def)
next
  case (call_cancelled t)
  then show ?thesis by (simp add: pop_done_def Let_def)
next
  case closes
  with phase show ?thesis by (simp add: begin_close_def)
qed (use phase in simp_all)

lemma owned_clients_distinct:
  "wf_dict bs \<Longrightarrow> distinct (given_clients bs) \<Longrightarrow>
     distinct (List.map_filter (owned_client bs) (map fst bs)) \<and>
     set (List.map_filter (owned_client bs) (map fst bs)) \<subseteq> set (given_clients bs)"
proof (induction bs)
  case (Cons p bs)
  obtain n b where p: "p = (n, b)" by (cases p)
  have "owned_client (p # bs) m = owned_client bs m" if "m \<in> set (map fst bs)" for m
    using that Cons.prems(1) p by (auto simp: wf_dict_def owned_client_def)
  then have "List.map_filter (owned_client (p # bs)) (map fst bs) = List.map_filter (owned_client bs) (map fst bs)"
    by (rule map_filter_cong)
  moreover have "owned_client (p # bs) n = (if cb_owned b then cb_client b else None)" by (simp add: p owned_client_def)
  ultimately have "List.map_filter (owned_client (p # bs)) (map fst (p # bs)) =
      (case if cb_owned b then cb_client b else None of None \<Rightarrow> [] | Some c \<Rightarrow> [c]) @
      List.map_filter (owned_client bs) (map fst bs)"
    by (simp add: p List.map_filter_simps split: option.split)
  moreover have "wf_dict bs" using Cons.prems(1) p by (simp add: wf_dict_def)
  ultimately show ?case using Cons.IH Cons.prems(2) p by (cases "cb_client b") auto
qed (simp add: List.map_filter_simps)

text \<open>
  Claim C5. Concurrent first uses open a protocol client once: at most one opening runs for a
  binding, and at most one client is ever made for it and kept. When closing has finished, nothing
  is opening, exactly the owned clients were closed, each once, and no later step makes or closes
  another.
\<close>

theorem clients_opened_and_closed_once:
  assumes "runtime_reaches s"
  shows "(\<forall>t t' name. opening_at s t name \<and> opening_at s t' name \<longrightarrow> t = t') \<and>
    distinct (map snd (cr_made s)) \<and>
    (\<forall>c name. (c, name) \<in> set (cr_made s) \<longrightarrow> (\<exists>b. dict_get (cr_bindings s) name = Some b \<and> cb_client b = Some c)) \<and>
    (cr_phase s = Closed_runtime \<longrightarrow> (\<forall>t name. \<not> opening_at s t name) \<and> distinct (cr_closed_clients s) \<and>
       (\<forall>c. c \<in> set (cr_closed_clients s) \<longleftrightarrow> (\<exists>name. owned_client (cr_bindings s) name = Some c)) \<and>
       (\<forall>s'. runtime_step s s' \<longrightarrow> cr_made s' = cr_made s \<and> cr_closed_clients s' = cr_closed_clients s))"
proof -
  have inv: "runtime_inv s" using assms by (rule runtime_reaches_inv)
  have one: "t = t'" if "opening_at s t name" "opening_at s t' name" for t t' name
    using runtime_invD(5) [OF inv that(1)] runtime_invD(5) [OF inv that(2)] by simp
  have closed: "(\<forall>t name. \<not> opening_at s t name) \<and> cr_closed s \<and>
      cr_closed_clients s = List.map_filter (owned_client (cr_bindings s)) (map fst (cr_bindings s))"
    if "cr_phase s = Closed_runtime" using runtime_invD(4) [OF inv] that by (simp add: phase_ok_def)
  have owned: "(\<exists>name. owned_client (cr_bindings s) name = Some c) \<longleftrightarrow>
      c \<in> set (List.map_filter (owned_client (cr_bindings s)) (map fst (cr_bindings s)))" for c
  proof
    assume "\<exists>name. owned_client (cr_bindings s) name = Some c"
    then obtain name where name: "owned_client (cr_bindings s) name = Some c" ..
    then have "name \<in> set (map fst (cr_bindings s))"
      by (auto simp: owned_client_def split: option.splits dest: map_of_SomeD intro: rev_image_eqI)
    with name show "c \<in> set (List.map_filter (owned_client (cr_bindings s)) (map fst (cr_bindings s)))"
      by (simp only: set_filtered_map) blast
  qed (simp only: set_filtered_map, blast)
  have last: "cr_made s' = cr_made s \<and> cr_closed_clients s' = cr_closed_clients s"
    if "cr_phase s = Closed_runtime" "runtime_step s s'" for s'
    using closed_runtime_stays [OF that(2,1)] closed [OF that(1)] by blast
  have "distinct (List.map_filter (owned_client (cr_bindings s)) (map fst (cr_bindings s)))"
    using owned_clients_distinct runtime_invD(1) [OF inv] by (simp add: registered_def)
  with closed have "cr_phase s = Closed_runtime \<longrightarrow> distinct (cr_closed_clients s) \<and>
      (\<forall>c. c \<in> set (cr_closed_clients s) \<longleftrightarrow> (\<exists>name. owned_client (cr_bindings s) name = Some c))"
    unfolding owned by simp
  with one closed last runtime_invD(3,7) [OF inv] show ?thesis by blast
qed

definition one_binding :: client_runtime where
  "one_binding = new_runtime [(''rpc'', \<lparr>cb_client = None, cb_owned = True\<rparr>)] 0"

definition one_closed :: client_runtime where
  "one_closed = (close_next ''rpc'' [] (opens_ended (calls_ended (begin_close (open_succeeds 0
     (snd (ask_binding ''rpc'' one_binding)))))))\<lparr>cr_phase := Closed_runtime\<rparr>"

theorem clients_opened_and_closed_once_witness:
  "cr_closed_clients one_closed = [0] \<and> distinct (map snd (cr_made one_closed)) \<and>
     (\<exists>name. owned_client (cr_bindings one_closed) name = Some 0)"
proof -
  have r0: "runtime_reaches one_binding"
    unfolding one_binding_def by (rule runtime_reaches.start) (simp add: registered_def wf_dict_def)
  have r1: "runtime_reaches (snd (ask_binding ''rpc'' one_binding))"
    by (rule runtime_reaches.step [OF r0 runtime_step.asks [OF prod.collapse [symmetric]]])
  have r2: "runtime_reaches (open_succeeds 0 (snd (ask_binding ''rpc'' one_binding)))"
    by (rule runtime_reaches.step [OF r1 runtime_step.succeeds]) code_simp+
  have r3: "runtime_reaches (begin_close (open_succeeds 0 (snd (ask_binding ''rpc'' one_binding))))"
    by (rule runtime_reaches.step [OF r2 runtime_step.closes])
  have r4: "runtime_reaches (calls_ended (begin_close (open_succeeds 0 (snd (ask_binding ''rpc'' one_binding)))))"
    by (rule runtime_reaches.step [OF r3 runtime_step.calls]) code_simp
  have r5: "runtime_reaches (opens_ended (calls_ended (begin_close (open_succeeds 0 (snd (ask_binding ''rpc'' one_binding))))))"
    by (rule runtime_reaches.step [OF r4 runtime_step.opens [where ts = "[0]"]]) code_simp+
  have r6: "runtime_reaches (close_next ''rpc'' [] (opens_ended (calls_ended (begin_close (open_succeeds 0
      (snd (ask_binding ''rpc'' one_binding)))))))"
    by (rule runtime_reaches.step [OF r5 runtime_step.closes_next]) code_simp
  have "runtime_reaches one_closed"
    unfolding one_closed_def by (rule runtime_reaches.step [OF r6 runtime_step.finishes]) code_simp
  moreover have "cr_closed_clients one_closed = [0]" and "cr_phase one_closed = Closed_runtime" by code_simp+
  ultimately show ?thesis using clients_opened_and_closed_once [of one_closed] by (metis list.set_intros(1))
qed

end
