(* ===== verification/Spec2Isabelle.thy ===== *)
theory Spec2Isabelle
  imports Ws_Admission Ws_Ports Ws_Drain Ws_Subscriptions Composition_Build Rtc_Router
    Codegen_Config Codegen_Exact Client_Runtime
begin

text \<open>
  FastAPI Canon adds contracts to FastAPI applications: declared errors that become Problem
  Details and OpenAPI responses, features composed into an application, JSON-RPC over
  WebSocket, and WebRTC sessions negotiated over one. This library is a model of that
  program in executable HOL definitions, with the theorems that make its parts correct.
  Paths below are relative to \<open>src/fastapi_canon\<close>.

  \<^bold>\<open>Foundations.\<close> \<open>Canon_Prelude\<close>: Python values, exceptions, ordered dicts, results of code that
  may raise (\<open>Inl\<close> the error, \<open>Inr\<close> the value), strings. \<open>Interfaces\<close>: the contracts several
  components share, as locales: \<open>latch\<close> with \<open>first_wins\<close> and \<open>upgrading\<close> (who decides a close),
  \<open>slot_pool\<close> (bounded reservations), \<open>resolver\<close> (the most specific class of an exception
  decides). Each is interpreted on the model in the theory of its provider:
  the latches in \<open>Ws_Connection\<close> and \<open>Rtc_State\<close>, the pools in \<open>Ws_Admission\<close> and
  \<open>Rtc_Router\<close>, the resolvers in \<open>Ws_Errors\<close>.

  \<^bold>\<open>Errors over HTTP.\<close>
  \<open>Error_Model\<close> (\<open>error/types.py\<close>, \<open>validation.py\<close>, \<open>error.py\<close>): the checks of an \<open>Error\<close>.
  \<open>Error_Registry\<close> (\<open>error/registry.py\<close>): construction, collisions, composition, resolution.
  \<open>Error_Rendering\<close> (\<open>error/problem.py\<close>, \<open>rendering.py\<close>, \<open>catalog.py\<close>): payloads.
  \<open>Error_Responses\<close> (\<open>response.py\<close>, \<open>error/contracts.py\<close>, \<open>policy.py\<close>, \<open>router.py\<close>): the
  responses of a route and their metadata. \<open>Error_OpenAPI\<close> (\<open>error/openapi.py\<close>): compiling a
  document. \<open>Error_Handlers\<close> (\<open>error/handlers.py\<close>): installation and answers. A definition is
  declared once, registries are merged, a router inherits the errors of the routers that
  include it, the compiler reads the metadata back, and the handlers resolve exceptions in
  the same registry. Lemmas: a registry stays well-formed and keeps every definition; metadata
  and pointers are read back exactly; a compiled document has no private metadata left.

  \<^bold>\<open>Composition.\<close> \<open>Composition_Model\<close>, \<open>Composition_Checks\<close>, \<open>Composition_Build\<close> (\<open>feature.py\<close>,
  \<open>diagnostics.py\<close>, \<open>contract_routes.py\<close>, parts of \<open>introspection.py\<close>, \<open>scopes.py\<close>,
  \<open>openapi.py\<close>): features, the merged catalog and container, the system checks, and
  \<open>apply_composition\<close>, which first tries the installation on a copy and then commits it. Lemmas:
  the checks are exact; a failed application changes nothing; an applied one is complete; the
  lifespan leaves what it entered in reverse order.

  \<^bold>\<open>RPC over WebSocket\<close> (\<open>integrations/websockets\<close>). \<open>Ws_Errors\<close> (\<open>errors.py\<close>, the failure mapping
  of \<open>server.py\<close>), \<open>Ws_Connection\<close> (\<open>connection.py\<close> and the connection lifecycle of
  \<open>runtime.py\<close>): a record \<open>connection\<close> and one function per handler, interleaved freely by
  \<open>run\<close>. \<open>Ws_Server\<close> (\<open>envelopes.py\<close>, \<open>request_metadata.py\<close>, \<open>dispatch.py\<close>, \<open>server.py\<close>):
  one message answered. \<open>Ws_Admission\<close> (the reader in \<open>runtime.py\<close>): frames, pending requests,
  cancellations, in-flight ids. \<open>Ws_Ports\<close> (\<open>streams.py\<close>, \<open>sockets.py\<close> and their readers and
  writers): the queues between a socket and its handler. \<open>Ws_Subscriptions\<close>
  (\<open>subscriptions.py\<close>): the streams of one connection. \<open>Ws_Drain\<close> (\<open>drain.py\<close>): the shutdown of
  all connections; its sessions and the ports carry a \<open>connection\<close> of \<open>Ws_Connection\<close>.
  Lemmas: invariants over every interleaving, bounds, error paths.

  \<^bold>\<open>WebRTC\<close> (\<open>integrations/webrtc\<close>). \<open>Rtc_Declarations\<close> (\<open>errors.py\<close>, \<open>declarations.py\<close>,
  \<open>sdp.py\<close>), \<open>Rtc_State\<close>, \<open>Rtc_Channels\<close>, \<open>Rtc_Negotiation\<close>, \<open>Rtc_Session\<close> (\<open>runtime.py\<close>,
  \<open>protocol.py\<close>, \<open>events.py\<close>): the record \<open>runtime\<close>, one function for the code between two
  awaits, and the inductive relation \<open>session_step\<close> of what may happen next. \<open>Rtc_Safety\<close>: the
  invariant \<open>session_ok\<close> and its preservation by each step. \<open>Rtc_Lifecycle\<close>: the properties of
  every reachable session. \<open>Rtc_Router\<close> (\<open>capacity.py\<close>, \<open>router.py\<close>): the sessions of a router
  together, \<open>router_step\<close>.

  \<^bold>\<open>Client generation\<close> (\<open>codegen\<close>). \<open>Codegen_Config\<close> (\<open>config.py\<close>): reading a configuration.
  \<open>Codegen_Selection\<close> (\<open>selection.py\<close>, \<open>integrations/sse/codegen/openapi.py\<close>): the operations
  kept of a contract and the models they need; \<open>Codegen_Exact\<close> proves the worklist equal to
  reachability. \<open>Codegen_Names\<close> (\<open>names.py\<close>, \<open>ir.py\<close>, \<open>planner.py\<close>): spellings and the plan.

  \<^bold>\<open>Generated Python clients\<close> (\<open>codegen/templates\<close>,
  \<open>integrations/sse/codegen/templates/python/runtime.py\<close>). \<open>Sse_Frames\<close>: the incremental reader of
  event streams. \<open>Sse_Client\<close>: the transport of streams and the problems it raises.
  \<open>Http_Client\<close>: requests prepared and responses read. \<open>Client_Runtime\<close>: protocol clients opened
  on demand and closed. They read what the errors and contracts above describe. Lemmas: chunks do
  not matter, a Canon stream never ends early unnoticed, requests keep the shape of their route,
  clients are opened and closed once.

  \<^bold>\<open>Parameters.\<close> Pydantic, FastAPI, Starlette, Dishka, the WebRTC engine and the application's
  own functions are arguments of the definitions that use them (records such as \<open>model_api\<close>,
  \<open>externals\<close>, or the value a call returned or raised).

  \<^bold>\<open>Bounds and fuel.\<close> \<open>replace_str\<close> takes fuel: each step consumes a character, so the length of the
  string, which every caller passes, is enough. \<open>mark\<close>, the worklist over models that may refer to each other, is a partial
  function, and \<open>Codegen_Exact\<close> proves that it always returns. Every other recursion terminates
  structurally or by a measure. Deadlines are numbers that a step compares; time is whatever order of timer
  steps the relations allow.

  \<^bold>\<open>Not modelled.\<close> Logging and telemetry; reflection over annotations and signatures (channel,
  method and message definitions, dependency injection); the contract readers and the
  emitters that write client code; static checks of Python sources;
  FastAPI route registration; the aiortc engine, database, MCP and server-sent-event adapters;
  testing helpers. They are glue over libraries or produce text whose meaning lies outside the
  repository.
\<close>

end
